(* ===== verification/Rust_Prelude.thy ===== *)
theory Rust_Prelude
  imports Main "HOL-Library.Word" "HOL-Library.AList" "HOL-Library.Char_ord"
    "HOL-Library.List_Lexorder"
begin

text \<open>
  Shared vocabulary of the development: the Rust types and the parts of the Rust standard
  library that the modelled crates use.

  \<^item> Machine integers are words of their width (\<open>u8\<close>, \<open>u16\<close>, \<open>u32\<close>, \<open>u64\<close>).
  \<^item> A \<open>Result<T, E>\<close> is a sum: \<open>Inl\<close> the error, \<open>Inr\<close> the value; the \<open>?\<close> operator is
    \<open>result_bind\<close>, \<open>map_err\<close> is itself, \<open>collect::<Result<_, _>>\<close> and a loop whose body
    ends in \<open>?\<close> are \<open>try_map\<close> and \<open>try_each\<close>.
  \<^item> A \<open>str\<close> is its UTF-8 byte sequence, a list of \<open>char\<close> (8-bit characters), so that
    \<open>len\<close>, slicing, and searching for ASCII characters are the list operations. The
    operations that look at Unicode scalar values (\<open>trim\<close>, \<open>is_whitespace\<close>, \<open>is_control\<close>,
    the first \<open>char\<close> of a string) decode the bytes they need.
  \<^item> A \<open>HashMap\<close> is an association list with distinct keys; the order of the list is the
    (unspecified) iteration order, so a statement about all such lists is a statement
    about every iteration order. A \<open>HashSet\<close> is a set.
\<close>

unbundle bit_operations_syntax

type_synonym u8 = "8 word"
type_synonym u16 = "16 word"
type_synonym u32 = "32 word"
type_synonym u64 = "64 word"

named_theorems result_simps \<open>when a chain of fallible steps succeeds\<close>
named_theorems str_simps \<open>facts on the string operations\<close>

section \<open>Results\<close>

definition result_bind :: "'e + 'a \<Rightarrow> ('a \<Rightarrow> 'e + 'b) \<Rightarrow> 'e + 'b" where
  "result_bind m f = (case m of Inl e \<Rightarrow> Inl e | Inr x \<Rightarrow> f x)"

definition map_err :: "('e \<Rightarrow> 'd) \<Rightarrow> 'e + 'a \<Rightarrow> 'd + 'a" where
  "map_err f m = (case m of Inl e \<Rightarrow> Inl (f e) | Inr x \<Rightarrow> Inr x)"

definition map_ok :: "('a \<Rightarrow> 'b) \<Rightarrow> 'e + 'a \<Rightarrow> 'e + 'b" where
  "map_ok f m = (case m of Inl e \<Rightarrow> Inl e | Inr x \<Rightarrow> Inr (f x))"

definition result_ok :: "'e + 'a \<Rightarrow> 'a option" where
  "result_ok m = (case m of Inl _ \<Rightarrow> None | Inr x \<Rightarrow> Some x)"

definition ok_or :: "'e \<Rightarrow> 'a option \<Rightarrow> 'e + 'a" where
  "ok_or e m = (case m of None \<Rightarrow> Inl e | Some x \<Rightarrow> Inr x)"

definition is_ok :: "'e + 'a \<Rightarrow> bool" where
  "is_ok m = (case m of Inl _ \<Rightarrow> False | Inr _ \<Rightarrow> True)"

lemma result_bind_simps [simp]:
  "result_bind (Inl e) f = Inl e"
  "result_bind (Inr x) f = f x"
  by (simp_all add: result_bind_def)

lemma map_err_simps [simp]:
  "map_err f (Inl e) = Inl (f e)"
  "map_err f (Inr x) = Inr x"
  by (simp_all add: map_err_def)

lemma map_ok_simps [simp]:
  "map_ok f (Inl e) = Inl e"
  "map_ok f (Inr x) = Inr (f x)"
  by (simp_all add: map_ok_def)

lemma result_ok_simps [simp]:
  "result_ok (Inl e) = None"
  "result_ok (Inr x) = Some x"
  by (simp_all add: result_ok_def)

lemma ok_or_simps [simp]:
  "ok_or e None = Inl e"
  "ok_or e (Some x) = Inr x"
  by (simp_all add: ok_or_def)

lemma is_ok_simps [simp]:
  "is_ok (Inl e) = False"
  "is_ok (Inr x) = True"
  by (simp_all add: is_ok_def)

lemma result_bind_eq_Inr [result_simps]:
  "result_bind m f = Inr y \<longleftrightarrow> (\<exists>x. m = Inr x \<and> f x = Inr y)"
  by (cases m) auto

lemma result_bind_eq_Inl:
  "result_bind m f = Inl e \<longleftrightarrow> m = Inl e \<or> (\<exists>x. m = Inr x \<and> f x = Inl e)"
  by (cases m) auto

lemma map_err_eq_Inr [result_simps]: "map_err f m = Inr x \<longleftrightarrow> m = Inr x"
  by (cases m) auto

lemma map_ok_eq_Inr [result_simps]: "map_ok f m = Inr y \<longleftrightarrow> (\<exists>x. m = Inr x \<and> y = f x)"
  by (cases m) auto

lemma result_ok_eq_Some [result_simps]: "result_ok m = Some x \<longleftrightarrow> m = Inr x"
  by (cases m) auto

lemma result_ok_eq_None: "result_ok m = None \<longleftrightarrow> (\<exists>e. m = Inl e)"
  by (cases m) auto

lemma ok_or_eq_Inr [result_simps]: "ok_or e m = Inr x \<longleftrightarrow> m = Some x"
  by (cases m) auto

lemma is_ok_iff: "is_ok m \<longleftrightarrow> (\<exists>x. m = Inr x)"
  by (cases m) auto

lemma if_Inl_eq_Inr [result_simps]:
  "(if c then Inl e else m) = Inr x \<longleftrightarrow> \<not> c \<and> m = Inr x"
  by simp

text \<open>A loop whose body may return early with an error, and a collected iterator of results.\<close>

fun try_each :: "('a \<Rightarrow> 'e + unit) \<Rightarrow> 'a list \<Rightarrow> 'e + unit" where
  "try_each f [] = Inr ()"
| "try_each f (x # xs) = result_bind (f x) (\<lambda>_. try_each f xs)"

fun try_map :: "('a \<Rightarrow> 'e + 'b) \<Rightarrow> 'a list \<Rightarrow> 'e + 'b list" where
  "try_map f [] = Inr []"
| "try_map f (x # xs) =
     result_bind (f x) (\<lambda>y. result_bind (try_map f xs) (\<lambda>ys. Inr (y # ys)))"

fun try_fold :: "('s \<Rightarrow> 'a \<Rightarrow> 'e + 's) \<Rightarrow> 's \<Rightarrow> 'a list \<Rightarrow> 'e + 's" where
  "try_fold f s [] = Inr s"
| "try_fold f s (x # xs) = result_bind (f s x) (\<lambda>t. try_fold f t xs)"

lemma try_each_Inr [result_simps]: "try_each f xs = Inr u \<longleftrightarrow> (\<forall>x\<in>set xs. f x = Inr ())"
  by (induction xs) (auto simp: result_bind_eq_Inr)

lemma try_map_Inr: "try_map f xs = Inr ys \<longleftrightarrow> list_all2 (\<lambda>x y. f x = Inr y) xs ys"
  by (induction xs arbitrary: ys) (auto simp: result_bind_eq_Inr list_all2_Cons1)

lemma try_map_length: "try_map f xs = Inr ys \<Longrightarrow> length ys = length xs"
  by (auto simp: try_map_Inr dest: list_all2_lengthD)

lemma try_map_set: "try_map f xs = Inr ys \<Longrightarrow> set ys = {y. \<exists>x\<in>set xs. f x = Inr y}"
  by (induction xs arbitrary: ys) (auto simp: result_bind_eq_Inr)

lemma try_map_Inl: "try_map f xs = Inl e \<Longrightarrow> \<exists>x\<in>set xs. f x = Inl e"
  by (induction xs) (auto simp: result_bind_eq_Inl)

lemma try_map_ok: "(\<forall>x\<in>set xs. \<exists>y. f x = Inr y) \<Longrightarrow> \<exists>ys. try_map f xs = Inr ys"
  by (induction xs) auto

lemma try_map_total: "(\<And>x. x \<in> set xs \<Longrightarrow> f x = Inr (g x)) \<Longrightarrow> try_map f xs = Inr (map g xs)"
  by (induction xs) auto

lemma try_fold_append:
  "try_fold f s (xs @ ys) = result_bind (try_fold f s xs) (\<lambda>t. try_fold f t ys)"
  by (induction xs arbitrary: s) (auto simp: result_bind_def split: sum.split)

section \<open>Options and lists\<close>

definition is_some_and :: "('a \<Rightarrow> bool) \<Rightarrow> 'a option \<Rightarrow> bool" where
  "is_some_and p m = (case m of None \<Rightarrow> False | Some x \<Rightarrow> p x)"

definition is_none_or :: "('a \<Rightarrow> bool) \<Rightarrow> 'a option \<Rightarrow> bool" where
  "is_none_or p m = (case m of None \<Rightarrow> True | Some x \<Rightarrow> p x)"

lemma is_some_and_simps [simp]: "is_some_and p None = False" "is_some_and p (Some x) = p x"
  by (simp_all add: is_some_and_def)

lemma is_none_or_simps [simp]: "is_none_or p None = True" "is_none_or p (Some x) = p x"
  by (simp_all add: is_none_or_def)

text \<open>\<open>slice::get\<close>: an index out of range is \<open>None\<close>.\<close>

definition get :: "'a list \<Rightarrow> nat \<Rightarrow> 'a option" where
  "get xs i = (if i < length xs then Some (xs ! i) else None)"

lemma get_eq_Some [simp]: "get xs i = Some x \<longleftrightarrow> i < length xs \<and> xs ! i = x"
  by (auto simp: get_def)

text \<open>Position-tagged elements, as \<open>iter().enumerate()\<close> yields them.\<close>

definition enumerate0 :: "'a list \<Rightarrow> (nat \<times> 'a) list" where
  "enumerate0 xs = List.enumerate 0 xs"

lemma set_enumerate0: "(i, x) \<in> set (enumerate0 xs) \<longleftrightarrow> i < length xs \<and> xs ! i = x"
  by (auto simp: enumerate0_def in_set_enumerate_eq)

lemma ball_enumerate0: "(\<forall>p\<in>set (enumerate0 xs). P p) \<longleftrightarrow> (\<forall>i<length xs. P (i, xs ! i))"
  by (auto simp: set_enumerate0)

section \<open>Machine integers\<close>

definition checked_add64 :: "u64 \<Rightarrow> u64 \<Rightarrow> u64 option" where
  "checked_add64 a b = (if unat a + unat b < 2 ^ 64 then Some (a + b) else None)"

definition checked_sub64 :: "u64 \<Rightarrow> u64 \<Rightarrow> u64 option" where
  "checked_sub64 a b = (if b \<le> a then Some (a - b) else None)"

definition checked_mul64 :: "u64 \<Rightarrow> u64 \<Rightarrow> u64 option" where
  "checked_mul64 a b = (if unat a * unat b < 2 ^ 64 then Some (a * b) else None)"

lemma checked_add64_Some:
  "checked_add64 a b = Some c \<longleftrightarrow> unat a + unat b < 2 ^ 64 \<and> c = a + b"
  by (auto simp: checked_add64_def)

lemma checked_add64_unat: "checked_add64 a b = Some c \<Longrightarrow> unat c = unat a + unat b"
  by (auto simp: checked_add64_def unat_word_ariths split: if_splits)

lemma checked_mul64_unat: "checked_mul64 a b = Some c \<Longrightarrow> unat c = unat a * unat b"
  by (auto simp: checked_mul64_def unat_word_ariths split: if_splits)

lemma checked_sub64_unat: "checked_sub64 a b = Some c \<Longrightarrow> unat c = unat a - unat b"
  by (auto simp: checked_sub64_def unat_sub split: if_splits)

lemma unat_of_nat64: "n < 2 ^ 64 \<Longrightarrow> unat (of_nat n :: u64) = n"
  by (simp add: unat_of_nat take_bit_nat_eq_self)

lemma of_nat64_inj: "m < 2 ^ 64 \<Longrightarrow> n < 2 ^ 64 \<Longrightarrow> (of_nat m :: u64) = of_nat n \<longleftrightarrow> m = n"
  by (metis unat_of_nat64)

text \<open>Big-endian and little-endian byte representations.\<close>

definition be_bytes16 :: "u16 \<Rightarrow> u8 list" where
  "be_bytes16 w = [ucast (drop_bit 8 w), ucast w]"

definition be_bytes32 :: "u32 \<Rightarrow> u8 list" where
  "be_bytes32 w = map (\<lambda>i. ucast (drop_bit (8 * i) w)) [3, 2, 1, 0]"

definition le_bytes64 :: "u64 \<Rightarrow> u8 list" where
  "le_bytes64 w = map (\<lambda>i. ucast (drop_bit (8 * i) w)) [0, 1, 2, 3, 4, 5, 6, 7]"

definition be_bytes64 :: "u64 \<Rightarrow> u8 list" where
  "be_bytes64 w = map (\<lambda>i. ucast (drop_bit (8 * i) w)) [7, 6, 5, 4, 3, 2, 1, 0]"

fun from_le_bytes64 :: "u8 list \<Rightarrow> u64" where
  "from_le_bytes64 [] = 0"
| "from_le_bytes64 (b # bs) = ucast b OR push_bit 8 (from_le_bytes64 bs)"

lemma length_be_bytes [simp]:
  "length (be_bytes16 w) = 2" "length (be_bytes32 w') = 4" "length (be_bytes64 v) = 8"
  by (simp_all add: be_bytes16_def be_bytes32_def be_bytes64_def)

lemma length_le_bytes64 [simp]: "length (le_bytes64 w) = 8"
  by (simp add: le_bytes64_def)

lemma be_bytes64_rev: "be_bytes64 w = rev (le_bytes64 w)"
  by (simp add: be_bytes64_def le_bytes64_def)

lemma from_le_bytes64_bit:
  "n < 64 \<Longrightarrow>
   bit (from_le_bytes64 bs) n \<longleftrightarrow> n div 8 < length bs \<and> bit (bs ! (n div 8)) (n mod 8)"
proof (induction bs arbitrary: n)
  case Nil
  then show ?case by simp
next
  case (Cons b bs)
  show ?case
  proof (cases "n < 8")
    case True
    with Cons.prems show ?thesis
      by (simp add: bit_or_iff bit_push_bit_iff bit_ucast_iff)
  next
    case False
    then obtain m where m: "n = m + 8" by (metis add.commute le_Suc_ex not_less)
    have "\<not> bit b n"
      using False bit_imp_le_length [of b n] by auto
    moreover have "(m + 8) div 8 = Suc (m div 8)" by simp
    ultimately show ?thesis
      using Cons.prems Cons.IH [of m] m False
      by (simp add: bit_or_iff bit_push_bit_iff bit_ucast_iff)
  qed
qed

text \<open>The eight little-endian bytes of a word determine it, and the other way round.\<close>

lemma bit_nth_le_bytes64:
  "i < 8 \<Longrightarrow> k < 8 \<Longrightarrow> bit (le_bytes64 w ! i) k \<longleftrightarrow> bit w (8 * i + k)"
  by (auto simp: le_bytes64_def nth_Cons' bit_ucast_iff bit_drop_bit_eq add.commute
      numeral_eq_Suc less_Suc_eq)

lemma from_le_bytes64_le_bytes64 [simp]: "from_le_bytes64 (le_bytes64 w) = w"
proof (rule bit_word_eqI)
  fix n :: nat assume "n < LENGTH(64)"
  then have n: "n < 64" by simp
  then have "n div 8 < 8" by auto
  then show "bit (from_le_bytes64 (le_bytes64 w)) n \<longleftrightarrow> bit w n"
    using n by (simp add: from_le_bytes64_bit bit_nth_le_bytes64)
qed

lemma le_bytes64_from_le_bytes64:
  assumes "length bs = 8"
  shows "le_bytes64 (from_le_bytes64 bs) = bs"
proof (rule nth_equalityI)
  show "length (le_bytes64 (from_le_bytes64 bs)) = length bs" using assms by simp
next
  fix i assume "i < length (le_bytes64 (from_le_bytes64 bs))"
  then have i: "i < 8" by simp
  show "le_bytes64 (from_le_bytes64 bs) ! i = bs ! i"
  proof (rule bit_word_eqI)
    fix k :: nat assume "k < LENGTH(8)"
    then show "bit (le_bytes64 (from_le_bytes64 bs) ! i) k \<longleftrightarrow> bit (bs ! i) k"
      using i assms by (simp add: bit_nth_le_bytes64 from_le_bytes64_bit)
  qed
qed

lemma le_bytes64_inj: "le_bytes64 v = le_bytes64 w \<longleftrightarrow> v = w"
  by (metis from_le_bytes64_le_bytes64)

lemma be_bytes64_inj: "be_bytes64 v = be_bytes64 w \<longleftrightarrow> v = w"
  by (simp add: be_bytes64_rev le_bytes64_inj)

lemma be_bytes16_inj: "be_bytes16 v = be_bytes16 w \<longleftrightarrow> v = w"
proof
  assume eq: "be_bytes16 v = be_bytes16 w"
  show "v = w"
  proof (rule bit_word_eqI)
    fix n :: nat assume n: "n < LENGTH(16)"
    have lo: "bit (ucast v :: u8) n = bit (ucast w :: u8) n"
      and hi: "bit (ucast (drop_bit 8 v) :: u8) (n - 8) = bit (ucast (drop_bit 8 w) :: u8) (n - 8)"
      using eq by (simp_all add: be_bytes16_def)
    show "bit v n \<longleftrightarrow> bit w n"
      using lo hi n by (cases "n < 8") (auto simp: bit_ucast_iff bit_drop_bit_eq)
  qed
qed simp

text \<open>Putting a number into the low bits that a shift has cleared.\<close>

lemma push_bit_or_of_nat:
  assumes "y < 2 ^ k"
  shows "push_bit k (of_nat x) OR of_nat y = (of_nat (2 ^ k * x + y) :: 'a::len word)"
proof -
  have "\<not> bit y n" if "k \<le> n" for n
    using take_bit_nat_eq_self [OF assms] that bit_take_bit_iff [of k y n] by simp
  then have "push_bit k (of_nat x :: 'a word) AND of_nat y = 0"
    by (intro bit_word_eqI) (auto simp: bit_and_iff bit_push_bit_iff bit_of_nat_iff)
  then have "push_bit k (of_nat x :: 'a word) OR of_nat y = push_bit k (of_nat x) + of_nat y"
    by (simp add: disjunctive_add_eq_or)
  then show ?thesis by (simp add: push_bit_eq_mult mult.commute)
qed

end
