(* ===== verification/Rust_Str.thy ===== *)
theory Rust_Str
  imports Rust_Prelude
begin

text \<open>
  The operations of \<open>str\<close> that the modelled crates use, on UTF-8 byte sequences.
  For a valid UTF-8 sequence the byte patterns below match exactly at character
  boundaries, so searching bytes is searching characters.
\<close>

section \<open>Characters\<close>

abbreviation code :: "char \<Rightarrow> nat" where
  "code c \<equiv> of_char c"

definition as_bytes :: "string \<Rightarrow> u8 list" where
  "as_bytes s = map of_char s"

text \<open>A conversion that is a homomorphism is injective on lists because it is on bytes.\<close>

lemma length_as_bytes [simp]: "length (as_bytes s) = length s"
  by (simp add: as_bytes_def)

lemma code_less_256: "code c < 256"
  by (metis mod_less_divisor of_char_mod_256 zero_less_numeral)

lemma unat_of_char_u8: "unat (of_char c :: u8) = code c"
proof -
  have "unat (of_nat (code c) :: u8) = code c mod 2 ^ 8"
    by (simp only: unat_of_nat take_bit_eq_mod) simp
  then show ?thesis by (simp add: of_nat_of_char)
qed

lemma of_char_u8_inj: "(of_char c :: u8) = of_char d \<longleftrightarrow> c = d"
  by (metis of_char_eq_iff unat_of_char_u8)

lemma as_bytes_inj: "as_bytes s = as_bytes t \<longleftrightarrow> s = t"
  by (auto simp: as_bytes_def inj_def of_char_u8_inj dest: map_injective)

definition between :: "nat \<Rightarrow> nat \<Rightarrow> char \<Rightarrow> bool" where
  "between lo hi c \<longleftrightarrow> lo \<le> code c \<and> code c \<le> hi"

definition is_ascii_digit :: "char \<Rightarrow> bool" where
  "is_ascii_digit c = between 48 57 c"

definition is_ascii_lower_hex :: "char \<Rightarrow> bool" where
  "is_ascii_lower_hex c = between 97 102 c"

definition is_ascii_hexdigit :: "char \<Rightarrow> bool" where
  "is_ascii_hexdigit c \<longleftrightarrow> between 48 57 c \<or> between 97 102 c \<or> between 65 70 c"

definition is_ascii_uppercase :: "char \<Rightarrow> bool" where
  "is_ascii_uppercase c = between 65 90 c"

definition is_ascii_alphanumeric :: "char \<Rightarrow> bool" where
  "is_ascii_alphanumeric c \<longleftrightarrow> between 48 57 c \<or> between 97 122 c \<or> between 65 90 c"

definition char_to_ascii_lowercase :: "char \<Rightarrow> char" where
  "char_to_ascii_lowercase c = (if between 65 90 c then char_of (code c + 32) else c)"

definition to_ascii_lowercase :: "string \<Rightarrow> string" where
  "to_ascii_lowercase s = map char_to_ascii_lowercase s"

text \<open>The scalar value of the first character of a UTF-8 sequence.\<close>

definition first_char :: "string \<Rightarrow> nat" where
  "first_char s =
     (case map code (take 4 s) of
        [] \<Rightarrow> 0
      | a # r \<Rightarrow>
          if a < 128 then a
          else if a < 224 then (a mod 32) * 64 + (r @ [0]) ! 0 mod 64
          else if a < 240 then (a mod 16) * 4096 + (r @ [0, 0]) ! 0 mod 64 * 64
            + (r @ [0, 0]) ! 1 mod 64
          else (a mod 8) * 262144 + (r @ [0, 0, 0]) ! 0 mod 64 * 4096
            + (r @ [0, 0, 0]) ! 1 mod 64 * 64 + (r @ [0, 0, 0]) ! 2 mod 64)"

section \<open>White space\<close>

text \<open>
  The length in bytes of the white-space character (Unicode property \<open>White_Space\<close>) that
  the sequence starts with, 0 if it starts with none; and of a control character
  (category \<open>Cc\<close>).
\<close>

definition ws_len :: "string \<Rightarrow> nat" where
  "ws_len s =
     (case map code (take 3 s) of
        [] \<Rightarrow> 0
      | a # r \<Rightarrow>
          if a \<in> {9, 10, 11, 12, 13, 32} then 1
          else (case r of
              [] \<Rightarrow> 0
            | b # r' \<Rightarrow>
                if a = 194 \<and> (b = 133 \<or> b = 160) then 2
                else (case r' of
                    [] \<Rightarrow> 0
                  | c # _ \<Rightarrow>
                      if a = 225 \<and> b = 154 \<and> c = 128
                        \<or> a = 226 \<and> b = 128 \<and> (128 \<le> c \<and> c \<le> 138 \<or> c \<in> {168, 169, 175})
                        \<or> a = 226 \<and> b = 129 \<and> c = 159
                        \<or> a = 227 \<and> b = 128 \<and> c = 128
                      then 3 else 0)))"

definition ctl_len :: "string \<Rightarrow> nat" where
  "ctl_len s =
     (case map code (take 2 s) of
        [] \<Rightarrow> 0
      | a # r \<Rightarrow>
          if a < 32 \<or> a = 127 then 1
          else (case r of
              [] \<Rightarrow> 0
            | b # _ \<Rightarrow> if a = 194 \<and> 128 \<le> b \<and> b \<le> 159 then 2 else 0))"

lemma ws_len_Nil [simp]: "ws_len [] = 0"
  by (simp add: ws_len_def)

lemma ws_len_le: "ws_len s \<le> length s"
  by (cases s; cases "tl s"; cases "tl (tl s)") (auto simp: ws_len_def)

lemma ws_len_pos_nonempty: "0 < ws_len s \<Longrightarrow> s \<noteq> []"
  by auto

definition ws_len_end :: "string \<Rightarrow> nat" where
  "ws_len_end s =
     (if ws_len (drop (length s - 1) s) = 1 then 1
      else if ws_len (drop (length s - 2) s) = 2 then 2
      else if ws_len (drop (length s - 3) s) = 3 then 3
      else 0)"

function trim_start :: "string \<Rightarrow> string" where
  "trim_start s = (if ws_len s = 0 then s else trim_start (drop (ws_len s) s))"
  by pat_completeness auto
termination
  by (relation "measure length") (use ws_len_pos_nonempty in auto)

function trim_end :: "string \<Rightarrow> string" where
  "trim_end s = (if ws_len_end s = 0 then s else trim_end (take (length s - ws_len_end s) s))"
  by pat_completeness auto
termination
proof (relation "measure length")
  fix s :: string assume "ws_len_end s \<noteq> 0"
  then have "s \<noteq> []" by (auto simp: ws_len_end_def)
  with \<open>ws_len_end s \<noteq> 0\<close> show "(take (length s - ws_len_end s) s, s) \<in> measure length"
    by (cases s) auto
qed simp

declare trim_start.simps [simp del] trim_end.simps [simp del]

definition trim :: "string \<Rightarrow> string" where
  "trim s = trim_end (trim_start s)"

fun any_ws :: "string \<Rightarrow> bool" where
  "any_ws [] = False"
| "any_ws (c # s) = (0 < ws_len (c # s) \<or> any_ws s)"

fun any_control_or_ws :: "string \<Rightarrow> bool" where
  "any_control_or_ws [] = False"
| "any_control_or_ws (c # s) =
     (0 < ctl_len (c # s) \<or> 0 < ws_len (c # s) \<or> any_control_or_ws s)"

lemma any_control_or_ws_any_ws: "\<not> any_control_or_ws s \<Longrightarrow> \<not> any_ws s"
  by (induction s) auto

lemma any_ws_drop: "\<not> any_ws s \<Longrightarrow> \<not> any_ws (drop n s)"
  by (induction s arbitrary: n) (auto simp: drop_Cons split: nat.split)

lemma ws_len_no_ws: "\<not> any_ws s \<Longrightarrow> ws_len s = 0"
  by (cases s) auto

lemma trim_start_no_ws: "ws_len s = 0 \<Longrightarrow> trim_start s = s"
  by (subst trim_start.simps) simp

lemma trim_end_no_ws: "\<not> any_ws s \<Longrightarrow> trim_end s = s"
  by (subst trim_end.simps) (simp add: ws_len_end_def ws_len_no_ws any_ws_drop)

lemma trim_no_ws [str_simps]: "\<not> any_ws s \<Longrightarrow> trim s = s"
  by (simp add: trim_def trim_start_no_ws ws_len_no_ws trim_end_no_ws)

lemma trim_start_fixed: "ws_len (trim_start s) = 0"
proof (induction s rule: trim_start.induct)
  case (1 s)
  then show ?case by (cases "ws_len s = 0") (simp_all add: trim_start.simps [of s])
qed

lemma trim_end_fixed: "ws_len_end (trim_end s) = 0"
proof (induction s rule: trim_end.induct)
  case (1 s)
  then show ?case by (cases "ws_len_end s = 0") (simp_all add: trim_end.simps [of s])
qed

lemma trim_end_prefix: "\<exists>n. trim_end s = take n s"
proof (induction s rule: trim_end.induct)
  case (1 s)
  show ?case
  proof (cases "ws_len_end s = 0")
    case True
    then show ?thesis by (auto simp: trim_end.simps [of s] intro: exI [of _ "length s"])
  next
    case False
    with "1" obtain n where "trim_end (take (length s - ws_len_end s) s)
        = take n (take (length s - ws_len_end s) s)" by blast
    with False show ?thesis by (auto simp: trim_end.simps [of s])
  qed
qed

lemma trim_length_le: "length (trim s) \<le> length s"
proof -
  have "length (trim_start t) \<le> length t" for t
  proof (induction t rule: trim_start.induct)
    case (1 t)
    then show ?case by (cases "ws_len t = 0") (auto simp: trim_start.simps [of t])
  qed
  moreover obtain n where "trim_end (trim_start s) = take n (trim_start s)"
    using trim_end_prefix by blast
  ultimately show ?thesis by (simp add: trim_def min.coboundedI1)
qed

section \<open>Searching and splitting\<close>

definition starts_with :: "string \<Rightarrow> string \<Rightarrow> bool" where
  "starts_with p s \<longleftrightarrow> take (length p) s = p"

definition ends_with :: "string \<Rightarrow> string \<Rightarrow> bool" where
  "ends_with q s \<longleftrightarrow> length q \<le> length s \<and> drop (length s - length q) s = q"

definition strip_prefix :: "string \<Rightarrow> string \<Rightarrow> string option" where
  "strip_prefix p s = (if starts_with p s then Some (drop (length p) s) else None)"

definition contains_char :: "char \<Rightarrow> string \<Rightarrow> bool" where
  "contains_char c s \<longleftrightarrow> c \<in> set s"

fun contains_str :: "string \<Rightarrow> string \<Rightarrow> bool" where
  "contains_str p [] = (p = [])"
| "contains_str p (c # s) = (starts_with p (c # s) \<or> contains_str p s)"

fun split_once :: "char \<Rightarrow> string \<Rightarrow> (string \<times> string) option" where
  "split_once c [] = None"
| "split_once c (x # xs) =
     (if x = c then Some ([], xs)
      else map_option (\<lambda>(a, b). (x # a, b)) (split_once c xs))"

text \<open>\<open>str::split\<close> on one character: never the empty list.\<close>

fun split_on :: "char \<Rightarrow> string \<Rightarrow> string list" where
  "split_on c [] = [[]]"
| "split_on c (x # xs) =
     (if x = c then [] # split_on c xs
      else (case split_on c xs of [] \<Rightarrow> [[x]] | y # ys \<Rightarrow> (x # y) # ys))"

text \<open>
  \<open>str::lines\<close>: a line ends at a line feed, a carriage return just before it is dropped
  too, and no empty line follows the last line feed.
\<close>

definition strip_cr :: "string \<Rightarrow> string" where
  "strip_cr s = (if s \<noteq> [] \<and> last s = char_of (13::nat) then butlast s else s)"

abbreviation newline :: char where
  "newline \<equiv> char_of (10::nat)"

lemma split_once_eq_Some [str_simps]:
  "split_once c s = Some (a, b) \<longleftrightarrow> s = a @ c # b \<and> c \<notin> set a"
proof (induction s arbitrary: a)
  case Nil
  then show ?case by simp
next
  case (Cons x xs)
  show ?case
    by (cases a) (auto simp: Cons.IH)
qed

lemma split_once_eq_None [str_simps]: "split_once c s = None \<longleftrightarrow> c \<notin> set s"
  by (induction s) auto

lemma split_once_append [simp]: "c \<notin> set a \<Longrightarrow> split_once c (a @ c # b) = Some (a, b)"
  by (simp add: split_once_eq_Some)

function str_lines :: "string \<Rightarrow> string list" where
  "str_lines s =
     (if s = [] then []
      else (case split_once newline s of
          None \<Rightarrow> [s]
        | Some (l, r) \<Rightarrow> strip_cr l # str_lines r))"
  by pat_completeness auto
termination
  by (relation "measure length") (auto simp: split_once_eq_Some)

declare str_lines.simps [simp del]

lemma starts_with_iff [str_simps]: "starts_with p s \<longleftrightarrow> (\<exists>t. s = p @ t)"
  by (auto simp: starts_with_def) (metis append_take_drop_id)

lemma ends_with_iff [str_simps]: "ends_with q s \<longleftrightarrow> (\<exists>t. s = t @ q)"
  by (auto simp: ends_with_def) (metis append_take_drop_id)

lemma starts_with_append [simp]: "starts_with p (p @ s)"
  by (simp add: starts_with_def)

lemma strip_prefix_eq_Some [str_simps]: "strip_prefix p s = Some t \<longleftrightarrow> s = p @ t"
  by (auto simp: strip_prefix_def starts_with_iff)

lemma contains_str_iff: "contains_str p s \<longleftrightarrow> (\<exists>a b. s = a @ p @ b)"
proof (induction s)
  case Nil
  then show ?case by auto
next
  case (Cons c s)
  note IH = Cons
  show ?case
  proof
    assume "contains_str p (c # s)"
    then consider t where "c # s = p @ t" | a b where "s = a @ p @ b"
      using IH by (auto simp: starts_with_iff)
    then show "\<exists>a b. c # s = a @ p @ b"
      by cases (metis append_Nil, metis append_Cons)
  next
    assume "\<exists>a b. c # s = a @ p @ b"
    then obtain a b where eq: "c # s = a @ p @ b" by blast
    show "contains_str p (c # s)"
    proof (cases a)
      case Nil
      with eq show ?thesis by (metis append_Nil contains_str.simps(2) starts_with_append)
    next
      case (Cons x a')
      with eq IH show ?thesis by auto
    qed
  qed
qed

lemma split_on_nonempty: "split_on c s \<noteq> []"
  by (induction s) (auto split: list.splits)

lemma split_on_no_sep: "c \<notin> set s \<Longrightarrow> split_on c s = [s]"
  by (induction s) auto

text \<open>\<open>str::split_whitespace\<close>; the accumulator is the current word, reversed.\<close>

function split_ws_aux :: "string \<Rightarrow> string \<Rightarrow> string list" where
  "split_ws_aux w s =
     (if s = [] then (if w = [] then [] else [rev w])
      else if 0 < ws_len s
      then (if w = [] then [] else [rev w]) @ split_ws_aux [] (drop (ws_len s) s)
      else split_ws_aux (hd s # w) (tl s))"
  by pat_completeness auto
termination
  by (relation "measure (\<lambda>(w, s). length s)") auto

declare split_ws_aux.simps [simp del]

definition split_whitespace :: "string \<Rightarrow> string list" where
  "split_whitespace s = split_ws_aux [] s"

text \<open>\<open>slice::join\<close>.\<close>

fun join :: "string \<Rightarrow> string list \<Rightarrow> string" where
  "join sep [] = []"
| "join sep [x] = x"
| "join sep (x # y # xs) = x @ sep @ join sep (y # xs)"

section \<open>Decimal numbers\<close>

text \<open>\<open>Display\<close> of an unsigned integer and \<open>str::parse::<u64>\<close>.\<close>

fun show_nat :: "nat \<Rightarrow> string" where
  "show_nat n =
     (if n < 10 then [char_of (48 + n)] else show_nat (n div 10) @ [char_of (48 + n mod 10)])"

declare show_nat.simps [simp del]

definition show_u64 :: "u64 \<Rightarrow> string" where
  "show_u64 w = show_nat (unat w)"

datatype parse_int_error = Empty | InvalidDigit | PosOverflow

definition to_digit :: "char \<Rightarrow> nat option" where
  "to_digit c = (if is_ascii_digit c then Some (code c - 48) else None)"

fun parse_digits :: "nat \<Rightarrow> string \<Rightarrow> parse_int_error + nat" where
  "parse_digits acc [] = Inr acc"
| "parse_digits acc (c # cs) =
     (case to_digit c of
        None \<Rightarrow> Inl InvalidDigit
      | Some d \<Rightarrow>
          if acc * 10 \<ge> 2 ^ 64 then Inl PosOverflow
          else if acc * 10 + d \<ge> 2 ^ 64 then Inl PosOverflow
          else parse_digits (acc * 10 + d) cs)"

definition parse_u64 :: "string \<Rightarrow> parse_int_error + u64" where
  "parse_u64 s =
     (if s = [] then Inl Empty
      else if s = ''+'' \<or> s = ''-'' then Inl InvalidDigit
      else map_ok of_nat (parse_digits 0 (if hd s = CHR ''+'' then tl s else s)))"

lemma to_digit_char_of [simp]: "d < 10 \<Longrightarrow> to_digit (char_of (48 + d)) = Some d"
  by (simp add: to_digit_def is_ascii_digit_def between_def)

lemma parse_digits_append:
  "parse_digits acc (s @ t) = result_bind (parse_digits acc s) (\<lambda>n. parse_digits n t)"
  by (induction s arbitrary: acc) (auto split: option.split)

lemma show_nat_digit: "c \<in> set (show_nat n) \<Longrightarrow> is_ascii_digit c"
proof (induction n rule: show_nat.induct)
  case (1 n)
  then show ?case
    by (cases "n < 10")
      (auto simp: show_nat.simps [of n] is_ascii_digit_def between_def)
qed

lemma show_nat_nonempty: "show_nat n \<noteq> []"
  by (subst show_nat.simps) simp

lemma parse_digits_show_nat: "n < 2 ^ 64 \<Longrightarrow> parse_digits 0 (show_nat n) = Inr n"
proof (induction n rule: show_nat.induct)
  case (1 n)
  show ?case
  proof (cases "n < 10")
    case True
    then show ?thesis by (simp add: show_nat.simps [of n])
  next
    case False
    have "parse_digits 0 (show_nat (n div 10)) = Inr (n div 10)"
      using "1" False by simp
    moreover have "n div 10 * 10 + n mod 10 < 2 ^ 64" "n div 10 * 10 < 2 ^ 64"
      using "1.prems" by simp_all
    ultimately show ?thesis
      using False by (simp add: show_nat.simps [of n] parse_digits_append)
  qed
qed

lemma hd_show_nat: "is_ascii_digit (hd (show_nat n))"
  using show_nat_digit show_nat_nonempty hd_in_set by blast

lemma parse_show_u64: "parse_u64 (show_u64 w) = Inr w"
proof -
  have digit: "is_ascii_digit (hd (show_nat (unat w)))" by (rule hd_show_nat)
  then have hd: "hd (show_nat (unat w)) \<noteq> CHR ''+''" "hd (show_nat (unat w)) \<noteq> CHR ''-''"
    by (auto simp: is_ascii_digit_def between_def)
  then have "show_nat (unat w) \<noteq> ''+''" "show_nat (unat w) \<noteq> ''-''"
    by (metis list.sel(1))+
  moreover have "parse_digits 0 (show_nat (unat w)) = Inr (unat w)"
    using unsigned_less [of w] by (intro parse_digits_show_nat) simp
  ultimately show ?thesis
    using hd by (simp add: parse_u64_def show_u64_def show_nat_nonempty)
qed

end
