(* ===== verification/Core_Error.thy ===== *)
theory Core_Error
  imports Rust_Str
begin

text \<open>
  The error types of \<^verbatim>\<open>crates/nixcache-core/src/error.rs\<close>. A \<open>char\<close> of the source is its
  scalar value, a natural number. A \<open>details\<close> string that the source builds with
  \<open>format!\<close> is the list of the pieces it is built from: literal text, the numbers and
  strings put in, and the errors whose text is put in; what the pieces look like when
  printed is not modelled.
\<close>

datatype type_error =
    StoreHashInvalidLength nat
  | StoreHashInvalidChar nat nat
  | NarDigestMissingPrefix string
  | NarDigestInvalidAlgorithm string
  | NarDigestInvalidHexLength nat
  | NarDigestInvalidHexChar nat nat
  | NixHashInvalidAlgorithm string
  | NixHashInvalidLength string nat
  | NixHashInvalidChar nat nat
  | InvalidStorePathFormat string
  | InvalidNarBasename string
  | UnknownSystemArch string
  | OriginMissingFields
  | EmptyOriginJobId

datatype bloom_error =
    InvalidByteLength nat
  | InvalidHashCount u8 u8 u8
  | InvalidFalsePositiveRate string string string
  | InvalidBlockCount u32
  | BlockCountOverflow u64 u32
  | BlockLimitExceeded u64 u32
  | ArithmeticOverflow string
  | AllocationFailed nat string
  | EntryCountOverflow u64
  | InvalidStructure u32 nat nat

datatype narinfo_parse_error =
    MissingRequiredField string
  | InvalidNumber string parse_int_error
  | InvalidStorePath string
  | InvalidUrl string
  | InvalidReference string
  | InvalidField string "frag list"
  | EmptyField string
  | DuplicateField string
  | InvalidHash string type_error
  | NonPositiveSize string
  | MalformedLine string
  | EmptyContent
and core_error =
    CoreType type_error
  | CoreBloom bloom_error
  | CoreNarInfoParse narinfo_parse_error
  | Json string
  | InvalidIndex "frag list"
  | InvalidShard "frag list"
  | InvalidEntry "frag list"
  | InvalidMerkle "frag list"
  | InvalidShardSet "frag list"
  | InvalidCanonicalDigest string "frag list"
  | LimitExceeded string u64 u64
  | ReceiptOriginMismatch string "(u64 option \<times> string option) option"
      "(u64 option \<times> string option) option"
  | InvalidReceipt "frag list"
and frag =
    Lit string
  | Num nat
  | Str string
  | TypeErr type_error
  | CoreErr core_error

end
