(* ===== verification/Core_Types.thy ===== *)
theory Core_Types
  imports Core_Error
begin

text \<open>
  The strong types of \<^verbatim>\<open>crates/nixcache-core/src/types.rs\<close>: \<open>StoreHash\<close>, \<open>NarDigest\<close>,
  \<open>SystemArch\<close>, the store-path and hash validators, \<open>NarInfoMeta\<close>, \<open>OriginMetadata\<close>,
  \<open>IndexEntry\<close>, with the validation every one of them runs when it is deserialised.
  The RFC 3339 parser (crate \<open>chrono\<close>) is the parameter \<open>rfc3339\<close>.
\<close>

section \<open>Store hashes\<close>

datatype store_hash = StoreHash (as_str: string)

definition nix_base32_digit :: "char \<Rightarrow> bool" where
  "nix_base32_digit c \<longleftrightarrow> between 48 57 c \<or> between 97 100 c \<or> between 102 110 c
     \<or> between 112 115 c \<or> between 118 122 c"

text \<open>
  The character loops of the parsers: the first character that is not accepted is
  reported with its position. The characters before it are ASCII, so its position in
  characters is its position in bytes.
\<close>

fun check_chars :: "(char \<Rightarrow> bool) \<Rightarrow> (string \<Rightarrow> nat \<Rightarrow> 'e) \<Rightarrow> nat \<Rightarrow> string \<Rightarrow> 'e + unit" where
  "check_chars p err i [] = Inr ()"
| "check_chars p err i (c # cs) =
     (if p c then check_chars p err (Suc i) cs else Inl (err (c # cs) i))"

definition store_hash_parse :: "string \<Rightarrow> type_error + store_hash" where
  "store_hash_parse s =
     (let trimmed = trim s in
      if length trimmed \<noteq> 32 then Inl (StoreHashInvalidLength (length trimmed))
      else result_bind
        (check_chars nix_base32_digit (\<lambda>rest index. StoreHashInvalidChar (first_char rest) index)
           0 trimmed)
        (\<lambda>_. Inr (StoreHash trimmed)))"

definition valid_store_hash :: "store_hash \<Rightarrow> bool" where
  "valid_store_hash h \<longleftrightarrow> length (as_str h) = 32 \<and> list_all nix_base32_digit (as_str h)"

lemma check_chars_Inr [result_simps]: "check_chars p err i s = Inr u \<longleftrightarrow> list_all p s"
  by (induction s arbitrary: i) auto

lemma check_chars_first_bad:
  "list_all p a \<Longrightarrow> \<not> p c \<Longrightarrow>
   check_chars p err i (a @ c # b) = Inl (err (c # b) (i + length a))"
  by (induction a arbitrary: i) auto

text \<open>Bytes of the ASCII range that are not blanks: no white space at any position.\<close>

lemma printable_no_ws: "list_all (between 33 126) s \<Longrightarrow> \<not> any_control_or_ws s"
proof (induction s)
  case Nil
  then show ?case by simp
next
  case (Cons c s)
  then have "33 \<le> code c" "code c \<le> 126" by (auto simp: between_def)
  then have "ws_len (c # s) = 0" "ctl_len (c # s) = 0"
    by (auto simp: ws_len_def ctl_len_def split: list.split)
  with Cons show ?case by simp
qed

lemma base32_printable: "nix_base32_digit c \<Longrightarrow> between 33 126 c"
  by (auto simp: nix_base32_digit_def between_def)

lemma base32_no_ws: "list_all nix_base32_digit s \<Longrightarrow> \<not> any_control_or_ws s"
  by (rule printable_no_ws) (auto simp: list_all_iff intro: base32_printable)

lemma store_hash_parse_Inr [result_simps]:
  "store_hash_parse s = Inr h \<longleftrightarrow> h = StoreHash (trim s) \<and> valid_store_hash h"
  by (auto simp: store_hash_parse_def Let_def valid_store_hash_def result_simps)

lemma trim_valid_store_hash [simp]: "valid_store_hash h \<Longrightarrow> trim (as_str h) = as_str h"
  by (simp add: valid_store_hash_def trim_no_ws base32_no_ws any_control_or_ws_any_ws)

text \<open>Store hashes are ordered as their strings, byte by byte.\<close>

instantiation store_hash :: linorder
begin

definition less_eq_store_hash :: "store_hash \<Rightarrow> store_hash \<Rightarrow> bool" where
  "less_eq_store_hash a b \<longleftrightarrow> as_str a \<le> as_str b"

definition less_store_hash :: "store_hash \<Rightarrow> store_hash \<Rightarrow> bool" where
  "less_store_hash a b \<longleftrightarrow> as_str a < as_str b"

instance
  by standard
    (auto simp: less_eq_store_hash_def less_store_hash_def intro: store_hash.expand)

end

section \<open>NAR digests\<close>

datatype nar_digest = NarDigest (digest_str: string)

definition nar_digest_parse :: "string \<Rightarrow> type_error + nar_digest" where
  "nar_digest_parse s =
     (case split_once (CHR '':'') (trim s) of
        None \<Rightarrow> Inl (NarDigestMissingPrefix s)
      | Some (algo, hex) \<Rightarrow>
          if algo \<noteq> ''sha256'' then Inl (NarDigestInvalidAlgorithm algo)
          else if length hex \<noteq> 64 then Inl (NarDigestInvalidHexLength (length hex))
          else result_bind
            (check_chars is_ascii_hexdigit
               (\<lambda>rest index. NarDigestInvalidHexChar (first_char rest) index) 0 hex)
            (\<lambda>_. Inr (NarDigest (''sha256:'' @ to_ascii_lowercase hex))))"

definition nar_digest_new_sha256 :: "string \<Rightarrow> type_error + nar_digest" where
  "nar_digest_new_sha256 hex = nar_digest_parse (''sha256:'' @ trim hex)"

definition lower_hex :: "char \<Rightarrow> bool" where
  "lower_hex c \<longleftrightarrow> is_ascii_digit c \<or> is_ascii_lower_hex c"

definition is_sha256 :: "string \<Rightarrow> bool" where
  "is_sha256 value \<longleftrightarrow> length value = 71 \<and> starts_with ''sha256:'' value
     \<and> list_all lower_hex (drop 7 value)"

definition validate_sha256 :: "string \<Rightarrow> string + unit" where
  "validate_sha256 value =
     (if is_sha256 value then Inr ()
      else Inl ''expected canonical sha256: followed by 64 lowercase hexadecimal characters'')"

lemma is_sha256_iff:
  "is_sha256 v \<longleftrightarrow> (\<exists>hex. v = ''sha256:'' @ hex \<and> length hex = 64 \<and> list_all lower_hex hex)"
  by (auto simp: is_sha256_def starts_with_iff)

lemma validate_sha256_Inr [result_simps]: "validate_sha256 v = Inr u \<longleftrightarrow> is_sha256 v"
  by (simp add: validate_sha256_def)

lemma lower_hex_hexdigit: "lower_hex c \<Longrightarrow> is_ascii_hexdigit c"
  by (auto simp: lower_hex_def is_ascii_digit_def is_ascii_lower_hex_def is_ascii_hexdigit_def)

lemma lower_hex_lowercase: "lower_hex c \<Longrightarrow> char_to_ascii_lowercase c = c"
  by (auto simp: lower_hex_def is_ascii_digit_def is_ascii_lower_hex_def between_def
      char_to_ascii_lowercase_def)

lemma hexdigit_lowercase: "is_ascii_hexdigit c \<Longrightarrow> lower_hex (char_to_ascii_lowercase c)"
  by (auto simp: lower_hex_def is_ascii_digit_def is_ascii_lower_hex_def between_def
      char_to_ascii_lowercase_def is_ascii_hexdigit_def)

lemma lower_hex_printable: "lower_hex c \<Longrightarrow> between 33 126 c"
  by (auto simp: lower_hex_def is_ascii_digit_def is_ascii_lower_hex_def between_def)

lemma to_ascii_lowercase_hex [simp]: "list_all lower_hex s \<Longrightarrow> to_ascii_lowercase s = s"
  by (induction s) (auto simp: to_ascii_lowercase_def lower_hex_lowercase)

lemma length_to_ascii_lowercase [simp]: "length (to_ascii_lowercase s) = length s"
  by (simp add: to_ascii_lowercase_def)

lemma sha256_no_ws: "is_sha256 v \<Longrightarrow> \<not> any_ws v"
  by (rule any_control_or_ws_any_ws, rule printable_no_ws)
    (auto simp: is_sha256_iff list_all_iff between_def
      dest!: bspec lower_hex_printable)

lemma nar_digest_parse_sha256: "nar_digest_parse s = Inr d \<Longrightarrow> is_sha256 (digest_str d)"
  by (auto simp: nar_digest_parse_def is_sha256_iff to_ascii_lowercase_def list_all_iff
      result_simps hexdigit_lowercase split: option.splits if_splits)

lemma nar_digest_parse_canonical: "is_sha256 v \<Longrightarrow> nar_digest_parse v = Inr (NarDigest v)"
proof -
  assume v: "is_sha256 v"
  then obtain hex where hex: "v = ''sha256'' @ CHR '':'' # hex" "length hex = 64"
    "list_all lower_hex hex"
    by (auto simp: is_sha256_iff)
  moreover have "list_all is_ascii_hexdigit hex"
    using hex(3) by (auto simp: list_all_iff lower_hex_hexdigit)
  moreover have "split_once (CHR '':'') v = Some (''sha256'', hex)"
    using hex(1) by (simp add: split_once_eq_Some)
  moreover have "trim v = v" using v by (simp add: trim_no_ws sha256_no_ws)
  ultimately show ?thesis
    by (auto simp: nar_digest_parse_def result_bind_eq_Inr result_simps)
qed

instantiation nar_digest :: linorder
begin

definition less_eq_nar_digest :: "nar_digest \<Rightarrow> nar_digest \<Rightarrow> bool" where
  "less_eq_nar_digest a b \<longleftrightarrow> digest_str a \<le> digest_str b"

definition less_nar_digest :: "nar_digest \<Rightarrow> nar_digest \<Rightarrow> bool" where
  "less_nar_digest a b \<longleftrightarrow> digest_str a < digest_str b"

instance
  by standard
    (auto simp: less_eq_nar_digest_def less_nar_digest_def intro: nar_digest.expand)

end

section \<open>System architectures\<close>

datatype system_arch =
    X86_64Linux | Aarch64Linux | X86_64Darwin | Aarch64Darwin | I686Linux | Armv7lLinux
  | Armv6lLinux | Riscv64Linux | Aarch64Freebsd | X86_64Freebsd | I686Freebsd | X86_64Netbsd
  | X86_64Openbsd | Mips64elLinux | Powerpc64leLinux | S390xLinux | Wasm32Wasi | Unknown

definition system_variants :: "system_arch list" where
  "system_variants =
     [X86_64Linux, Aarch64Linux, X86_64Darwin, Aarch64Darwin, I686Linux, Armv7lLinux,
      Armv6lLinux, Riscv64Linux, Aarch64Freebsd, X86_64Freebsd, I686Freebsd, X86_64Netbsd,
      X86_64Openbsd, Mips64elLinux, Powerpc64leLinux, S390xLinux, Wasm32Wasi, Unknown]"

definition system_all :: "system_arch list" where
  "system_all = filter (\<lambda>s. s \<noteq> Unknown) system_variants"

definition is_known :: "system_arch \<Rightarrow> bool" where
  "is_known s \<longleftrightarrow> s \<noteq> Unknown"

fun system_as_str :: "system_arch \<Rightarrow> string" where
  "system_as_str X86_64Linux = ''x86_64-linux''"
| "system_as_str Aarch64Linux = ''aarch64-linux''"
| "system_as_str X86_64Darwin = ''x86_64-darwin''"
| "system_as_str Aarch64Darwin = ''aarch64-darwin''"
| "system_as_str I686Linux = ''i686-linux''"
| "system_as_str Armv7lLinux = ''armv7l-linux''"
| "system_as_str Armv6lLinux = ''armv6l-linux''"
| "system_as_str Riscv64Linux = ''riscv64-linux''"
| "system_as_str Aarch64Freebsd = ''aarch64-freebsd''"
| "system_as_str X86_64Freebsd = ''x86_64-freebsd''"
| "system_as_str I686Freebsd = ''i686-freebsd''"
| "system_as_str X86_64Netbsd = ''x86_64-netbsd''"
| "system_as_str X86_64Openbsd = ''x86_64-openbsd''"
| "system_as_str Mips64elLinux = ''mips64el-linux''"
| "system_as_str Powerpc64leLinux = ''powerpc64le-linux''"
| "system_as_str S390xLinux = ''s390x-linux''"
| "system_as_str Wasm32Wasi = ''wasm32-wasi''"
| "system_as_str Unknown = ''unknown''"

fun to_oci_platform_tuple :: "system_arch \<Rightarrow> string \<times> string \<times> string option" where
  "to_oci_platform_tuple X86_64Linux = (''linux'', ''amd64'', None)"
| "to_oci_platform_tuple Aarch64Linux = (''linux'', ''arm64'', None)"
| "to_oci_platform_tuple X86_64Darwin = (''darwin'', ''amd64'', None)"
| "to_oci_platform_tuple Aarch64Darwin = (''darwin'', ''arm64'', None)"
| "to_oci_platform_tuple I686Linux = (''linux'', ''386'', None)"
| "to_oci_platform_tuple Armv7lLinux = (''linux'', ''arm'', Some ''v7'')"
| "to_oci_platform_tuple Armv6lLinux = (''linux'', ''arm'', Some ''v6'')"
| "to_oci_platform_tuple Riscv64Linux = (''linux'', ''riscv64'', None)"
| "to_oci_platform_tuple Aarch64Freebsd = (''freebsd'', ''arm64'', None)"
| "to_oci_platform_tuple X86_64Freebsd = (''freebsd'', ''amd64'', None)"
| "to_oci_platform_tuple I686Freebsd = (''freebsd'', ''386'', None)"
| "to_oci_platform_tuple X86_64Netbsd = (''netbsd'', ''amd64'', None)"
| "to_oci_platform_tuple X86_64Openbsd = (''openbsd'', ''amd64'', None)"
| "to_oci_platform_tuple Mips64elLinux = (''linux'', ''mips64le'', None)"
| "to_oci_platform_tuple Powerpc64leLinux = (''linux'', ''ppc64le'', None)"
| "to_oci_platform_tuple S390xLinux = (''linux'', ''s390x'', None)"
| "to_oci_platform_tuple Wasm32Wasi = (''wasip1'', ''wasm'', None)"
| "to_oci_platform_tuple Unknown = (''unknown'', ''unknown'', None)"

definition from_oci :: "string \<Rightarrow> string \<Rightarrow> string option \<Rightarrow> system_arch" where
  "from_oci os0 architecture variant0 =
     (let os = to_ascii_lowercase (trim os0);
          arch = to_ascii_lowercase (trim architecture);
          variant = map_option (\<lambda>v. to_ascii_lowercase (trim v)) variant0
      in
      if os = ''linux'' \<and> (arch = ''amd64'' \<or> arch = ''x86_64'') then X86_64Linux
      else if os = ''linux'' \<and> (arch = ''arm64'' \<or> arch = ''aarch64'') then Aarch64Linux
      else if os = ''darwin'' \<and> (arch = ''amd64'' \<or> arch = ''x86_64'') then X86_64Darwin
      else if os = ''darwin'' \<and> (arch = ''arm64'' \<or> arch = ''aarch64'') then Aarch64Darwin
      else if os = ''linux'' \<and> (arch = ''386'' \<or> arch = ''i686'' \<or> arch = ''i386'') then I686Linux
      else if os = ''linux'' \<and> arch = ''arm'' \<and> (variant = Some ''v7'' \<or> variant = Some ''7'')
        \<or> os = ''linux'' \<and> arch = ''armv7l'' then Armv7lLinux
      else if os = ''linux'' \<and> arch = ''arm'' \<and> (variant = Some ''v6'' \<or> variant = Some ''6'')
        \<or> os = ''linux'' \<and> arch = ''armv6l'' then Armv6lLinux
      else if os = ''linux'' \<and> arch = ''riscv64'' then Riscv64Linux
      else if os = ''freebsd'' \<and> (arch = ''arm64'' \<or> arch = ''aarch64'') then Aarch64Freebsd
      else if os = ''freebsd'' \<and> (arch = ''amd64'' \<or> arch = ''x86_64'') then X86_64Freebsd
      else if os = ''freebsd'' \<and> (arch = ''386'' \<or> arch = ''i686'' \<or> arch = ''i386'')
        then I686Freebsd
      else if os = ''netbsd'' \<and> (arch = ''amd64'' \<or> arch = ''x86_64'') then X86_64Netbsd
      else if os = ''openbsd'' \<and> (arch = ''amd64'' \<or> arch = ''x86_64'') then X86_64Openbsd
      else if os = ''linux'' \<and> (arch = ''mips64le'' \<or> arch = ''mips64el'') then Mips64elLinux
      else if os = ''linux'' \<and> (arch = ''ppc64le'' \<or> arch = ''powerpc64le'') then Powerpc64leLinux
      else if os = ''linux'' \<and> arch = ''s390x'' then S390xLinux
      else if (os = ''wasi'' \<or> os = ''wasip1'') \<and> (arch = ''wasm'' \<or> arch = ''wasm32'')
        then Wasm32Wasi
      else Unknown)"

definition normalize_runtime_os :: "string \<Rightarrow> string" where
  "normalize_runtime_os os = (if os = ''macos'' then ''darwin'' else os)"

text \<open>The run-time constants \<open>env::consts::OS\<close> and \<open>env::consts::ARCH\<close> are arguments.\<close>

definition detect_current :: "string \<Rightarrow> string \<Rightarrow> system_arch" where
  "detect_current consts_os consts_arch =
     (let detected = from_oci (normalize_runtime_os consts_os) consts_arch None
      in if is_known detected then detected else Unknown)"

definition system_from :: "string \<Rightarrow> system_arch" where
  "system_from s0 =
     (let s = trim s0 in
      if s = ''x86_64-linux'' then X86_64Linux
      else if s = ''aarch64-linux'' then Aarch64Linux
      else if s = ''x86_64-darwin'' then X86_64Darwin
      else if s = ''aarch64-darwin'' then Aarch64Darwin
      else if s = ''i686-linux'' then I686Linux
      else if s = ''armv7l-linux'' then Armv7lLinux
      else if s = ''armv6l-linux'' then Armv6lLinux
      else if s = ''riscv64-linux'' then Riscv64Linux
      else if s = ''aarch64-freebsd'' then Aarch64Freebsd
      else if s = ''x86_64-freebsd'' then X86_64Freebsd
      else if s = ''i686-freebsd'' then I686Freebsd
      else if s = ''x86_64-netbsd'' then X86_64Netbsd
      else if s = ''x86_64-openbsd'' then X86_64Openbsd
      else if s = ''mips64el-linux'' then Mips64elLinux
      else if s = ''powerpc64le-linux'' then Powerpc64leLinux
      else if s = ''s390x-linux'' then S390xLinux
      else if s = ''wasm32-wasi'' then Wasm32Wasi
      else Unknown)"

definition parse_strict :: "string \<Rightarrow> type_error + system_arch" where
  "parse_strict s =
     (let arch = system_from s in
      if is_known arch then Inr arch else Inl (UnknownSystemArch s))"

lemma all_printable_no_ws: "list_all (\<lambda>c. 33 \<le> code c \<and> code c \<le> 126) s \<Longrightarrow> trim s = s"
  by (intro trim_no_ws any_control_or_ws_any_ws printable_no_ws)
    (simp add: between_def [abs_def])

lemma trim_system_as_str [simp]: "trim (system_as_str a) = system_as_str a"
  by (rule all_printable_no_ws) (cases a; simp)

lemma system_as_str_inj: "system_as_str a = system_as_str b \<longleftrightarrow> a = b"
  by (cases a; cases b; simp)

lemma system_from_as_str [simp]: "system_from (system_as_str a) = a"
  unfolding system_from_def Let_def trim_system_as_str by (cases a; simp)

section \<open>Store paths, NAR file names and hashes\<close>

definition validate_store_path_basename :: "string \<Rightarrow> type_error + store_hash" where
  "validate_store_path_basename value =
     (case split_once (CHR ''-'') value of
        None \<Rightarrow> Inl (InvalidStorePathFormat value)
      | Some (hash, name) \<Rightarrow>
          if name = [] \<or> contains_char (CHR ''/'') name \<or> contains_char (CHR 0x5C) name
            \<or> any_control_or_ws name
          then Inl (InvalidStorePathFormat value)
          else store_hash_parse hash)"

definition validate_store_path :: "string \<Rightarrow> type_error + store_hash" where
  "validate_store_path value =
     (case strip_prefix ''/nix/store/'' value of
        None \<Rightarrow> Inl (InvalidStorePathFormat value)
      | Some basename \<Rightarrow>
          if basename = [] \<or> contains_char (CHR ''/'') basename
            \<or> contains_char (CHR 0x5C) basename
          then Inl (InvalidStorePathFormat value)
          else validate_store_path_basename basename)"

definition normalize_store_reference :: "string \<Rightarrow> type_error + string" where
  "normalize_store_reference value =
     (if starts_with ''/nix/store/'' value
      then result_bind (validate_store_path value)
        (\<lambda>_. Inr (drop (length ''/nix/store/'') value))
      else if contains_char (CHR ''/'') value \<or> contains_char (CHR 0x5C) value
      then Inl (InvalidStorePathFormat value)
      else result_bind (validate_store_path_basename value) (\<lambda>_. Inr value))"

definition validate_nar_basename :: "string \<Rightarrow> type_error + unit" where
  "validate_nar_basename value =
     (if value = [] \<or> value = ''.'' \<or> value = ''..'' \<or> contains_str ''..'' value
        \<or> contains_char (CHR ''/'') value \<or> contains_char (CHR 0x5C) value
        \<or> any_control_or_ws value
      then Inl (InvalidNarBasename value) else Inr ())"

definition base64_body :: "char \<Rightarrow> bool" where
  "base64_body c \<longleftrightarrow> is_ascii_alphanumeric c \<or> c = CHR ''+'' \<or> c = CHR ''/''"

definition validate_nix_hash :: "string \<Rightarrow> type_error + unit" where
  "validate_nix_hash value =
     (case (case split_once (CHR '':'') value of
              Some (algorithm, encoded) \<Rightarrow> Some (algorithm, CHR '':'', encoded)
            | None \<Rightarrow> map_option (\<lambda>(algorithm, encoded). (algorithm, CHR ''-'', encoded))
                (split_once (CHR ''-'') value)) of
        None \<Rightarrow> Inl (NixHashInvalidAlgorithm [])
      | Some (algorithm, separator, encoded) \<Rightarrow>
          if algorithm \<noteq> ''sha256'' then Inl (NixHashInvalidAlgorithm algorithm)
          else if separator = CHR ''-'' \<and> length encoded = 44 \<and> encoded ! 43 = CHR ''=''
            \<and> list_all base64_body (take 43 encoded)
          then Inr ()
          else if length encoded = 52
          then check_chars nix_base32_digit
            (\<lambda>rest index. NixHashInvalidChar (code (hd rest)) index) 0 encoded
          else if length encoded = 64 \<and> list_all lower_hex encoded then Inr ()
          else Inl (NixHashInvalidLength
            ''52 Nix base32, 64 lowercase hexadecimal, or 44 base64 characters''
            (length encoded)))"

section \<open>Properties\<close>

text \<open>
  Parsing a store hash normalises: what it returns is a valid 32-digit hash, the input
  without its surrounding white space, and parsing it again returns it unchanged; every valid
  hash is returned for its own text.
\<close>

theorem store_hash_parse_normalises:
  "store_hash_parse s = Inr h \<longleftrightarrow>
     valid_store_hash h \<and> as_str h = trim s \<and> store_hash_parse (as_str h) = Inr h"
  using trim_valid_store_hash [of h] by (cases h) (auto simp: store_hash_parse_Inr)

text \<open>
  Parsing a digest normalises: an accepted digest is \<open>sha256:\<close> with 64 lowercase
  hexadecimal digits, parsing it again returns it unchanged, and it is the input without
  surrounding white space and with its digits in lower case.
\<close>

theorem nar_digest_parse_normalises:
  assumes "nar_digest_parse s = Inr d"
  shows "is_sha256 (digest_str d) \<and> nar_digest_parse (digest_str d) = Inr d
    \<and> (\<exists>hex. trim s = ''sha256:'' @ hex
         \<and> digest_str d = ''sha256:'' @ to_ascii_lowercase hex)"
proof -
  have "is_sha256 (digest_str d)" using assms by (rule nar_digest_parse_sha256)
  then have "nar_digest_parse (digest_str d) = Inr d" by (simp add: nar_digest_parse_canonical)
  moreover have "\<exists>hex. trim s = ''sha256:'' @ hex \<and> digest_str d = ''sha256:'' @ to_ascii_lowercase hex"
    using assms by (auto simp: nar_digest_parse_def result_simps split_once_eq_Some
        split: option.splits if_splits)
  ultimately show ?thesis using \<open>is_sha256 (digest_str d)\<close> by blast
qed

theorem nar_digest_parse_normalises_witness:
  "is_sha256 (digest_str (NarDigest (''sha256:'' @ replicate 64 (CHR ''a''))))"
proof -
  let ?v = "''sha256:'' @ replicate 64 (CHR ''a'')"
  have "is_sha256 ?v"
    by (simp add: is_sha256_iff list_all_iff lower_hex_def is_ascii_lower_hex_def between_def
        del: replicate.simps)
  from nar_digest_parse_normalises [OF nar_digest_parse_canonical [OF this]] show ?thesis by blast
qed

lemma oci_tuple_clean:
  "to_oci_platform_tuple a = (os, architecture, variant) \<Longrightarrow>
   to_ascii_lowercase (trim os) = os \<and> to_ascii_lowercase (trim architecture) = architecture
   \<and> map_option (\<lambda>v. to_ascii_lowercase (trim v)) variant = variant"
  by (cases a)
    (auto simp: all_printable_no_ws to_ascii_lowercase_def char_to_ascii_lowercase_def between_def)

lemma from_oci_tuple:
  "to_oci_platform_tuple a = (os, architecture, variant) \<Longrightarrow> from_oci os architecture variant = a"
proof -
  assume t: "to_oci_platform_tuple a = (os, architecture, variant)"
  show ?thesis
    unfolding from_oci_def Let_def oci_tuple_clean [OF t, THEN conjunct1]
      oci_tuple_clean [OF t, THEN conjunct2, THEN conjunct1]
      oci_tuple_clean [OF t, THEN conjunct2, THEN conjunct2]
    using t by (cases a; clarsimp)
qed

text \<open>
  The names of a system are unambiguous: the Nix name reads back as the system, and the OCI
  platform of a known system reads back as that system, so no two known systems share a
  platform entry of an image index.
\<close>

theorem system_names_roundtrip:
  "system_from (system_as_str a) = a
   \<and> (case to_oci_platform_tuple a of (os, architecture, variant) \<Rightarrow> from_oci os architecture variant = a)
   \<and> (is_known a \<longleftrightarrow> parse_strict (system_as_str a) = Inr a)"
  using from_oci_tuple [of a]
  by (auto simp: parse_strict_def is_known_def Let_def split: prod.split)

end
