(* ===== verification/Core_Entry.thy ===== *)
theory Core_Entry
  imports Core_Types
begin

text \<open>
  The entry records of \<^verbatim>\<open>crates/nixcache-core/src/types.rs\<close>: \<open>NarInfoMeta\<close>,
  \<open>OriginMetadata\<close> and \<open>IndexEntry\<close>, their validation on every branch, the reference
  hashes that make up the dependency graph, and the rendering of a \<open>.narinfo\<close> text.
  Record fields carry a prefix (\<open>meta_\<close>, \<open>origin_\<close>, \<open>entry_\<close>) because field names of
  different Rust structs coincide. Deserialising is modelled from the point where the
  fields have been read: the checks that decide whether a value is produced.
\<close>

record nar_info_meta =
  meta_store_path :: string
  meta_nar_basename :: string
  meta_compression :: "string option"
  meta_file_hash :: "string option"
  meta_file_size :: "u64 option"
  meta_nar_hash :: string
  meta_references :: "string list"
  meta_deriver :: "string option"
  meta_signatures :: "string list"
  meta_ca :: "string option"

definition validate_file_hash :: "string option \<Rightarrow> core_error + unit" where
  "validate_file_hash fh =
     (case fh of
        None \<Rightarrow> Inr ()
      | Some file_hash \<Rightarrow>
          if file_hash = [] then Inl (InvalidEntry [Lit ''FileHash must not be empty''])
          else map_err (\<lambda>error. InvalidEntry [Lit ''FileHash: '', TypeErr error])
            (validate_nix_hash file_hash))"

definition validate_deriver :: "string option \<Rightarrow> core_error + unit" where
  "validate_deriver d =
     (case d of
        None \<Rightarrow> Inr ()
      | Some deriver \<Rightarrow>
          result_bind
            (map_err
               (\<lambda>error. InvalidEntry [Lit ''Deriver '', Str deriver, Lit '': '', TypeErr error])
               (normalize_store_reference deriver))
            (\<lambda>normalized.
               if \<not> ends_with ''.drv'' normalized
               then Inl (InvalidEntry [Lit ''Deriver '', Str deriver, Lit '' must end with .drv''])
               else Inr ()))"

definition meta_validate_structure :: "nar_info_meta \<Rightarrow> core_error + unit" where
  "meta_validate_structure m =
     result_bind
       (map_err (\<lambda>error. InvalidEntry [Lit ''StorePath: '', TypeErr error])
          (validate_store_path (meta_store_path m))) (\<lambda>_.
     result_bind
       (map_err (\<lambda>error. InvalidEntry [Lit ''NAR basename: '', TypeErr error])
          (validate_nar_basename (meta_nar_basename m))) (\<lambda>_.
     result_bind (validate_file_hash (meta_file_hash m)) (\<lambda>_.
     if is_some_and (\<lambda>c. c = []) (meta_compression m)
     then Inl (InvalidEntry [Lit ''Compression must not be empty''])
     else if is_some_and (\<lambda>c. c = []) (meta_ca m)
     then Inl (InvalidEntry [Lit ''CA must not be empty''])
     else if meta_file_size m = Some 0
     then Inl (InvalidEntry [Lit ''FileSize must be greater than zero''])
     else
       result_bind
         (map_err (\<lambda>error. InvalidEntry [Lit ''NarHash: '', TypeErr error])
            (validate_nix_hash (meta_nar_hash m))) (\<lambda>_.
       result_bind
         (try_each
            (\<lambda>reference. result_bind
               (map_err
                  (\<lambda>error. InvalidEntry
                     [Lit ''reference '', Str reference, Lit '': '', TypeErr error])
                  (normalize_store_reference reference)) (\<lambda>_. Inr ()))
            (meta_references m)) (\<lambda>_.
       validate_deriver (meta_deriver m))))))"

definition meta_store_hash :: "nar_info_meta \<Rightarrow> store_hash option" where
  "meta_store_hash m = result_ok (validate_store_path (meta_store_path m))"

definition reference_hash :: "string \<Rightarrow> type_error + store_hash" where
  "reference_hash reference =
     result_bind (normalize_store_reference reference) (\<lambda>normalized.
     result_bind (ok_or (InvalidStorePathFormat reference) (split_once (CHR ''-'') normalized))
       (\<lambda>(hash, _). store_hash_parse hash))"

definition reference_hashes :: "nar_info_meta \<Rightarrow> type_error + store_hash list" where
  "reference_hashes m = try_map reference_hash (meta_references m)"

definition try_reference_hashes :: "nar_info_meta \<Rightarrow> type_error + store_hash list" where
  "try_reference_hashes m = reference_hashes m"

definition opt_line :: "string \<Rightarrow> string option \<Rightarrow> string list" where
  "opt_line key v = (case v of None \<Rightarrow> [] | Some x \<Rightarrow> [key @ '': '' @ x])"

definition render_lines :: "nar_info_meta \<Rightarrow> u64 \<Rightarrow> string list" where
  "render_lines m nar_size =
     [''StorePath: '' @ meta_store_path m, ''URL: nar/'' @ meta_nar_basename m]
     @ opt_line ''Compression'' (meta_compression m)
     @ opt_line ''FileHash'' (meta_file_hash m)
     @ opt_line ''FileSize'' (map_option show_u64 (meta_file_size m))
     @ [''NarHash: '' @ meta_nar_hash m, ''NarSize: '' @ show_u64 nar_size]
     @ (if meta_references m = [] then [] else [''References: '' @ join '' '' (meta_references m)])
     @ opt_line ''Deriver'' (meta_deriver m)
     @ map (\<lambda>sig. ''Sig: '' @ sig) (meta_signatures m)
     @ opt_line ''CA'' (meta_ca m)"

definition render :: "nar_info_meta \<Rightarrow> u64 \<Rightarrow> string" where
  "render m nar_size = join [newline] (render_lines m nar_size) @ [newline]"

definition meta_deserialize :: "nar_info_meta \<Rightarrow> core_error + nar_info_meta" where
  "meta_deserialize wire = result_bind (meta_validate_structure wire) (\<lambda>_. Inr wire)"

section \<open>Origin of an entry\<close>

record origin_metadata =
  origin_run_id :: "u64 option"
  origin_job_id :: "string option"

definition origin_validate_structure :: "origin_metadata \<Rightarrow> type_error + unit" where
  "origin_validate_structure origin =
     (if origin_run_id origin = None \<and> origin_job_id origin = None then Inl OriginMissingFields
      else if is_some_and (\<lambda>job_id. trim job_id = []) (origin_job_id origin)
      then Inl EmptyOriginJobId
      else Inr ())"

definition origin_deserialize :: "origin_metadata \<Rightarrow> type_error + origin_metadata" where
  "origin_deserialize wire = result_bind (origin_validate_structure wire) (\<lambda>_. Inr wire)"

definition validate_origin_option :: "origin_metadata option \<Rightarrow> core_error + unit" where
  "validate_origin_option o' =
     (case o' of None \<Rightarrow> Inr () | Some origin \<Rightarrow> map_err CoreType (origin_validate_structure origin))"

section \<open>Index entries\<close>

record index_entry =
  entry_name :: string
  entry_system :: "system_arch option"
  entry_meta :: nar_info_meta
  entry_nar_digest :: nar_digest
  entry_nar_size :: u64
  entry_added :: string
  entry_origin :: "origin_metadata option"

definition entry_validate_structure ::
  "(string \<Rightarrow> 't option) \<Rightarrow> index_entry \<Rightarrow> core_error + unit" where
  "entry_validate_structure rfc3339 e =
     (if entry_name e = [] then Inl (InvalidEntry [Lit ''entry name must not be empty''])
      else if is_some_and (\<lambda>system. \<not> is_known system) (entry_system e)
      then Inl (InvalidEntry [Lit ''entry system must be known''])
      else
        result_bind (meta_validate_structure (entry_meta e)) (\<lambda>_.
        result_bind
          (map_err (\<lambda>error. InvalidEntry [Lit ''NAR digest: '', TypeErr error])
             (nar_digest_parse (digest_str (entry_nar_digest e)))) (\<lambda>_.
        if entry_nar_size e = 0
        then Inl (InvalidEntry [Lit ''NAR size must be greater than zero''])
        else if trim (entry_added e) = [] \<or> rfc3339 (entry_added e) = None
        then Inl (InvalidEntry [Lit ''added must be a valid RFC3339 timestamp''])
        else validate_origin_option (entry_origin e))))"

definition entry_nar_basename :: "index_entry \<Rightarrow> string" where
  "entry_nar_basename e = meta_nar_basename (entry_meta e)"

definition entry_to_narinfo_string :: "index_entry \<Rightarrow> string" where
  "entry_to_narinfo_string e = render (entry_meta e) (entry_nar_size e)"

definition entry_store_hash :: "index_entry \<Rightarrow> store_hash option" where
  "entry_store_hash e = meta_store_hash (entry_meta e)"

definition entry_deserialize ::
  "(string \<Rightarrow> 't option) \<Rightarrow> index_entry \<Rightarrow> core_error + index_entry" where
  "entry_deserialize rfc3339 wire =
     result_bind (entry_validate_structure rfc3339 wire) (\<lambda>_. Inr wire)"

section \<open>Facts on valid entries\<close>

lemma validate_basename_Inr [result_simps]:
  "validate_store_path_basename v = Inr h \<longleftrightarrow>
     (\<exists>hash name. split_once (CHR ''-'') v = Some (hash, name) \<and> name \<noteq> []
        \<and> CHR ''/'' \<notin> set name \<and> CHR 0x5C \<notin> set name \<and> \<not> any_control_or_ws name
        \<and> store_hash_parse hash = Inr h)"
  by (auto simp: validate_store_path_basename_def contains_char_def split: option.splits)

lemma validate_store_path_Inr [result_simps]:
  "validate_store_path p = Inr h \<longleftrightarrow>
     (\<exists>v. p = ''/nix/store/'' @ v \<and> v \<noteq> [] \<and> CHR ''/'' \<notin> set v \<and> CHR 0x5C \<notin> set v
        \<and> validate_store_path_basename v = Inr h)"
  unfolding strip_prefix_eq_Some [symmetric]
  by (auto simp: validate_store_path_def contains_char_def split: option.splits)

lemma normalize_store_reference_Inr:
  assumes "normalize_store_reference r = Inr n"
  shows "\<exists>h. validate_store_path_basename n = Inr h"
proof (cases "starts_with ''/nix/store/'' r")
  case True
  with assms obtain h where "validate_store_path r = Inr h" and n: "n = drop (length ''/nix/store/'') r"
    by (auto simp: normalize_store_reference_def result_bind_eq_Inr)
  then obtain v where "r = ''/nix/store/'' @ v" "validate_store_path_basename v = Inr h"
    by (auto simp only: validate_store_path_Inr)
  with n show ?thesis by auto
next
  case False
  with assms show ?thesis
    by (auto simp: normalize_store_reference_def result_bind_eq_Inr split: if_splits)
qed

text \<open>
  On a valid meta, the reference hashes exist: the graph construction of the query, purge
  and garbage-collection engines cannot fail on validated entries.
\<close>

lemma normalize_reference_hash:
  assumes "normalize_store_reference r = Inr n"
  shows "\<exists>h. reference_hash r = Inr h"
proof -
  obtain h hash name where "split_once (CHR ''-'') n = Some (hash, name)"
    "store_hash_parse hash = Inr h"
    using normalize_store_reference_Inr [OF assms] by (auto simp only: validate_basename_Inr)
  with assms show ?thesis by (simp add: reference_hash_def)
qed

lemma meta_valid_reference_hashes:
  assumes "meta_validate_structure m = Inr ()"
  shows "\<exists>hs. reference_hashes m = Inr hs"
proof -
  have "\<forall>r\<in>set (meta_references m). \<exists>h. reference_hash r = Inr h"
    using assms by (fastforce simp: meta_validate_structure_def result_simps
        dest: normalize_reference_hash)
  then show ?thesis unfolding reference_hashes_def by (rule try_map_ok)
qed

lemma meta_valid_store_hash:
  "meta_validate_structure m = Inr () \<Longrightarrow> \<exists>h. meta_store_hash m = Some h"
  by (auto simp: meta_validate_structure_def meta_store_hash_def result_bind_eq_Inr
      map_err_eq_Inr)

lemma store_hash_of_path_valid: "meta_store_hash m = Some h \<Longrightarrow> valid_store_hash h"
  by (auto simp: meta_store_hash_def result_simps)

lemma reference_hash_valid: "reference_hash r = Inr h \<Longrightarrow> valid_store_hash h"
  by (auto simp: reference_hash_def result_simps)

end
