(* ===== verification/Samples.thy ===== *)
theory Samples
  imports Core_Entry
begin

text \<open>
  Concrete inputs on which the properties of the development are applied: store hashes,
  entries with references, and a stand-in for the RFC 3339 reader of the \<open>chrono\<close> crate
  that reads the four digits of the year as the instant.
\<close>

definition sample_rfc3339 :: "string \<Rightarrow> nat option" where
  "sample_rfc3339 s = (if length s < 20 then None else result_ok (parse_digits 0 (take 4 s)))"

definition sample_show_dt :: "nat \<Rightarrow> string" where
  "sample_show_dt y = show_nat y @ ''-01-01T00:00:00Z''"

definition hash_of :: "char \<Rightarrow> store_hash" where
  "hash_of c = StoreHash (replicate 32 c)"

definition sample_digest :: "char \<Rightarrow> nar_digest" where
  "sample_digest c = NarDigest (''sha256:'' @ replicate 64 c)"

definition sample_meta :: "store_hash \<Rightarrow> store_hash list \<Rightarrow> nar_info_meta" where
  "sample_meta h refs =
     \<lparr>meta_store_path = ''/nix/store/'' @ as_str h @ ''-pkg'',
      meta_nar_basename = ''pkg.nar.zst'',
      meta_compression = Some ''zstd'',
      meta_file_hash = None,
      meta_file_size = Some 42,
      meta_nar_hash = ''sha256:'' @ replicate 52 (CHR ''0''),
      meta_references = map (\<lambda>r. as_str r @ ''-dep'') refs,
      meta_deriver = None,
      meta_signatures = [],
      meta_ca = None\<rparr>"

definition sample_entry :: "store_hash \<Rightarrow> store_hash list \<Rightarrow> string \<Rightarrow> index_entry" where
  "sample_entry h refs added =
     \<lparr>entry_name = ''pkg'', entry_system = Some X86_64Linux, entry_meta = sample_meta h refs,
      entry_nar_digest = sample_digest (hd (as_str h)), entry_nar_size = 100, entry_added = added,
      entry_origin = None\<rparr>"

text \<open>
  An application \<open>a\<close> that depends on a library \<open>b\<close>, an old unused package \<open>c\<close>, and a recent
  unused package \<open>d\<close>; and a second package whose hash starts like that of \<open>a\<close>.
\<close>

abbreviation hash_a :: store_hash where
  "hash_a \<equiv> hash_of (CHR ''a'')"

abbreviation hash_b :: store_hash where
  "hash_b \<equiv> hash_of (CHR ''b'')"

definition hash_a2 :: store_hash where
  "hash_a2 = StoreHash (replicate 31 (CHR ''a'') @ ''b'')"

definition sample_entries :: "(store_hash \<times> index_entry) list" where
  "sample_entries =
     [(hash_a, sample_entry hash_a [hash_b] ''2020-01-01T00:00:00Z''),
      (hash_b, sample_entry hash_b [] ''2020-01-01T00:00:00Z''),
      (hash_of (CHR ''c''), sample_entry (hash_of (CHR ''c'')) [] ''2020-01-01T00:00:00Z''),
      (hash_of (CHR ''d''), sample_entry (hash_of (CHR ''d'')) [] ''2030-01-01T00:00:00Z'')]"

definition sample_pair :: "(store_hash \<times> index_entry) list" where
  "sample_pair =
     [(hash_a, sample_entry hash_a [hash_b] ''2020-01-01T00:00:00Z''),
      (hash_a2, sample_entry hash_a2 [] ''2020-01-01T00:00:00Z'')]"

definition sample_roots :: "(system_arch \<times> store_hash list) list" where
  "sample_roots = [(X86_64Linux, [hash_a])]"

lemma sample_distinct:
  "distinct (map fst sample_entries)" "distinct (map fst sample_roots)" "distinct (map fst sample_pair)"
  by (simp_all add: sample_entries_def sample_roots_def sample_pair_def hash_of_def hash_a2_def
      numeral_eq_Suc)

lemma valid_hash_of: "nix_base32_digit c \<Longrightarrow> valid_store_hash (hash_of c)"
  by (simp add: valid_store_hash_def hash_of_def list_all_iff)

lemma sample_hashes_valid:
  "valid_store_hash hash_a" "valid_store_hash hash_b" "valid_store_hash hash_a2"
  "valid_store_hash (hash_of (CHR ''c''))" "valid_store_hash (hash_of (CHR ''d''))"
  by (simp_all add: valid_store_hash_def hash_of_def hash_a2_def list_all_iff nix_base32_digit_def
      between_def)

lemma sample_hash_parse: "valid_store_hash h \<Longrightarrow> store_hash_parse (as_str h) = Inr h"
  by (cases h) (auto simp: store_hash_parse_Inr dest: trim_valid_store_hash)

lemma hash_printable:
  "valid_store_hash h \<Longrightarrow>
   CHR ''-'' \<notin> set (as_str h) \<and> CHR ''/'' \<notin> set (as_str h) \<and> CHR 0x5C \<notin> set (as_str h)"
  by (fastforce simp: valid_store_hash_def list_all_iff nix_base32_digit_def between_def)

lemma sample_basename:
  assumes "valid_store_hash h" "name \<noteq> []" "list_all (between 33 126) name"
    "CHR ''/'' \<notin> set name" "CHR 0x5C \<notin> set name"
  shows "validate_store_path_basename (as_str h @ CHR ''-'' # name) = Inr h"
  unfolding validate_basename_Inr using assms hash_printable [OF assms(1)]
  by (simp add: sample_hash_parse printable_no_ws)

lemma sample_store_path:
  "valid_store_hash h \<Longrightarrow> validate_store_path (''/nix/store/'' @ as_str h @ ''-pkg'') = Inr h"
  unfolding validate_store_path_Inr
  using hash_printable [of h] sample_basename [where h = h and name = "''pkg''"]
  by (auto simp: between_def)

lemma sample_reference:
  assumes "valid_store_hash h"
  shows "normalize_store_reference (as_str h @ ''-dep'') = Inr (as_str h @ ''-dep'')"
    and "reference_hash (as_str h @ ''-dep'') = Inr h"
proof -
  have "as_str h \<noteq> []" using assms by (auto simp: valid_store_hash_def)
  then obtain c s where "as_str h = c # s" by (cases "as_str h") auto
  then have "\<not> starts_with ''/nix/store/'' (as_str h @ ''-dep'')"
    using hash_printable [OF assms] by (auto simp: starts_with_iff)
  then show n: "normalize_store_reference (as_str h @ ''-dep'') = Inr (as_str h @ ''-dep'')"
    using hash_printable [OF assms] sample_basename [OF assms, where name = "''dep''"]
    by (simp add: normalize_store_reference_def contains_char_def between_def)
  show "reference_hash (as_str h @ ''-dep'') = Inr h"
    using hash_printable [OF assms]
    by (simp add: reference_hash_def n sample_hash_parse [OF assms])
qed

lemma sample_entry_valid:
  assumes "valid_store_hash h" "lower_hex (hd (as_str h))" "list_all valid_store_hash refs"
    "added = ''2020-01-01T00:00:00Z'' \<or> added = ''2030-01-01T00:00:00Z''"
  shows "entry_validate_structure sample_rfc3339 (sample_entry h refs added) = Inr ()"
proof -
  have "validate_nar_basename ''pkg.nar.zst'' = Inr ()"
    using printable_no_ws [of "''pkg.nar.zst''"]
    by (simp add: validate_nar_basename_def contains_char_def starts_with_def between_def
        del: any_control_or_ws.simps)
  moreover have "nix_base32_digit (CHR ''0'')" by (simp add: nix_base32_digit_def between_def)
  then have "validate_nix_hash (''sha256:'' @ replicate 52 (CHR ''0'')) = Inr ()"
    by (simp add: validate_nix_hash_def check_chars_Inr list_all_iff del: replicate.simps)
  moreover have "\<forall>r\<in>set refs. \<exists>n. normalize_store_reference (as_str r @ ''-dep'') = Inr n"
    using assms(3) sample_reference(1) by (auto simp only: list_all_iff)
  ultimately have "meta_validate_structure (sample_meta h refs) = Inr ()"
    using sample_store_path [OF assms(1)]
    by (simp add: meta_validate_structure_def sample_meta_def validate_file_hash_def
        validate_deriver_def try_each_Inr result_bind_eq_Inr
        map_err_eq_Inr del: replicate.simps)
  moreover have "nar_digest_parse (''sha256:'' @ replicate 64 (hd (as_str h)))
      = Inr (sample_digest (hd (as_str h)))"
    using assms(2)
    by (simp add: sample_digest_def nar_digest_parse_canonical is_sha256_iff list_all_iff
        del: replicate.simps)
  moreover have "trim added = added" "sample_rfc3339 added \<noteq> None"
    using assms(4)
    by (auto simp: all_printable_no_ws sample_rfc3339_def to_digit_def is_ascii_digit_def between_def)
  ultimately show ?thesis
    using assms(4)
    by (auto simp: entry_validate_structure_def sample_entry_def sample_digest_def is_known_def
        validate_origin_option_def)
qed

lemma sample_valid:
  "\<forall>(h, e)\<in>set (sample_entries @ sample_pair).
     entry_validate_structure sample_rfc3339 e = Inr () \<and> entry_store_hash e = Some h
     \<and> is_sha256 (digest_str (entry_nar_digest e))"
proof -
  have path: "entry_store_hash (sample_entry h refs added) = Some h"
    if "valid_store_hash h" for h refs added
    using sample_store_path [OF that]
    by (simp add: entry_store_hash_def sample_entry_def meta_store_hash_def sample_meta_def)
  have dig: "is_sha256 (digest_str (entry_nar_digest (sample_entry h refs added)))"
    if "lower_hex (hd (as_str h))" for h refs added
    using that by (simp add: sample_entry_def sample_digest_def is_sha256_iff list_all_iff
        del: replicate.simps)
  have "lower_hex (hd (as_str h))"
    if "h \<in> {hash_a, hash_b, hash_a2, hash_of (CHR ''c''), hash_of (CHR ''d'')}" for h
    using that by (auto simp: hash_of_def hash_a2_def lower_hex_def is_ascii_digit_def
        is_ascii_lower_hex_def between_def numeral_eq_Suc)
  then show ?thesis
    using path dig sample_hashes_valid
    by (simp add: sample_entries_def sample_pair_def sample_entry_valid)
qed

end
