(* ===== verification/Graph_Search.thy ===== *)
theory Graph_Search
  imports Rust_Prelude
begin

text \<open>
  The breadth-first loops that the query, purge and garbage-collection engines share
  (\<^verbatim>\<open>filter.rs\<close>, \<^verbatim>\<open>purge.rs\<close>, \<^verbatim>\<open>gc.rs\<close>), over a graph kept as a \<open>HashMap\<close> from a node to its
  successors. Two forms occur in the code: a loop that marks a node when it is taken off
  the queue (\<open>closure_loop\<close>) and a loop that marks a node when it is put on the queue
  (\<open>cascade_loop\<close>). Both end on every graph, cycles included, and both compute
  reachability.
\<close>

type_synonym 'a graph = "('a \<times> 'a list) list"

definition succs :: "'a graph \<Rightarrow> 'a \<Rightarrow> 'a list" where
  "succs g x = (case map_of g x of None \<Rightarrow> [] | Some ds \<Rightarrow> ds)"

definition edges :: "'a graph \<Rightarrow> ('a \<times> 'a) set" where
  "edges g = {(x, y). y \<in> set (succs g x)}"

definition targets :: "'a graph \<Rightarrow> 'a set" where
  "targets g = (\<Union>p\<in>set g. set (snd p))"

lemma finite_targets [simp]: "finite (targets g)"
  by (simp add: targets_def)

lemma succs_targets: "set (succs g x) \<subseteq> targets g"
proof (cases "map_of g x")
  case (Some ds)
  then have "(x, ds) \<in> set g" by (rule map_of_SomeD)
  with Some show ?thesis by (force simp: succs_def targets_def)
qed (simp add: succs_def)

lemma in_edges [simp]: "(x, y) \<in> edges g \<longleftrightarrow> y \<in> set (succs g x)"
  by (simp add: edges_def)

section \<open>Marking when a node is taken off the queue\<close>

text \<open>Each step marks a new node of a finite universe or shortens the queue.\<close>

lemma card_Diff_insert_less:
  assumes "finite U" "x \<in> U" "x \<notin> V" "U' \<subseteq> U"
  shows "card (U' - insert x V) < card (U - V)"
proof (rule psubset_card_mono)
  show "finite (U - V)" using assms(1) by simp
  show "U' - insert x V \<subset> U - V" using assms by blast
qed

function closure_loop :: "'a graph \<Rightarrow> 'a set \<Rightarrow> 'a list \<Rightarrow> 'a set" where
  "closure_loop g seen [] = seen"
| "closure_loop g seen (cur # queue) =
     (if cur \<notin> seen
      then (let seen' = insert cur seen in
            closure_loop g seen' (queue @ filter (\<lambda>dep. dep \<notin> seen') (succs g cur)))
      else closure_loop g seen queue)"
  by pat_completeness auto

termination
proof (relation "inv_image (less_than <*lex*> less_than)
    (\<lambda>(g, seen, queue). (card ((set queue \<union> targets g) - seen), length queue))")
  show "wf (inv_image (less_than <*lex*> less_than)
      (\<lambda>(g, seen, queue). (card ((set queue \<union> targets g) - seen), length queue)))"
    by (intro wf_inv_image wf_lex_prod wf_less_than)
next
  fix g :: "'a graph" and seen seen' :: "'a set" and cur queue
  assume new: "cur \<notin> seen" and seen': "seen' = insert cur seen"
  let ?q = "queue @ filter (\<lambda>dep. dep \<notin> seen') (succs g cur)"
  have "card ((set ?q \<union> targets g) - insert cur seen)
      < card ((set (cur # queue) \<union> targets g) - seen)"
    using new succs_targets [of g cur] by (intro card_Diff_insert_less) auto
  then show "((g, seen', ?q), g, seen, cur # queue) \<in> inv_image (less_than <*lex*> less_than)
      (\<lambda>(g, seen, queue). (card ((set queue \<union> targets g) - seen), length queue))"
    by (simp add: seen')
next
  fix g :: "'a graph" and seen :: "'a set" and cur queue
  assume "\<not> cur \<notin> seen"
  then have "(set (cur # queue) \<union> targets g) - seen = (set queue \<union> targets g) - seen" by auto
  then show "((g, seen, queue), g, seen, cur # queue) \<in> inv_image (less_than <*lex*> less_than)
      (\<lambda>(g, seen, queue). (card ((set queue \<union> targets g) - seen), length queue))"
    by (simp add: in_inv_image)
qed

lemma closure_loop_mono: "seen \<union> set queue \<subseteq> closure_loop g seen queue"
proof (induction g seen queue rule: closure_loop.induct)
  case (2 g seen cur queue)
  then show ?case by (cases "cur \<in> seen") (auto simp: Let_def)
qed simp

lemma closure_loop_sound:
  "closure_loop g seen queue \<subseteq> seen \<union> (edges g)\<^sup>* `` set queue"
proof (induction g seen queue rule: closure_loop.induct)
  case (2 g seen cur queue)
  show ?case
  proof (cases "cur \<in> seen")
    case True
    with "2.IH"(2) show ?thesis by auto
  next
    case False
    let ?q = "queue @ filter (\<lambda>dep. dep \<notin> insert cur seen) (succs g cur)"
    have step: "(cur, x) \<in> (edges g)\<^sup>*" if "(y, x) \<in> (edges g)\<^sup>*" "y \<in> set (succs g cur)" for x y
      using that by (meson converse_rtrancl_into_rtrancl in_edges)
    have "(edges g)\<^sup>* `` set ?q \<subseteq> (edges g)\<^sup>* `` set (cur # queue)"
    proof
      fix x assume "x \<in> (edges g)\<^sup>* `` set ?q"
      then obtain y where "(y, x) \<in> (edges g)\<^sup>*" "y \<in> set queue \<or> y \<in> set (succs g cur)"
        by auto
      with step show "x \<in> (edges g)\<^sup>* `` set (cur # queue)"
        by (metis Image_iff list.set_intros(1) list.set_intros(2))
    qed
    with "2.IH"(1) [OF False refl] False show ?thesis by (auto simp: Let_def)
  qed
qed simp

lemma closure_loop_closed:
  assumes "edges g `` seen \<subseteq> seen \<union> set queue"
  shows "edges g `` closure_loop g seen queue \<subseteq> closure_loop g seen queue"
  using assms
proof (induction g seen queue rule: closure_loop.induct)
  case (2 g seen cur queue)
  show ?case
  proof (cases "cur \<in> seen")
    case True
    with "2.prems" have "edges g `` seen \<subseteq> seen \<union> set queue" by auto
    with "2.IH"(2) True show ?thesis by simp
  next
    case False
    with "2.prems" have "edges g `` insert cur seen
        \<subseteq> insert cur seen \<union> set (queue @ filter (\<lambda>dep. dep \<notin> insert cur seen) (succs g cur))"
      by auto
    with "2.IH"(1) [OF False refl] False show ?thesis by (simp add: Let_def)
  qed
qed simp

text \<open>The nodes reached from the queue, exactly.\<close>

theorem closure_loop_reachable: "closure_loop g {} queue = (edges g)\<^sup>* `` set queue"
proof
  show "closure_loop g {} queue \<subseteq> (edges g)\<^sup>* `` set queue"
    using closure_loop_sound [of g "{}" queue] by simp
next
  have "edges g `` closure_loop g {} queue \<subseteq> closure_loop g {} queue"
    by (rule closure_loop_closed) simp
  then have "(edges g)\<^sup>* `` closure_loop g {} queue = closure_loop g {} queue"
    by (rule Image_closed_trancl)
  with closure_loop_mono [of "{}" queue g] show "(edges g)\<^sup>* `` set queue \<subseteq> closure_loop g {} queue"
    by blast
qed

section \<open>Marking when a node is put on the queue\<close>

text \<open>
  One pass over the labelled successors of a node: those not skipped and not marked yet
  are marked and returned in order.
\<close>

fun push_new :: "('a \<Rightarrow> bool) \<Rightarrow> ('a \<times> 'r) list \<Rightarrow> 'a set \<Rightarrow> 'a set \<times> ('a \<times> 'r) list" where
  "push_new skip [] marked = (marked, [])"
| "push_new skip ((d, r) # ds) marked =
     (if skip d \<or> d \<in> marked then push_new skip ds marked
      else (case push_new skip ds (insert d marked) of (m, new) \<Rightarrow> (m, (d, r) # new)))"

lemma push_new_marked:
  "fst (push_new skip ds marked) = marked \<union> {d \<in> fst ` set ds. \<not> skip d}"
proof (induction skip ds marked rule: push_new.induct)
  case (2 skip d r ds marked)
  show ?case
  proof (cases "skip d \<or> d \<in> marked")
    case False
    with "2"(2) show ?thesis by (cases "push_new skip ds (insert d marked)") force
  qed (use "2" in auto)
qed simp

lemma push_new_new:
  "fst ` set (snd (push_new skip ds marked)) = {d \<in> fst ` set ds. \<not> skip d} - marked"
proof (induction skip ds marked rule: push_new.induct)
  case (2 skip d r ds marked)
  then show ?case
    by (cases "skip d \<or> d \<in> marked"; cases "push_new skip ds (insert d marked)") auto
qed simp

lemma push_new_distinct: "distinct (map fst (snd (push_new skip ds marked)))"
proof (induction skip ds marked rule: push_new.induct)
  case (2 skip d r ds marked)
  show ?case
  proof (cases "skip d \<or> d \<in> marked")
    case False
    have "d \<notin> fst ` set (snd (push_new skip ds (insert d marked)))"
      unfolding push_new_new by blast
    with "2" False show ?thesis
      by (cases "push_new skip ds (insert d marked)") auto
  qed (use "2" in auto)
qed simp

lemma push_new_subset: "set (snd (push_new skip ds marked)) \<subseteq> set ds"
proof (induction skip ds marked rule: push_new.induct)
  case (2 skip d r ds marked)
  then show ?case
    by (cases "skip d \<or> d \<in> marked"; cases "push_new skip ds (insert d marked)") auto
qed simp

text \<open>The potential of a loop that marks when pushing: twice the unmarked nodes plus the queue.\<close>

lemma push_new_potential:
  assumes "finite U" "fst ` set ds \<subseteq> U" "push_new skip ds marked = (marked', new)"
  shows "2 * card (U - marked') + length (queue @ map fst new)
    < 2 * card (U - marked) + length (cur # queue)"
proof -
  let ?N = "fst ` set new"
  have N: "?N = {d \<in> fst ` set ds. \<not> skip d} - marked" and m: "marked' = marked \<union> ?N"
    using push_new_new [of skip ds marked] push_new_marked [of skip ds marked] assms(3) by auto
  then have sub: "?N \<subseteq> U - marked" using assms(2) by auto
  have fin: "finite (U - marked)" using assms(1) by simp
  have "length new = card ?N"
    using push_new_distinct [of skip ds marked] assms(3)
    by (metis distinct_card length_map list.set_map snd_conv)
  moreover have "U - marked' = (U - marked) - ?N" using m by blast
  then have "card (U - marked') = card (U - marked) - card ?N"
    using sub fin by (simp add: card_Diff_subset finite_subset)
  moreover have "card ?N \<le> card (U - marked)"
    using sub fin by (simp add: card_mono)
  ultimately show ?thesis by simp
qed

text \<open>
  The labelled neighbours of a node in a pair of graphs: first along \<open>bwd\<close>, then along
  \<open>fwd\<close>; a caller that follows one graph only passes the empty graph for the other.
\<close>

definition neighbours ::
  "('a \<Rightarrow> 'r) \<Rightarrow> ('a \<Rightarrow> 'r) \<Rightarrow> 'a graph \<Rightarrow> 'a graph \<Rightarrow> 'a \<Rightarrow> ('a \<times> 'r) list" where
  "neighbours label_rev label_fwd bwd fwd cur =
     map (\<lambda>d. (d, label_rev cur)) (succs bwd cur) @ map (\<lambda>d. (d, label_fwd cur)) (succs fwd cur)"

definition cascade_edges :: "'a graph \<Rightarrow> 'a graph \<Rightarrow> ('a \<Rightarrow> bool) \<Rightarrow> ('a \<times> 'a) set" where
  "cascade_edges bwd fwd skip = {(x, y). (x, y) \<in> edges bwd \<union> edges fwd \<and> \<not> skip y}"

lemma fst_neighbours: "fst ` set (neighbours lr lf bwd fwd x) = set (succs bwd x) \<union> set (succs fwd x)"
  by (force simp: neighbours_def)

lemma neighbours_targets: "fst ` set (neighbours lr lf bwd fwd x) \<subseteq> targets bwd \<union> targets fwd"
  unfolding fst_neighbours using succs_targets [of bwd x] succs_targets [of fwd x] by blast

lemma unskipped_neighbours:
  "{d \<in> fst ` set (neighbours lr lf bwd fwd x). \<not> skip d} = cascade_edges bwd fwd skip `` {x}"
  by (auto simp: fst_neighbours cascade_edges_def)

function cascade_loop ::
  "('a \<Rightarrow> 'r) \<Rightarrow> ('a \<Rightarrow> 'r) \<Rightarrow> 'a graph \<Rightarrow> 'a graph \<Rightarrow> ('a \<Rightarrow> bool) \<Rightarrow> 'a set \<Rightarrow> ('a \<times> 'r) list
     \<Rightarrow> 'a list \<Rightarrow> 'a set \<times> ('a \<times> 'r) list" where
  "cascade_loop lr lf bwd fwd skip marked reasons [] = (marked, reasons)"
| "cascade_loop lr lf bwd fwd skip marked reasons (cur # queue) =
     (case push_new skip (neighbours lr lf bwd fwd cur) marked of
        (marked', new) \<Rightarrow>
          cascade_loop lr lf bwd fwd skip marked' (fold (\<lambda>(d, r). AList.update d r) new reasons)
            (queue @ map fst new))"
  by pat_completeness auto
termination
proof (relation "measure (\<lambda>(lr, lf, bwd, fwd, skip, marked, reasons, queue).
    2 * card ((targets bwd \<union> targets fwd) - marked) + length queue)")
  fix lr lf :: "'a \<Rightarrow> 'r" and bwd fwd :: "'a graph" and skip marked
    and reasons :: "('a \<times> 'r) list" and cur queue
    and marked' :: "'a set" and new :: "('a \<times> 'r) list"
  assume p: "(marked', new) = push_new skip (neighbours lr lf bwd fwd cur) marked"
  have "2 * card ((targets bwd \<union> targets fwd) - marked') + length (queue @ map fst new)
      < 2 * card ((targets bwd \<union> targets fwd) - marked) + length (cur # queue)"
    by (rule push_new_potential [OF _ neighbours_targets]) (use p in simp_all)
  then show "((lr, lf, bwd, fwd, skip, marked', fold (\<lambda>(d, r). AList.update d r) new reasons,
        queue @ map fst new), lr, lf, bwd, fwd, skip, marked, reasons, cur # queue)
      \<in> measure (\<lambda>(lr, lf, bwd, fwd, skip, marked, reasons, queue).
        2 * card ((targets bwd \<union> targets fwd) - marked) + length queue)"
    by simp
qed simp

lemma push_new_cascade:
  assumes "push_new skip (neighbours lr lf bwd fwd cur) marked = (marked', new)"
  shows "marked' = marked \<union> cascade_edges bwd fwd skip `` {cur}"
    and "set (map fst new) = cascade_edges bwd fwd skip `` {cur} - marked"
  using assms push_new_marked [of skip "neighbours lr lf bwd fwd cur" marked]
    push_new_new [of skip "neighbours lr lf bwd fwd cur" marked]
  by (simp_all add: unskipped_neighbours)

lemma cascade_loop_mono:
  "marked \<subseteq> fst (cascade_loop lr lf bwd fwd skip marked reasons queue)"
proof (induction lr lf bwd fwd skip marked reasons queue rule: cascade_loop.induct)
  case (2 lr lf bwd fwd skip marked reasons cur queue)
  obtain m new where p: "push_new skip (neighbours lr lf bwd fwd cur) marked = (m, new)"
    by fastforce
  with "2" [OF p [symmetric]] push_new_cascade(1) [OF p] show ?case by auto
qed simp

lemma cascade_loop_sound:
  "fst (cascade_loop lr lf bwd fwd skip marked reasons queue)
     \<subseteq> marked \<union> (cascade_edges bwd fwd skip)\<^sup>* `` set queue"
proof (induction lr lf bwd fwd skip marked reasons queue rule: cascade_loop.induct)
  case (2 lr lf bwd fwd skip marked reasons cur queue)
  let ?E = "cascade_edges bwd fwd skip"
  obtain m new where p: "push_new skip (neighbours lr lf bwd fwd cur) marked = (m, new)"
    by fastforce
  have step: "?E\<^sup>* `` (?E `` {cur}) \<subseteq> ?E\<^sup>* `` {cur}"
    by (auto intro: converse_rtrancl_into_rtrancl)
  have "?E `` {cur} \<subseteq> ?E\<^sup>* `` {cur}" by auto
  with "2" [OF p [symmetric]] push_new_cascade [OF p] p step show ?case
    by auto (blast | metis Image_singleton_iff)+
qed simp

lemma cascade_loop_closed:
  assumes "cascade_edges bwd fwd skip `` (marked - set queue) \<subseteq> marked"
  shows "cascade_edges bwd fwd skip `` fst (cascade_loop lr lf bwd fwd skip marked reasons queue)
    \<subseteq> fst (cascade_loop lr lf bwd fwd skip marked reasons queue)"
  using assms
proof (induction lr lf bwd fwd skip marked reasons queue rule: cascade_loop.induct)
  case (2 lr lf bwd fwd skip marked reasons cur queue)
  obtain m new where p: "push_new skip (neighbours lr lf bwd fwd cur) marked = (m, new)"
    by fastforce
  have "cascade_edges bwd fwd skip `` (m - set (queue @ map fst new)) \<subseteq> m"
    using "2.prems" push_new_cascade [OF p] by auto
  with "2.IH" [OF p [symmetric]] p show ?case by simp
qed simp

theorem cascade_loop_reachable:
  "fst (cascade_loop lr lf bwd fwd skip (set queue) reasons queue)
     = (cascade_edges bwd fwd skip)\<^sup>* `` set queue"
proof
  show "fst (cascade_loop lr lf bwd fwd skip (set queue) reasons queue)
      \<subseteq> (cascade_edges bwd fwd skip)\<^sup>* `` set queue"
    using cascade_loop_sound [of lr lf bwd fwd skip "set queue" reasons queue] by auto
next
  let ?R = "fst (cascade_loop lr lf bwd fwd skip (set queue) reasons queue)"
  have "cascade_edges bwd fwd skip `` ?R \<subseteq> ?R"
    by (rule cascade_loop_closed) simp
  then have "(cascade_edges bwd fwd skip)\<^sup>* `` ?R = ?R" by (rule Image_closed_trancl)
  with cascade_loop_mono show "(cascade_edges bwd fwd skip)\<^sup>* `` set queue \<subseteq> ?R"
    by (metis Image_mono subset_refl)
qed

text \<open>Every node that the cascade adds gets a reason, and only those.\<close>

lemma dom_fold_update:
  "dom (map_of (fold (\<lambda>(d, r). AList.update d r) new reasons)) = dom (map_of reasons) \<union> fst ` set new"
  by (induction new arbitrary: reasons) (auto simp: update_conv)

lemma cascade_loop_reasons:
  "dom (map_of (snd (cascade_loop lr lf bwd fwd skip marked reasons queue)))
     = dom (map_of reasons) \<union> (fst (cascade_loop lr lf bwd fwd skip marked reasons queue) - marked)"
proof (induction lr lf bwd fwd skip marked reasons queue rule: cascade_loop.induct)
  case (2 lr lf bwd fwd skip marked reasons cur queue)
  obtain m new where p: "push_new skip (neighbours lr lf bwd fwd cur) marked = (m, new)"
    by fastforce
  let ?r = "fold (\<lambda>(d, r). AList.update d r) new reasons" and ?q = "queue @ map fst new"
  have IH: "dom (map_of (snd (cascade_loop lr lf bwd fwd skip m ?r ?q)))
      = dom (map_of ?r) \<union> (fst (cascade_loop lr lf bwd fwd skip m ?r ?q) - m)"
    using "2" [OF p [symmetric]] .
  have "m \<subseteq> fst (cascade_loop lr lf bwd fwd skip m ?r ?q)" by (rule cascade_loop_mono)
  moreover have "m = marked \<union> fst ` set new" "fst ` set new \<inter> marked = {}"
    using push_new_cascade [OF p] by auto
  ultimately show ?case using IH p by (simp add: dom_fold_update) blast
qed simp

section \<open>Searching for a broken node\<close>

text \<open>
  The loop of \<open>prune_broken_gc_roots\<close>: nodes are marked when put on the queue, and the
  search stops at the first node with a successor that is \<open>bad\<close>, or that has no successor
  list and is \<open>absent\<close>.
\<close>

function sound_loop ::
  "'a graph \<Rightarrow> ('a \<Rightarrow> bool) \<Rightarrow> ('a \<Rightarrow> bool) \<Rightarrow> 'a set \<Rightarrow> 'a list \<Rightarrow> bool" where
  "sound_loop g bad absent visited [] = True"
| "sound_loop g bad absent visited (cur # queue) =
     (case map_of g cur of
        Some deps \<Rightarrow>
          if list_ex bad deps then False
          else (case push_new (\<lambda>_. False) (map (\<lambda>d. (d, ())) deps) visited of
              (visited', new) \<Rightarrow> sound_loop g bad absent visited' (queue @ map fst new))
      | None \<Rightarrow> if absent cur then False else sound_loop g bad absent visited queue)"
  by pat_completeness auto
termination
proof (relation "measure (\<lambda>(g, bad, absent, visited, queue).
    2 * card (targets g - visited) + length queue)")
  fix g :: "'a graph" and bad absent :: "'a \<Rightarrow> bool" and visited cur queue deps
    and visited' :: "'a set" and new :: "('a \<times> unit) list"
  assume "map_of g cur = Some deps"
    and p: "(visited', new) = push_new (\<lambda>_. False) (map (\<lambda>d. (d, ())) deps) visited"
  then have "fst ` set (map (\<lambda>d. (d, ())) deps) \<subseteq> targets g"
    using succs_targets [of g cur] by (auto simp: succs_def)
  then have "2 * card (targets g - visited') + length (queue @ map fst new)
      < 2 * card (targets g - visited) + length (cur # queue)"
    by (rule push_new_potential [OF finite_targets]) (use p in simp)
  then show "((g, bad, absent, visited', queue @ map fst new), g, bad, absent, visited, cur # queue)
      \<in> measure (\<lambda>(g, bad, absent, visited, queue). 2 * card (targets g - visited) + length queue)"
    by simp
qed auto

definition broken :: "'a graph \<Rightarrow> ('a \<Rightarrow> bool) \<Rightarrow> ('a \<Rightarrow> bool) \<Rightarrow> 'a \<Rightarrow> bool" where
  "broken g bad absent x \<longleftrightarrow> (\<exists>d\<in>set (succs g x). bad d) \<or> (map_of g x = None \<and> absent x)"

lemma sound_loop_iff:
  assumes "set queue \<subseteq> visited"
    and "\<forall>x\<in>visited - set queue. \<not> broken g bad absent x \<and> set (succs g x) \<subseteq> visited"
  shows "sound_loop g bad absent visited queue
    \<longleftrightarrow> (\<forall>x\<in>(edges g)\<^sup>* `` visited. \<not> broken g bad absent x)"
  using assms
proof (induction g bad absent visited queue rule: sound_loop.induct)
  case (1 g bad absent visited)
  then have "edges g `` visited \<subseteq> visited" by (auto dest!: bspec)
  then have "(edges g)\<^sup>* `` visited = visited" by (rule Image_closed_trancl)
  with "1" show ?case by auto
next
  case (2 g bad absent visited cur queue)
  have cur: "cur \<in> (edges g)\<^sup>* `` visited" using "2.prems"(1) by auto
  show ?case
  proof (cases "map_of g cur")
    case None
    show ?thesis
    proof (cases "absent cur")
      case True
      with None cur show ?thesis by (auto simp: broken_def)
    next
      case False
      have "sound_loop g bad absent visited queue
          \<longleftrightarrow> (\<forall>x\<in>(edges g)\<^sup>* `` visited. \<not> broken g bad absent x)"
      proof (rule "2.IH"(1) [OF None False])
        show "set queue \<subseteq> visited" using "2.prems"(1) by simp
        show "\<forall>x\<in>visited - set queue. \<not> broken g bad absent x \<and> set (succs g x) \<subseteq> visited"
        proof
          fix x assume x: "x \<in> visited - set queue"
          have "\<not> broken g bad absent cur" "succs g cur = []"
            using None False by (simp_all add: broken_def succs_def)
          with x "2.prems"(2) show "\<not> broken g bad absent x \<and> set (succs g x) \<subseteq> visited"
            by (cases "x = cur") auto
        qed
      qed
      with None False show ?thesis by simp
    qed
  next
    case (Some deps)
    show ?thesis
    proof (cases "list_ex bad deps")
      case True
      then have "broken g bad absent cur" using Some by (auto simp: broken_def succs_def list_ex_iff)
      with True Some cur show ?thesis by auto
    next
      case False
      obtain v new where p: "push_new (\<lambda>_. False) (map (\<lambda>d. (d, ())) deps) visited = (v, new)"
        by fastforce
      have v: "v = visited \<union> set deps" and new: "fst ` set new = set deps - visited"
        using push_new_marked [of "\<lambda>_. False" "map (\<lambda>d. (d, ())) deps" visited]
          push_new_new [of "\<lambda>_. False" "map (\<lambda>d. (d, ())) deps" visited] p by force+
      have deps: "set deps = set (succs g cur)" using Some by (simp add: succs_def)
      have "sound_loop g bad absent v (queue @ map fst new)
          \<longleftrightarrow> (\<forall>x\<in>(edges g)\<^sup>* `` v. \<not> broken g bad absent x)"
      proof (rule "2.IH"(2) [OF Some False p [symmetric]])
        show "set (queue @ map fst new) \<subseteq> v" using "2.prems"(1) v new by auto
        show "\<forall>x\<in>v - set (queue @ map fst new).
            \<not> broken g bad absent x \<and> set (succs g x) \<subseteq> v"
        proof
          fix x assume x: "x \<in> v - set (queue @ map fst new)"
          have "\<not> broken g bad absent cur"
            using Some False deps by (auto simp: broken_def list_ex_iff)
          with x "2.prems"(2) v new deps
          show "\<not> broken g bad absent x \<and> set (succs g x) \<subseteq> v"
            by (cases "x = cur") auto
        qed
      qed
      moreover have "(edges g)\<^sup>* `` v = (edges g)\<^sup>* `` visited"
      proof
        have "set deps \<subseteq> edges g `` visited" using deps "2.prems"(1) by auto
        then have "(edges g)\<^sup>* `` set deps \<subseteq> (edges g)\<^sup>* `` visited"
          by (auto intro: converse_rtrancl_into_rtrancl)
        then show "(edges g)\<^sup>* `` v \<subseteq> (edges g)\<^sup>* `` visited" using v by auto
      qed (use v in auto)
      ultimately show ?thesis using Some False p by simp
    qed
  qed
qed

end
