(* ===== verification/Wildcard.thy ===== *)
theory Wildcard
  imports Rust_Str
begin

text \<open>
  The glob matcher of \<^verbatim>\<open>filter.rs\<close> (\<open>wildcard_match\<close>, \<open>matches_pattern\<close>): an iterative
  matcher that keeps one backtracking point, the last star seen. It is compared with the
  textbook recursive matcher \<open>glob\<close>.
\<close>

abbreviation star :: char where
  "star \<equiv> CHR ''*''"

abbreviation qmark :: char where
  "qmark \<equiv> CHR ''?''"

text \<open>
  The main loop on the indices of the source; \<open>None\<close> would be a loop that does not end.
  The result of the loop is \<open>Some None\<close> for the early \<open>return false\<close> and
  \<open>Some (Some p_idx)\<close> when the text is used up.
\<close>

partial_function (option) wildcard_loop ::
  "string \<Rightarrow> string \<Rightarrow> nat \<Rightarrow> nat \<Rightarrow> nat option \<Rightarrow> nat \<Rightarrow> nat option option" where
  "wildcard_loop p t p_idx t_idx star_idx match_idx =
     (if t_idx < length t
      then
        if p_idx < length p \<and> (p ! p_idx = qmark \<or> p ! p_idx = t ! t_idx)
        then wildcard_loop p t (p_idx + 1) (t_idx + 1) star_idx match_idx
        else if p_idx < length p \<and> p ! p_idx = star
        then wildcard_loop p t (p_idx + 1) t_idx (Some p_idx) t_idx
        else (case star_idx of
            Some s \<Rightarrow> wildcard_loop p t (s + 1) (match_idx + 1) star_idx (match_idx + 1)
          | None \<Rightarrow> Some None)
      else Some (Some p_idx))"

definition skip_stars :: "string \<Rightarrow> nat \<Rightarrow> nat" where
  "skip_stars p p_idx = p_idx + length (takeWhile (\<lambda>c. c = star) (drop p_idx p))"

definition wildcard_match :: "string \<Rightarrow> string \<Rightarrow> bool option" where
  "wildcard_match pattern text =
     map_option
       (\<lambda>r. case r of None \<Rightarrow> False | Some p_idx \<Rightarrow> skip_stars pattern p_idx = length pattern)
       (wildcard_loop pattern text 0 0 None 0)"

text \<open>That \<open>wildcard_match\<close> always returns is \<open>wildcard_match_returns\<close> below.\<close>

definition matches_pattern :: "string \<Rightarrow> string \<Rightarrow> bool" where
  "matches_pattern pattern text =
     (if contains_char star pattern \<or> contains_char qmark pattern
      then wildcard_match pattern text = Some True
      else contains_str pattern text)"

section \<open>The reference matcher\<close>

fun glob :: "string \<Rightarrow> string \<Rightarrow> bool" where
  "glob [] t = (t = [])"
| "glob (c # p) [] = (c = star \<and> glob p [])"
| "glob (c # p) (x # t) =
     (if c = star then glob p (x # t) \<or> glob (c # p) t
      else (c = qmark \<or> c = x) \<and> glob p t)"

lemma ex_le_Suc: "(\<exists>k\<le>Suc n. Q k) \<longleftrightarrow> Q 0 \<or> (\<exists>k\<le>n. Q (Suc k))"
proof
  assume "\<exists>k\<le>Suc n. Q k"
  then obtain k where "k \<le> Suc n" "Q k" by blast
  then show "Q 0 \<or> (\<exists>k\<le>n. Q (Suc k))" by (cases k) auto
qed (use Suc_le_mono in blast)

lemma glob_star: "glob (star # p) t \<longleftrightarrow> (\<exists>k\<le>length t. glob p (drop k t))"
  by (induction t) (simp_all add: ex_le_Suc)

lemma glob_only_stars: "glob p [] \<longleftrightarrow> (\<forall>c\<in>set p. c = star)"
  by (induction p) auto

text \<open>A star-free prefix of a pattern uses up exactly as many characters as it has.\<close>

lemma glob_star_free_prefix:
  "star \<notin> set a \<Longrightarrow> glob (a @ b) t \<Longrightarrow> length a \<le> length t \<and> glob b (drop (length a) t)"
proof (induction a arbitrary: t)
  case (Cons c a)
  then show ?case by (cases t) auto
qed simp

lemma length_takeWhile_all: "length (takeWhile P xs) = length xs \<longleftrightarrow> (\<forall>x\<in>set xs. P x)"
  by (induction xs) auto

lemma skip_stars_all:
  "i \<le> length p \<Longrightarrow> skip_stars p i = length p \<longleftrightarrow> (\<forall>c\<in>set (drop i p). c = star)"
  unfolding length_takeWhile_all [symmetric] skip_stars_def by auto

section \<open>The loop computes the reference matcher\<close>

text \<open>
  The backtracking point: the pattern between the last star and \<open>p_idx\<close> has no star and
  has been matched against the text from \<open>match_idx\<close> to \<open>t_idx\<close>.
\<close>

definition wildcard_inv :: "string \<Rightarrow> string \<Rightarrow> nat \<Rightarrow> nat \<Rightarrow> nat option \<Rightarrow> nat \<Rightarrow> bool" where
  "wildcard_inv p t p_idx t_idx star_idx match_idx \<longleftrightarrow>
     p_idx \<le> length p \<and> t_idx \<le> length t \<and> match_idx \<le> t_idx \<and>
     (\<forall>s. star_idx = Some s \<longrightarrow> s < p_idx \<and> p_idx + match_idx = s + 1 + t_idx
        \<and> star \<notin> set (take (p_idx - (s + 1)) (drop (s + 1) p)))"

text \<open>What is still possible: a match from here, or one that starts later after the last star.\<close>

definition wildcard_alt :: "string \<Rightarrow> string \<Rightarrow> nat option \<Rightarrow> nat \<Rightarrow> bool" where
  "wildcard_alt p t star_idx match_idx \<longleftrightarrow>
     (\<exists>s k. star_idx = Some s \<and> match_idx < k \<and> k \<le> length t \<and> glob (drop (s + 1) p) (drop k t))"

text \<open>An alternative of the last star leaves a match of the rest of the pattern further on.\<close>

lemma wildcard_alt_rest:
  assumes inv: "wildcard_inv p t p_idx t_idx star_idx match_idx"
    and alt: "wildcard_alt p t star_idx match_idx"
  obtains j where "t_idx < j" "j \<le> length t" "glob (drop p_idx p) (drop j t)"
proof -
  from alt obtain s k where s: "star_idx = Some s" and k: "match_idx < k" "k \<le> length t"
    and g: "glob (drop (s + 1) p) (drop k t)"
    by (auto simp: wildcard_alt_def)
  define a where "a = take (p_idx - (s + 1)) (drop (s + 1) p)"
  from inv s have sp: "s < p_idx" "p_idx \<le> length p" "p_idx + match_idx = s + 1 + t_idx"
    and free: "star \<notin> set a"
    by (auto simp: wildcard_inv_def a_def)
  have "a @ drop p_idx p = drop (s + 1) p"
    unfolding a_def using sp(1)
    by (metis Suc_eq_plus1 Suc_leI append_take_drop_id drop_drop le_add_diff_inverse2)
  with g have "length a \<le> length (drop k t)" "glob (drop p_idx p) (drop (length a) (drop k t))"
    using glob_star_free_prefix [OF free] by metis+
  moreover have "length a = p_idx - (s + 1)" using sp by (simp add: a_def)
  ultimately show ?thesis
    using sp k by (intro that [of "k + (p_idx - (s + 1))"]) (auto simp: add.commute)
qed

lemma wildcard_alt_Suc:
  assumes "match_idx < length t"
  shows "wildcard_alt p t (Some s) match_idx
    \<longleftrightarrow> glob (drop (s + 1) p) (drop (match_idx + 1) t) \<or> wildcard_alt p t (Some s) (match_idx + 1)"
    (is "?l \<longleftrightarrow> ?here \<or> ?later")
proof
  assume ?l
  then obtain k where k: "match_idx < k" "k \<le> length t" "glob (drop (s + 1) p) (drop k t)"
    by (auto simp: wildcard_alt_def)
  show "?here \<or> ?later"
  proof (cases "k = match_idx + 1")
    case True
    with k(3) show ?thesis by blast
  next
    case False
    with k have ?later by (auto simp: wildcard_alt_def intro!: exI [of _ k])
    then show ?thesis ..
  qed
next
  assume "?here \<or> ?later"
  then show ?l
  proof
    assume ?here
    with assms show ?l unfolding wildcard_alt_def
      by (intro exI [of _ s] exI [of _ "match_idx + 1"]) simp
  next
    assume ?later
    then show ?l unfolding wildcard_alt_def by (meson less_trans less_add_one)
  qed
qed

definition wildcard_answer :: "string \<Rightarrow> nat option option \<Rightarrow> bool \<Rightarrow> bool" where
  "wildcard_answer p r b \<longleftrightarrow>
     (\<exists>v. r = Some v \<and> (case v of None \<Rightarrow> \<not> b | Some i \<Rightarrow> i \<le> length p \<and> (skip_stars p i = length p) = b))"

text \<open>One lemma per branch of the loop body: the invariant is kept and the answer is the same.\<close>

lemma match_branch:
  assumes "wildcard_inv p t i j si m" "j < length t" "i < length p"
    "p ! i = qmark \<or> p ! i = t ! j" and no_star: "star \<notin> set t"
  shows "wildcard_inv p t (i + 1) (j + 1) si m"
    and "glob (drop i p) (drop j t) \<longleftrightarrow> glob (drop (i + 1) p) (drop (j + 1) t)"
proof -
  have c: "p ! i \<noteq> star" using assms(4) no_star nth_mem [OF assms(2)] by auto
  have "star \<notin> set (take (i + 1 - (s + 1)) (drop (s + 1) p))"
    if "si = Some s" for s
  proof -
    have "s < i" "star \<notin> set (take (i - (s + 1)) (drop (s + 1) p))"
      using assms(1) that by (auto simp: wildcard_inv_def)
    moreover have "take (i + 1 - (s + 1)) (drop (s + 1) p)
        = take (i - (s + 1)) (drop (s + 1) p) @ [p ! i]"
      using \<open>s < i\<close> assms(3) by (simp add: Suc_diff_Suc take_Suc_conv_app_nth
          flip: Suc_diff_Suc)
    ultimately show ?thesis using c by simp
  qed
  then show "wildcard_inv p t (i + 1) (j + 1) si m"
    using assms(1-3) by (auto simp: wildcard_inv_def)
  show "glob (drop i p) (drop j t) \<longleftrightarrow> glob (drop (i + 1) p) (drop (j + 1) t)"
    using c assms(2-4) by (auto simp: Cons_nth_drop_Suc [symmetric])
qed

lemma star_branch:
  assumes "wildcard_inv p t i j si m" "j < length t" "i < length p" "p ! i = star"
  shows "wildcard_inv p t (i + 1) j (Some i) j"
    and "glob (drop i p) (drop j t) \<or> wildcard_alt p t si m
      \<longleftrightarrow> glob (drop (i + 1) p) (drop j t) \<or> wildcard_alt p t (Some i) j"
proof -
  show "wildcard_inv p t (i + 1) j (Some i) j"
    using assms(2,3) by (simp add: wildcard_inv_def)
  have cur: "glob (drop i p) (drop j t) \<longleftrightarrow> (\<exists>k\<le>length t - j. glob (drop (i + 1) p) (drop (j + k) t))"
    using assms(3,4) glob_star [of "drop (i + 1) p" "drop j t"]
    by (simp add: Cons_nth_drop_Suc [symmetric] add.commute)
  have "(\<exists>k\<le>length t - j. glob (drop (i + 1) p) (drop (j + k) t))
      \<longleftrightarrow> glob (drop (i + 1) p) (drop j t) \<or> wildcard_alt p t (Some i) j"
  proof
    assume "\<exists>k\<le>length t - j. glob (drop (i + 1) p) (drop (j + k) t)"
    then obtain k where "k \<le> length t - j" "glob (drop (i + 1) p) (drop (j + k) t)" by blast
    then show "glob (drop (i + 1) p) (drop j t) \<or> wildcard_alt p t (Some i) j"
      using assms(2) by (cases "k = 0") (auto simp: wildcard_alt_def intro!: exI [of _ "j + k"])
  next
    assume "glob (drop (i + 1) p) (drop j t) \<or> wildcard_alt p t (Some i) j"
    then show "\<exists>k\<le>length t - j. glob (drop (i + 1) p) (drop (j + k) t)"
    proof
      assume "wildcard_alt p t (Some i) j"
      then obtain k where "j < k" "k \<le> length t" "glob (drop (i + 1) p) (drop k t)"
        by (auto simp: wildcard_alt_def)
      then show ?thesis by (intro exI [of _ "k - j"]) auto
    qed (intro exI [of _ 0], simp)
  qed
  moreover have "glob (drop i p) (drop j t)" if alt: "wildcard_alt p t si m"
  proof -
    obtain k where k: "j < k" "k \<le> length t" "glob (drop i p) (drop k t)"
      by (rule wildcard_alt_rest [OF assms(1) alt])
    have dp: "drop i p = star # drop (i + 1) p" using assms(3,4) by (simp add: Cons_nth_drop_Suc [symmetric])
    then obtain l where "l \<le> length t - k" "glob (drop (i + 1) p) (drop (k + l) t)"
      using k(3) glob_star [of "drop (i + 1) p" "drop k t"] by (auto simp: add.commute)
    then show ?thesis unfolding cur using k(1,2) by (intro exI [of _ "k - j + l"]) auto
  qed
  ultimately show "glob (drop i p) (drop j t) \<or> wildcard_alt p t si m
      \<longleftrightarrow> glob (drop (i + 1) p) (drop j t) \<or> wildcard_alt p t (Some i) j"
    using cur by blast
qed

lemma mismatch_branch:
  assumes "j < length t" "\<not> (i < length p \<and> (p ! i = qmark \<or> p ! i = t ! j))"
    "\<not> (i < length p \<and> p ! i = star)"
  shows "\<not> glob (drop i p) (drop j t)"
proof (cases "i < length p")
  case True
  with assms show ?thesis by (auto simp: Cons_nth_drop_Suc [symmetric])
qed (use assms(1) in simp)

lemma end_branch:
  assumes "wildcard_inv p t i (length t) si m"
  shows "\<not> wildcard_alt p t si m"
  by (metis assms linorder_not_less wildcard_alt_rest)

theorem wildcard_loop_correct:
  assumes no_star: "star \<notin> set t" and "wildcard_inv p t i j si m"
  shows "wildcard_answer p (wildcard_loop p t i j si m)
    (glob (drop i p) (drop j t) \<or> wildcard_alt p t si m)"
  using assms(2)
proof (induction "(length t - m) * (length p + 1) + (length p - i)" arbitrary: i j si m
    rule: less_induct)
  case (less i m j si)
  note inv = less.prems
  show ?case
  proof (cases "j < length t")
    case j: True
    show ?thesis
    proof (cases "i < length p \<and> (p ! i = qmark \<or> p ! i = t ! j)")
      case True
      then have "wildcard_answer p (wildcard_loop p t (i + 1) (j + 1) si m)
          (glob (drop (i + 1) p) (drop (j + 1) t) \<or> wildcard_alt p t si m)"
        using inv j no_star by (intro less.hyps match_branch) auto
      with True j inv no_star show ?thesis
        by (subst wildcard_loop.simps) (simp add: match_branch(2))
    next
      case nomatch: False
      show ?thesis
      proof (cases "i < length p \<and> p ! i = star")
        case True
        have "(length t - j) * (length p + 1) \<le> (length t - m) * (length p + 1)"
          using inv by (intro mult_right_mono) (auto simp: wildcard_inv_def)
        then have "wildcard_answer p (wildcard_loop p t (i + 1) j (Some i) j)
            (glob (drop (i + 1) p) (drop j t) \<or> wildcard_alt p t (Some i) j)"
          using inv j True by (intro less.hyps star_branch) auto
        with True j nomatch inv show ?thesis
          by (subst wildcard_loop.simps) (simp add: star_branch(2))
      next
        case nostar: False
        have fail: "\<not> glob (drop i p) (drop j t)" by (rule mismatch_branch) fact+
        show ?thesis
        proof (cases si)
          case None
          then show ?thesis using j nomatch nostar fail
            by (subst wildcard_loop.simps) (auto simp: wildcard_answer_def wildcard_alt_def)
        next
          case (Some s)
          have m: "m < length t" "s < length p"
            using inv j Some by (auto simp: wildcard_inv_def)
          have inv': "wildcard_inv p t (s + 1) (m + 1) si (m + 1)"
            using m Some by (simp add: wildcard_inv_def)
          have "length t - m = Suc (length t - (m + 1))" using m by simp
          then have "wildcard_answer p (wildcard_loop p t (s + 1) (m + 1) si (m + 1))
              (glob (drop (s + 1) p) (drop (m + 1) t) \<or> wildcard_alt p t si (m + 1))"
            using m by (intro less.hyps inv') auto
          with j nomatch nostar fail Some m show ?thesis
            by (subst wildcard_loop.simps) (auto simp: wildcard_alt_Suc)
        qed
      qed
    qed
  next
    case False
    with inv have j: "j = length t" and i: "i \<le> length p" by (auto simp: wildcard_inv_def)
    with inv have "\<not> wildcard_alt p t si m" by (auto dest: end_branch)
    with j i show ?thesis
      by (subst wildcard_loop.simps)
        (simp add: wildcard_answer_def glob_only_stars skip_stars_all)
  qed
qed

text \<open>On a text without a star the matcher returns, and returns what the reference says.\<close>

lemma wildcard_match_glob:
  assumes "star \<notin> set text"
  shows "wildcard_match pattern text = Some (glob pattern text)"
proof -
  have "wildcard_inv pattern text 0 0 None 0" by (simp add: wildcard_inv_def)
  from wildcard_loop_correct [OF assms this]
  show ?thesis
    by (auto simp: wildcard_answer_def wildcard_match_def wildcard_alt_def split: option.splits)
qed

section \<open>The loop ends on every text\<close>

lemma wildcard_loop_returns:
  assumes "i \<le> length p" "j \<le> length t" "m \<le> j" "\<And>s. si = Some s \<Longrightarrow> s < length p"
  shows "\<exists>r. wildcard_loop p t i j si m = Some r"
  using assms
proof (induction "(length t - m) * (length p + 1) + (length p - i)" arbitrary: i j si m
    rule: less_induct)
  case (less i m j si)
  have le: "(length t - j) * (length p + 1) \<le> (length t - m) * (length p + 1)"
    using less.prems(3) by (intro mult_right_mono) auto
  have dec: "(length t - (m + 1)) * (length p + 1) + (length p - (s + 1))
      < (length t - m) * (length p + 1) + (length p - i)" if "j < length t" for s
  proof -
    have "length t - m = Suc (length t - (m + 1))" using that less.prems(3) by simp
    then show ?thesis by simp
  qed
  have 1: "\<exists>r. wildcard_loop p t (i + 1) (j + 1) si m = Some r" if "j < length t" "i < length p"
    using that less.prems by (intro less.hyps) auto
  have 2: "\<exists>r. wildcard_loop p t (i + 1) j (Some i) j = Some r" if "j < length t" "i < length p"
    using that less.prems le by (intro less.hyps) auto
  have 3: "\<exists>r. wildcard_loop p t (s + 1) (m + 1) si (m + 1) = Some r"
    if "j < length t" "si = Some s" for s
    by (rule less.hyps [OF dec [OF that(1)]]) (use that less.prems in auto)
  show ?case
    using 1 2 3 by (subst wildcard_loop.simps) (auto split: option.split)
qed

lemma wildcard_match_returns: "\<exists>b. wildcard_match pattern text = Some b"
  using wildcard_loop_returns [of 0 pattern 0 "text" 0 None]
  by (auto simp: wildcard_match_def)

section \<open>Properties\<close>

text \<open>
  C23. On a text without a star, a pattern with wildcards matches exactly when the recursive
  glob matcher accepts it, and a pattern without wildcards matches exactly the texts that
  contain it.
\<close>

theorem matches_pattern_correct:
  assumes "star \<notin> set text"
  shows "matches_pattern pattern text \<longleftrightarrow>
    (if star \<in> set pattern \<or> qmark \<in> set pattern then glob pattern text
     else (\<exists>a b. text = a @ pattern @ b))"
  using wildcard_match_glob [OF assms, of pattern]
  by (simp add: matches_pattern_def contains_char_def contains_str_iff)

theorem matches_pattern_correct_witness:
  "star \<notin> set ''hello-2.12.drv'' \<and> matches_pattern ''h?llo-*.drv'' ''hello-2.12.drv''"
proof -
  have "star \<notin> set ''hello-2.12.drv''" by simp
  from this matches_pattern_correct [OF this, of "''h?llo-*.drv''"] show ?thesis by simp
qed

text \<open>
  C24. The backtracking loop of the matcher ends on every pattern and text, and its verdict is
  \<open>matches_pattern\<close>: the index pair never runs into an endless backtrack.
\<close>

theorem wildcard_match_terminates:
  "\<exists>b. wildcard_match pattern text = Some b
     \<and> (star \<in> set pattern \<or> qmark \<in> set pattern \<longrightarrow> matches_pattern pattern text = b)"
  using wildcard_match_returns [of pattern "text"]
  by (auto simp: matches_pattern_def contains_char_def)

theorem wildcard_match_terminates_witness:
  "\<exists>b. wildcard_match ''*ab*b'' ''aabab'' = Some b \<and> matches_pattern ''*ab*b'' ''aabab'' = b"
  using wildcard_match_terminates [of "''*ab*b''" "''aabab''"] by simp


end
