(* ===== verification/Cache_Filter.thy ===== *)
theory Cache_Filter
  imports Samples Graph_Search Wildcard
begin

text \<open>
  The selection engine of \<^verbatim>\<open>crates/nixcache-core/src/filter.rs\<close>: predicates over entries,
  the selector, and \<open>evaluate_cache_query\<close>, which builds the dependency graphs, computes
  the closure protected by the GC roots, selects the initial entries and expands them along
  the graph. \<open>rfc3339\<close> (crate \<open>chrono\<close>) reads a time stamp as an instant, \<open>show_dt\<close> prints
  one. Sums of sizes are \<open>u64\<close> additions that wrap, as in a release build.
\<close>

datatype cascade_mode = Exact | Dependents | Transitive | FullTree

datatype 't time_filter = Before 't | After 't | Between 't 't

datatype size_filter = MinBytes u64 | MaxBytes u64 | Range u64 u64

record 't filter_predicates =
  store_hashes :: "store_hash set"
  patterns :: "string list"
  systems :: "system_arch set"
  time_filter :: "'t time_filter option"
  size_filter :: "size_filter option"
  origin_jobs :: "string set"
  origin_runs :: "u64 set"

definition default_predicates :: "'t filter_predicates" where
  "default_predicates =
     \<lparr>store_hashes = {}, patterns = [], systems = {}, time_filter = None, size_filter = None,
      origin_jobs = {}, origin_runs = {}\<rparr>"

definition predicates_is_empty :: "'t filter_predicates \<Rightarrow> bool" where
  "predicates_is_empty p \<longleftrightarrow>
     store_hashes p = {} \<and> patterns p = [] \<and> systems p = {} \<and> time_filter p = None
     \<and> size_filter p = None \<and> origin_jobs p = {} \<and> origin_runs p = {}"

definition has_item_filters :: "'t filter_predicates \<Rightarrow> bool" where
  "has_item_filters p \<longleftrightarrow>
     store_hashes p \<noteq> {} \<or> patterns p \<noteq> [] \<or> time_filter p \<noteq> None
     \<or> size_filter p \<noteq> None \<or> origin_jobs p \<noteq> {} \<or> origin_runs p \<noteq> {}"

fun time_matched :: "'t::linorder time_filter \<Rightarrow> 't \<Rightarrow> bool" where
  "time_matched (Before dt) added = (added < dt)"
| "time_matched (After dt) added = (added > dt)"
| "time_matched (Between start end') added = (start \<le> added \<and> added \<le> end')"

fun size_matched :: "size_filter \<Rightarrow> u64 \<Rightarrow> bool" where
  "size_matched (MinBytes lo) n = (lo \<le> n)"
| "size_matched (MaxBytes hi) n = (n \<le> hi)"
| "size_matched (Range lo hi) n = (lo \<le> n \<and> n \<le> hi)"

definition pattern_hit :: "string \<Rightarrow> index_entry \<Rightarrow> bool" where
  "pattern_hit pat e \<longleftrightarrow>
     matches_pattern pat (entry_name e)
     \<or> matches_pattern pat (meta_store_path (entry_meta e))
     \<or> matches_pattern pat (meta_nar_basename (entry_meta e))"

definition evaluate_entry ::
  "(string \<Rightarrow> 't::linorder option) \<Rightarrow> 't filter_predicates \<Rightarrow> store_hash \<Rightarrow> index_entry
     \<Rightarrow> string list option" where
  "evaluate_entry rfc3339 p hash e =
     (if systems p \<noteq> {} \<and> \<not> is_some_and (\<lambda>sys. sys \<in> systems p) (entry_system e) then None
      else if \<not> has_item_filters p then Some [''System Architecture Match'']
      else
        (let reasons =
           (if hash \<in> store_hashes p then [''Explicit Hash Match''] else [])
           @ (if list_ex (\<lambda>pat. pattern_hit pat e) (patterns p) then [''Pattern Match''] else [])
           @ (case time_filter p of
                None \<Rightarrow> []
              | Some tf \<Rightarrow>
                  (case rfc3339 (entry_added e) of
                     None \<Rightarrow> []
                   | Some added \<Rightarrow> if time_matched tf added then [''Time Range Match''] else []))
           @ (case size_filter p of
                None \<Rightarrow> []
              | Some sf \<Rightarrow>
                  if size_matched sf (entry_nar_size e) then [''Size Threshold Match''] else [])
           @ (case entry_origin e of
                None \<Rightarrow> []
              | Some origin \<Rightarrow>
                  (if origin_jobs p \<noteq> {}
                     \<and> is_some_and (\<lambda>job_id. job_id \<in> origin_jobs p) (origin_job_id origin)
                   then [''Origin Job Match''] else [])
                  @ (if \<exists>run_id\<in>origin_runs p. origin_run_id origin = Some run_id
                     then [''Origin Run Match''] else []))
         in if reasons = [] then None else Some reasons))"

definition bracketed :: "string \<Rightarrow> string list \<Rightarrow> string" where
  "bracketed key items = key @ ''=['' @ join '', '' items @ '']''"

definition system_names :: "system_arch set \<Rightarrow> string list" where
  "system_names s = sorted_list_of_set (system_as_str ` s)"

definition predicates_describe :: "('t \<Rightarrow> string) \<Rightarrow> 't filter_predicates \<Rightarrow> string list" where
  "predicates_describe show_dt p =
     (if store_hashes p = {} then []
      else [''hashes=['' @ show_nat (card (store_hashes p)) @ '' items]''])
     @ (if patterns p = [] then [] else [bracketed ''patterns'' (patterns p)])
     @ (if systems p = {} then [] else [bracketed ''systems'' (system_names (systems p))])
     @ (case time_filter p of
          None \<Rightarrow> []
        | Some (Before dt) \<Rightarrow> [''older_than='' @ show_dt dt]
        | Some (After dt) \<Rightarrow> [''newer_than='' @ show_dt dt]
        | Some (Between start end') \<Rightarrow> [bracketed ''time_between'' [show_dt start, show_dt end']])
     @ (case size_filter p of
          None \<Rightarrow> []
        | Some (MinBytes lo) \<Rightarrow> [''min_size='' @ show_u64 lo @ ''B'']
        | Some (MaxBytes hi) \<Rightarrow> [''max_size='' @ show_u64 hi @ ''B'']
        | Some (Range lo hi) \<Rightarrow>
            [bracketed ''size_range'' [show_u64 lo @ ''B'', show_u64 hi @ ''B'']])
     @ (if origin_jobs p = {} then []
        else [bracketed ''origin_jobs'' (sorted_list_of_set (origin_jobs p))])
     @ (if origin_runs p = {} then []
        else [bracketed ''origin_runs'' (sorted_list_of_set (show_u64 ` origin_runs p))])"

datatype 't selection_scope =
    SelectAll "system_arch set"
  | Filtered "'t filter_predicates"
  | SelectNone

record 't cache_selector =
  scope :: "'t selection_scope"
  cascade_mode :: cascade_mode
  protect_gc_roots :: bool

definition selector_all :: "system_arch set \<Rightarrow> 't cache_selector" where
  "selector_all s = \<lparr>scope = SelectAll s, cascade_mode = Exact, protect_gc_roots = False\<rparr>"

definition selector_filtered :: "'t filter_predicates \<Rightarrow> 't cache_selector" where
  "selector_filtered p = \<lparr>scope = Filtered p, cascade_mode = Exact, protect_gc_roots = False\<rparr>"

definition selector_none :: "'t cache_selector" where
  "selector_none = \<lparr>scope = SelectNone, cascade_mode = Exact, protect_gc_roots = False\<rparr>"

definition with_cascade :: "cascade_mode \<Rightarrow> 't cache_selector \<Rightarrow> 't cache_selector" where
  "with_cascade m s = s\<lparr>cascade_mode := m\<rparr>"

definition with_protect_gc_roots :: "bool \<Rightarrow> 't cache_selector \<Rightarrow> 't cache_selector" where
  "with_protect_gc_roots b s = s\<lparr>protect_gc_roots := b\<rparr>"

definition target_systems :: "'t cache_selector \<Rightarrow> system_arch set option" where
  "target_systems s =
     (case scope s of
        SelectAll sys \<Rightarrow> if sys = {} then None else Some sys
      | Filtered p \<Rightarrow> if systems p = {} then None else Some (systems p)
      | SelectNone \<Rightarrow> None)"

fun cascade_name :: "cascade_mode \<Rightarrow> string" where
  "cascade_name Exact = ''exact''"
| "cascade_name Dependents = ''dependents''"
| "cascade_name Transitive = ''transitive''"
| "cascade_name FullTree = ''fulltree''"

definition selector_describe :: "('t \<Rightarrow> string) \<Rightarrow> 't cache_selector \<Rightarrow> string" where
  "selector_describe show_dt s =
     (let parts =
        (case scope s of
           SelectAll sys \<Rightarrow>
             [''all=true''] @ (if sys = {} then [] else [bracketed ''systems'' (system_names sys)])
         | Filtered p \<Rightarrow> predicates_describe show_dt p
         | SelectNone \<Rightarrow> [''none=true''])
        @ (if protect_gc_roots s then [''protect_gc_roots=true''] else [])
        @ (if cascade_mode s \<noteq> Exact then [''cascade='' @ cascade_name (cascade_mode s)] else [])
      in if parts = [] then ''Default Scope (Exact Match / All)'' else join '', '' parts)"

section \<open>The query\<close>

type_synonym entries = "(store_hash \<times> index_entry) list"
type_synonym roots = "(system_arch \<times> store_hash list) list"

record cache_query_result =
  matched_entries :: entries
  unmatched_entries :: entries
  initial_matched_hashes :: "store_hash list"
  final_matched_hashes :: "store_hash list"
  reason_map :: "(store_hash \<times> string) list"
  matched_bytes :: u64
  unmatched_bytes :: u64
  active_gc_roots :: roots

definition add_dependents ::
  "store_hash \<Rightarrow> store_hash list \<Rightarrow> store_hash graph \<Rightarrow> store_hash graph" where
  "add_dependents hash deps bwd =
     fold (\<lambda>dep g. AList.update dep (succs g dep @ [hash]) g) deps bwd"

definition entry_references :: "index_entry \<Rightarrow> core_error + store_hash list" where
  "entry_references e = map_err CoreType (reference_hashes (entry_meta e))"

definition graph_step ::
  "store_hash graph \<times> store_hash graph \<Rightarrow> store_hash \<times> index_entry
     \<Rightarrow> core_error + store_hash graph \<times> store_hash graph" where
  "graph_step gs he =
     (case gs of (fwd, bwd) \<Rightarrow> case he of (hash, e) \<Rightarrow>
        result_bind (entry_references e) (\<lambda>deps.
          Inr (AList.update hash deps fwd, add_dependents hash deps bwd)))"

definition build_graphs :: "entries \<Rightarrow> core_error + store_hash graph \<times> store_hash graph" where
  "build_graphs entries = try_fold graph_step ([], []) entries"

definition active_roots :: "roots \<Rightarrow> 't cache_selector \<Rightarrow> roots" where
  "active_roots gc_roots s =
     fold (\<lambda>(sys, rs) acc.
         if is_none_or (\<lambda>ts. sys \<in> ts) (target_systems s) then AList.update sys rs acc else acc)
       gc_roots []"

definition protected_reachable ::
  "store_hash graph \<Rightarrow> roots \<Rightarrow> 't cache_selector \<Rightarrow> store_hash set" where
  "protected_reachable fwd active s =
     (if protect_gc_roots s then closure_loop fwd {} (concat (map snd active)) else {})"

definition initial_reason ::
  "(string \<Rightarrow> 't::linorder option) \<Rightarrow> 't cache_selector \<Rightarrow> store_hash set \<Rightarrow> store_hash
     \<Rightarrow> index_entry \<Rightarrow> string option" where
  "initial_reason rfc3339 s prot hash e =
     (if protect_gc_roots s \<and> hash \<in> prot then None
      else
        (case scope s of
           SelectAll sys \<Rightarrow>
             if sys \<noteq> {} \<and> \<not> is_some_and (\<lambda>x. x \<in> sys) (entry_system e) then None
             else Some (if protect_gc_roots s then ''Select All (Unreachable Roots)''
                        else ''Select All'')
         | Filtered p \<Rightarrow> map_option (join '', '') (evaluate_entry rfc3339 p hash e)
         | SelectNone \<Rightarrow> None))"

definition initial_matches ::
  "(string \<Rightarrow> 't::linorder option) \<Rightarrow> 't cache_selector \<Rightarrow> store_hash set \<Rightarrow> entries
     \<Rightarrow> (store_hash \<times> string) list" where
  "initial_matches rfc3339 s prot entries =
     List.map_filter
       (\<lambda>(hash, e). map_option (\<lambda>r. (hash, r)) (initial_reason rfc3339 s prot hash e)) entries"

definition cascade_from ::
  "cascade_mode \<Rightarrow> store_hash graph \<Rightarrow> store_hash graph \<Rightarrow> (store_hash \<Rightarrow> bool)
     \<Rightarrow> (store_hash \<times> string) list \<Rightarrow> store_hash set \<times> (store_hash \<times> string) list" where
  "cascade_from mode bwd fwd skip initial =
     (let run = (\<lambda>b f. cascade_loop
        (\<lambda>cur. ''Cascade dependent of '' @ as_str cur)
        (\<lambda>cur. ''Cascade transitive dependency of '' @ as_str cur)
        b f skip (fst ` set initial) initial (map fst initial))
      in case mode of
           Exact \<Rightarrow> (fst ` set initial, initial)
         | Dependents \<Rightarrow> run bwd []
         | Transitive \<Rightarrow> run [] fwd
         | FullTree \<Rightarrow> run bwd fwd)"

definition evaluate_cache_query ::
  "(string \<Rightarrow> 't::linorder option) \<Rightarrow> entries \<Rightarrow> roots \<Rightarrow> 't cache_selector
     \<Rightarrow> core_error + cache_query_result" where
  "evaluate_cache_query rfc3339 entries gc_roots s =
     result_bind (build_graphs entries) (\<lambda>(fwd, bwd).
       let active = active_roots gc_roots s;
           prot = protected_reachable fwd active s;
           initial = initial_matches rfc3339 s prot entries;
           skip = (\<lambda>dep. protect_gc_roots s \<and> dep \<in> prot)
       in case cascade_from (cascade_mode s) bwd fwd skip initial of (total_matched, reasons) \<Rightarrow>
         let matched = filter (\<lambda>(hash, _). hash \<in> total_matched) entries;
             unmatched = filter (\<lambda>(hash, _). hash \<notin> total_matched) entries
         in Inr \<lparr>matched_entries = matched, unmatched_entries = unmatched,
              initial_matched_hashes = sort (map fst initial),
              final_matched_hashes = sort (map fst matched),
              reason_map = reasons,
              matched_bytes = sum_list (map (\<lambda>(_, e). entry_nar_size e) matched),
              unmatched_bytes = sum_list (map (\<lambda>(_, e). entry_nar_size e) unmatched),
              active_gc_roots = active\<rparr>)"

definition arch_roots :: "system_arch \<Rightarrow> store_hash list \<Rightarrow> roots" where
  "arch_roots system gc_roots = (if gc_roots = [] then [] else [(system, gc_roots)])"

definition evaluate_arch_cache_query ::
  "(string \<Rightarrow> 't::linorder option) \<Rightarrow> entries \<Rightarrow> store_hash list \<Rightarrow> system_arch
     \<Rightarrow> 't cache_selector \<Rightarrow> core_error + cache_query_result" where
  "evaluate_arch_cache_query rfc3339 entries gc_roots system s =
     evaluate_cache_query rfc3339 entries (arch_roots system gc_roots) s"

section \<open>What the query computes\<close>

text \<open>
  The dependency relation of a set of entries, and the sets the query is about, stated
  without loops: the entries protected by the roots of the selected systems, the initial
  selection, the relation followed by the cascade, and the selection it leads to.
\<close>

definition dep_edges :: "entries \<Rightarrow> (store_hash \<times> store_hash) set" where
  "dep_edges entries =
     {(h, d). \<exists>e ds. map_of entries h = Some e \<and> entry_references e = Inr ds \<and> d \<in> set ds}"

definition root_hashes :: "roots \<Rightarrow> 't cache_selector \<Rightarrow> store_hash set" where
  "root_hashes gc_roots s =
     {r. \<exists>sys rs. (sys, rs) \<in> set gc_roots \<and> is_none_or (\<lambda>ts. sys \<in> ts) (target_systems s)
        \<and> r \<in> set rs}"

definition protected_set :: "entries \<Rightarrow> roots \<Rightarrow> 't cache_selector \<Rightarrow> store_hash set" where
  "protected_set entries gc_roots s =
     (if protect_gc_roots s then (dep_edges entries)\<^sup>* `` root_hashes gc_roots s else {})"

definition initial_set ::
  "(string \<Rightarrow> 't::linorder option) \<Rightarrow> entries \<Rightarrow> roots \<Rightarrow> 't cache_selector \<Rightarrow> store_hash set" where
  "initial_set rfc3339 entries gc_roots s =
     {h. \<exists>e. (h, e) \<in> set entries
        \<and> initial_reason rfc3339 s (protected_set entries gc_roots s) h e \<noteq> None}"

fun mode_edges :: "cascade_mode \<Rightarrow> entries \<Rightarrow> (store_hash \<times> store_hash) set" where
  "mode_edges Exact entries = {}"
| "mode_edges Dependents entries = (dep_edges entries)\<inverse>"
| "mode_edges Transitive entries = dep_edges entries"
| "mode_edges FullTree entries = (dep_edges entries)\<inverse> \<union> dep_edges entries"

definition selected_set ::
  "(string \<Rightarrow> 't::linorder option) \<Rightarrow> entries \<Rightarrow> roots \<Rightarrow> 't cache_selector \<Rightarrow> store_hash set" where
  "selected_set rfc3339 entries gc_roots s =
     {(x, y) \<in> mode_edges (cascade_mode s) entries. y \<notin> protected_set entries gc_roots s}\<^sup>*
       `` initial_set rfc3339 entries gc_roots s"

subsection \<open>The graphs\<close>

lemma succs_update: "succs (AList.update h ds g) x = (if x = h then ds else succs g x)"
  by (simp add: succs_def update_conv)

lemma edges_add_dependents: "edges (add_dependents h ds g) = edges g \<union> {(d, h) |d. d \<in> set ds}"
proof (induction ds arbitrary: g)
  case (Cons d ds)
  have "edges (AList.update d (succs g d @ [h]) g) = insert (d, h) (edges g)"
    by (auto simp: edges_def succs_update split: if_splits)
  with Cons [of "AList.update d (succs g d @ [h]) g"] show ?case
    by (auto simp: add_dependents_def)
qed (simp add: add_dependents_def)

lemma dep_edges_snoc:
  "h \<notin> fst ` set entries \<Longrightarrow> entry_references e = Inr ds \<Longrightarrow>
   dep_edges (entries @ [(h, e)]) = dep_edges entries \<union> {(h, d) |d. d \<in> set ds}"
  by (auto simp: dep_edges_def map_add_Some_iff map_of_eq_None_iff [symmetric] split: if_splits)

lemma build_graphs_correct:
  assumes "distinct (map fst entries)" "build_graphs entries = Inr (fwd, bwd)"
  shows "edges fwd = dep_edges entries \<and> edges bwd = (dep_edges entries)\<inverse>
    \<and> dom (map_of fwd) = fst ` set entries"
  using assms
proof (induction entries arbitrary: fwd bwd rule: rev_induct)
  case Nil
  then show ?case by (auto simp: build_graphs_def edges_def succs_def dep_edges_def)
next
  case (snoc he entries)
  obtain h e where he: "he = (h, e)" by fastforce
  from snoc.prems(2) obtain f b ds where fb: "build_graphs entries = Inr (f, b)"
    and ds: "entry_references e = Inr ds"
    and f: "fwd = AList.update h ds f" and b: "bwd = add_dependents h ds b"
    by (auto simp: build_graphs_def try_fold_append graph_step_def he result_bind_eq_Inr)
  have fresh: "h \<notin> fst ` set entries" using snoc.prems(1) he by auto
  have IH: "edges f = dep_edges entries" "edges b = (dep_edges entries)\<inverse>"
    "dom (map_of f) = fst ` set entries"
    using snoc.IH [OF _ fb] snoc.prems(1) by auto
  then have "succs f h = []" using fresh by (auto simp: succs_def split: option.split)
  then have "edges fwd = edges f \<union> {(h, d) |d. d \<in> set ds}"
    by (auto simp: edges_def f succs_update split: if_splits)
  moreover have "dom (map_of fwd) = insert h (dom (map_of f))"
    by (simp add: f update_conv')
  ultimately show ?case
    using IH he dep_edges_snoc [OF fresh ds] by (auto simp: b edges_add_dependents)
qed

lemma build_graphs_ok_iff:
  "(\<exists>g. build_graphs entries = Inr g) \<longleftrightarrow> (\<forall>(h, e)\<in>set entries. \<exists>ds. entry_references e = Inr ds)"
proof (induction entries rule: rev_induct)
  case (snoc he entries)
  then show ?case
    by (cases he)
      (auto simp: build_graphs_def try_fold_append graph_step_def result_bind_eq_Inr)
qed (simp add: build_graphs_def)

subsection \<open>The protected closure and the initial selection\<close>

lemma update_fresh: "k \<notin> fst ` set al \<Longrightarrow> AList.update k v al = al @ [(k, v)]"
  by (induction al) auto

lemma active_roots_filter:
  assumes "distinct (map fst gc_roots)"
  shows "active_roots gc_roots s
    = filter (\<lambda>(sys, _). is_none_or (\<lambda>ts. sys \<in> ts) (target_systems s)) gc_roots"
proof -
  let ?P = "\<lambda>sys. is_none_or (\<lambda>ts. sys \<in> ts) (target_systems s)"
  have "fold (\<lambda>(sys, rs) acc. if ?P sys then AList.update sys rs acc else acc) xs acc
      = acc @ filter (\<lambda>(sys, _). ?P sys) xs" if "distinct (map fst acc @ map fst xs)" for xs acc
    using that
  proof (induction xs arbitrary: acc)
    case (Cons x xs)
    obtain k v where x: "x = (k, v)" by fastforce
    have "k \<notin> fst ` set acc" using Cons.prems x by auto
    then show ?case
      using Cons.prems x by (simp add: Cons.IH update_fresh)
  qed simp
  from this [of "[]" gc_roots] assms show ?thesis by (simp add: active_roots_def)
qed

lemma protected_reachable_eq:
  assumes "distinct (map fst gc_roots)" "edges fwd = dep_edges entries"
  shows "protected_reachable fwd (active_roots gc_roots s) s = protected_set entries gc_roots s"
proof -
  have "set (concat (map snd (active_roots gc_roots s))) = root_hashes gc_roots s"
    unfolding active_roots_filter [OF assms(1)] root_hashes_def by force
  then show ?thesis
    by (simp add: protected_reachable_def protected_set_def closure_loop_reachable assms(2))
qed

lemma set_initial_matches:
  "fst ` set (initial_matches rfc3339 s prot entries)
     = {h. \<exists>e. (h, e) \<in> set entries \<and> initial_reason rfc3339 s prot h e \<noteq> None}"
  by (force simp: initial_matches_def map_filter_def)

subsection \<open>The cascade\<close>

lemma cascade_edges_mode:
  assumes "edges bwd = (dep_edges entries)\<inverse>" "edges fwd = dep_edges entries"
  shows "cascade_edges bwd [] skip = {(x, y) \<in> mode_edges Dependents entries. \<not> skip y}"
    and "cascade_edges [] fwd skip = {(x, y) \<in> mode_edges Transitive entries. \<not> skip y}"
    and "cascade_edges bwd fwd skip = {(x, y) \<in> mode_edges FullTree entries. \<not> skip y}"
proof -
  have "edges ([] :: store_hash graph) = {}" by (auto simp: edges_def succs_def)
  then show "cascade_edges bwd [] skip = {(x, y) \<in> mode_edges Dependents entries. \<not> skip y}"
    and "cascade_edges [] fwd skip = {(x, y) \<in> mode_edges Transitive entries. \<not> skip y}"
    and "cascade_edges bwd fwd skip = {(x, y) \<in> mode_edges FullTree entries. \<not> skip y}"
    using assms by (simp_all add: cascade_edges_def)
qed

lemma cascade_from_set:
  assumes "edges bwd = (dep_edges entries)\<inverse>" "edges fwd = dep_edges entries"
  shows "fst (cascade_from mode bwd fwd skip initial)
    = {(x, y) \<in> mode_edges mode entries. \<not> skip y}\<^sup>* `` (fst ` set initial)"
proof -
  have loop: "fst (cascade_loop lr lf b f skip (fst ` set initial) initial (map fst initial))
      = (cascade_edges b f skip)\<^sup>* `` (fst ` set initial)" for lr lf b f
    using cascade_loop_reachable [of lr lf b f skip "map fst initial" initial] by simp
  show ?thesis
    by (cases mode)
      (simp_all add: cascade_from_def loop cascade_edges_mode [OF assms] del: mode_edges.simps(2-))
qed

lemma cascade_from_reasons:
  "dom (map_of (snd (cascade_from mode bwd fwd skip initial)))
     = fst (cascade_from mode bwd fwd skip initial)"
proof -
  have keys: "dom (map_of initial) = fst ` set initial" by (simp add: dom_map_of_conv_image_fst)
  have "dom (map_of (snd (cascade_loop lr lf b f skip (fst ` set initial) initial (map fst initial))))
      = fst (cascade_loop lr lf b f skip (fst ` set initial) initial (map fst initial))" for lr lf b f
    using cascade_loop_reasons [of lr lf b f skip "fst ` set initial" initial "map fst initial"]
      cascade_loop_mono [of "fst ` set initial" lr lf b f skip initial "map fst initial"] keys
    by blast
  then show ?thesis by (cases mode) (simp_all add: cascade_from_def keys)
qed

subsection \<open>The result of the query\<close>

lemma evaluate_cache_query_Inr:
  assumes entries: "distinct (map fst entries)" and roots: "distinct (map fst gc_roots)"
    and res: "evaluate_cache_query rfc3339 entries gc_roots s = Inr r"
  shows "matched_entries r
        = filter (\<lambda>(h, _). h \<in> selected_set rfc3339 entries gc_roots s) entries"
    and "unmatched_entries r
        = filter (\<lambda>(h, _). h \<notin> selected_set rfc3339 entries gc_roots s) entries"
    and "final_matched_hashes r = sort (map fst (matched_entries r))"
    and "set (initial_matched_hashes r) = initial_set rfc3339 entries gc_roots s"
    and "dom (map_of (reason_map r)) = selected_set rfc3339 entries gc_roots s"
    and "matched_bytes r = sum_list (map (\<lambda>(_, e). entry_nar_size e) (matched_entries r))"
    and "unmatched_bytes r = sum_list (map (\<lambda>(_, e). entry_nar_size e) (unmatched_entries r))"
proof -
  let ?P = "protected_set entries gc_roots s"
  from res obtain fwd bwd where g: "build_graphs entries = Inr (fwd, bwd)"
    by (auto simp: evaluate_cache_query_def result_bind_eq_Inr)
  from build_graphs_correct [OF entries g]
  have fwd: "edges fwd = dep_edges entries" and bwd: "edges bwd = (dep_edges entries)\<inverse>" by auto
  define prot where "prot = protected_reachable fwd (active_roots gc_roots s) s"
  define initial where "initial = initial_matches rfc3339 s prot entries"
  define skip where "skip = (\<lambda>dep. protect_gc_roots s \<and> dep \<in> prot)"
  obtain tot reasons where tr: "cascade_from (cascade_mode s) bwd fwd skip initial = (tot, reasons)"
    by fastforce
  have prot: "prot = ?P"
    unfolding prot_def by (rule protected_reachable_eq [OF roots fwd])
  then have skip: "skip = (\<lambda>dep. dep \<in> ?P)"
    by (auto simp: skip_def protected_set_def)
  have init: "fst ` set initial = initial_set rfc3339 entries gc_roots s"
    by (simp add: initial_def set_initial_matches initial_set_def prot)
  have tot: "tot = selected_set rfc3339 entries gc_roots s"
    using cascade_from_set [OF bwd fwd, of "cascade_mode s" skip initial] tr
    by (simp add: selected_set_def init skip)
  have reasons: "dom (map_of reasons) = tot"
    using cascade_from_reasons [of "cascade_mode s" bwd fwd skip initial] tr by simp
  have r: "r = \<lparr>matched_entries = filter (\<lambda>(h, _). h \<in> tot) entries,
      unmatched_entries = filter (\<lambda>(h, _). h \<notin> tot) entries,
      initial_matched_hashes = sort (map fst initial),
      final_matched_hashes = sort (map fst (filter (\<lambda>(h, _). h \<in> tot) entries)),
      reason_map = reasons,
      matched_bytes = sum_list (map (\<lambda>(_, e). entry_nar_size e) (filter (\<lambda>(h, _). h \<in> tot) entries)),
      unmatched_bytes
        = sum_list (map (\<lambda>(_, e). entry_nar_size e) (filter (\<lambda>(h, _). h \<notin> tot) entries)),
      active_gc_roots = active_roots gc_roots s\<rparr>"
    using res g tr
    by (simp add: evaluate_cache_query_def Let_def prot_def [symmetric] initial_def [symmetric]
        skip_def [symmetric])
  show "matched_entries r = filter (\<lambda>(h, _). h \<in> selected_set rfc3339 entries gc_roots s) entries"
    and "unmatched_entries r = filter (\<lambda>(h, _). h \<notin> selected_set rfc3339 entries gc_roots s) entries"
    and "final_matched_hashes r = sort (map fst (matched_entries r))"
    and "set (initial_matched_hashes r) = initial_set rfc3339 entries gc_roots s"
    and "dom (map_of (reason_map r)) = selected_set rfc3339 entries gc_roots s"
    and "matched_bytes r = sum_list (map (\<lambda>(_, e). entry_nar_size e) (matched_entries r))"
    and "unmatched_bytes r = sum_list (map (\<lambda>(_, e). entry_nar_size e) (unmatched_entries r))"
    using tot reasons init by (simp_all add: r)
qed

lemma evaluate_cache_query_ok_iff:
  "(\<exists>r. evaluate_cache_query rfc3339 entries gc_roots s = Inr r)
     \<longleftrightarrow> (\<forall>(h, e)\<in>set entries. \<exists>ds. entry_references e = Inr ds)"
  unfolding build_graphs_ok_iff [symmetric]
proof (cases "build_graphs entries")
  case (Inr g)
  obtain fwd bwd where "g = (fwd, bwd)" by fastforce
  with Inr show "(\<exists>r. evaluate_cache_query rfc3339 entries gc_roots s = Inr r)
      \<longleftrightarrow> (\<exists>g. build_graphs entries = Inr g)"
    by (simp add: evaluate_cache_query_def Let_def split: prod.split)
qed (simp add: evaluate_cache_query_def)

text \<open>The selection avoids what is protected, whatever the scope and the cascade.\<close>

lemma initial_set_unprotected:
  "initial_set rfc3339 entries gc_roots s \<inter> protected_set entries gc_roots s = {}"
  by (auto simp: initial_set_def initial_reason_def protected_set_def)

lemma selected_set_unprotected:
  "selected_set rfc3339 entries gc_roots s \<inter> protected_set entries gc_roots s = {}"
proof -
  have "y \<notin> protected_set entries gc_roots s"
    if "(x, y) \<in> {(x, y) \<in> mode_edges (cascade_mode s) entries. y \<notin> protected_set entries gc_roots s}\<^sup>*"
      "x \<in> initial_set rfc3339 entries gc_roots s" for x y
    using that initial_set_unprotected [of rfc3339 entries gc_roots s]
    by (induction rule: rtrancl_induct) auto
  then show ?thesis by (auto simp: selected_set_def)
qed

lemma selected_set_initial:
  "initial_set rfc3339 entries gc_roots s \<subseteq> selected_set rfc3339 entries gc_roots s"
  by (auto simp: selected_set_def)

lemma selected_set_Exact:
  "cascade_mode s = Exact \<Longrightarrow>
   selected_set rfc3339 entries gc_roots s = initial_set rfc3339 entries gc_roots s"
  by (simp add: selected_set_def)

section \<open>Properties\<close>

text \<open>Entries that pass validation have readable references.\<close>

lemma valid_entry_references:
  "entry_validate_structure rfc3339 e = Inr () \<Longrightarrow> \<exists>ds. entry_references e = Inr ds"
  by (auto simp: entry_validate_structure_def entry_references_def result_simps
      dest!: meta_valid_reference_hashes)

definition all_valid :: "(string \<Rightarrow> 't option) \<Rightarrow> entries \<Rightarrow> bool" where
  "all_valid rfc3339 entries \<longleftrightarrow>
     list_all (\<lambda>(_, e). entry_validate_structure rfc3339 e = Inr ()) entries"

lemma all_valid_references:
  "all_valid rfc3339 entries \<Longrightarrow> \<forall>(h, e)\<in>set entries. \<exists>ds. entry_references e = Inr ds"
  by (auto simp: all_valid_def list_all_iff dest: valid_entry_references)

lemma sample_all_valid: "all_valid sample_rfc3339 sample_entries"
  using sample_valid by (auto simp: all_valid_def list_all_iff)

text \<open>
  C15. On entries with distinct hashes that pass validation, a query succeeds and splits the
  entries exactly: the matched ones are those of the selection, which is what can be
  reached from the initial selection along the edges of the cascade mode without entering
  the protected closure; the others are unmatched; the reason map explains exactly the
  selection.
\<close>

theorem cache_query_exact:
  assumes "distinct (map fst entries)" "distinct (map fst gc_roots)" "all_valid rfc3339 entries"
  shows "\<exists>r. evaluate_cache_query rfc3339 entries gc_roots s = Inr r
    \<and> matched_entries r = filter (\<lambda>(h, _). h \<in> selected_set rfc3339 entries gc_roots s) entries
    \<and> unmatched_entries r = filter (\<lambda>(h, _). h \<notin> selected_set rfc3339 entries gc_roots s) entries
    \<and> sorted (final_matched_hashes r)
    \<and> set (final_matched_hashes r) = selected_set rfc3339 entries gc_roots s \<inter> fst ` set entries
    \<and> set (initial_matched_hashes r) = initial_set rfc3339 entries gc_roots s
    \<and> dom (map_of (reason_map r)) = selected_set rfc3339 entries gc_roots s"
proof -
  obtain r where r: "evaluate_cache_query rfc3339 entries gc_roots s = Inr r"
    using evaluate_cache_query_ok_iff all_valid_references [OF assms(3)] by blast
  note q = evaluate_cache_query_Inr [OF assms(1,2) r]
  have "sorted (final_matched_hashes r)" by (simp add: q(3))
  moreover have "set (final_matched_hashes r)
      = selected_set rfc3339 entries gc_roots s \<inter> fst ` set entries"
    by (force simp: q(3) q(1))
  ultimately show ?thesis using r q by blast
qed

theorem cache_query_exact_witness:
  "\<exists>r. evaluate_cache_query sample_rfc3339 sample_entries sample_roots
       (with_cascade Transitive (selector_all {})) = Inr r
     \<and> dom (map_of (reason_map r)) = selected_set sample_rfc3339 sample_entries sample_roots
       (with_cascade Transitive (selector_all {}))"
  using cache_query_exact [OF sample_distinct(1,2) sample_all_valid] by blast

text \<open>
  C21. When the GC roots are protected, nothing that a root of the selected systems depends on,
  directly or through other entries, is selected: not by the scope and not by the cascade.
\<close>

theorem cache_query_spares_protected:
  assumes "distinct (map fst entries)" "distinct (map fst gc_roots)" "protect_gc_roots s"
    and "evaluate_cache_query rfc3339 entries gc_roots s = Inr r"
    and "(sys, rs) \<in> set gc_roots" "is_none_or (\<lambda>ts. sys \<in> ts) (target_systems s)"
    and "root \<in> set rs" "(root, h) \<in> (dep_edges entries)\<^sup>*"
  shows "h \<notin> set (final_matched_hashes r)"
proof -
  have "h \<in> protected_set entries gc_roots s"
    using assms(3,5-8) by (auto simp: protected_set_def root_hashes_def)
  then have "h \<notin> selected_set rfc3339 entries gc_roots s"
    using selected_set_unprotected by blast
  then show ?thesis
    by (auto simp: evaluate_cache_query_Inr(1,3) [OF assms(1,2,4)])
qed

lemma sample_edge: "(hash_a, hash_b) \<in> dep_edges sample_entries"
  using sample_reference(2) [OF sample_hashes_valid(2)]
  by (simp add: dep_edges_def sample_entries_def entry_references_def reference_hashes_def
      sample_entry_def sample_meta_def)

lemma sample_query_returns:
  "\<exists>r. evaluate_cache_query sample_rfc3339 sample_entries sample_roots s = Inr r"
  using evaluate_cache_query_ok_iff all_valid_references [OF sample_all_valid] by blast

theorem cache_query_spares_protected_witness:
  "\<exists>r. evaluate_cache_query sample_rfc3339 sample_entries sample_roots
       (with_protect_gc_roots True (selector_all {})) = Inr r
     \<and> hash_b \<notin> set (final_matched_hashes r)"
proof -
  let ?s = "with_protect_gc_roots True (selector_all {}) :: nat cache_selector"
  obtain r where r: "evaluate_cache_query sample_rfc3339 sample_entries sample_roots ?s = Inr r"
    using sample_query_returns by blast
  have "hash_b \<notin> set (final_matched_hashes r)"
    by (rule cache_query_spares_protected [OF sample_distinct(1,2) _ r, of X86_64Linux
          "[hash_a]" "hash_a"])
      (use sample_edge in \<open>auto simp: with_protect_gc_roots_def selector_all_def sample_roots_def
         target_systems_def\<close>)
  with r show ?thesis by blast
qed

end
