(* ===== verification/Cache_Purge.thy ===== *)
theory Cache_Purge
  imports Cache_Filter
begin

text \<open>
  Purging (\<^verbatim>\<open>purge.rs\<close>) and garbage collection (\<^verbatim>\<open>gc.rs\<close>) of \<^verbatim>\<open>crates/nixcache-core/src\<close>,
  both built on the query engine. What they rely on is the interface \<open>selection_engine\<close>:
  how a query splits the entries and that it leaves protected entries alone. The
  interface is interpreted by \<open>evaluate_cache_query\<close>.
\<close>

record purged_blob =
  blob_digest_of :: nar_digest
  blob_size_of :: u64

record purge_evaluation_result =
  kept_entries :: entries
  purged_entries :: entries
  purged_hashes :: "store_hash list"
  purged_blobs :: "purged_blob list"
  updated_gc_roots :: roots
  estimated_freed_bytes :: u64
  purge_reason_map :: "(store_hash \<times> string) list"

definition kept_graph_step ::
  "store_hash set \<Rightarrow> store_hash graph \<Rightarrow> store_hash \<times> index_entry
     \<Rightarrow> core_error + store_hash graph" where
  "kept_graph_step purged g he =
     (case he of (hash, e) \<Rightarrow>
        if hash \<notin> purged
        then result_bind (entry_references e) (\<lambda>deps. Inr (AList.update hash deps g))
        else Inr g)"

definition kept_graph :: "entries \<Rightarrow> store_hash set \<Rightarrow> core_error + store_hash graph" where
  "kept_graph entries purged = try_fold (kept_graph_step purged) [] entries"

definition root_is_sound ::
  "entries \<Rightarrow> store_hash set \<Rightarrow> store_hash graph \<Rightarrow> store_hash \<Rightarrow> bool" where
  "root_is_sound entries purged g root =
     sound_loop g (\<lambda>dep. dep \<in> purged \<or> dep \<notin> fst ` set entries)
       (\<lambda>cur. cur \<notin> fst ` set entries) {root} [root]"

definition valid_roots ::
  "entries \<Rightarrow> store_hash set \<Rightarrow> store_hash graph \<Rightarrow> store_hash list \<Rightarrow> store_hash list" where
  "valid_roots entries purged g rs =
     filter (\<lambda>root. root \<notin> purged \<and> root_is_sound entries purged g root) rs"

definition prune_broken_gc_roots ::
  "entries \<Rightarrow> roots \<Rightarrow> store_hash set \<Rightarrow> core_error + roots" where
  "prune_broken_gc_roots entries gc_roots purged =
     result_bind (kept_graph entries purged) (\<lambda>g.
       Inr (fold (\<lambda>(sys, rs) acc.
           let valid = valid_roots entries purged g rs
           in if valid \<noteq> [] then AList.update sys valid acc else acc) gc_roots []))"

definition add_blob :: "index_entry \<Rightarrow> (nar_digest \<times> u64) list \<Rightarrow> (nar_digest \<times> u64) list" where
  "add_blob e m =
     (case map_of m (entry_nar_digest e) of
        Some sz \<Rightarrow> AList.update (entry_nar_digest e) (max sz (entry_nar_size e)) m
      | None \<Rightarrow> AList.update (entry_nar_digest e) (entry_nar_size e) m)"

definition collect_blobs :: "entries \<Rightarrow> purged_blob list" where
  "collect_blobs matched =
     map (\<lambda>(digest, sz). \<lparr>blob_digest_of = digest, blob_size_of = sz\<rparr>)
       (sort_key fst (fold (\<lambda>(_, e). add_blob e) matched []))"

text \<open>The part of \<open>evaluate_cache_purge\<close> that follows the query.\<close>

definition purge_of_query ::
  "entries \<Rightarrow> roots \<Rightarrow> cache_query_result \<Rightarrow> core_error + purge_evaluation_result" where
  "purge_of_query entries gc_roots query_res =
     result_bind
       (prune_broken_gc_roots entries gc_roots (fst ` set (matched_entries query_res)))
       (\<lambda>updated. Inr
          \<lparr>kept_entries = unmatched_entries query_res,
           purged_entries = matched_entries query_res,
           purged_hashes = final_matched_hashes query_res,
           purged_blobs = collect_blobs (matched_entries query_res),
           updated_gc_roots = updated,
           estimated_freed_bytes = matched_bytes query_res,
           purge_reason_map = reason_map query_res\<rparr>)"

definition evaluate_cache_purge ::
  "(string \<Rightarrow> 't::linorder option) \<Rightarrow> entries \<Rightarrow> roots \<Rightarrow> 't cache_selector
     \<Rightarrow> core_error + purge_evaluation_result" where
  "evaluate_cache_purge rfc3339 entries gc_roots s =
     result_bind (evaluate_cache_query rfc3339 entries gc_roots s) (purge_of_query entries gc_roots)"

definition evaluate_arch_cache_purge ::
  "(string \<Rightarrow> 't::linorder option) \<Rightarrow> entries \<Rightarrow> store_hash list \<Rightarrow> system_arch
     \<Rightarrow> 't cache_selector \<Rightarrow> core_error + purge_evaluation_result" where
  "evaluate_arch_cache_purge rfc3339 entries gc_roots system s =
     evaluate_cache_purge rfc3339 entries (arch_roots system gc_roots) s"

section \<open>Garbage collection\<close>

record gc_evaluation_result =
  gc_kept_entries :: entries
  deleted_hashes :: "store_hash list"
  reachable_roots :: "store_hash set"
  cutoff_utc :: string

definition gc_selector :: "'t \<Rightarrow> 't cache_selector" where
  "gc_selector cutoff =
     with_cascade Exact (with_protect_gc_roots True
       (selector_filtered (default_predicates\<lparr>time_filter := Some (Before cutoff)\<rparr>)))"

text \<open>
  The reachability loop of the collector reads the references of an entry when it visits
  it; \<open>entry_graph\<close> reads them for every entry. The difference does not show: the purge
  before it has read the references of every entry and returned the error.
\<close>

definition entry_graph :: "entries \<Rightarrow> core_error + store_hash graph" where
  "entry_graph entries = try_map (\<lambda>(h, e). map_ok (\<lambda>ds. (h, ds)) (entry_references e)) entries"

definition evaluate_multi_arch_gc ::
  "(string \<Rightarrow> 't::linorder option) \<Rightarrow> ('t \<Rightarrow> string) \<Rightarrow> entries \<Rightarrow> roots \<Rightarrow> 't
     \<Rightarrow> core_error + gc_evaluation_result" where
  "evaluate_multi_arch_gc rfc3339 show_dt entries gc_roots cutoff =
     result_bind (evaluate_cache_purge rfc3339 entries gc_roots (gc_selector cutoff)) (\<lambda>purge_res.
     result_bind (entry_graph entries) (\<lambda>g.
       Inr \<lparr>gc_kept_entries = kept_entries purge_res,
            deleted_hashes = purged_hashes purge_res,
            reachable_roots = closure_loop g {} (concat (map snd gc_roots)),
            cutoff_utc = show_dt cutoff\<rparr>))"

definition evaluate_gc ::
  "(string \<Rightarrow> 't::linorder option) \<Rightarrow> ('t \<Rightarrow> string) \<Rightarrow> entries \<Rightarrow> store_hash list \<Rightarrow> 't
     \<Rightarrow> core_error + gc_evaluation_result" where
  "evaluate_gc rfc3339 show_dt entries gc_roots cutoff =
     evaluate_multi_arch_gc rfc3339 show_dt entries (arch_roots Unknown gc_roots) cutoff"

section \<open>Pruned roots\<close>

lemma kept_graph_correct:
  assumes "distinct (map fst entries)" "kept_graph entries purged = Inr g"
  shows "edges g = {(x, y) \<in> dep_edges entries. x \<notin> purged}
    \<and> dom (map_of g) = fst ` set entries - purged"
  using assms
proof (induction entries arbitrary: g rule: rev_induct)
  case Nil
  then show ?case by (auto simp: kept_graph_def edges_def succs_def dep_edges_def)
next
  case (snoc he entries)
  obtain h e where he: "he = (h, e)" by fastforce
  have fresh: "h \<notin> fst ` set entries" using snoc.prems(1) he by auto
  from snoc.prems(2) obtain g0 where g0: "kept_graph entries purged = Inr g0"
    and step: "kept_graph_step purged g0 (h, e) = Inr g"
    by (auto simp: kept_graph_def try_fold_append he result_bind_eq_Inr)
  have IH: "edges g0 = {(x, y) \<in> dep_edges entries. x \<notin> purged}"
    "dom (map_of g0) = fst ` set entries - purged"
    using snoc.IH [OF _ g0] snoc.prems(1) by auto
  show ?case
  proof (cases "h \<in> purged")
    case True
    have "{(x, y) \<in> dep_edges (entries @ [(h, e)]). x \<notin> purged}
        = {(x, y) \<in> dep_edges entries. x \<notin> purged}"
      using True by (auto simp: dep_edges_def map_add_Some_iff split: if_splits)
    with True step IH he show ?thesis by (auto simp: kept_graph_step_def)
  next
    case False
    then obtain ds where ds: "entry_references e = Inr ds" and g: "g = AList.update h ds g0"
      using step by (auto simp: kept_graph_step_def result_bind_eq_Inr)
    have "succs g0 h = []" using IH(2) fresh by (auto simp: succs_def split: option.split)
    then have "edges g = edges g0 \<union> {(h, d) |d. d \<in> set ds}"
      by (auto simp: edges_def g succs_update split: if_splits)
    moreover have "dom (map_of g) = insert h (dom (map_of g0))" by (simp add: g update_conv')
    ultimately show ?thesis
      using IH he False dep_edges_snoc [OF fresh ds] by auto
  qed
qed

text \<open>A root survives exactly when its whole dependency closure is present and not purged.\<close>

lemma root_is_sound_iff:
  assumes "distinct (map fst entries)" "kept_graph entries purged = Inr g" "root \<notin> purged"
  shows "root_is_sound entries purged g root
    \<longleftrightarrow> (dep_edges entries)\<^sup>* `` {root} \<subseteq> fst ` set entries - purged"
proof -
  let ?K = "fst ` set entries" and ?E = "dep_edges entries"
  let ?bad = "\<lambda>dep. dep \<in> purged \<or> dep \<notin> ?K" and ?absent = "\<lambda>cur. cur \<notin> ?K"
  from kept_graph_correct [OF assms(1,2)]
  have edges: "edges g = {(x, y) \<in> ?E. x \<notin> purged}" and dom: "dom (map_of g) = ?K - purged"
    by auto
  have "root_is_sound entries purged g root
      \<longleftrightarrow> (\<forall>x\<in>(edges g)\<^sup>* `` {root}. \<not> broken g ?bad ?absent x)"
    unfolding root_is_sound_def by (rule sound_loop_iff) auto
  also have "\<dots> \<longleftrightarrow> ?E\<^sup>* `` {root} \<subseteq> ?K - purged"
  proof
    assume ok: "\<forall>x\<in>(edges g)\<^sup>* `` {root}. \<not> broken g ?bad ?absent x"
    have "(root, x) \<in> (edges g)\<^sup>* \<and> x \<in> ?K - purged" if "(root, x) \<in> ?E\<^sup>*" for x
      using that
    proof (induction rule: rtrancl_induct)
      case base
      have "\<not> broken g ?bad ?absent root" using ok by auto
      then have "root \<in> ?K" using dom assms(3) by (auto simp: broken_def)
      with assms(3) show ?case by simp
    next
      case (step y z)
      then have yz: "(y, z) \<in> edges g" using edges by auto
      with step have "(root, z) \<in> (edges g)\<^sup>*" by (meson rtrancl.rtrancl_into_rtrancl)
      moreover have "\<not> broken g ?bad ?absent y" using step ok by auto
      with yz have "\<not> ?bad z" by (auto simp: broken_def)
      ultimately show ?case by auto
    qed
    then show "?E\<^sup>* `` {root} \<subseteq> ?K - purged" by auto
  next
    assume sub: "?E\<^sup>* `` {root} \<subseteq> ?K - purged"
    have "(edges g)\<^sup>* \<subseteq> ?E\<^sup>*" using edges by (intro rtrancl_mono) auto
    then have reach: "x \<in> ?E\<^sup>* `` {root}" if "x \<in> (edges g)\<^sup>* `` {root}" for x
      using that by auto
    show "\<forall>x\<in>(edges g)\<^sup>* `` {root}. \<not> broken g ?bad ?absent x"
    proof
      fix x assume "x \<in> (edges g)\<^sup>* `` {root}"
      then have x: "x \<in> ?E\<^sup>* `` {root}" by (rule reach)
      then have "x \<in> ?K" using sub by auto
      moreover have "\<not> ?bad d" if "d \<in> set (succs g x)" for d
      proof -
        have "(x, d) \<in> ?E" using that edges by (metis (mono_tags, lifting) case_prodD in_edges mem_Collect_eq)
        with x have "d \<in> ?E\<^sup>* `` {root}" by (auto intro: rtrancl.rtrancl_into_rtrancl)
        with sub show ?thesis by auto
      qed
      ultimately show "\<not> broken g ?bad ?absent x" by (auto simp: broken_def)
    qed
  qed
  finally show ?thesis .
qed

lemma fold_update_nonempty:
  "distinct (map fst acc @ map fst xs) \<Longrightarrow>
   fold (\<lambda>(k, v) acc. if f v \<noteq> [] then AList.update k (f v) acc else acc) xs acc
     = acc @ filter (\<lambda>(_, w). w \<noteq> []) (map (\<lambda>(k, v). (k, f v)) xs)"
proof (induction xs arbitrary: acc)
  case (Cons x xs)
  obtain k v where x: "x = (k, v)" by fastforce
  have "k \<notin> fst ` set acc" using Cons.prems x by auto
  then show ?case using Cons.prems x by (simp add: Cons.IH update_fresh)
qed simp

lemma keys_filter:
  "fst ` set (filter (\<lambda>(h, _). h \<in> S) xs) = fst ` set xs \<inter> S"
  "fst ` set (filter (\<lambda>(h, _). h \<notin> S) xs) = fst ` set xs - S"
  by force+

lemma prune_broken_gc_roots_Inr:
  assumes "distinct (map fst entries)" "distinct (map fst gc_roots)"
    and "prune_broken_gc_roots entries gc_roots purged = Inr updated"
  shows "updated = filter (\<lambda>(_, rs). rs \<noteq> [])
    (map (\<lambda>(sys, rs).
       (sys, filter (\<lambda>r. (dep_edges entries)\<^sup>* `` {r} \<subseteq> fst ` set entries - purged) rs)) gc_roots)"
proof -
  let ?ok = "\<lambda>r. (dep_edges entries)\<^sup>* `` {r} \<subseteq> fst ` set entries - purged"
  from assms(3) obtain g where g: "kept_graph entries purged = Inr g"
    and upd: "updated = fold (\<lambda>(sys, rs) acc.
        let valid = valid_roots entries purged g rs
        in if valid \<noteq> [] then AList.update sys valid acc else acc) gc_roots []"
    by (auto simp: prune_broken_gc_roots_def result_bind_eq_Inr)
  have valid: "valid_roots entries purged g rs = filter ?ok rs" for rs
  proof -
    have "r \<notin> purged \<and> root_is_sound entries purged g r \<longleftrightarrow> ?ok r" for r
      using root_is_sound_iff [OF assms(1) g, of r] by auto
    then show ?thesis by (simp add: valid_roots_def)
  qed
  show ?thesis
    using fold_update_nonempty [of "[]" gc_roots "filter ?ok"] assms(2)
    by (simp add: upd valid Let_def)
qed

lemma kept_graph_ok:
  assumes "\<forall>(h, e)\<in>set entries. \<exists>ds. entry_references e = Inr ds"
  shows "\<exists>g. kept_graph entries purged = Inr g"
  using assms
proof (induction entries rule: rev_induct)
  case (snoc he entries)
  then obtain g where "kept_graph entries purged = Inr g" by auto
  with snoc.prems show ?case
    by (cases he) (auto simp: kept_graph_def try_fold_append kept_graph_step_def)
qed (simp add: kept_graph_def)

section \<open>Blobs of the purged entries\<close>

lemma add_blob_keys: "fst ` set (add_blob e m) = insert (entry_nar_digest e) (fst ` set m)"
proof -
  have "dom (map_of (add_blob e m)) = insert (entry_nar_digest e) (dom (map_of m))"
    by (auto simp: add_blob_def update_conv' split: option.split)
  then show ?thesis by (simp add: dom_map_of_conv_image_fst)
qed

lemma set_collect_blobs:
  "blob_digest_of ` set (collect_blobs matched) = (\<lambda>(_, e). entry_nar_digest e) ` set matched"
proof -
  have "fst ` set (fold (\<lambda>(_, e). add_blob e) matched m)
      = fst ` set m \<union> (\<lambda>(_, e). entry_nar_digest e) ` set matched" for m
  proof (induction matched arbitrary: m)
    case (Cons x matched)
    then show ?case by (cases x) (simp add: add_blob_keys)
  qed simp
  from this [of "[]"] show ?thesis
    by (force simp: collect_blobs_def)
qed

section \<open>What purging and collecting rely on\<close>

locale selection_engine =
  fixes query :: "entries \<Rightarrow> roots \<Rightarrow> 'q \<Rightarrow> core_error + cache_query_result"
    and selected :: "entries \<Rightarrow> roots \<Rightarrow> 'q \<Rightarrow> store_hash set"
    and protected :: "entries \<Rightarrow> roots \<Rightarrow> 'q \<Rightarrow> store_hash set"
  assumes matched:
    "distinct (map fst entries) \<Longrightarrow> distinct (map fst gc_roots) \<Longrightarrow>
     query entries gc_roots s = Inr r \<Longrightarrow>
     matched_entries r = filter (\<lambda>(h, _). h \<in> selected entries gc_roots s) entries"
  and unmatched:
    "distinct (map fst entries) \<Longrightarrow> distinct (map fst gc_roots) \<Longrightarrow>
     query entries gc_roots s = Inr r \<Longrightarrow>
     unmatched_entries r = filter (\<lambda>(h, _). h \<notin> selected entries gc_roots s) entries"
  and final:
    "distinct (map fst entries) \<Longrightarrow> distinct (map fst gc_roots) \<Longrightarrow>
     query entries gc_roots s = Inr r \<Longrightarrow>
     final_matched_hashes r = sort (map fst (matched_entries r))"
  and spares: "selected entries gc_roots s \<inter> protected entries gc_roots s = {}"
  and total: "\<forall>(h, e)\<in>set entries. \<exists>ds. entry_references e = Inr ds \<Longrightarrow>
     \<exists>r. query entries gc_roots s = Inr r"
begin

lemma purge_parts:
  assumes "distinct (map fst entries)" "distinct (map fst gc_roots)"
    and "result_bind (query entries gc_roots s) (purge_of_query entries gc_roots) = Inr p"
  shows "purged_entries p = filter (\<lambda>(h, _). h \<in> selected entries gc_roots s) entries"
    and "kept_entries p = filter (\<lambda>(h, _). h \<notin> selected entries gc_roots s) entries"
    and "purged_hashes p = sort (map fst (purged_entries p))"
    and "purged_blobs p = collect_blobs (purged_entries p)"
    and "prune_broken_gc_roots entries gc_roots (fst ` set (purged_entries p))
      = Inr (updated_gc_roots p)"
proof -
  from assms(3) obtain r where r: "query entries gc_roots s = Inr r"
    and p: "purge_of_query entries gc_roots r = Inr p"
    by (auto simp: result_bind_eq_Inr)
  from p obtain u where u: "prune_broken_gc_roots entries gc_roots (fst ` set (matched_entries r)) = Inr u"
    and p': "p = \<lparr>kept_entries = unmatched_entries r, purged_entries = matched_entries r,
      purged_hashes = final_matched_hashes r, purged_blobs = collect_blobs (matched_entries r),
      updated_gc_roots = u, estimated_freed_bytes = matched_bytes r,
      purge_reason_map = reason_map r\<rparr>"
    by (auto simp: purge_of_query_def result_bind_eq_Inr)
  show "purged_entries p = filter (\<lambda>(h, _). h \<in> selected entries gc_roots s) entries"
    and "kept_entries p = filter (\<lambda>(h, _). h \<notin> selected entries gc_roots s) entries"
    and "purged_hashes p = sort (map fst (purged_entries p))"
    and "purged_blobs p = collect_blobs (purged_entries p)"
    and "prune_broken_gc_roots entries gc_roots (fst ` set (purged_entries p))
      = Inr (updated_gc_roots p)"
    using u matched [OF assms(1,2) r] unmatched [OF assms(1,2) r] final [OF assms(1,2) r]
    by (simp_all add: p')
qed

lemma purge_keeps_protected:
  assumes "distinct (map fst entries)" "distinct (map fst gc_roots)"
    and "result_bind (query entries gc_roots s) (purge_of_query entries gc_roots) = Inr p"
    and "(h, e) \<in> set entries" "h \<in> protected entries gc_roots s"
  shows "(h, e) \<in> set (kept_entries p)"
  using assms(4,5) spares [of entries gc_roots s] purge_parts(2) [OF assms(1-3)] by auto

lemma purge_roots_sound:
  assumes "distinct (map fst entries)" "distinct (map fst gc_roots)"
    and "result_bind (query entries gc_roots s) (purge_of_query entries gc_roots) = Inr p"
  shows "updated_gc_roots p = filter (\<lambda>(_, rs). rs \<noteq> [])
    (map (\<lambda>(sys, rs). (sys, filter
       (\<lambda>r. (dep_edges entries)\<^sup>* `` {r} \<subseteq> fst ` set (kept_entries p)) rs)) gc_roots)"
proof -
  let ?S = "selected entries gc_roots s"
  have "fst ` set (kept_entries p) = fst ` set entries - fst ` set (purged_entries p)"
    unfolding purge_parts(1,2) [OF assms] keys_filter by blast
  then show ?thesis
    using prune_broken_gc_roots_Inr [OF assms(1,2) purge_parts(5) [OF assms]] by simp
qed

lemma purge_total:
  assumes "\<forall>(h, e)\<in>set entries. \<exists>ds. entry_references e = Inr ds"
  shows "\<exists>p. result_bind (query entries gc_roots s) (purge_of_query entries gc_roots) = Inr p"
proof -
  from total [OF assms] obtain r where "query entries gc_roots s = Inr r" by blast
  moreover obtain g where "kept_graph entries (fst ` set (matched_entries r)) = Inr g"
    using kept_graph_ok [OF assms] by blast
  ultimately show ?thesis by (simp add: purge_of_query_def prune_broken_gc_roots_def)
qed

end

interpretation engine: selection_engine "evaluate_cache_query rfc3339" "selected_set rfc3339"
  protected_set for rfc3339 :: "string \<Rightarrow> 't::linorder option"
proof unfold_locales
  fix entries gc_roots and s :: "'t cache_selector" and r
  assume d: "distinct (map fst entries)" "distinct (map fst gc_roots)"
    and q: "evaluate_cache_query rfc3339 entries gc_roots s = Inr r"
  show "matched_entries r = filter (\<lambda>(h, _). h \<in> selected_set rfc3339 entries gc_roots s) entries"
    and "unmatched_entries r = filter (\<lambda>(h, _). h \<notin> selected_set rfc3339 entries gc_roots s) entries"
    and "final_matched_hashes r = sort (map fst (matched_entries r))"
    by (rule evaluate_cache_query_Inr [OF d q])+
qed (simp_all add: selected_set_unprotected evaluate_cache_query_ok_iff)

lemmas purge_facts =
  engine.purge_parts [folded evaluate_cache_purge_def]
lemmas purge_keeps = engine.purge_keeps_protected [folded evaluate_cache_purge_def]
lemmas purge_roots = engine.purge_roots_sound [folded evaluate_cache_purge_def]
lemmas purge_returns = engine.purge_total [folded evaluate_cache_purge_def]

section \<open>What the collector deletes\<close>

definition expired :: "(string \<Rightarrow> 't::linorder option) \<Rightarrow> 't \<Rightarrow> index_entry \<Rightarrow> bool" where
  "expired rfc3339 cutoff e \<longleftrightarrow> (\<exists>added. rfc3339 (entry_added e) = Some added \<and> added < cutoff)"

definition gc_live :: "entries \<Rightarrow> roots \<Rightarrow> store_hash set" where
  "gc_live entries gc_roots = (dep_edges entries)\<^sup>* `` (\<Union>(sys, rs)\<in>set gc_roots. set rs)"

lemma gc_selector_simps:
  "scope (gc_selector cutoff) = Filtered (default_predicates\<lparr>time_filter := Some (Before cutoff)\<rparr>)"
  "cascade_mode (gc_selector cutoff) = Exact"
  "protect_gc_roots (gc_selector cutoff)"
  "target_systems (gc_selector cutoff) = None"
  by (simp_all add: gc_selector_def with_cascade_def with_protect_gc_roots_def
      selector_filtered_def target_systems_def default_predicates_def)

lemma protected_set_gc: "protected_set entries gc_roots (gc_selector cutoff) = gc_live entries gc_roots"
proof -
  have "root_hashes gc_roots (gc_selector cutoff) = (\<Union>(sys, rs)\<in>set gc_roots. set rs)"
    by (auto simp: root_hashes_def gc_selector_simps)
  then show ?thesis by (simp add: protected_set_def gc_live_def gc_selector_simps)
qed

lemma evaluate_entry_gc:
  "evaluate_entry rfc3339 (default_predicates\<lparr>time_filter := Some (Before cutoff)\<rparr>) h e \<noteq> None
     \<longleftrightarrow> expired rfc3339 cutoff e"
  by (auto simp: evaluate_entry_def default_predicates_def has_item_filters_def expired_def Let_def
      split: option.splits)

lemma selected_set_gc:
  "selected_set rfc3339 entries gc_roots (gc_selector cutoff)
     = {h. h \<notin> gc_live entries gc_roots \<and> (\<exists>e. (h, e) \<in> set entries \<and> expired rfc3339 cutoff e)}"
  using evaluate_entry_gc [of rfc3339 cutoff]
  by (auto simp: selected_set_Exact gc_selector_simps initial_set_def initial_reason_def
      protected_set_gc)

lemma entry_graph_edges:
  "entry_graph entries = Inr g \<Longrightarrow> edges g = dep_edges entries"
proof -
  assume "entry_graph entries = Inr g"
  then have "map_of g h = (case map_of entries h of None \<Rightarrow> None
      | Some e \<Rightarrow> result_ok (entry_references e))" for h
    unfolding entry_graph_def
    by (induction entries arbitrary: g) (auto simp: result_simps)
  then have "succs g h = (case map_of entries h of None \<Rightarrow> []
      | Some e \<Rightarrow> (case entry_references e of Inl _ \<Rightarrow> [] | Inr ds \<Rightarrow> ds))" for h
    by (simp add: succs_def result_ok_def split: option.split sum.split)
  then show ?thesis
    by (auto simp: edges_def dep_edges_def split: option.splits sum.splits) metis
qed

lemma gc_parts:
  assumes "distinct (map fst entries)" "distinct (map fst gc_roots)"
    and "evaluate_multi_arch_gc rfc3339 show_dt entries gc_roots cutoff = Inr r"
  shows "gc_kept_entries r = filter (\<lambda>(h, e). h \<in> gc_live entries gc_roots
        \<or> \<not> expired rfc3339 cutoff e) entries"
    and "set (deleted_hashes r) = {h. \<exists>e. (h, e) \<in> set entries \<and> h \<notin> gc_live entries gc_roots
        \<and> expired rfc3339 cutoff e}"
    and "reachable_roots r = gc_live entries gc_roots"
proof -
  from assms(3) obtain p g where p: "evaluate_cache_purge rfc3339 entries gc_roots (gc_selector cutoff) = Inr p"
    and g: "entry_graph entries = Inr g"
    and r: "r = \<lparr>gc_kept_entries = kept_entries p, deleted_hashes = purged_hashes p,
      reachable_roots = closure_loop g {} (concat (map snd gc_roots)), cutoff_utc = show_dt cutoff\<rparr>"
    by (auto simp: evaluate_multi_arch_gc_def result_bind_eq_Inr)
  have uniq: "e = e'" if "(h, e) \<in> set entries" "(h, e') \<in> set entries" for h e e'
    using that assms(1) by (metis eq_key_imp_eq_value)
  show "gc_kept_entries r = filter (\<lambda>(h, e). h \<in> gc_live entries gc_roots
      \<or> \<not> expired rfc3339 cutoff e) entries"
    unfolding r gc_evaluation_result.simps purge_facts(2) [OF assms(1,2) p] selected_set_gc
    by (rule filter_cong) (auto dest: uniq)
  show "set (deleted_hashes r) = {h. \<exists>e. (h, e) \<in> set entries \<and> h \<notin> gc_live entries gc_roots
      \<and> expired rfc3339 cutoff e}"
    using purge_facts(1,3) [OF assms(1,2) p]
    by (auto simp: r selected_set_gc image_iff dest: uniq)
  have "set (concat (map snd gc_roots)) = (\<Union>(sys, rs)\<in>set gc_roots. set rs)" by auto
  then show "reachable_roots r = gc_live entries gc_roots"
    by (simp add: r closure_loop_reachable entry_graph_edges [OF g] gc_live_def)
qed

section \<open>Properties\<close>

text \<open>
  C1. Garbage collection is exact: on valid entries with distinct hashes it succeeds, keeps
  an entry exactly when a GC root reaches it through references or it is not older than the
  cutoff, deletes exactly the other hashes, and reports the reachable set.
\<close>

theorem gc_exact:
  assumes "distinct (map fst entries)" "distinct (map fst gc_roots)" "all_valid rfc3339 entries"
  shows "\<exists>r. evaluate_multi_arch_gc rfc3339 show_dt entries gc_roots cutoff = Inr r
    \<and> gc_kept_entries r = filter (\<lambda>(h, e). h \<in> gc_live entries gc_roots
        \<or> \<not> expired rfc3339 cutoff e) entries
    \<and> set (deleted_hashes r) = {h. \<exists>e. (h, e) \<in> set entries
        \<and> h \<notin> gc_live entries gc_roots \<and> expired rfc3339 cutoff e}
    \<and> reachable_roots r = gc_live entries gc_roots"
proof -
  note refs = all_valid_references [OF assms(3)]
  obtain p where "evaluate_cache_purge rfc3339 entries gc_roots (gc_selector cutoff) = Inr p"
    using purge_returns [OF refs] by blast
  moreover have "\<exists>g. entry_graph entries = Inr g"
    unfolding entry_graph_def by (rule try_map_ok) (use refs in fastforce)
  ultimately obtain r
    where r: "evaluate_multi_arch_gc rfc3339 show_dt entries gc_roots cutoff = Inr r"
    by (auto simp: evaluate_multi_arch_gc_def)
  with gc_parts [OF assms(1,2) r] show ?thesis by blast
qed

theorem gc_exact_witness:
  "\<exists>r. evaluate_multi_arch_gc sample_rfc3339 sample_show_dt sample_entries sample_roots 2025 = Inr r
     \<and> reachable_roots r = gc_live sample_entries sample_roots"
  using gc_exact [OF sample_distinct(1,2) sample_all_valid, of sample_show_dt 2025] by blast

text \<open>
  C13. A purge that protects the GC roots keeps the whole dependency closure of every root of
  the selected systems, whatever the scope and the cascade mode.
\<close>

theorem purge_keeps_root_closure:
  assumes "distinct (map fst entries)" "distinct (map fst gc_roots)" "protect_gc_roots s"
    and "evaluate_cache_purge rfc3339 entries gc_roots s = Inr p"
    and "root \<in> root_hashes gc_roots s" "(root, h) \<in> (dep_edges entries)\<^sup>*"
    and "(h, e) \<in> set entries"
  shows "(h, e) \<in> set (kept_entries p) \<and> h \<notin> set (purged_hashes p)"
proof -
  have h: "h \<in> protected_set entries gc_roots s"
    using assms(3,5,6) by (auto simp: protected_set_def)
  then have "h \<notin> selected_set rfc3339 entries gc_roots s"
    using selected_set_unprotected by blast
  then have "h \<notin> set (purged_hashes p)"
    by (auto simp: purge_facts(1,3) [OF assms(1,2,4)])
  with purge_keeps [OF assms(1,2,4,7) h] show ?thesis by blast
qed

lemma sample_purge_returns:
  "\<exists>p. evaluate_cache_purge sample_rfc3339 sample_entries sample_roots s = Inr p"
  by (rule purge_returns [OF all_valid_references [OF sample_all_valid]])

theorem purge_keeps_root_closure_witness:
  "\<exists>p. evaluate_cache_purge sample_rfc3339 sample_entries sample_roots
       (with_protect_gc_roots True (selector_all {})) = Inr p
     \<and> hash_b \<notin> set (purged_hashes p)"
proof -
  let ?s = "with_protect_gc_roots True (selector_all {}) :: nat cache_selector"
  obtain p where p: "evaluate_cache_purge sample_rfc3339 sample_entries sample_roots ?s = Inr p"
    using sample_purge_returns by blast
  have "hash_a \<in> root_hashes sample_roots ?s" "protect_gc_roots ?s"
    by (auto simp: root_hashes_def sample_roots_def target_systems_def with_protect_gc_roots_def
        selector_all_def)
  moreover have "(hash_b, sample_entry hash_b [] ''2020-01-01T00:00:00Z'')
      \<in> set sample_entries"
    by (simp add: sample_entries_def)
  ultimately have "hash_b \<notin> set (purged_hashes p)"
    using purge_keeps_root_closure [OF sample_distinct(1,2) _ p] sample_edge by blast
  with p show ?thesis by blast
qed

text \<open>
  C9. The roots a purge leaves behind are exactly the roots whose whole dependency closure is
  still in the cache, each under its system and in its order; a system with no such root is
  dropped. A root that a consumer finds can therefore be substituted completely.
\<close>

theorem purge_leaves_sound_roots:
  assumes "distinct (map fst entries)" "distinct (map fst gc_roots)"
    and "evaluate_cache_purge rfc3339 entries gc_roots s = Inr p"
  shows "updated_gc_roots p = filter (\<lambda>(_, rs). rs \<noteq> [])
    (map (\<lambda>(sys, rs). (sys, filter
       (\<lambda>r. (dep_edges entries)\<^sup>* `` {r} \<subseteq> fst ` set (kept_entries p)) rs)) gc_roots)"
  by (rule purge_roots [OF assms])

theorem purge_leaves_sound_roots_witness:
  "\<exists>p. evaluate_cache_purge sample_rfc3339 sample_entries sample_roots
       (with_cascade Dependents (selector_filtered
          (default_predicates\<lparr>store_hashes := {hash_b}\<rparr>))) = Inr p
     \<and> updated_gc_roots p = filter (\<lambda>(_, rs). rs \<noteq> [])
    (map (\<lambda>(sys, rs). (sys, filter
       (\<lambda>r. (dep_edges sample_entries)\<^sup>* `` {r} \<subseteq> fst ` set (kept_entries p)) rs)) sample_roots)"
proof -
  let ?s = "with_cascade Dependents (selector_filtered
    (default_predicates\<lparr>store_hashes := {hash_b}\<rparr>)) :: nat cache_selector"
  obtain p where p: "evaluate_cache_purge sample_rfc3339 sample_entries sample_roots ?s = Inr p"
    using sample_purge_returns by blast
  show ?thesis using purge_leaves_sound_roots [OF sample_distinct(1,2) p] p by blast
qed

text \<open>
  A purge splits the entries: every entry is kept or purged and none is both, the purged
  hashes are the selected ones in ascending order, and the reported blobs are exactly the NAR
  digests of the purged entries.
\<close>

theorem purge_splits_entries:
  assumes "distinct (map fst entries)" "distinct (map fst gc_roots)" "all_valid rfc3339 entries"
  shows "\<exists>p. evaluate_cache_purge rfc3339 entries gc_roots s = Inr p
    \<and> set (kept_entries p) \<union> set (purged_entries p) = set entries
    \<and> set (kept_entries p) \<inter> set (purged_entries p) = {}
    \<and> sorted (purged_hashes p)
    \<and> set (purged_hashes p) = selected_set rfc3339 entries gc_roots s \<inter> fst ` set entries
    \<and> blob_digest_of ` set (purged_blobs p)
        = (\<lambda>(_, e). entry_nar_digest e) ` set (purged_entries p)"
proof -
  let ?S = "selected_set rfc3339 entries gc_roots s"
  obtain p where p: "evaluate_cache_purge rfc3339 entries gc_roots s = Inr p"
    using purge_returns [OF all_valid_references [OF assms(3)]] by blast
  note parts = purge_facts [OF assms(1,2) p]
  have "set (kept_entries p) \<union> set (purged_entries p) = set entries"
    "set (kept_entries p) \<inter> set (purged_entries p) = {}"
    by (auto simp: parts(1,2))
  moreover have "set (purged_hashes p) = ?S \<inter> fst ` set entries"
    unfolding parts(3) set_sort set_map parts(1) keys_filter by blast
  moreover have "sorted (purged_hashes p)" by (simp add: parts(3))
  ultimately show ?thesis using p set_collect_blobs parts(4) by metis
qed

theorem purge_splits_entries_witness:
  "\<exists>p. evaluate_cache_purge sample_rfc3339 sample_entries sample_roots (selector_all {}) = Inr p
     \<and> set (kept_entries p) \<union> set (purged_entries p) = set sample_entries"
  using purge_splits_entries [OF sample_distinct(1,2) sample_all_valid, of "selector_all {}"] by blast

text \<open>
  C22. Query, purge and garbage collection fail only on an entry with an unreadable reference,
  and then none of them returns a result: no partial answer on a damaged index.
\<close>

theorem engines_fail_together:
  "is_ok (evaluate_cache_query rfc3339 entries gc_roots s)
     = list_all (\<lambda>(_, e). is_ok (entry_references e)) entries
   \<and> is_ok (evaluate_cache_purge rfc3339 entries gc_roots s)
     = list_all (\<lambda>(_, e). is_ok (entry_references e)) entries
   \<and> is_ok (evaluate_multi_arch_gc rfc3339 show_dt entries gc_roots cutoff)
     = list_all (\<lambda>(_, e). is_ok (entry_references e)) entries"
proof -
  have refs: "list_all (\<lambda>(_, e). is_ok (entry_references e)) entries
      \<longleftrightarrow> (\<forall>(h, e)\<in>set entries. \<exists>ds. entry_references e = Inr ds)"
    by (auto simp: list_all_iff is_ok_iff)
  have q: "is_ok (evaluate_cache_query rfc3339 entries gc_roots s')
      = list_all (\<lambda>(_, e). is_ok (entry_references e)) entries" for s'
    unfolding refs unfolding is_ok_iff evaluate_cache_query_ok_iff ..
  have p: "is_ok (evaluate_cache_purge rfc3339 entries gc_roots s')
      = list_all (\<lambda>(_, e). is_ok (entry_references e)) entries" for s'
    using q [of s'] purge_returns [of entries rfc3339 gc_roots s'] refs
    by (auto simp: is_ok_iff evaluate_cache_purge_def result_bind_eq_Inr)
  have "is_ok (entry_graph entries)"
    if "\<forall>(h, e)\<in>set entries. \<exists>ds. entry_references e = Inr ds"
    unfolding entry_graph_def is_ok_iff by (rule try_map_ok) (use that in fastforce)
  then have "is_ok (evaluate_multi_arch_gc rfc3339 show_dt entries gc_roots cutoff)
      = list_all (\<lambda>(_, e). is_ok (entry_references e)) entries"
    using p [of "gc_selector cutoff"] refs
    by (auto simp: evaluate_multi_arch_gc_def is_ok_iff result_bind_eq_Inr)
  with q p show ?thesis by blast
qed

definition shared_blob_entries :: entries where
  "shared_blob_entries =
     [(hash_a, (sample_entry hash_a [] ''2020-01-01T00:00:00Z'')
         \<lparr>entry_nar_digest := sample_digest (CHR ''0'')\<rparr>),
      (hash_b, (sample_entry hash_b [] ''2020-01-01T00:00:00Z'')
         \<lparr>entry_nar_digest := sample_digest (CHR ''0'')\<rparr>)]"

text \<open>
  C25. Two entries may share a NAR blob. When one of them is purged, its blob is reported for
  deletion although the other, kept entry still needs it.
\<close>

theorem purge_reports_blob_of_kept_entry:
  "\<exists>p. evaluate_cache_purge sample_rfc3339 shared_blob_entries []
       (selector_filtered (default_predicates\<lparr>store_hashes := {hash_a}\<rparr>)) = Inr p
     \<and> (\<exists>(h, e)\<in>set (kept_entries p). entry_nar_digest e \<in> blob_digest_of ` set (purged_blobs p))"
proof -
  let ?E = shared_blob_entries and ?a = "hash_a" and ?b = "hash_b"
  let ?p = "default_predicates\<lparr>store_hashes := {?a}\<rparr> :: nat filter_predicates"
  let ?s = "selector_filtered ?p"
  have d: "distinct (map fst ?E)" "distinct (map fst ([] :: roots))"
    by (simp_all add: shared_blob_entries_def hash_of_def)
  have ev: "evaluate_entry sample_rfc3339 ?p h e \<noteq> None \<longleftrightarrow> h = ?a" for h e
    by (auto simp: evaluate_entry_def default_predicates_def has_item_filters_def Let_def
        split: option.splits)
  have sel: "selected_set sample_rfc3339 ?E [] ?s = {?a}"
    using ev
    by (auto simp: selected_set_Exact selector_filtered_def initial_set_def initial_reason_def
        shared_blob_entries_def simp del: not_None_eq)
  have "\<forall>(h, e)\<in>set ?E. \<exists>ds. entry_references e = Inr ds"
    by (auto simp: shared_blob_entries_def entry_references_def reference_hashes_def
        sample_entry_def sample_meta_def)
  then obtain p where p: "evaluate_cache_purge sample_rfc3339 ?E [] ?s = Inr p"
    using purge_returns by blast
  note parts = purge_facts [OF d p]
  have "?b \<noteq> ?a" by (simp add: hash_of_def)
  moreover have "(?b, snd (?E ! 1)) \<in> set ?E" "(?a, snd (?E ! 0)) \<in> set ?E"
    by (simp_all add: shared_blob_entries_def)
  ultimately have "(?b, snd (?E ! 1)) \<in> set (kept_entries p)"
    and "(?a, snd (?E ! 0)) \<in> set (purged_entries p)"
    unfolding parts(1,2) sel by auto
  moreover have "entry_nar_digest (snd (?E ! 1)) = entry_nar_digest (snd (?E ! 0))"
    by (simp add: shared_blob_entries_def)
  ultimately have kept: "(?b, snd (?E ! 1)) \<in> set (kept_entries p)"
    and "entry_nar_digest (snd (?E ! 1)) \<in> (\<lambda>(_, e). entry_nar_digest e) ` set (purged_entries p)"
    by (simp, metis (mono_tags, lifting) image_iff case_prod_conv)
  then have "entry_nar_digest (snd (?E ! 1)) \<in> blob_digest_of ` set (purged_blobs p)"
    by (simp add: parts(4) set_collect_blobs)
  with p kept show ?thesis by blast
qed

end
