(* ===== verification/Shard_Id.thy ===== *)
theory Shard_Id
  imports Samples
begin

text \<open>
  Shard numbers (\<^verbatim>\<open>crates/nixcache-core/src/sharding.rs\<close>): the first two base-32 digits of a
  store hash select one of 1024 shards. The section holds the digit tables, the two ways to
  compute a shard number, the two-letter prefix of a shard, and the two functions that sort
  entries and hashes into shards.

  A \<open>HashMap\<close> of the result is an association list; \<open>entry(k).or_default()\<close> followed by an
  update of the value is \<open>or_default_update\<close>.
\<close>

definition NIX_BASE32_ALPHABET :: "u8 list" where
  "NIX_BASE32_ALPHABET = as_bytes ''0123456789abcdfghijklmnpqrsvwxyz''"

definition NUM_SHARDS :: nat where
  "NUM_SHARDS = 1024"

definition nix_base32_val :: "u8 \<Rightarrow> type_error + u8" where
  "nix_base32_val byte =
     (if 48 \<le> byte \<and> byte \<le> 57 then Inr (byte - 48)
      else if 97 \<le> byte \<and> byte \<le> 100 then Inr (byte - 97 + 10)
      else if 102 \<le> byte \<and> byte \<le> 110 then Inr (byte - 102 + 14)
      else if 112 \<le> byte \<and> byte \<le> 115 then Inr (byte - 112 + 23)
      else if 118 \<le> byte \<and> byte \<le> 122 then Inr (byte - 118 + 27)
      else Inl (StoreHashInvalidChar (unat byte) 0))"

definition nix_base32_char :: "u8 \<Rightarrow> type_error + u8" where
  "nix_base32_char v =
     (if unat v < length NIX_BASE32_ALPHABET then Inr (NIX_BASE32_ALPHABET ! unat v)
      else Inl (StoreHashInvalidChar (unat v) 0))"

definition unwrap_or :: "'a \<Rightarrow> 'e + 'a \<Rightarrow> 'a" where
  "unwrap_or d m = (case m of Inl _ \<Rightarrow> d | Inr x \<Rightarrow> x)"

text \<open>
  The source indexes the first two bytes and panics on a shorter hash; the properties are
  about valid hashes, which have 32 bytes.
\<close>

definition calculate_shard_id :: "store_hash \<Rightarrow> u16" where
  "calculate_shard_id hash =
     (let bytes = as_bytes (as_str hash);
          c0 = ucast (unwrap_or 0 (nix_base32_val (bytes ! 0)));
          c1 = ucast (unwrap_or 0 (nix_base32_val (bytes ! 1)))
      in push_bit 5 c0 OR c1)"

definition calculate_shard_id_from_str :: "string \<Rightarrow> type_error + u16" where
  "calculate_shard_id_from_str s =
     (let bytes = as_bytes (trim s) in
      if length bytes < 2 then Inl (StoreHashInvalidLength (length bytes))
      else
        result_bind (nix_base32_val (bytes ! 0)) (\<lambda>c0.
        result_bind (nix_base32_val (bytes ! 1)) (\<lambda>c1.
        Inr (push_bit 5 (ucast c0) OR ucast c1))))"

definition shard_id_to_prefix_bytes :: "u16 \<Rightarrow> u8 list" where
  "shard_id_to_prefix_bytes shard_id =
     [NIX_BASE32_ALPHABET ! unat (drop_bit 5 shard_id AND 0x1F),
      NIX_BASE32_ALPHABET ! unat (shard_id AND 0x1F)]"

definition shard_id_to_prefix :: "u16 \<Rightarrow> string" where
  "shard_id_to_prefix shard_id = map (\<lambda>b. char_of (unat b)) (shard_id_to_prefix_bytes shard_id)"

definition or_default_update :: "'k \<Rightarrow> 'v \<Rightarrow> ('v \<Rightarrow> 'v) \<Rightarrow> ('k \<times> 'v) list \<Rightarrow> ('k \<times> 'v) list" where
  "or_default_update k d f m =
     AList.update k (f (case map_of m k of None \<Rightarrow> d | Some v \<Rightarrow> v)) m"

definition partition_entries_by_shard ::
  "(store_hash \<times> 'e) list \<Rightarrow> (u16 \<times> (store_hash \<times> 'e) list) list" where
  "partition_entries_by_shard entries =
     fold (\<lambda>(hash, entry) partitioned.
         or_default_update (calculate_shard_id hash) [] (AList.update hash entry) partitioned)
       entries []"

definition partition_hashes_by_shard :: "store_hash list \<Rightarrow> (u16 \<times> store_hash list) list" where
  "partition_hashes_by_shard hashes =
     fold (\<lambda>hash partitioned.
         or_default_update (calculate_shard_id hash) [] (\<lambda>v. v @ [hash]) partitioned)
       hashes []"

section \<open>Digits\<close>

abbreviation digit :: "nat \<Rightarrow> char" where
  "digit v \<equiv> ''0123456789abcdfghijklmnpqrsvwxyz'' ! v"

lemma all_below_32: "(\<forall>v<32. P v) \<longleftrightarrow> list_all P [0..<32]" for P :: "nat \<Rightarrow> bool"
  by (auto simp: list_all_iff)

lemma digit_val: "v < 32 \<Longrightarrow> nix_base32_val (of_char (digit v)) = Inr (of_nat v)"
proof -
  have "list_all (\<lambda>v. nix_base32_val (of_char (digit v)) = Inr (of_nat v)) [0..<32]"
    by code_simp
  then show "v < 32 \<Longrightarrow> nix_base32_val (of_char (digit v)) = Inr (of_nat v)"
    by (auto simp: list_all_iff)
qed

lemma alphabet_nth: "v < 32 \<Longrightarrow> NIX_BASE32_ALPHABET ! v = of_char (digit v)"
  unfolding NIX_BASE32_ALPHABET_def as_bytes_def by (rule nth_map) simp

lemma digit_of_base32:
  assumes "nix_base32_digit c"
  obtains v where "v < 32" "c = digit v"
proof -
  let ?codes = "[48..<58] @ [97..<101] @ [102..<111] @ [112..<116] @ [118..<123] :: nat list"
  have "?codes = map code ''0123456789abcdfghijklmnpqrsvwxyz''" by code_simp
  moreover have "code c \<in> set ?codes" 
    using assms unfolding set_append set_upt nix_base32_digit_def between_def by auto
  ultimately have "code c \<in> code ` set ''0123456789abcdfghijklmnpqrsvwxyz''" by (metis set_map)
  then have "c \<in> set ''0123456789abcdfghijklmnpqrsvwxyz''" by (auto simp only: of_char_eq_iff)
  then obtain v where "v < length ''0123456789abcdfghijklmnpqrsvwxyz''" "c = digit v"
    by (metis in_set_conv_nth)
  moreover have "length ''0123456789abcdfghijklmnpqrsvwxyz'' = 32" by simp
  ultimately show thesis using that by metis
qed

section \<open>Shard numbers\<close>

lemma shard_word:
  assumes "v0 < 32" "v1 < 32"
  shows "push_bit 5 (ucast (of_nat v0 :: u8)) OR ucast (of_nat v1 :: u8) = (of_nat (32 * v0 + v1) :: u16)"
proof -
  have cast: "(ucast (of_nat v :: u8) :: u16) = of_nat v" if "v < 32" for v
    using that by (simp add: word_unat_eq_iff unat_of_nat unsigned_ucast_eq take_bit_nat_eq_self)
  show ?thesis
    unfolding cast [OF assms(1)] cast [OF assms(2)]
    using push_bit_or_of_nat [of v1 5 v0, where 'a = 16] assms by simp
qed

lemma prefix_index:
  "unat (drop_bit 5 w AND 0x1F) = unat (w :: u16) div 32 mod 32"
  "unat (w AND 0x1F) = unat (w :: u16) mod 32"
proof -
  have mask: "x AND 0x1F = take_bit 5 x" for x :: u16
    by (simp add: take_bit_eq_mask mask_eq_exp_minus_1)
  show "unat (w AND 0x1F) = unat w mod 32"
    unfolding mask unsigned_take_bit_eq by (simp add: take_bit_eq_mod)
  show "unat (drop_bit 5 w AND 0x1F) = unat w div 32 mod 32"
    unfolding mask unsigned_take_bit_eq unat_drop_bit_eq
    by (simp add: take_bit_eq_mod drop_bit_eq_div)
qed

lemma char_of_of_char_u8: "char_of (unat (of_char c :: u8)) = c"
  by (simp add: unat_of_char_u8)

lemma prefix_digits:
  "shard_id_to_prefix w = [digit (unat w div 32 mod 32), digit (unat w mod 32)]"
  unfolding shard_id_to_prefix_def shard_id_to_prefix_bytes_def prefix_index(1) [of w]
    prefix_index(2) [of w]
  by (simp only: list.map alphabet_nth [OF mod_less_divisor [OF zero_less_numeral]]
      char_of_of_char_u8)

lemma valid_hash_digits:
  assumes "valid_store_hash h"
  obtains v0 v1 where "v0 < 32" "v1 < 32" "as_str h ! 0 = digit v0" "as_str h ! 1 = digit v1"
    "take 2 (as_str h) = [digit v0, digit v1]"
proof -
  have len: "0 < length (as_str h)" "1 < length (as_str h)"
    and dig: "list_all nix_base32_digit (as_str h)"
    using assms by (auto simp: valid_store_hash_def)
  obtain v0 v1 where "v0 < 32" "as_str h ! 0 = digit v0" "v1 < 32" "as_str h ! 1 = digit v1"
    using digit_of_base32 len dig by (metis list_all_length)
  moreover have "take 2 (as_str h) = [as_str h ! 0, as_str h ! 1]"
    using len by (cases "as_str h"; cases "tl (as_str h)") (auto simp: numeral_2_eq_2)
  ultimately show thesis using that by simp
qed

lemma shard_id_digits:
  assumes "2 \<le> length s" "v0 < 32" "v1 < 32" "s ! 0 = digit v0" "s ! 1 = digit v1"
  shows "calculate_shard_id (StoreHash s) = of_nat (32 * v0 + v1)"
proof -
  have "as_bytes s ! 0 = of_char (digit v0)" "as_bytes s ! 1 = of_char (digit v1)"
    using assms by (simp_all only: as_bytes_def nth_map)
  then show ?thesis
    using assms shard_word [of v0 v1]
    by (simp only: calculate_shard_id_def Let_def store_hash.sel digit_val unwrap_or_def sum.case)
qed

lemma unat_shard: "v0 < 32 \<Longrightarrow> v1 < 32 \<Longrightarrow> unat (of_nat (32 * v0 + v1) :: u16) = 32 * v0 + v1"
  unfolding unat_of_nat by simp

lemma valid_hash_shard:
  assumes "valid_store_hash h"
  shows "unat (calculate_shard_id h) < NUM_SHARDS"
    and "shard_id_to_prefix (calculate_shard_id h) = take 2 (as_str h)"
    and "calculate_shard_id_from_str (as_str h) = Inr (calculate_shard_id h)"
proof -
  obtain v0 v1 where v: "v0 < 32" "v1 < 32" "as_str h ! 0 = digit v0" "as_str h ! 1 = digit v1"
    and t: "take 2 (as_str h) = [digit v0, digit v1]"
    using valid_hash_digits [OF assms] .
  have len: "length (as_str h) = 32" using assms by (simp add: valid_store_hash_def)
  have id: "calculate_shard_id h = of_nat (32 * v0 + v1)"
    using shard_id_digits [of "as_str h" v0 v1] v len by simp
  have u: "unat (calculate_shard_id h) = 32 * v0 + v1" unfolding id by (rule unat_shard [OF v(1,2)])
  then show "unat (calculate_shard_id h) < NUM_SHARDS" using v by (simp add: NUM_SHARDS_def)
  have "(32 * v0 + v1) div 32 mod 32 = v0" "(32 * v0 + v1) mod 32 = v1" using v(1,2) by auto
  then show "shard_id_to_prefix (calculate_shard_id h) = take 2 (as_str h)"
    by (simp only: prefix_digits u t)
  show "calculate_shard_id_from_str (as_str h) = Inr (calculate_shard_id h)"
    using v len digit_val [of v0] digit_val [of v1] shard_word [of v0 v1]
    by (simp add: calculate_shard_id_from_str_def Let_def trim_valid_store_hash [OF assms]
        as_bytes_def id)
qed

section \<open>Partitioning\<close>

lemma map_of_or_default_update:
  "map_of (or_default_update k d f m) =
     (map_of m)(k \<mapsto> f (case map_of m k of None \<Rightarrow> d | Some v \<Rightarrow> v))"
  by (simp add: or_default_update_def update_conv')

lemma distinct_or_default_update:
  "distinct (map fst m) \<Longrightarrow> distinct (map fst (or_default_update k d f m))"
  by (simp add: or_default_update_def distinct_update)

text \<open>
  Both partitioning loops are the same fold: what a shard holds at the end is what its
  elements, in their order, were folded into.
\<close>

lemma fold_or_default:
  "map_of (fold (\<lambda>x. or_default_update (key x) d (f x)) xs m) k =
     (if map_of m k = None \<and> filter (\<lambda>x. key x = k) xs = [] then None
      else Some (fold f (filter (\<lambda>x. key x = k) xs)
        (case map_of m k of None \<Rightarrow> d | Some v \<Rightarrow> v)))"
proof (induction xs arbitrary: m)
  case Nil
  then show ?case by (simp split: option.split)
next
  case (Cons x xs)
  then show ?case by (auto simp: map_of_or_default_update split: option.split)
qed

lemma distinct_fold_or_default:
  "distinct (map fst m) \<Longrightarrow>
   distinct (map fst (fold (\<lambda>x. or_default_update (key x) d (f x)) xs m))"
  by (induction xs arbitrary: m) (auto intro: distinct_or_default_update)

lemma fold_update_distinct:
  "distinct (map fst m @ map fst xs) \<Longrightarrow> fold (\<lambda>(k, v). AList.update k v) xs m = m @ xs"
proof (induction xs arbitrary: m)
  case (Cons x xs)
  obtain k v where x: "x = (k, v)" by fastforce
  have "k \<notin> fst ` set m" using Cons.prems x by auto
  then have "AList.update k v m = m @ [(k, v)]" by (induction m) auto
  then show ?case using Cons.prems Cons.IH [of "m @ [(k, v)]"] x by simp
qed simp

lemma fold_snoc: "fold (\<lambda>x v. v @ [x]) xs acc = acc @ xs"
  by (induction xs arbitrary: acc) auto

lemma partition_entries_fold:
  "partition_entries_by_shard entries =
     fold (\<lambda>x. or_default_update (calculate_shard_id (fst x)) [] (\<lambda>b. case x of (h, e) \<Rightarrow> AList.update h e b))
       entries []"
  unfolding partition_entries_by_shard_def by (rule fold_cong) auto

section \<open>Properties\<close>

text \<open>
  The shard number of a valid hash is below 1024, its two-letter prefix is the first two
  letters of the hash, the number computed from the text is the same, and two valid hashes
  are in the same shard exactly when they start with the same two letters.
\<close>

theorem shard_id_of_valid_hash:
  assumes "valid_store_hash h" "valid_store_hash h'"
  shows "unat (calculate_shard_id h) < NUM_SHARDS
    \<and> shard_id_to_prefix (calculate_shard_id h) = take 2 (as_str h)
    \<and> calculate_shard_id_from_str (as_str h) = Inr (calculate_shard_id h)
    \<and> (calculate_shard_id h = calculate_shard_id h'
        \<longleftrightarrow> take 2 (as_str h) = take 2 (as_str h'))"
proof -
  obtain v0 v1 where "v0 < 32" "v1 < 32" "as_str h ! 0 = digit v0" "as_str h ! 1 = digit v1"
    "take 2 (as_str h) = [digit v0, digit v1]"
    using valid_hash_digits [OF assms(1)] .
  have "calculate_shard_id h = calculate_shard_id h'"
    if "take 2 (as_str h) = take 2 (as_str h')"
  proof -
    have "as_str h ! 0 = as_str h' ! 0" "as_str h ! 1 = as_str h' ! 1"
      using that nth_take [of 0 2 "as_str h"] nth_take [of 0 2 "as_str h'"]
        nth_take [of 1 2 "as_str h"] nth_take [of 1 2 "as_str h'"] by simp_all
    then show ?thesis
      using assms by (simp add: calculate_shard_id_def as_bytes_def valid_store_hash_def)
  qed
  then show ?thesis
    using valid_hash_shard [OF assms(1)] valid_hash_shard(2) [OF assms(2)] by metis
qed

theorem shard_id_of_valid_hash_witness:
  "unat (calculate_shard_id (hash_of (CHR ''s''))) < NUM_SHARDS
   \<and> shard_id_to_prefix (calculate_shard_id (hash_of (CHR ''s''))) = ''ss''"
proof -
  have "valid_store_hash (hash_of (CHR ''s''))"
    by (simp add: valid_store_hash_def hash_of_def list_all_iff nix_base32_digit_def between_def)
  from shard_id_of_valid_hash [OF this this] show ?thesis
    by (simp add: hash_of_def numeral_2_eq_2)
qed

text \<open>
  Prefix and number of a shard are inverse: the prefix of a number below 1024 reads back
  as that number, and no two shards share a prefix.
\<close>

theorem shard_prefix_roundtrip:
  assumes "unat i < NUM_SHARDS"
  shows "calculate_shard_id_from_str (shard_id_to_prefix i) = Inr i"
proof -
  let ?v0 = "unat i div 32" and ?v1 = "unat i mod 32"
  have v: "?v0 < 32" "?v1 < 32" "?v0 mod 32 = ?v0" using assms by (auto simp: NUM_SHARDS_def)
  have p: "shard_id_to_prefix i = [digit ?v0, digit ?v1]" by (simp only: prefix_digits v(3))
  have "between 33 126 (digit k)" if "k < 32" for k
  proof -
    have "list_all (between 33 126) ''0123456789abcdfghijklmnpqrsvwxyz''" by code_simp
    moreover have "length ''0123456789abcdfghijklmnpqrsvwxyz'' = 32" by simp
    ultimately show ?thesis using that by (metis list_all_length)
  qed
  then have "list_all (between 33 126) [digit ?v0, digit ?v1]"
    using v by (simp only: list.pred_inject)
  then have t: "trim (shard_id_to_prefix i) = shard_id_to_prefix i"
    unfolding p by (intro trim_no_ws any_control_or_ws_any_ws printable_no_ws)
  have "calculate_shard_id_from_str (shard_id_to_prefix i) = Inr (of_nat (32 * ?v0 + ?v1))"
    unfolding calculate_shard_id_from_str_def Let_def t unfolding p
    using digit_val [OF v(1)] digit_val [OF v(2)] shard_word [OF v(1,2)]
    by (simp only: as_bytes_def list.map list.size nth_Cons_0 One_nat_def nth_Cons_Suc
        result_bind_simps) simp
  then show ?thesis by simp
qed

theorem shard_prefix_roundtrip_witness:
  "calculate_shard_id_from_str (shard_id_to_prefix 1023) = Inr 1023"
  by (rule shard_prefix_roundtrip) (simp add: NUM_SHARDS_def)

lemma partition_entries_lookup:
  assumes "distinct (map fst entries)"
  shows "map_of (partition_entries_by_shard entries) i =
    (if \<exists>h e. (h, e) \<in> set entries \<and> calculate_shard_id h = i
     then Some (filter (\<lambda>(h, e). calculate_shard_id h = i) entries) else None)"
proof -
  let ?in = "\<lambda>(h, e). calculate_shard_id h = i"
  have keys: "distinct (map fst (filter (\<lambda>x. calculate_shard_id (fst x) = i) entries))"
    using assms by (rule distinct_map_filter)
  have f: "(\<lambda>x b. case x of (h, e) \<Rightarrow> AList.update h e b) = (\<lambda>(h, e). AList.update h e)"
    by (auto simp: fun_eq_iff)
  have "filter (\<lambda>x. calculate_shard_id (fst x) = i) entries = filter ?in entries"
    by (rule filter_cong) auto
  then show ?thesis
    using fold_update_distinct [of "[]" "filter (\<lambda>x. calculate_shard_id (fst x) = i) entries"] keys
    by (auto simp: partition_entries_fold fold_or_default f filter_empty_conv)
qed

lemma partition_hashes_lookup:
  "map_of (partition_hashes_by_shard hashes) i =
    (if \<exists>h. h \<in> set hashes \<and> calculate_shard_id h = i
     then Some (filter (\<lambda>h. calculate_shard_id h = i) hashes) else None)"
  by (auto simp: partition_hashes_by_shard_def fold_or_default fold_snoc filter_empty_conv)

text \<open>
  C28. Partitioning loses and misplaces nothing: a shard is present exactly when some entry
  belongs to it, and then it holds exactly the entries whose hash belongs to it; the same for
  a list of hashes, whose order is kept within a shard.
\<close>

theorem partition_by_shard_exact:
  assumes "distinct (map fst entries)"
  shows "map_of (partition_entries_by_shard entries) i =
      (if \<exists>h e. (h, e) \<in> set entries \<and> calculate_shard_id h = i
       then Some (filter (\<lambda>(h, e). calculate_shard_id h = i) entries) else None)
    \<and> map_of (partition_hashes_by_shard hashes) i =
      (if \<exists>h. h \<in> set hashes \<and> calculate_shard_id h = i
       then Some (filter (\<lambda>h. calculate_shard_id h = i) hashes) else None)
    \<and> distinct (map fst (partition_entries_by_shard entries))
    \<and> distinct (map fst (partition_hashes_by_shard hashes))"
  using partition_entries_lookup [OF assms, of i] partition_hashes_lookup [of hashes i]
  by (simp add: partition_entries_fold partition_hashes_by_shard_def distinct_fold_or_default)

theorem partition_by_shard_exact_witness:
  "map_of (partition_entries_by_shard sample_entries) 1023 =
      (if \<exists>h e. (h, e) \<in> set sample_entries \<and> calculate_shard_id h = 1023
       then Some (filter (\<lambda>(h, e). calculate_shard_id h = 1023) sample_entries) else None)"
  using partition_by_shard_exact [OF sample_distinct(1), of 1023 "[]"] by blast

end
