(* ===== verification/Canonical_Encoder.thy ===== *)
theory Canonical_Encoder
  imports Core_Types
begin

text \<open>
  The \<open>CanonicalEncoder\<close> of \<^verbatim>\<open>crates/nixcache-core/src/sharding.rs\<close>, which fixes the byte
  string that is hashed for every node of the Merkle trees. An encoder only ever appends, so
  each method is modelled by the bytes it appends and a sequence of calls by their
  concatenation. The property the Merkle trees rest on is that every method is a
  prefix code: what was appended can be read back, and the rest of the input starts right
  after it. The interface \<open>prefix_code\<close> states it, \<open>counted_code\<close> derives the length-prefixed
  vectors and optional values; both are interpreted on the encoder's methods.
\<close>

section \<open>The encoder's methods\<close>

type_synonym bytes = "u8 list"

definition enc_u8 :: "u8 \<Rightarrow> bytes" where
  "enc_u8 v = [v]"

definition enc_u16 :: "u16 \<Rightarrow> bytes" where
  "enc_u16 v = be_bytes16 v"

definition enc_u32 :: "u32 \<Rightarrow> bytes" where
  "enc_u32 v = be_bytes32 v"

definition enc_u64 :: "u64 \<Rightarrow> bytes" where
  "enc_u64 v = be_bytes64 v"

definition enc_bool :: "bool \<Rightarrow> bytes" where
  "enc_bool v = enc_u8 (if v then 1 else 0)"

definition enc_bytes :: "bytes \<Rightarrow> bytes" where
  "enc_bytes v = enc_u64 (of_nat (length v)) @ v"

definition enc_string :: "string \<Rightarrow> bytes" where
  "enc_string v = enc_bytes (as_bytes v)"

definition enc_digest :: "bytes \<Rightarrow> bytes" where
  "enc_digest v = v"

definition enc_option :: "('a \<Rightarrow> bytes) \<Rightarrow> 'a option \<Rightarrow> bytes" where
  "enc_option enc v = (case v of Some x \<Rightarrow> enc_u8 1 @ enc x | None \<Rightarrow> enc_u8 0)"

definition enc_option_digest :: "bytes option \<Rightarrow> bytes" where
  "enc_option_digest = enc_option enc_digest"

definition enc_option_string :: "string option \<Rightarrow> bytes" where
  "enc_option_string = enc_option enc_string"

definition enc_option_u64 :: "u64 option \<Rightarrow> bytes" where
  "enc_option_u64 = enc_option enc_u64"

definition enc_vec :: "('a \<Rightarrow> bytes) \<Rightarrow> 'a list \<Rightarrow> bytes" where
  "enc_vec enc v = enc_u64 (of_nat (length v)) @ concat (map enc v)"

definition enc_string_vec :: "string list \<Rightarrow> bytes" where
  "enc_string_vec = enc_vec enc_string"

section \<open>Prefix codes\<close>

locale prefix_code =
  fixes enc :: "'a \<Rightarrow> bytes" and ok :: "'a \<Rightarrow> bool"
  assumes prefix_free: "ok x \<Longrightarrow> ok y \<Longrightarrow> enc x @ r = enc y @ s \<Longrightarrow> x = y \<and> r = s"
begin

lemma append_iff: "ok x \<Longrightarrow> ok y \<Longrightarrow> enc x @ r = enc y @ s \<longleftrightarrow> x = y \<and> r = s"
  using prefix_free by blast

lemma injective: "ok x \<Longrightarrow> ok y \<Longrightarrow> enc x = enc y \<Longrightarrow> x = y"
  using prefix_free [of x y "[]" "[]"] by simp

lemma concat_iff:
  "length xs = length ys \<Longrightarrow> list_all ok xs \<Longrightarrow> list_all ok ys \<Longrightarrow>
   concat (map enc xs) @ r = concat (map enc ys) @ s \<longleftrightarrow> xs = ys \<and> r = s"
  by (induction xs ys rule: list_induct2) (auto simp: append_iff)

end

text \<open>Values of one fixed length are a prefix code whatever they are.\<close>

lemma prefix_code_fixed:
  assumes "\<And>x. ok x \<Longrightarrow> length (enc x) = n" "\<And>x y. ok x \<Longrightarrow> ok y \<Longrightarrow> enc x = enc y \<Longrightarrow> x = y"
  shows "prefix_code enc ok"
proof
  fix x y r s assume "ok x" "ok y" "enc x @ r = enc y @ s"
  then show "x = y \<and> r = s"
    using assms by (metis append_eq_append_conv)
qed

interpretation code_u8: prefix_code enc_u8 "\<lambda>_. True"
  by (rule prefix_code_fixed [where n = 1]) (auto simp: enc_u8_def)

interpretation code_u16: prefix_code enc_u16 "\<lambda>_. True"
  by (rule prefix_code_fixed [where n = 2]) (auto simp: enc_u16_def be_bytes16_inj)

interpretation code_u64: prefix_code enc_u64 "\<lambda>_. True"
  by (rule prefix_code_fixed [where n = 8]) (auto simp: enc_u64_def be_bytes64_inj)

interpretation code_digest: prefix_code enc_digest "\<lambda>d. length d = 32"
  by (rule prefix_code_fixed [where n = 32]) (auto simp: enc_digest_def)

text \<open>A vector with its length in front, and an optional value with its tag in front.\<close>

definition fits :: "'a list \<Rightarrow> bool" where
  "fits xs \<longleftrightarrow> length xs < 2 ^ 64"

lemma of_nat_length_eq:
  "fits xs \<Longrightarrow> fits ys \<Longrightarrow> (of_nat (length xs) :: u64) = of_nat (length ys) \<longleftrightarrow> length xs = length ys"
  by (simp add: fits_def of_nat64_inj)

locale counted_code = prefix_code
begin

lemma vec_prefix_free: "prefix_code (enc_vec enc) (\<lambda>xs. fits xs \<and> list_all ok xs)"
proof
  fix x y r s
  assume x: "fits x \<and> list_all ok x" and y: "fits y \<and> list_all ok y"
    and eq: "enc_vec enc x @ r = enc_vec enc y @ s"
  from eq have "of_nat (length x) = (of_nat (length y) :: u64)
      \<and> concat (map enc x) @ r = concat (map enc y) @ s"
    by (simp add: enc_vec_def code_u64.append_iff)
  with x y show "x = y \<and> r = s"
    using concat_iff [of x y r s] of_nat_length_eq [of x y] by auto
qed

lemma option_prefix_free: "prefix_code (enc_option enc) (pred_option ok)"
proof
  fix x y r s
  assume "pred_option ok x" "pred_option ok y" "enc_option enc x @ r = enc_option enc y @ s"
  then show "x = y \<and> r = s"
    by (cases x; cases y) (auto simp: enc_option_def enc_u8_def append_iff)
qed

end

interpretation code_bytes: prefix_code enc_bytes fits
proof
  fix x y r s assume x: "fits x" and y: "fits y" and eq: "enc_bytes x @ r = enc_bytes y @ s"
  from eq have "of_nat (length x) = (of_nat (length y) :: u64) \<and> x @ r = y @ s"
    by (simp add: enc_bytes_def code_u64.append_iff)
  with x y show "x = y \<and> r = s" by (auto simp: of_nat_length_eq)
qed

interpretation code_string: prefix_code enc_string fits
proof
  fix x y :: string and r s assume "fits x" "fits y" "enc_string x @ r = enc_string y @ s"
  then show "x = y \<and> r = s"
    using code_bytes.prefix_free [of "as_bytes x" "as_bytes y" r s]
    by (simp add: enc_string_def fits_def as_bytes_inj)
qed

interpretation counted_string: counted_code enc_string fits ..

interpretation counted_u64: counted_code enc_u64 "\<lambda>_. True" ..

interpretation counted_digest: counted_code enc_digest "\<lambda>d. length d = 32" ..

interpretation code_string_vec: prefix_code enc_string_vec "\<lambda>v. fits v \<and> list_all fits v"
  unfolding enc_string_vec_def by (rule counted_string.vec_prefix_free)

interpretation code_option_string: prefix_code enc_option_string "pred_option fits"
  unfolding enc_option_string_def by (rule counted_string.option_prefix_free)

interpretation code_option_u64: prefix_code enc_option_u64 "\<lambda>_. True"
  using counted_u64.option_prefix_free unfolding enc_option_u64_def by (simp add: pred_option_def)

interpretation code_option_digest: prefix_code enc_option_digest "pred_option (\<lambda>d. length d = 32)"
  unfolding enc_option_digest_def by (rule counted_digest.option_prefix_free)

lemmas encoder_iffs =
  code_u8.append_iff code_u16.append_iff code_u64.append_iff code_digest.append_iff
  code_bytes.append_iff code_string.append_iff code_string_vec.append_iff
  code_option_string.append_iff code_option_u64.append_iff code_option_digest.append_iff

section \<open>Hex digests\<close>

definition hex_digit :: "nat \<Rightarrow> char" where
  "hex_digit n = (if n < 10 then char_of (48 + n) else char_of (87 + n))"

definition hex_byte :: "u8 \<Rightarrow> string" where
  "hex_byte b = [hex_digit (unat b div 16), hex_digit (unat b mod 16)]"

definition format_digest :: "bytes \<Rightarrow> string" where
  "format_digest d = ''sha256:'' @ concat (map hex_byte d)"

text \<open>
  A digit outside the canonical alphabet reaches the \<open>unreachable!\<close> arm of the source; the
  callers have checked the alphabet.
\<close>

definition hex_value :: "char \<Rightarrow> u8" where
  "hex_value c = (if is_ascii_digit c then of_nat (code c - 48) else of_nat (code c - 97 + 10))"

fun hex_decode :: "string \<Rightarrow> bytes" where
  "hex_decode (a # b # s) = (push_bit 4 (hex_value a) OR hex_value b) # hex_decode s"
| "hex_decode _ = []"

definition canonical_digest_bytes :: "string \<Rightarrow> string \<Rightarrow> core_error + bytes" where
  "canonical_digest_bytes field value =
     result_bind
       (map_err (\<lambda>error. InvalidCanonicalDigest field [TypeErr error]) (nar_digest_parse value))
       (\<lambda>parsed.
          if digest_str parsed \<noteq> value
          then Inl (InvalidCanonicalDigest field
            [Lit ''digest must use the canonical lowercase sha256 form''])
          else Inr (hex_decode (drop 7 value)))"

lemma lower_hex_hex_digit: "n < 16 \<Longrightarrow> lower_hex (hex_digit n)"
  by (simp add: hex_digit_def lower_hex_def is_ascii_digit_def is_ascii_lower_hex_def between_def)

lemma hex_value_hex_digit: "n < 16 \<Longrightarrow> hex_value (hex_digit n) = of_nat n"
  by (simp add: hex_digit_def hex_value_def is_ascii_digit_def between_def)

lemma unat_u8_less: "unat (b :: u8) < 256"
proof -
  have "unat b < 2 ^ LENGTH(8)" by (rule unsigned_less)
  then show ?thesis by simp
qed

lemma unat_u8_nibbles: "unat (b :: u8) div 16 < 16" "unat (b :: u8) mod 16 < 16"
  using unat_u8_less [of b] by auto

lemma hex_nibbles:
  "push_bit 4 (of_nat (unat b div 16)) OR of_nat (unat b mod 16) = (b :: u8)"
proof (rule bit_word_eqI)
  fix n :: nat assume "n < LENGTH(8)"
  have hi: "(of_nat (unat b div 16) :: u8) = drop_bit 4 b"
    using unat_u8_less [of b]
    by (simp add: word_unat_eq_iff unat_drop_bit_eq unat_of_nat take_bit_eq_mod)
      (simp add: drop_bit_eq_div)
  have lo: "(of_nat (unat b mod 16) :: u8) = take_bit 4 b"
    by (simp add: word_unat_eq_iff unsigned_take_bit_eq unat_of_nat)
      (simp add: take_bit_eq_mod mod_mod_cancel)
  show "bit (push_bit 4 (of_nat (unat b div 16)) OR of_nat (unat b mod 16) :: u8) n = bit b n"
    unfolding hi lo using \<open>n < LENGTH(8)\<close>
    by (auto simp: bit_or_iff bit_push_bit_iff bit_drop_bit_eq bit_take_bit_iff)
qed

lemma hex_decode_hex_bytes: "hex_decode (concat (map hex_byte d)) = d"
proof (induction d)
  case (Cons b d)
  then show ?case
    by (simp add: hex_byte_def hex_value_hex_digit hex_nibbles unat_u8_nibbles)
qed simp

lemma format_digest_sha256: "length d = 32 \<Longrightarrow> is_sha256 (format_digest d)"
proof -
  assume d: "length d = 32"
  have "length (concat (map hex_byte d)) = 2 * length d"
    by (induction d) (simp_all add: hex_byte_def)
  moreover have "list_all lower_hex (concat (map hex_byte d))"
  proof (induction d)
    case (Cons b d)
    then show ?case by (simp add: hex_byte_def lower_hex_hex_digit unat_u8_nibbles)
  qed simp
  ultimately show ?thesis using d by (auto simp: is_sha256_iff format_digest_def)
qed

lemma canonical_digest_bytes_Inr [result_simps]:
  "canonical_digest_bytes field v = Inr d \<longleftrightarrow> is_sha256 v \<and> d = hex_decode (drop 7 v)"
  by (auto simp: canonical_digest_bytes_def result_simps nar_digest_parse_canonical
      dest: nar_digest_parse_sha256)

lemma canonical_format_digest:
  "length d = 32 \<Longrightarrow> canonical_digest_bytes field (format_digest d) = Inr d"
  by (simp add: canonical_digest_bytes_Inr format_digest_sha256)
    (simp add: format_digest_def hex_decode_hex_bytes)

text \<open>The other way round: the bytes of a canonical digest determine it.\<close>

lemma lower_hex_digit:
  assumes "lower_hex c"
  obtains x where "x < 16" "hex_digit x = c" "hex_value c = of_nat x"
proof -
  consider "48 \<le> code c" "code c \<le> 57" | "97 \<le> code c" "code c \<le> 102"
    using assms by (auto simp: lower_hex_def is_ascii_digit_def is_ascii_lower_hex_def between_def)
  then show thesis
  proof cases
    case 1
    then have "hex_digit (code c - 48) = c" "hex_value c = of_nat (code c - 48)" "code c - 48 < 16"
      by (auto simp: hex_digit_def hex_value_def is_ascii_digit_def between_def)
    with that show thesis by blast
  next
    case 2
    then have "hex_digit (code c - 87) = c" "hex_value c = of_nat (code c - 87)" "code c - 87 < 16"
      by (auto simp: hex_digit_def hex_value_def is_ascii_digit_def between_def)
    with that show thesis by blast
  qed
qed

lemma hex_byte_decode:
  assumes "lower_hex a" "lower_hex b"
  shows "hex_byte (push_bit 4 (hex_value a) OR hex_value b) = [a, b]"
proof -
  obtain x y where x: "x < 16" "hex_digit x = a" "hex_value a = of_nat x"
    and y: "y < 16" "hex_digit y = b" "hex_value b = of_nat y"
    using lower_hex_digit assms by metis
  have "push_bit 4 (of_nat x) OR of_nat y = (of_nat (16 * x + y) :: u8)"
    using push_bit_or_of_nat [of y 4 x, where 'a = 8] y(1) by simp
  moreover have "unat (of_nat (16 * x + y) :: u8) = 16 * x + y"
    unfolding unat_of_nat using x(1) y(1) by simp
  moreover have "(16 * x + y) div 16 = x" "(16 * x + y) mod 16 = y" using y(1) by auto
  ultimately show ?thesis unfolding hex_byte_def x(3) y(3) by (simp only: x(2) y(2))
qed

lemma hex_bytes_decode:
  "list_all lower_hex s \<Longrightarrow> even (length s) \<Longrightarrow> concat (map hex_byte (hex_decode s)) = s"
  by (induction s rule: hex_decode.induct) (auto simp: hex_byte_decode)

lemma length_hex_decode: "length (hex_decode s) = length s div 2"
  by (induction s rule: hex_decode.induct) auto

lemma format_hex_decode: "is_sha256 v \<Longrightarrow> format_digest (hex_decode (drop 7 v)) = v"
  by (auto simp: is_sha256_iff format_digest_def hex_bytes_decode)

lemma canonical_digest_length: "canonical_digest_bytes field v = Inr d \<Longrightarrow> length d = 32"
  by (auto simp: canonical_digest_bytes_Inr length_hex_decode is_sha256_def)

lemma canonical_digest_inj:
  "canonical_digest_bytes field v = Inr d \<Longrightarrow> canonical_digest_bytes field' w = Inr d \<Longrightarrow> v = w"
  using format_hex_decode by (metis canonical_digest_bytes_Inr)

lemma format_digest_inj: "format_digest d = format_digest d' \<Longrightarrow> d = d'"
  unfolding format_digest_def by (metis append_same_eq hex_decode_hex_bytes same_append_eq)

end
