(* ===== verification/Merkle_Tree.thy ===== *)
theory Merkle_Tree
  imports Canonical_Encoder
begin

text \<open>
  The layered binary hash tree of \<^verbatim>\<open>sharding.rs\<close> (\<open>hash_with_encoder\<close>, \<open>layered_root\<close>). SHA-256
  (crate \<open>sha2\<close>) is the parameter \<open>H\<close>; what is assumed of it is that a digest has 32 bytes
  and, for the binding statements, that two runs do not collide on a pair of messages that
  stand at the same place of the two computations (\<open>no_collision\<close>). No function with
  32-byte results is injective on all messages, so the messages of a run are made explicit,
  in the order in which the proof compares them (\<open>layered_trace\<close>).
\<close>

definition hash_with_encoder :: "(bytes \<Rightarrow> bytes) \<Rightarrow> string \<Rightarrow> bytes \<Rightarrow> bytes" where
  "hash_with_encoder H domain encoded = H (enc_string domain @ encoded)"

definition EMPTY_SUBTREE_DOMAIN :: string where
  "EMPTY_SUBTREE_DOMAIN = ''nixcache/merkle/v8/empty-subtree''"

text \<open>The messages of one level: two children at a time, a last odd one alone.\<close>

fun level_msgs :: "string \<Rightarrow> u64 \<Rightarrow> bytes list \<Rightarrow> bytes list" where
  "level_msgs d n (left # right # rest) =
     (enc_string d @ enc_u64 n @ enc_u8 2 @ enc_digest left @ enc_digest right)
       # level_msgs d n rest"
| "level_msgs d n [left] = [enc_string d @ enc_u64 n @ enc_u8 1 @ enc_digest left]"
| "level_msgs d n [] = []"

lemma length_level_msgs: "length (level_msgs d n xs) = (length xs + 1) div 2"
  by (induction d n xs rule: level_msgs.induct) auto

function layered_loop :: "(bytes \<Rightarrow> bytes) \<Rightarrow> string \<Rightarrow> u64 \<Rightarrow> bytes list \<Rightarrow> bytes" where
  "layered_loop H d level_number level =
     (if 1 < length level
      then layered_loop H d (level_number + 1) (map H (level_msgs d level_number level))
      else level ! 0)"
  by pat_completeness auto
termination
  by (relation "measure (\<lambda>(_, _, _, level). length level)") (auto simp: length_level_msgs)

declare layered_loop.simps [simp del]

definition layered_root :: "(bytes \<Rightarrow> bytes) \<Rightarrow> bytes list \<Rightarrow> string \<Rightarrow> bytes" where
  "layered_root H leaves node_domain =
     (if leaves = [] then hash_with_encoder H EMPTY_SUBTREE_DOMAIN (enc_u64 0 @ enc_u8 0)
      else if length leaves = 1 then leaves ! 0
      else layered_loop H node_domain 1 leaves)"

section \<open>What a run hashes\<close>

function layered_trace :: "(bytes \<Rightarrow> bytes) \<Rightarrow> string \<Rightarrow> u64 \<Rightarrow> bytes list \<Rightarrow> bytes list" where
  "layered_trace H d level_number level =
     (if 1 < length level
      then level_msgs d level_number level
        @ layered_trace H d (level_number + 1) (map H (level_msgs d level_number level))
      else [])"
  by pat_completeness auto
termination
  by (relation "measure (\<lambda>(_, _, _, level). length level)") (auto simp: length_level_msgs)

declare layered_trace.simps [simp del]

definition no_collision :: "(bytes \<Rightarrow> bytes) \<Rightarrow> bytes list \<Rightarrow> bytes list \<Rightarrow> bool" where
  "no_collision H ms ms' \<longleftrightarrow> (\<forall>(m, m')\<in>set (zip ms ms'). H m = H m' \<longrightarrow> m = m')"

lemma no_collision_append:
  "length as = length bs \<Longrightarrow>
   no_collision H (as @ xs) (bs @ ys) \<longleftrightarrow> no_collision H as bs \<and> no_collision H xs ys"
  by (auto simp: no_collision_def)

lemma no_collision_same: "no_collision H ms ms"
  by (auto simp: no_collision_def in_set_zip)

lemma map_hash_inj:
  "no_collision H ms ms' \<Longrightarrow> map H ms = map H ms' \<Longrightarrow> ms = ms'"
proof (induction ms arbitrary: ms')
  case (Cons m ms)
  then obtain m2 ms2 where ms': "ms' = m2 # ms2" "H m = H m2" "map H ms = map H ms2"
    by (auto simp: Cons_eq_map_conv)
  with Cons.prems(1) have "m = m2" "no_collision H ms ms2" by (auto simp: no_collision_def)
  then show ?case using Cons.IH ms' by blast
qed simp

abbreviation digests :: "bytes list \<Rightarrow> bool" where
  "digests \<equiv> list_all (\<lambda>d. length d = 32)"

lemma level_msgs_inj:
  "length xs = length ys \<Longrightarrow> digests xs \<Longrightarrow> digests ys \<Longrightarrow>
   level_msgs d n xs = level_msgs d n ys \<Longrightarrow> xs = ys"
proof (induction d n xs arbitrary: ys rule: level_msgs.induct)
  case (1 d n left right rest)
  then obtain l r ys' where "ys = l # r # ys'" by (cases ys; cases "tl ys") auto
  with 1 show ?case by (auto simp: enc_digest_def)
next
  case (2 d n left)
  then obtain l where "ys = [l]" by (cases ys; cases "tl ys") auto
  with 2 show ?case by (auto simp: enc_digest_def)
qed simp

lemma layered_loop_binding:
  assumes "\<And>m. length (H m) = 32" "length xs = length ys" "xs \<noteq> []" "digests xs" "digests ys"
    and "no_collision H (layered_trace H d n xs) (layered_trace H d n ys)"
    and "layered_loop H d n xs = layered_loop H d n ys"
  shows "xs = ys"
  using assms(2-)
proof (induction "length xs" arbitrary: xs ys n rule: less_induct)
  case less
  let ?mx = "level_msgs d n xs" and ?my = "level_msgs d n ys"
  show ?case
  proof (cases "1 < length xs")
    case True
    then have tr: "layered_trace H d n xs = ?mx @ layered_trace H d (n + 1) (map H ?mx)"
      "layered_trace H d n ys = ?my @ layered_trace H d (n + 1) (map H ?my)"
      using less.prems(1) by (simp_all add: layered_trace.simps [of H d n])
    have len: "length ?mx = length ?my" using less.prems(1) by (simp add: length_level_msgs)
    then have free: "no_collision H ?mx ?my"
      "no_collision H (layered_trace H d (n + 1) (map H ?mx)) (layered_trace H d (n + 1) (map H ?my))"
      using less.prems(5) unfolding tr by (simp_all add: no_collision_append)
    have "map H ?mx = map H ?my"
    proof (rule less.hyps)
      show "length (map H ?mx) < length xs" using True by (simp add: length_level_msgs)
      show "length (map H ?mx) = length (map H ?my)" using len by simp
      show "map H ?mx \<noteq> []" using length_level_msgs [of d n xs] True by auto
      show "digests (map H ?mx)" "digests (map H ?my)" using assms(1) by (auto simp: list_all_iff)
      show "no_collision H (layered_trace H d (n + 1) (map H ?mx)) (layered_trace H d (n + 1) (map H ?my))"
        by (rule free(2))
      show "layered_loop H d (n + 1) (map H ?mx) = layered_loop H d (n + 1) (map H ?my)"
        using less.prems(1,6) True by (simp add: layered_loop.simps [of H d n])
    qed
    with free(1) show ?thesis
      using level_msgs_inj less.prems(1,3,4) map_hash_inj by blast
  next
    case False
    then obtain x y where "xs = [x]" "ys = [y]"
      using less.prems(1,2) by (cases xs; cases ys) auto
    with less.prems(6) show ?thesis by (simp add: layered_loop.simps)
  qed
qed

lemma layered_loop_length:
  "(\<And>m. length (H m) = 32) \<Longrightarrow> digests xs \<Longrightarrow> xs \<noteq> [] \<Longrightarrow> length (layered_loop H d n xs) = 32"
proof (induction H d n xs rule: layered_loop.induct)
  case (1 H d n level)
  show ?case
  proof (cases "1 < length level")
    case True
    have "digests (map H (level_msgs d n level))" using 1(2) by (simp add: list_all_iff)
    moreover have "level_msgs d n level \<noteq> []" using length_level_msgs [of d n level] True by auto
    ultimately show ?thesis using 1 True by (simp add: layered_loop.simps [of H d n level])
  next
    case False
    with 1(4) obtain x where "level = [x]" by (cases level) auto
    with 1(3) show ?thesis by (simp add: layered_loop.simps)
  qed
qed

lemma layered_root_length:
  assumes "\<And>m. length (H m) = 32" "digests leaves"
  shows "length (layered_root H leaves d) = 32"
  using assms layered_loop_length [of H leaves d 1]
  by (cases leaves) (auto simp: layered_root_def hash_with_encoder_def)

lemma layered_root_binding:
  assumes "\<And>m. length (H m) = 32" "length xs = length ys" "digests xs" "digests ys"
    and "no_collision H (layered_trace H d 1 xs) (layered_trace H d 1 ys)"
    and "layered_root H xs d = layered_root H ys d"
  shows "xs = ys"
proof (cases "length xs \<le> 1")
  case True
  with assms(2,6) show ?thesis
    by (cases xs; cases ys) (auto simp: layered_root_def)
next
  case False
  then have "xs \<noteq> []" "ys \<noteq> []" "length xs \<noteq> 1" "length ys \<noteq> 1" using assms(2) by auto
  then show ?thesis
    using layered_loop_binding [of H xs ys d 1] assms by (simp add: layered_root_def)
qed

section \<open>Trees over encoded values\<close>

text \<open>All messages hashed for a tree: those of its leaves and those of its nodes.\<close>

definition tree_trace :: "(bytes \<Rightarrow> bytes) \<Rightarrow> string \<Rightarrow> bytes list \<Rightarrow> bytes list" where
  "tree_trace H d ms = ms @ layered_trace H d 1 (map H ms)"

text \<open>
  What the trees of entries and of descriptors share: leaves are hashes of messages, and
  on the values that occur the message determines the value. A root then determines the
  whole list of values.
\<close>

locale leaf_encoding =
  fixes msg :: "'a \<Rightarrow> bytes" and ok :: "'a \<Rightarrow> bool"
  assumes msg_inj: "ok x \<Longrightarrow> ok y \<Longrightarrow> msg x = msg y \<Longrightarrow> x = y"
begin

lemma map_msg_inj: "list_all ok xs \<Longrightarrow> list_all ok ys \<Longrightarrow> map msg xs = map msg ys \<Longrightarrow> xs = ys"
proof (induction xs arbitrary: ys)
  case (Cons x xs)
  then obtain y ys' where ys: "ys = y # ys'" "msg x = msg y" "map msg xs = map msg ys'"
    by (auto simp: Cons_eq_map_conv)
  then have "x = y" using msg_inj [of x y] Cons.prems by simp
  then show ?case using Cons ys by simp
qed simp

lemma tree_binding:
  assumes "\<And>m. length (H m) = 32" "length xs = length ys" "list_all ok xs" "list_all ok ys"
    and free: "no_collision H (tree_trace H d (map msg xs)) (tree_trace H d (map msg ys))"
    and root: "layered_root H (map H (map msg xs)) d = layered_root H (map H (map msg ys)) d"
  shows "xs = ys"
proof -
  have split: "no_collision H (map msg xs) (map msg ys)"
    "no_collision H (layered_trace H d 1 (map H (map msg xs))) (layered_trace H d 1 (map H (map msg ys)))"
    using free assms(2) by (simp_all add: tree_trace_def no_collision_append)
  then have "map H (map msg xs) = map H (map msg ys)"
    using assms(1,2) root layered_root_binding [where H = H and d = d]
    by (simp add: list_all_iff)
  with split(1) have "map msg xs = map msg ys" by (rule map_hash_inj)
  then show ?thesis by (rule map_msg_inj [OF assms(3,4)])
qed

end

end
