(* ===== verification/Sharding.thy ===== *)
theory Sharding
  imports Shard_Id Merkle_Tree
begin

text \<open>
  The hashes of shards and of the whole index (\<^verbatim>\<open>sharding.rs\<close>), with the \<open>ShardDescriptor\<close> of
  \<^verbatim>\<open>types.rs\<close>, whose validation recomputes the hash of an empty shard. \<open>entry_count\<close> is a
  \<open>usize\<close> of 64 bits. \<open>rfc3339\<close> and \<open>H\<close> stand for the crates \<open>chrono\<close> and \<open>sha2\<close>.
\<close>

section \<open>Entry leaves and shard roots\<close>

definition ENTRY_LEAF_DOMAIN :: string where
  "ENTRY_LEAF_DOMAIN = ''nixcache/merkle/v8/entry-leaf''"

definition SHARD_NODE_DOMAIN :: string where
  "SHARD_NODE_DOMAIN = ''nixcache/merkle/v8/shard-node''"

definition SHARD_ROOT_DOMAIN :: string where
  "SHARD_ROOT_DOMAIN = ''nixcache/merkle/v8/shard-root''"

definition DESCRIPTOR_LEAF_DOMAIN :: string where
  "DESCRIPTOR_LEAF_DOMAIN = ''nixcache/merkle/v8/descriptor-leaf''"

definition ROOT_NODE_DOMAIN :: string where
  "ROOT_NODE_DOMAIN = ''nixcache/merkle/v8/root-node''"

definition ROOT_ROOT_DOMAIN :: string where
  "ROOT_ROOT_DOMAIN = ''nixcache/merkle/v8/root-root''"

definition validate_shard_id :: "u16 \<Rightarrow> core_error + unit" where
  "validate_shard_id sid =
     (if unat sid < NUM_SHARDS then Inr ()
      else Inl (InvalidMerkle [Lit ''shard id '', Num (unat sid), Lit '' is out of range'']))"

definition validate_entry_identity ::
  "(string \<Rightarrow> 't option) \<Rightarrow> store_hash \<Rightarrow> index_entry \<Rightarrow> u16 \<Rightarrow> core_error + unit" where
  "validate_entry_identity rfc3339 hash e sid =
     result_bind
       (map_err (\<lambda>error. InvalidEntry
            [Lit ''map key '', Str (as_str hash), Lit '' is not canonical: '', TypeErr error])
          (store_hash_parse (as_str hash))) (\<lambda>_.
     result_bind (entry_validate_structure rfc3339 e) (\<lambda>_.
     if calculate_shard_id hash \<noteq> sid
     then Inl (InvalidMerkle [Lit ''entry '', Str (as_str hash), Lit '' belongs to another shard''])
     else if entry_store_hash e \<noteq> Some hash
     then Inl (InvalidMerkle
       [Lit ''entry '', Str (as_str hash), Lit '' StorePath does not match map key''])
     else Inr ()))"

definition enc_origin :: "origin_metadata option \<Rightarrow> bytes" where
  "enc_origin = enc_option (\<lambda>origin.
     enc_option_u64 (origin_run_id origin) @ enc_option_string (origin_job_id origin))"

definition entry_leaf_bytes :: "store_hash \<Rightarrow> index_entry \<Rightarrow> bytes \<Rightarrow> bytes" where
  "entry_leaf_bytes hash e nar_digest =
     enc_bytes (as_bytes (as_str hash))
     @ enc_string (entry_name e)
     @ enc_option_string (map_option system_as_str (entry_system e))
     @ enc_string (meta_store_path (entry_meta e))
     @ enc_string (meta_nar_basename (entry_meta e))
     @ enc_option_string (meta_compression (entry_meta e))
     @ enc_option_string (meta_file_hash (entry_meta e))
     @ enc_option_u64 (meta_file_size (entry_meta e))
     @ enc_string (meta_nar_hash (entry_meta e))
     @ enc_string_vec (meta_references (entry_meta e))
     @ enc_option_string (meta_deriver (entry_meta e))
     @ enc_string_vec (meta_signatures (entry_meta e))
     @ enc_option_string (meta_ca (entry_meta e))
     @ enc_digest nar_digest
     @ enc_u64 (entry_nar_size e)
     @ enc_string (entry_added e)
     @ enc_origin (entry_origin e)"

definition entry_leaf_hash ::
  "(bytes \<Rightarrow> bytes) \<Rightarrow> store_hash \<Rightarrow> index_entry \<Rightarrow> core_error + bytes" where
  "entry_leaf_hash H hash e =
     result_bind (canonical_digest_bytes ''entry nar_digest'' (digest_str (entry_nar_digest e)))
       (\<lambda>nar_digest. Inr (hash_with_encoder H ENTRY_LEAF_DOMAIN (entry_leaf_bytes hash e nar_digest)))"

definition shard_root_bytes :: "u16 \<Rightarrow> nat \<Rightarrow> bytes \<Rightarrow> bytes" where
  "shard_root_bytes sid n subtree_root =
     enc_u16 sid @ enc_bytes (shard_id_to_prefix_bytes sid) @ enc_u64 (of_nat n)
     @ enc_digest subtree_root"

text \<open>The keys come from the map itself, so the \<open>expect\<close> on the lookup cannot fail.\<close>

definition compute_shard_root_bytes ::
  "(string \<Rightarrow> 't option) \<Rightarrow> (bytes \<Rightarrow> bytes) \<Rightarrow> u16 \<Rightarrow> (store_hash \<times> index_entry) list
     \<Rightarrow> core_error + bytes" where
  "compute_shard_root_bytes rfc3339 H sid entries =
     result_bind (validate_shard_id sid) (\<lambda>_.
     result_bind
       (try_map (\<lambda>hash.
            let e = the (map_of entries hash) in
            result_bind (validate_entry_identity rfc3339 hash e sid) (\<lambda>_. entry_leaf_hash H hash e))
          (sort (map fst entries)))
       (\<lambda>leaves. Inr (hash_with_encoder H SHARD_ROOT_DOMAIN
          (shard_root_bytes sid (length entries) (layered_root H leaves SHARD_NODE_DOMAIN)))))"

definition compute_shard_merkle_hash ::
  "(string \<Rightarrow> 't option) \<Rightarrow> (bytes \<Rightarrow> bytes) \<Rightarrow> u16 \<Rightarrow> (store_hash \<times> index_entry) list
     \<Rightarrow> core_error + string" where
  "compute_shard_merkle_hash rfc3339 H sid entries =
     map_ok format_digest (compute_shard_root_bytes rfc3339 H sid entries)"

section \<open>Shard descriptors\<close>

record shard_descriptor =
  desc_shard_id :: u16
  desc_prefix :: string
  desc_blob_digest :: string
  desc_compressed_size :: u64
  desc_uncompressed_size :: u64
  desc_entry_count :: u64
  desc_merkle_hash :: string

definition desc_is_empty :: "shard_descriptor \<Rightarrow> bool" where
  "desc_is_empty d \<longleftrightarrow> desc_entry_count d = 0"

definition desc_validate_structure ::
  "(string \<Rightarrow> 't option) \<Rightarrow> (bytes \<Rightarrow> bytes) \<Rightarrow> shard_descriptor \<Rightarrow> core_error + unit" where
  "desc_validate_structure rfc3339 H d =
     (let sid = desc_shard_id d in
      if \<not> unat sid < NUM_SHARDS
      then Inl (InvalidIndex [Lit ''shard id '', Num (unat sid), Lit '' is out of range''])
      else if desc_prefix d \<noteq> shard_id_to_prefix sid
      then Inl (InvalidIndex [Lit ''shard '', Num (unat sid), Lit '' has an invalid prefix''])
      else if desc_is_empty d
      then result_bind (compute_shard_merkle_hash rfc3339 H sid []) (\<lambda>expected_merkle_hash.
        if desc_blob_digest d \<noteq> [] \<or> desc_compressed_size d \<noteq> 0 \<or> desc_uncompressed_size d \<noteq> 0
          \<or> desc_merkle_hash d \<noteq> expected_merkle_hash
        then Inl (InvalidIndex [Lit ''empty shard '', Num (unat sid), Lit '' has non-empty metadata''])
        else Inr ())
      else
        result_bind
          (map_err (\<lambda>details. InvalidIndex
               [Lit ''shard '', Num (unat sid), Lit '' digest: '', Str details])
             (validate_sha256 (desc_blob_digest d))) (\<lambda>_.
        if desc_compressed_size d = 0 \<or> desc_uncompressed_size d = 0
        then Inl (InvalidIndex [Lit ''non-empty shard '', Num (unat sid), Lit '' has zero size''])
        else if desc_entry_count d = 0
        then Inl (InvalidIndex [Lit ''non-empty shard '', Num (unat sid), Lit '' has zero entries''])
        else
          map_err (\<lambda>details. InvalidIndex
               [Lit ''shard '', Num (unat sid), Lit '' Merkle hash: '', Str details])
            (validate_sha256 (desc_merkle_hash d))))"

definition desc_empty ::
  "(string \<Rightarrow> 't option) \<Rightarrow> (bytes \<Rightarrow> bytes) \<Rightarrow> u16 \<Rightarrow> core_error + shard_descriptor" where
  "desc_empty rfc3339 H sid =
     result_bind (compute_shard_merkle_hash rfc3339 H sid []) (\<lambda>merkle_hash. Inr
       \<lparr>desc_shard_id = sid, desc_prefix = shard_id_to_prefix sid, desc_blob_digest = [],
        desc_compressed_size = 0, desc_uncompressed_size = 0, desc_entry_count = 0,
        desc_merkle_hash = merkle_hash\<rparr>)"

definition desc_new ::
  "(string \<Rightarrow> 't option) \<Rightarrow> (bytes \<Rightarrow> bytes) \<Rightarrow> u16 \<Rightarrow> string \<Rightarrow> u64 \<Rightarrow> u64 \<Rightarrow> u64 \<Rightarrow> string
     \<Rightarrow> core_error + shard_descriptor" where
  "desc_new rfc3339 H sid blob_digest compressed_size uncompressed_size entry_count merkle_hash =
     (let value = \<lparr>desc_shard_id = sid, desc_prefix = shard_id_to_prefix sid,
        desc_blob_digest = blob_digest, desc_compressed_size = compressed_size,
        desc_uncompressed_size = uncompressed_size, desc_entry_count = entry_count,
        desc_merkle_hash = merkle_hash\<rparr>
      in result_bind (desc_validate_structure rfc3339 H value) (\<lambda>_. Inr value))"

definition desc_deserialize ::
  "(string \<Rightarrow> 't option) \<Rightarrow> (bytes \<Rightarrow> bytes) \<Rightarrow> shard_descriptor \<Rightarrow> core_error + shard_descriptor" where
  "desc_deserialize rfc3339 H wire =
     result_bind (desc_validate_structure rfc3339 H wire) (\<lambda>_. Inr wire)"

section \<open>The root over all descriptors\<close>

definition descriptor_leaf_bytes :: "shard_descriptor \<Rightarrow> bytes option \<Rightarrow> bytes \<Rightarrow> bytes" where
  "descriptor_leaf_bytes d blob_digest merkle_hash =
     enc_u16 (desc_shard_id d) @ enc_bytes (as_bytes (desc_prefix d))
     @ enc_option_digest blob_digest @ enc_u64 (desc_compressed_size d)
     @ enc_u64 (desc_uncompressed_size d) @ enc_u64 (desc_entry_count d) @ enc_digest merkle_hash"

definition descriptor_blob_digest :: "shard_descriptor \<Rightarrow> core_error + bytes option" where
  "descriptor_blob_digest d =
     (if desc_blob_digest d = [] then Inr None
      else map_ok Some (canonical_digest_bytes ''descriptor blob_digest'' (desc_blob_digest d)))"

definition descriptor_leaf_hash ::
  "(bytes \<Rightarrow> bytes) \<Rightarrow> shard_descriptor \<Rightarrow> core_error + bytes" where
  "descriptor_leaf_hash H d =
     result_bind (descriptor_blob_digest d) (\<lambda>blob_digest.
     result_bind (canonical_digest_bytes ''descriptor merkle_hash'' (desc_merkle_hash d))
       (\<lambda>merkle_hash. Inr (hash_with_encoder H DESCRIPTOR_LEAF_DOMAIN
          (descriptor_leaf_bytes d blob_digest merkle_hash))))"

definition index_step ::
  "(string \<Rightarrow> 't option) \<Rightarrow> (bytes \<Rightarrow> bytes) \<Rightarrow> shard_descriptor option list \<Rightarrow> shard_descriptor
     \<Rightarrow> core_error + shard_descriptor option list" where
  "index_step rfc3339 H ordered d =
     (let sid = desc_shard_id d in
      result_bind (validate_shard_id sid) (\<lambda>_.
      if ordered ! unat sid \<noteq> None
      then Inl (InvalidShardSet [Lit ''duplicate shard id '', Num (unat sid)])
      else result_bind (desc_validate_structure rfc3339 H d) (\<lambda>_.
        Inr (ordered[unat sid := Some d]))))"

definition index_shard_descriptors ::
  "(string \<Rightarrow> 't option) \<Rightarrow> (bytes \<Rightarrow> bytes) \<Rightarrow> shard_descriptor list
     \<Rightarrow> core_error + shard_descriptor list" where
  "index_shard_descriptors rfc3339 H shards =
     (if length shards \<noteq> NUM_SHARDS
      then Inl (InvalidShardSet
        [Lit ''expected exactly '', Num NUM_SHARDS, Lit '' shard descriptors''])
      else
        result_bind (try_fold (index_step rfc3339 H) (replicate NUM_SHARDS None) shards) (\<lambda>ordered.
          try_map (\<lambda>(i, d). ok_or (InvalidShardSet [Lit ''missing shard id '', Num i]) d)
            (enumerate0 ordered)))"

definition compute_merkle_root ::
  "(string \<Rightarrow> 't option) \<Rightarrow> (bytes \<Rightarrow> bytes) \<Rightarrow> shard_descriptor list \<Rightarrow> core_error + string" where
  "compute_merkle_root rfc3339 H shards =
     result_bind (index_shard_descriptors rfc3339 H shards) (\<lambda>ordered.
     result_bind (try_map (descriptor_leaf_hash H) ordered) (\<lambda>leaves.
       Inr (format_digest (hash_with_encoder H ROOT_ROOT_DOMAIN
         (enc_u64 (of_nat NUM_SHARDS) @ enc_digest (layered_root H leaves ROOT_NODE_DOMAIN))))))"

definition diff_shard_descriptors ::
  "(string \<Rightarrow> 't option) \<Rightarrow> (bytes \<Rightarrow> bytes) \<Rightarrow> shard_descriptor list \<Rightarrow> shard_descriptor list
     \<Rightarrow> core_error + u16 list" where
  "diff_shard_descriptors rfc3339 H old_shards new_shards =
     result_bind (index_shard_descriptors rfc3339 H old_shards) (\<lambda>old.
     result_bind (index_shard_descriptors rfc3339 H new_shards) (\<lambda>new.
       Inr (List.map_filter (\<lambda>(o', n'). if o' \<noteq> n' then Some (desc_shard_id n') else None)
         (zip old new))))"

end
