(* ===== verification/Shard_Hash.thy ===== *)
theory Shard_Hash
  imports Sharding "HOL-Library.Multiset"
begin

text \<open>
  What the hash of a shard commits to: every field of every entry, independently of the
  order in which the map is iterated.
\<close>

section \<open>The message of an entry determines the entry\<close>

definition entry_leaf_msg :: "store_hash \<times> index_entry \<Rightarrow> bytes" where
  "entry_leaf_msg he = (case he of (h, e) \<Rightarrow> enc_string ENTRY_LEAF_DOMAIN
     @ entry_leaf_bytes h e (hex_decode (drop 7 (digest_str (entry_nar_digest e)))))"

text \<open>Strings and vectors whose length can be written in 64 bits: all that fit into memory.\<close>

definition meta_fits :: "nar_info_meta \<Rightarrow> bool" where
  "meta_fits m \<longleftrightarrow>
     fits (meta_store_path m) \<and> fits (meta_nar_basename m) \<and> pred_option fits (meta_compression m)
     \<and> pred_option fits (meta_file_hash m) \<and> fits (meta_nar_hash m)
     \<and> fits (meta_references m) \<and> list_all fits (meta_references m)
     \<and> pred_option fits (meta_deriver m)
     \<and> fits (meta_signatures m) \<and> list_all fits (meta_signatures m) \<and> pred_option fits (meta_ca m)"

definition entry_fits :: "store_hash \<times> index_entry \<Rightarrow> bool" where
  "entry_fits he = (case he of (h, e) \<Rightarrow>
     fits (as_str h) \<and> fits (entry_name e) \<and> meta_fits (entry_meta e) \<and> fits (entry_added e)
     \<and> pred_option (\<lambda>origin. pred_option fits (origin_job_id origin)) (entry_origin e))"

interpretation code_origin: prefix_code enc_origin
  "pred_option (\<lambda>origin. pred_option fits (origin_job_id origin))"
proof
  fix x y r s
  assume "pred_option (\<lambda>origin. pred_option fits (origin_job_id origin)) x"
    "pred_option (\<lambda>origin. pred_option fits (origin_job_id origin)) y"
    "enc_origin x @ r = enc_origin y @ s"
  then show "x = y \<and> r = s"
    by (cases x; cases y)
      (auto simp: enc_origin_def enc_option_def enc_u8_def code_option_u64.append_iff
        code_option_string.append_iff)
qed

lemma fits_as_bytes [simp]: "fits (as_bytes s) = fits s"
  by (simp add: fits_def)

lemma fits_system: "pred_option fits (map_option system_as_str s)"
proof (cases s)
  case (Some a)
  have "length (system_as_str a) < 2 ^ 64" by (cases a) simp_all
  with Some show ?thesis by (simp add: fits_def)
qed simp

definition leaf_ok :: "store_hash \<times> index_entry \<Rightarrow> bool" where
  "leaf_ok he \<longleftrightarrow> entry_fits he \<and> is_sha256 (digest_str (entry_nar_digest (snd he)))"

lemma digest_bytes_length: "is_sha256 v \<Longrightarrow> length (hex_decode (drop 7 v)) = 32"
  by (simp add: length_hex_decode is_sha256_def)

lemma digest_bytes_inj:
  "is_sha256 v \<Longrightarrow> is_sha256 w \<Longrightarrow> hex_decode (drop 7 v) = hex_decode (drop 7 w) \<Longrightarrow> v = w"
  by (metis format_hex_decode)

lemma entry_leaf_msg_inj:
  assumes "leaf_ok (h, e)" "leaf_ok (h', e')" "entry_leaf_msg (h, e) = entry_leaf_msg (h', e')"
  shows "h = h' \<and> e = e'"
proof -
  let ?d = "hex_decode (drop 7 (digest_str (entry_nar_digest e)))"
  let ?d' = "hex_decode (drop 7 (digest_str (entry_nar_digest e')))"
  have fit: "entry_fits (h, e)" "entry_fits (h', e')" and len: "length ?d = 32" "length ?d' = 32"
    using assms(1,2) by (auto simp: leaf_ok_def digest_bytes_length)
  have "entry_leaf_bytes h e ?d = entry_leaf_bytes h' e' ?d'"
    using assms(3) by (simp add: entry_leaf_msg_def)
  then have eqs: "as_str h = as_str h'" "entry_name e = entry_name e'"
    "map_option system_as_str (entry_system e) = map_option system_as_str (entry_system e')"
    "entry_meta e = entry_meta e'" "?d = ?d'" "entry_nar_size e = entry_nar_size e'"
    "entry_added e = entry_added e'" "entry_origin e = entry_origin e'"
    using fit len code_origin.injective [of "entry_origin e" "entry_origin e'"]
    unfolding entry_leaf_bytes_def entry_fits_def meta_fits_def case_prod_conv
    by (simp_all add: encoder_iffs fits_system as_bytes_inj nar_info_meta.equality)
  have "entry_system e = entry_system e'"
    using eqs(3) by (metis option.inj_map_strong system_as_str_inj)
  moreover have "entry_nar_digest e = entry_nar_digest e'"
    using eqs(5) assms(1,2) by (intro nar_digest.expand digest_bytes_inj) (auto simp: leaf_ok_def)
  moreover have "h = h'" using eqs(1) by (rule store_hash.expand)
  ultimately show ?thesis using eqs by (auto intro: index_entry.equality)
qed

interpretation entry_leaf: leaf_encoding entry_leaf_msg leaf_ok
proof
  fix x y assume "leaf_ok x" "leaf_ok y" "entry_leaf_msg x = entry_leaf_msg y"
  then show "x = y" using entry_leaf_msg_inj by (cases x; cases y) auto
qed

section \<open>The root of a shard\<close>

lemma map_fst_sort_key: "distinct (map fst xs) \<Longrightarrow> map fst (sort_key fst xs) = sort (map fst xs)"
  by (rule sym [OF properties_for_sort]) simp_all

lemma sorted_lookup:
  assumes "distinct (map fst xs)"
  shows "map (\<lambda>h. (h, the (map_of xs h))) (sort (map fst xs)) = sort_key fst xs"
  unfolding map_fst_sort_key [OF assms, symmetric] map_map
  by (rule map_idI) (use assms in auto)

lemma sort_key_same_map:
  assumes "distinct (map fst xs)" "distinct (map fst ys)" "set xs = set ys"
  shows "sort_key fst xs = sort_key fst ys"
proof -
  have "sort (map fst xs) = sort (map fst ys)"
    using assms by (intro sorted_distinct_set_unique) auto
  moreover have "map_of xs = map_of ys" using assms by (simp add: map_of_inject_set)
  ultimately show ?thesis using sorted_lookup [OF assms(1)] sorted_lookup [OF assms(2)] by simp
qed

definition shard_root_msg :: "(bytes \<Rightarrow> bytes) \<Rightarrow> u16 \<Rightarrow> (store_hash \<times> index_entry) list \<Rightarrow> bytes" where
  "shard_root_msg H sid sorted_entries =
     enc_string SHARD_ROOT_DOMAIN @ shard_root_bytes sid (length sorted_entries)
       (layered_root H (map H (map entry_leaf_msg sorted_entries)) SHARD_NODE_DOMAIN)"

text \<open>All messages that are hashed for a shard.\<close>

definition shard_trace :: "(bytes \<Rightarrow> bytes) \<Rightarrow> u16 \<Rightarrow> (store_hash \<times> index_entry) list \<Rightarrow> bytes list" where
  "shard_trace H sid entries =
     shard_root_msg H sid (sort_key fst entries)
       # tree_trace H SHARD_NODE_DOMAIN (map entry_leaf_msg (sort_key fst entries))"

definition shard_entry_ok :: "(string \<Rightarrow> 't option) \<Rightarrow> u16 \<Rightarrow> store_hash \<times> index_entry \<Rightarrow> bool" where
  "shard_entry_ok rfc3339 sid he = (case he of (h, e) \<Rightarrow>
     validate_entry_identity rfc3339 h e sid = Inr () \<and> is_sha256 (digest_str (entry_nar_digest e)))"

lemma entry_leaf_hash_Inr:
  "entry_leaf_hash H h e = Inr l \<longleftrightarrow>
     is_sha256 (digest_str (entry_nar_digest e)) \<and> l = H (entry_leaf_msg (h, e))"
  by (auto simp: entry_leaf_hash_def result_simps entry_leaf_msg_def hash_with_encoder_def)

text \<open>The hash of a shard exists exactly for a shard number in range and valid entries.\<close>

lemma compute_shard_root_bytes_Inr:
  assumes "distinct (map fst entries)"
  shows "compute_shard_root_bytes rfc3339 H sid entries = Inr r \<longleftrightarrow>
    unat sid < NUM_SHARDS \<and> list_all (shard_entry_ok rfc3339 sid) entries
    \<and> r = H (shard_root_msg H sid (sort_key fst entries))"
proof -
  let ?hs = "sort (map fst entries)" and ?es = "sort_key fst entries"
  define f where "f = (\<lambda>hash. let e = the (map_of entries hash) in
    result_bind (validate_entry_identity rfc3339 hash e sid) (\<lambda>_. entry_leaf_hash H hash e))"
  have f_Inr: "f h = Inr l \<longleftrightarrow> shard_entry_ok rfc3339 sid (h, the (map_of entries h))
      \<and> l = H (entry_leaf_msg (h, the (map_of entries h)))" for h l
    unfolding f_def Let_def by (auto simp: result_bind_eq_Inr entry_leaf_hash_Inr shard_entry_ok_def)
  have leaves: "try_map f ?hs = Inr ls \<longleftrightarrow>
      list_all (shard_entry_ok rfc3339 sid) ?es \<and> ls = map H (map entry_leaf_msg ?es)" for ls
    unfolding sorted_lookup [OF assms, symmetric]
    by (auto simp: try_map_Inr f_Inr list_all2_conv_all_nth list_all_length intro!: nth_equalityI)
  have "list_all P ?es \<longleftrightarrow> list_all P entries" for P
    by (simp add: list_all_iff)
  then show ?thesis
    by (auto simp: compute_shard_root_bytes_def f_def [symmetric] result_bind_eq_Inr leaves
        validate_shard_id_def shard_root_msg_def hash_with_encoder_def)
qed

lemma compute_shard_merkle_hash_Inr:
  assumes "distinct (map fst entries)"
  shows "compute_shard_merkle_hash rfc3339 H sid entries = Inr v \<longleftrightarrow>
    unat sid < NUM_SHARDS \<and> list_all (shard_entry_ok rfc3339 sid) entries
    \<and> v = format_digest (H (shard_root_msg H sid (sort_key fst entries)))"
  by (auto simp: compute_shard_merkle_hash_def map_ok_eq_Inr compute_shard_root_bytes_Inr [OF assms])

lemma empty_shard_hash:
  "unat sid < NUM_SHARDS \<Longrightarrow>
   compute_shard_merkle_hash rfc3339 H sid [] = Inr (format_digest (H (shard_root_msg H sid [])))"
  by (simp add: compute_shard_merkle_hash_Inr)

lemma shard_root_msg_inj:
  assumes "shard_root_msg H sid xs = shard_root_msg H sid' ys" "fits xs" "fits ys"
  shows "sid = sid' \<and> length xs = length ys
    \<and> layered_root H (map H (map entry_leaf_msg xs)) SHARD_NODE_DOMAIN
      = layered_root H (map H (map entry_leaf_msg ys)) SHARD_NODE_DOMAIN"
proof -
  have "shard_root_bytes sid (length xs)
        (layered_root H (map H (map entry_leaf_msg xs)) SHARD_NODE_DOMAIN)
      = shard_root_bytes sid' (length ys)
        (layered_root H (map H (map entry_leaf_msg ys)) SHARD_NODE_DOMAIN)"
    using assms(1) by (simp add: shard_root_msg_def)
  moreover have "fits (shard_id_to_prefix_bytes i)" for i
    by (simp add: shard_id_to_prefix_bytes_def fits_def)
  ultimately show ?thesis
    using of_nat_length_eq [OF assms(2,3)]
    by (simp add: shard_root_bytes_def encoder_iffs enc_digest_def)
qed

lemma map_of_sort_key: "distinct (map fst xs) \<Longrightarrow> map_of (sort_key fst xs) = map_of xs"
  by (subst map_of_inject_set) (simp_all add: map_fst_sort_key)

section \<open>Properties\<close>

lemma shard_hash_same_map:
  assumes "distinct (map fst entries)" "distinct (map fst entries')" "map_of entries = map_of entries'"
  shows "compute_shard_merkle_hash rfc3339 H sid entries
    = compute_shard_merkle_hash rfc3339 H sid entries'"
proof -
  have keys: "set (map fst entries) = set (map fst entries')"
    using assms(3) by (metis dom_map_of_conv_image_fst list.set_map)
  then have "sort (map fst entries) = sort (map fst entries')"
    using assms(1,2) by (intro sorted_distinct_set_unique) auto
  moreover have "length entries = length entries'"
    using assms(1,2) keys by (metis distinct_card length_map)
  ultimately show ?thesis
    by (simp add: compute_shard_merkle_hash_def compute_shard_root_bytes_def assms(3))
qed

text \<open>
  C27. The hash of a shard is a function of the map, not of the order in which it is iterated:
  two association lists of the same map give the same hash, or the same error.
\<close>

theorem shard_hash_order_independent:
  assumes "distinct (map fst entries)" "distinct (map fst entries')" "map_of entries = map_of entries'"
  shows "compute_shard_merkle_hash rfc3339 H sid entries
    = compute_shard_merkle_hash rfc3339 H sid entries'"
  using assms by (rule shard_hash_same_map)

theorem shard_hash_order_independent_witness:
  "compute_shard_merkle_hash sample_rfc3339 (\<lambda>m. replicate 32 0) 0 sample_entries
    = compute_shard_merkle_hash sample_rfc3339 (\<lambda>m. replicate 32 0) 0 (rev sample_entries)"
proof (rule shard_hash_order_independent)
  show "map_of sample_entries = map_of (rev sample_entries)"
    using sample_distinct(1) by (subst map_of_inject_set) (simp_all flip: rev_map)
qed (use sample_distinct(1) in \<open>simp_all flip: rev_map\<close>)

lemma shard_hash_bound:
  assumes "\<And>m. length (H m) = 32"
    and "distinct (map fst entries)" "distinct (map fst entries')"
    and "fits entries" "fits entries'" "list_all entry_fits entries" "list_all entry_fits entries'"
    and "compute_shard_merkle_hash rfc3339 H sid entries = Inr v"
    and "compute_shard_merkle_hash rfc3339 H sid' entries' = Inr v"
    and free: "no_collision H (shard_trace H sid entries) (shard_trace H sid' entries')"
  shows "sid = sid' \<and> map_of entries = map_of entries'"
proof -
  let ?xs = "sort_key fst entries" and ?ys = "sort_key fst entries'"
  note ok = compute_shard_merkle_hash_Inr [OF assms(2), THEN iffD1, OF assms(8)]
    compute_shard_merkle_hash_Inr [OF assms(3), THEN iffD1, OF assms(9)]
  then have "H (shard_root_msg H sid ?xs) = H (shard_root_msg H sid' ?ys)"
    by (auto dest: format_digest_inj)
  then have "shard_root_msg H sid ?xs = shard_root_msg H sid' ?ys"
    using free by (auto simp: no_collision_def shard_trace_def)
  then have root: "sid = sid'" "length ?xs = length ?ys"
    "layered_root H (map H (map entry_leaf_msg ?xs)) SHARD_NODE_DOMAIN
      = layered_root H (map H (map entry_leaf_msg ?ys)) SHARD_NODE_DOMAIN"
    using shard_root_msg_inj [of H sid ?xs sid' ?ys] assms(4,5) by (auto simp: fits_def)
  have leaf: "list_all leaf_ok ?xs" "list_all leaf_ok ?ys"
    using ok assms(6,7) by (auto simp: list_all_iff leaf_ok_def shard_entry_ok_def)
  have "?xs = ?ys"
  proof (rule entry_leaf.tree_binding [OF assms(1) root(2) leaf _ root(3)])
    show "no_collision H (tree_trace H SHARD_NODE_DOMAIN (map entry_leaf_msg ?xs))
        (tree_trace H SHARD_NODE_DOMAIN (map entry_leaf_msg ?ys))"
      using free by (simp add: shard_trace_def no_collision_def)
  qed
  then show ?thesis using root(1) map_of_sort_key assms(2,3) by metis
qed

text \<open>
  C10. The hash of a shard binds its whole content: when two shards have the same hash and the
  hash function does not collide on messages at the same place of the two computations, they
  have the same number
  and the same entries, with every field of every entry equal.
\<close>

theorem shard_hash_binding:
  assumes "\<And>m. length (H m) = 32"
    and "distinct (map fst entries)" "distinct (map fst entries')"
    and "fits entries" "fits entries'" "list_all entry_fits entries" "list_all entry_fits entries'"
    and "compute_shard_merkle_hash rfc3339 H sid entries = Inr v"
    and "compute_shard_merkle_hash rfc3339 H sid' entries' = Inr v"
    and "no_collision H (shard_trace H sid entries) (shard_trace H sid' entries')"
  shows "sid = sid' \<and> map_of entries = map_of entries'"
  using assms by (rule shard_hash_bound)

text \<open>Two entries of one shard, listed in two orders, with a stand-in for the hash function.\<close>

definition sample_H :: "bytes \<Rightarrow> bytes" where
  "sample_H m = le_bytes64 (of_nat (length m)) @ replicate 24 0"

lemma sample_H_length: "length (sample_H m) = 32"
  by (simp add: sample_H_def)

lemma sample_pair_ok:
  "list_all (shard_entry_ok sample_rfc3339 (calculate_shard_id hash_a)) sample_pair"
proof -
  have "take 2 (as_str hash_a) = take 2 (as_str hash_a2)"
    by (simp add: hash_of_def hash_a2_def numeral_eq_Suc)
  then have "calculate_shard_id hash_a2 = calculate_shard_id hash_a"
    by (simp add: calculate_shard_id_def hash_of_def hash_a2_def as_bytes_def numeral_eq_Suc)
  then show ?thesis
    using sample_valid sample_hash_parse [OF sample_hashes_valid(1)]
      sample_hash_parse [OF sample_hashes_valid(3)]
    by (auto simp: sample_pair_def shard_entry_ok_def validate_entry_identity_def)
qed

lemma sample_pair_fits: "fits sample_pair" "list_all entry_fits sample_pair"
  by (simp_all add: sample_pair_def sample_entry_def sample_meta_def entry_fits_def
      meta_fits_def fits_def hash_of_def hash_a2_def)

theorem shard_hash_binding_witness:
  "\<exists>v. compute_shard_merkle_hash sample_rfc3339 sample_H (calculate_shard_id hash_a) sample_pair = Inr v
    \<and> compute_shard_merkle_hash sample_rfc3339 sample_H (calculate_shard_id hash_a) (rev sample_pair) = Inr v
    \<and> map_of sample_pair = map_of (rev sample_pair)"
proof -
  let ?i = "calculate_shard_id hash_a" and ?r = "rev sample_pair"
  have d: "distinct (map fst sample_pair)" "distinct (map fst ?r)"
    using sample_distinct(3) by (simp_all flip: rev_map)
  have ok: "unat ?i < NUM_SHARDS" "list_all (shard_entry_ok sample_rfc3339 ?i) ?r"
    using valid_hash_shard(1) [OF sample_hashes_valid(1)] sample_pair_ok by (simp_all add: list_all_iff)
  have same: "sort_key fst ?r = sort_key fst sample_pair"
    using d by (intro sort_key_same_map) simp_all
  obtain v where v: "compute_shard_merkle_hash sample_rfc3339 sample_H ?i sample_pair = Inr v"
    "compute_shard_merkle_hash sample_rfc3339 sample_H ?i ?r = Inr v"
    using compute_shard_merkle_hash_Inr [OF d(1)] compute_shard_merkle_hash_Inr [OF d(2)]
      sample_pair_ok ok same by metis
  have "no_collision sample_H (shard_trace sample_H ?i sample_pair) (shard_trace sample_H ?i ?r)"
    by (simp add: shard_trace_def same no_collision_same)
  moreover have "fits ?r" "list_all entry_fits ?r"
    using sample_pair_fits by (simp_all add: fits_def list_all_iff)
  ultimately have "map_of sample_pair = map_of ?r"
    using shard_hash_binding [OF sample_H_length d sample_pair_fits(1) _ sample_pair_fits(2) _ v] by blast
  with v show ?thesis by blast
qed

end
