(* ===== verification/Shard_Root.thy ===== *)
theory Shard_Root
  imports Shard_Hash
begin

text \<open>
  What the Merkle root of an index commits to: the descriptor of every shard, independently
  of the order of the descriptor list, and what a comparison of two descriptor lists reports.
\<close>

section \<open>Valid descriptors\<close>

abbreviation desc_key :: "shard_descriptor \<Rightarrow> nat" where
  "desc_key d \<equiv> unat (desc_shard_id d)"

definition empty_merkle_hash :: "(bytes \<Rightarrow> bytes) \<Rightarrow> u16 \<Rightarrow> string" where
  "empty_merkle_hash H sid = format_digest (H (shard_root_msg H sid []))"

lemma desc_validate_Inr:
  "desc_validate_structure rfc3339 H d = Inr () \<longleftrightarrow>
     desc_key d < NUM_SHARDS \<and> desc_prefix d = shard_id_to_prefix (desc_shard_id d)
     \<and> (if desc_is_empty d
        then desc_blob_digest d = [] \<and> desc_compressed_size d = 0 \<and> desc_uncompressed_size d = 0
          \<and> desc_merkle_hash d = empty_merkle_hash H (desc_shard_id d)
        else is_sha256 (desc_blob_digest d) \<and> desc_compressed_size d \<noteq> 0
          \<and> desc_uncompressed_size d \<noteq> 0 \<and> is_sha256 (desc_merkle_hash d))"
  by (auto simp: desc_validate_structure_def Let_def empty_shard_hash empty_merkle_hash_def
      result_simps desc_is_empty_def split: if_splits)

definition desc_valid :: "(bytes \<Rightarrow> bytes) \<Rightarrow> shard_descriptor \<Rightarrow> bool" where
  "desc_valid H d \<longleftrightarrow> desc_validate_structure (\<lambda>_. None :: unit option) H d = Inr ()"

lemma desc_valid_any: "desc_validate_structure rfc3339 H d = Inr () \<longleftrightarrow> desc_valid H d"
  by (simp add: desc_valid_def desc_validate_Inr)

lemma desc_valid_key: "desc_valid H d \<Longrightarrow> desc_key d < NUM_SHARDS"
  by (simp add: desc_valid_def desc_validate_Inr)

lemma desc_valid_canonical:
  assumes "\<And>m. length (H m) = 32" "desc_valid H d"
  shows "desc_blob_digest d = [] \<or> is_sha256 (desc_blob_digest d)"
    and "is_sha256 (desc_merkle_hash d)" "fits (desc_prefix d)"
  using assms
  by (auto simp: desc_valid_def desc_validate_Inr empty_merkle_hash_def format_digest_sha256 fits_def
      shard_id_to_prefix_def shard_id_to_prefix_bytes_def split: if_splits)

section \<open>Indexing the descriptors\<close>

lemma index_step_Inr:
  "index_step rfc3339 H ordered d = Inr ordered' \<longleftrightarrow>
     desc_valid H d \<and> ordered ! desc_key d = None \<and> ordered' = ordered[desc_key d := Some d]"
  using desc_valid_key [of H d]
  by (auto simp: index_step_def Let_def result_bind_eq_Inr validate_shard_id_def desc_valid_any
      split: if_splits)

lemma index_fold_Inr:
  "length acc = NUM_SHARDS \<Longrightarrow>
   try_fold (index_step rfc3339 H) acc xs = Inr ordered \<longleftrightarrow>
     list_all (desc_valid H) xs \<and> distinct (map desc_key xs)
     \<and> (\<forall>d\<in>set xs. acc ! desc_key d = None)
     \<and> ordered = fold (\<lambda>d a. a[desc_key d := Some d]) xs acc"
proof (induction xs arbitrary: acc)
  case (Cons d xs)
  let ?acc = "acc[desc_key d := Some d]"
  have step: "try_fold (index_step rfc3339 H) acc (d # xs) = Inr ordered \<longleftrightarrow>
      desc_valid H d \<and> acc ! desc_key d = None \<and> try_fold (index_step rfc3339 H) ?acc xs = Inr ordered"
    by (auto simp: result_bind_eq_Inr index_step_Inr)
  have slots: "(\<forall>x\<in>set xs. ?acc ! desc_key x = None) \<longleftrightarrow>
      desc_key d \<notin> set (map desc_key xs) \<and> (\<forall>x\<in>set xs. acc ! desc_key x = None)"
    if "desc_valid H d"
    using desc_valid_key [OF that] Cons.prems by (force simp: nth_list_update)
  show ?case
    unfolding step using Cons.IH [of ?acc] Cons.prems slots by (cases "desc_valid H d") auto
qed (auto simp: eq_commute)

lemma nth_fold_slots:
  "distinct (map desc_key xs) \<Longrightarrow> (\<forall>d\<in>set xs. desc_key d < length acc) \<Longrightarrow>
   d \<in> set xs \<Longrightarrow> fold (\<lambda>d a. a[desc_key d := Some d]) xs acc ! desc_key d = Some d"
proof (induction xs arbitrary: acc)
  case (Cons x xs)
  have keep: "fold (\<lambda>d a. a[desc_key d := Some d]) ys b ! i = b ! i"
    if "i \<notin> desc_key ` set ys" for ys b i
    using that by (induction ys arbitrary: b) auto
  show ?case
  proof (cases "d = x")
    case True
    then show ?thesis using Cons.prems keep [of "desc_key x" xs] by auto
  next
    case False
    then show ?thesis using Cons by auto
  qed
qed simp

lemma length_fold_slots: "length (fold (\<lambda>d a. a[desc_key d := Some d]) xs acc) = length acc"
  by (induction xs arbitrary: acc) auto

text \<open>As many descriptors as slots, in different slots: every slot is filled.\<close>

lemma keys_complete:
  assumes "length xs = n" "distinct (map desc_key xs)" "\<forall>d\<in>set xs. desc_key d < n"
  shows "desc_key ` set xs = {..<n}"
proof (rule card_subset_eq)
  show "desc_key ` set xs \<subseteq> {..<n}" using assms(3) by auto
  show "card (desc_key ` set xs) = card {..<n}"
    using assms(1,2) by (metis card_lessThan distinct_card length_map list.set_map)
qed simp

definition indexed :: "shard_descriptor list \<Rightarrow> shard_descriptor list \<Rightarrow> bool" where
  "indexed shards res \<longleftrightarrow> set res = set shards \<and> map desc_key res = [0..<NUM_SHARDS]"

lemma indexed_unique: "indexed shards res \<Longrightarrow> indexed shards res' \<Longrightarrow> res = res'"
proof -
  assume a: "indexed shards res" "indexed shards res'"
  then have k: "map desc_key res = map desc_key res'" "set res = set res'"
    and "distinct (map desc_key res)" by (auto simp: indexed_def)
  then have "inj_on desc_key (set res \<union> set res')" by (simp add: distinct_map)
  with k(1) show "res = res'" by (rule map_inj_on)
qed

lemma index_ok:
  assumes "list_all (desc_valid H) shards" "distinct (map desc_key shards)" "length shards = NUM_SHARDS"
  shows "\<exists>res. index_shard_descriptors rfc3339 H shards = Inr res \<and> indexed shards res"
proof -
  let ?acc = "replicate NUM_SHARDS None"
  let ?o = "fold (\<lambda>d a. a[desc_key d := Some d]) shards ?acc"
  have keys: "\<forall>d\<in>set shards. desc_key d < NUM_SHARDS"
    using assms(1) by (auto simp: list_all_iff dest: desc_valid_key)
  have "try_fold (index_step rfc3339 H) ?acc shards = Inr ?o"
    using assms(1,2) keys by (subst index_fold_Inr) auto
  moreover have slot: "\<exists>d\<in>set shards. ?o ! i = Some d \<and> desc_key d = i" if "i < NUM_SHARDS" for i
  proof -
    have "i \<in> desc_key ` set shards" using keys_complete [OF assms(3,2) keys] that by simp
    then obtain d where "d \<in> set shards" "desc_key d = i" by auto
    with nth_fold_slots [OF assms(2), of ?acc d] keys show ?thesis by auto
  qed
  have len: "length ?o = NUM_SHARDS" by (simp add: length_fold_slots)
  have fill: "try_map (\<lambda>(i, d). ok_or (InvalidShardSet [Lit ''missing shard id '', Num i]) d)
      (enumerate0 ?o) = Inr (map (\<lambda>p. the (snd p)) (enumerate0 ?o))"
  proof (rule try_map_total)
    fix p assume "p \<in> set (enumerate0 ?o)"
    moreover obtain i d where p: "p = (i, d)" by fastforce
    ultimately have "i < NUM_SHARDS" "p = (i, ?o ! i)" using len by (simp_all add: set_enumerate0)
    with slot show "(case p of (i, d) \<Rightarrow> ok_or (InvalidShardSet [Lit ''missing shard id '', Num i]) d)
        = Inr (the (snd p))" by fastforce
  qed
  let ?res = "map (\<lambda>p. the (snd p)) (enumerate0 ?o)"
  have "map the (map snd (enumerate0 ?o)) = map the ?o" by (simp add: enumerate0_def)
  then have res: "?res = map the ?o" by (simp add: comp_def)
  have "map desc_key ?res = [0..<NUM_SHARDS]"
    unfolding res using slot len by (intro nth_equalityI) fastforce+
  moreover have "set ?res = set shards"
  proof
    show "set ?res \<subseteq> set shards" unfolding res using slot len by (fastforce simp: in_set_conv_nth)
    show "set shards \<subseteq> set ?res"
    proof
      fix d assume d: "d \<in> set shards"
      then have "?o ! desc_key d = Some d" using nth_fold_slots [OF assms(2), of ?acc d] keys by simp
      then show "d \<in> set ?res" unfolding res using keys d len by (force simp: in_set_conv_nth)
    qed
  qed
  ultimately show ?thesis
    using fill assms(3) by (auto simp: index_shard_descriptors_def indexed_def)
qed

lemma index_shard_descriptors_Inr:
  "index_shard_descriptors rfc3339 H shards = Inr res \<longleftrightarrow>
     list_all (desc_valid H) shards \<and> length shards = NUM_SHARDS \<and> indexed shards res"
proof
  assume r: "index_shard_descriptors rfc3339 H shards = Inr res"
  then have "list_all (desc_valid H) shards" "distinct (map desc_key shards)" "length shards = NUM_SHARDS"
    by (auto simp: index_shard_descriptors_def result_bind_eq_Inr index_fold_Inr split: if_splits)
  with index_ok [of H shards rfc3339] r
  show "list_all (desc_valid H) shards \<and> length shards = NUM_SHARDS \<and> indexed shards res" by auto
next
  assume a: "list_all (desc_valid H) shards \<and> length shards = NUM_SHARDS \<and> indexed shards res"
  then have k: "set res = set shards" "map desc_key res = [0..<NUM_SHARDS]" by (auto simp: indexed_def)
  have "desc_key ` set shards = {..<NUM_SHARDS}"
    by (metis k list.set_map atLeast0LessThan atLeast_upt set_upt)
  then have "card (set (map desc_key shards)) = length (map desc_key shards)" using a by simp
  then have "distinct (map desc_key shards)" by (rule card_distinct)
  with a index_ok [of H shards rfc3339] obtain res'
    where "index_shard_descriptors rfc3339 H shards = Inr res'" "indexed shards res'" by blast
  with a show "index_shard_descriptors rfc3339 H shards = Inr res" by (metis indexed_unique)
qed

section \<open>The Merkle root\<close>

definition descriptor_leaf_msg :: "shard_descriptor \<Rightarrow> bytes" where
  "descriptor_leaf_msg d = enc_string DESCRIPTOR_LEAF_DOMAIN @ descriptor_leaf_bytes d
     (if desc_blob_digest d = [] then None else Some (hex_decode (drop 7 (desc_blob_digest d))))
     (hex_decode (drop 7 (desc_merkle_hash d)))"

definition desc_leaf_ok :: "shard_descriptor \<Rightarrow> bool" where
  "desc_leaf_ok d \<longleftrightarrow> fits (desc_prefix d) \<and> is_sha256 (desc_merkle_hash d)
     \<and> (desc_blob_digest d = [] \<or> is_sha256 (desc_blob_digest d))"

lemma descriptor_leaf_msg_inj:
  assumes "desc_leaf_ok d" "desc_leaf_ok d'" "descriptor_leaf_msg d = descriptor_leaf_msg d'"
  shows "d = d'"
proof -
  let ?b = "\<lambda>d. if desc_blob_digest d = [] then None else Some (hex_decode (drop 7 (desc_blob_digest d)))"
  have len: "pred_option (\<lambda>x. length x = 32) (?b d)" "pred_option (\<lambda>x. length x = 32) (?b d')"
    "fits (desc_prefix d)" "fits (desc_prefix d')"
    using assms(1,2) by (auto simp: desc_leaf_ok_def digest_bytes_length)
  have "descriptor_leaf_bytes d (?b d) (hex_decode (drop 7 (desc_merkle_hash d)))
      = descriptor_leaf_bytes d' (?b d') (hex_decode (drop 7 (desc_merkle_hash d')))"
    using assms(3) by (simp add: descriptor_leaf_msg_def)
  then have eqs: "desc_shard_id d = desc_shard_id d'" "desc_prefix d = desc_prefix d'" "?b d = ?b d'"
    "desc_compressed_size d = desc_compressed_size d'"
    "desc_uncompressed_size d = desc_uncompressed_size d'" "desc_entry_count d = desc_entry_count d'"
    "hex_decode (drop 7 (desc_merkle_hash d)) = hex_decode (drop 7 (desc_merkle_hash d'))"
    using len unfolding descriptor_leaf_bytes_def
    by (simp_all add: encoder_iffs as_bytes_inj enc_digest_def del: if_split split del: if_split)
  have "desc_blob_digest d = desc_blob_digest d'"
    using eqs(3) assms(1,2) digest_bytes_inj by (auto simp: desc_leaf_ok_def split: if_splits)
  moreover have "desc_merkle_hash d = desc_merkle_hash d'"
    using eqs(7) assms(1,2) by (intro digest_bytes_inj) (auto simp: desc_leaf_ok_def)
  ultimately show ?thesis using eqs by (intro shard_descriptor.equality) auto
qed

interpretation descriptor_leaf: leaf_encoding descriptor_leaf_msg desc_leaf_ok
  by unfold_locales (rule descriptor_leaf_msg_inj)

lemma desc_valid_leaf_ok: "(\<And>m. length (H m) = 32) \<Longrightarrow> desc_valid H d \<Longrightarrow> desc_leaf_ok d"
  using desc_valid_canonical [of H d] by (auto simp: desc_leaf_ok_def)

lemma descriptor_leaf_hash_ok:
  "desc_leaf_ok d \<Longrightarrow> descriptor_leaf_hash H d = Inr (H (descriptor_leaf_msg d))"
proof -
  assume ok: "desc_leaf_ok d"
  have "descriptor_blob_digest d = Inr (if desc_blob_digest d = [] then None
      else Some (hex_decode (drop 7 (desc_blob_digest d))))"
    using ok canonical_digest_bytes_Inr
    by (auto simp: descriptor_blob_digest_def desc_leaf_ok_def map_ok_eq_Inr)
  moreover have "canonical_digest_bytes ''descriptor merkle_hash'' (desc_merkle_hash d)
      = Inr (hex_decode (drop 7 (desc_merkle_hash d)))"
    using ok by (simp add: canonical_digest_bytes_Inr desc_leaf_ok_def)
  ultimately show ?thesis
    by (simp add: descriptor_leaf_hash_def descriptor_leaf_msg_def hash_with_encoder_def)
qed

definition root_msg :: "(bytes \<Rightarrow> bytes) \<Rightarrow> shard_descriptor list \<Rightarrow> bytes" where
  "root_msg H ordered = enc_string ROOT_ROOT_DOMAIN @ enc_u64 (of_nat NUM_SHARDS)
     @ enc_digest (layered_root H (map H (map descriptor_leaf_msg ordered)) ROOT_NODE_DOMAIN)"

text \<open>All messages that are hashed for the root over the indexed descriptors.\<close>

definition root_trace :: "(bytes \<Rightarrow> bytes) \<Rightarrow> shard_descriptor list \<Rightarrow> bytes list" where
  "root_trace H ordered =
     root_msg H ordered # tree_trace H ROOT_NODE_DOMAIN (map descriptor_leaf_msg ordered)"

lemma compute_merkle_root_Inr:
  assumes "\<And>m. length (H m) = 32"
  shows "compute_merkle_root rfc3339 H shards = Inr v \<longleftrightarrow>
    (\<exists>ordered. index_shard_descriptors rfc3339 H shards = Inr ordered
       \<and> v = format_digest (H (root_msg H ordered)))"
proof -
  have "try_map (descriptor_leaf_hash H) ordered = Inr (map H (map descriptor_leaf_msg ordered))"
    if "index_shard_descriptors rfc3339 H shards = Inr ordered" for ordered
  proof -
    have "list_all (desc_valid H) shards" "set ordered = set shards"
      using that by (simp_all add: index_shard_descriptors_Inr indexed_def)
    then have "desc_leaf_ok d" if "d \<in> set ordered" for d
      using that desc_valid_leaf_ok [of H, OF assms] by (simp add: list_all_iff)
    then have "try_map (descriptor_leaf_hash H) ordered
        = Inr (map (\<lambda>d. H (descriptor_leaf_msg d)) ordered)"
      by (intro try_map_total descriptor_leaf_hash_ok)
    then show ?thesis by (simp add: comp_def)
  qed
  then show ?thesis
    by (fastforce simp: compute_merkle_root_def result_bind_eq_Inr root_msg_def hash_with_encoder_def)
qed

section \<open>Differences\<close>

lemma indexed_nth:
  assumes "indexed shards res" "i < NUM_SHARDS"
  shows "desc_key (res ! i) = i" "length res = NUM_SHARDS"
proof -
  have k: "map desc_key res = [0..<NUM_SHARDS]" using assms(1) by (simp add: indexed_def)
  then show len: "length res = NUM_SHARDS" by (metis length_map length_upt minus_nat.diff_0)
  have "map desc_key res ! i = i" using k assms(2) by simp
  then show "desc_key (res ! i) = i" using assms(2) len by simp
qed

lemma indexed_at:
  assumes "indexed shards res"
  shows "d \<in> set shards \<and> desc_shard_id d = i \<longleftrightarrow> unat i < NUM_SHARDS \<and> d = res ! unat i"
proof
  assume d: "d \<in> set shards \<and> desc_shard_id d = i"
  then obtain k where "k < length res" "res ! k = d"
    using assms by (metis indexed_def in_set_conv_nth)
  moreover have "length res = NUM_SHARDS" using indexed_nth(2) [OF assms, of 0] by (simp add: NUM_SHARDS_def)
  ultimately show "unat i < NUM_SHARDS \<and> d = res ! unat i" using indexed_nth(1) [OF assms, of k] d by auto
next
  assume a: "unat i < NUM_SHARDS \<and> d = res ! unat i"
  then have "d \<in> set res" using indexed_nth(2) [OF assms, of "unat i"] by simp
  moreover have "desc_shard_id d = i"
    using indexed_nth(1) [OF assms, of "unat i"] a by (simp add: word_unat_eq_iff)
  ultimately show "d \<in> set shards \<and> desc_shard_id d = i" using assms by (simp add: indexed_def)
qed

lemma diff_keys:
  assumes "indexed old o'" "indexed new n'"
  shows "map unat (List.map_filter
      (\<lambda>(x, y). if x \<noteq> y then Some (desc_shard_id y) else None) (zip o' n'))
    = filter (\<lambda>i. o' ! i \<noteq> n' ! i) [0..<NUM_SHARDS]"
proof -
  have len: "length o' = NUM_SHARDS" "length n' = NUM_SHARDS"
    using indexed_nth(2) [of _ _ 0] assms by (auto simp: NUM_SHARDS_def)
  have "zip o' n' = map (\<lambda>i. (o' ! i, n' ! i)) [0..<NUM_SHARDS]"
    using len by (intro nth_equalityI) auto
  then have "map unat (List.map_filter
        (\<lambda>(x, y). if x \<noteq> y then Some (desc_shard_id y) else None) (zip o' n'))
      = map (\<lambda>i. desc_key (n' ! i)) (filter (\<lambda>i. o' ! i \<noteq> n' ! i) [0..<NUM_SHARDS])"
    by (simp add: map_filter_def filter_map comp_def)
  also have "\<dots> = filter (\<lambda>i. o' ! i \<noteq> n' ! i) [0..<NUM_SHARDS]"
    by (rule map_idI) (simp add: indexed_nth(1) [OF assms(2)])
  finally show ?thesis .
qed

section \<open>Empty shards\<close>

definition empty_desc :: "(bytes \<Rightarrow> bytes) \<Rightarrow> u16 \<Rightarrow> shard_descriptor" where
  "empty_desc H sid =
     \<lparr>desc_shard_id = sid, desc_prefix = shard_id_to_prefix sid, desc_blob_digest = [],
      desc_compressed_size = 0, desc_uncompressed_size = 0, desc_entry_count = 0,
      desc_merkle_hash = empty_merkle_hash H sid\<rparr>"

lemma desc_empty_Inr:
  "desc_empty rfc3339 H sid = Inr d \<longleftrightarrow> unat sid < NUM_SHARDS \<and> d = empty_desc H sid"
  by (auto simp: desc_empty_def result_bind_eq_Inr compute_shard_merkle_hash_Inr empty_desc_def
      empty_merkle_hash_def)

lemma empty_desc_valid: "unat sid < NUM_SHARDS \<Longrightarrow> desc_valid H (empty_desc H sid)"
  by (simp add: desc_valid_def desc_validate_Inr empty_desc_def desc_is_empty_def)

definition empty_shards :: "(bytes \<Rightarrow> bytes) \<Rightarrow> shard_descriptor list" where
  "empty_shards H = map (\<lambda>i. empty_desc H (of_nat i)) [0..<NUM_SHARDS]"

lemma shard_number: "i < NUM_SHARDS \<Longrightarrow> unat (of_nat i :: u16) = i"
  unfolding unat_of_nat by (simp add: NUM_SHARDS_def)

lemma empty_shards_valid: "list_all (desc_valid H) (empty_shards H)"
  by (simp add: empty_shards_def list_all_iff empty_desc_valid shard_number)

lemma empty_shards_keys: "map desc_key (empty_shards H) = [0..<NUM_SHARDS]"
  unfolding empty_shards_def map_map by (rule map_idI) (simp add: empty_desc_def shard_number)

lemma length_empty_shards [simp]: "length (empty_shards H) = NUM_SHARDS"
  by (simp add: empty_shards_def)

lemma index_empty_shards: "index_shard_descriptors rfc3339 H (empty_shards H) = Inr (empty_shards H)"
  by (simp add: index_shard_descriptors_Inr empty_shards_valid indexed_def empty_shards_keys)

lemma index_rev_empty_shards:
  "index_shard_descriptors rfc3339 H (rev (empty_shards H)) = Inr (empty_shards H)"
  using empty_shards_valid
  by (simp add: index_shard_descriptors_Inr indexed_def empty_shards_keys list_all_iff)

section \<open>Properties\<close>

text \<open>
  Indexing accepts exactly the complete descriptor lists: 1024 valid descriptors whose
  numbers are all different. The result lists the same descriptors by their number, so it
  does not depend on the order of the input; a missing shard is always caught as a duplicate
  or by the count.
\<close>

theorem index_shard_descriptors_exact:
  "is_ok (index_shard_descriptors rfc3339 H shards)
     = (list_all (desc_valid H) shards \<and> length shards = NUM_SHARDS \<and> distinct (map desc_key shards))
   \<and> (\<forall>res. index_shard_descriptors rfc3339 H shards = Inr res \<longrightarrow>
        set res = set shards \<and> map desc_key res = [0..<NUM_SHARDS])"
proof -
  have "distinct (map desc_key shards)" if "index_shard_descriptors rfc3339 H shards = Inr res" for res
    using that
    by (auto simp: index_shard_descriptors_def result_bind_eq_Inr index_fold_Inr split: if_splits)
  then have "is_ok (index_shard_descriptors rfc3339 H shards)
      = (list_all (desc_valid H) shards \<and> length shards = NUM_SHARDS \<and> distinct (map desc_key shards))"
    using index_ok [of H shards rfc3339] by (auto simp: is_ok_iff index_shard_descriptors_Inr)
  then show ?thesis by (simp add: index_shard_descriptors_Inr indexed_def)
qed

theorem index_shard_descriptors_exact_witness:
  "is_ok (index_shard_descriptors sample_rfc3339 sample_H (rev (empty_shards sample_H)))
   \<and> (\<exists>res. index_shard_descriptors sample_rfc3339 sample_H (rev (empty_shards sample_H)) = Inr res
        \<and> map desc_key res = [0..<NUM_SHARDS])"
  using index_shard_descriptors_exact [of sample_rfc3339 sample_H "rev (empty_shards sample_H)"]
    index_rev_empty_shards [of sample_rfc3339 sample_H] by simp

text \<open>
  The root depends on the set of descriptors only: a permuted list has the same root, and a
  permutation never turns success into an error.
\<close>

theorem merkle_root_order_independent:
  assumes "\<And>m. length (H m) = 32" "mset shards = mset shards'"
    and "compute_merkle_root rfc3339 H shards = Inr v"
  shows "compute_merkle_root rfc3339 H shards' = Inr v"
proof -
  have "set shards = set shards'" "length shards = length shards'"
    using assms(2) by (metis set_mset_mset, metis size_mset)
  then have "index_shard_descriptors rfc3339 H shards = Inr o' \<longleftrightarrow>
      index_shard_descriptors rfc3339 H shards' = Inr o'" for o'
    by (simp add: index_shard_descriptors_Inr indexed_def list_all_iff)
  with assms(3) show ?thesis by (simp add: compute_merkle_root_Inr [OF assms(1)])
qed

theorem merkle_root_order_independent_witness:
  "\<exists>v. compute_merkle_root sample_rfc3339 sample_H (empty_shards sample_H) = Inr v
     \<and> compute_merkle_root sample_rfc3339 sample_H (rev (empty_shards sample_H)) = Inr v"
proof -
  obtain v where "compute_merkle_root sample_rfc3339 sample_H (empty_shards sample_H) = Inr v"
    by (simp add: compute_merkle_root_Inr [OF sample_H_length] index_empty_shards)
  with merkle_root_order_independent [OF sample_H_length _ this, of "rev (empty_shards sample_H)"]
  show ?thesis by simp
qed

lemma merkle_root_bound:
  assumes "\<And>m. length (H m) = 32"
    and "compute_merkle_root rfc3339 H shards = Inr v" "compute_merkle_root rfc3339 H shards' = Inr v"
    and "index_shard_descriptors rfc3339 H shards = Inr ordered"
    and "index_shard_descriptors rfc3339 H shards' = Inr ordered'"
    and free: "no_collision H (root_trace H ordered) (root_trace H ordered')"
  shows "ordered = ordered' \<and> set shards = set shards'
    \<and> diff_shard_descriptors rfc3339 H shards shards' = Inr []"
proof -
  have "H (root_msg H ordered) = H (root_msg H ordered')"
    using assms(2-5) by (auto simp: compute_merkle_root_Inr [OF assms(1)] dest: format_digest_inj)
  then have "root_msg H ordered = root_msg H ordered'"
    using free by (auto simp: no_collision_def root_trace_def)
  then have root: "layered_root H (map H (map descriptor_leaf_msg ordered)) ROOT_NODE_DOMAIN
      = layered_root H (map H (map descriptor_leaf_msg ordered')) ROOT_NODE_DOMAIN"
    by (simp add: root_msg_def enc_digest_def)
  have ix: "list_all (desc_valid H) shards" "indexed shards ordered"
    "list_all (desc_valid H) shards'" "indexed shards' ordered'"
    using assms(4,5) by (simp_all add: index_shard_descriptors_Inr)
  then have ok: "list_all desc_leaf_ok ordered" "list_all desc_leaf_ok ordered'"
    using desc_valid_leaf_ok [of H, OF assms(1)] by (auto simp: list_all_iff indexed_def)
  have "length ordered = length ordered'" using ix(2,4) by (metis indexed_def length_map)
  then have "ordered = ordered'"
  proof (rule descriptor_leaf.tree_binding [OF assms(1) _ ok _ root])
    show "no_collision H (tree_trace H ROOT_NODE_DOMAIN (map descriptor_leaf_msg ordered))
        (tree_trace H ROOT_NODE_DOMAIN (map descriptor_leaf_msg ordered'))"
      using free by (simp add: root_trace_def no_collision_def)
  qed
  moreover from this have "set shards = set shards'" using ix by (simp add: indexed_def)
  moreover have "List.map_filter (\<lambda>(x, y). if x \<noteq> y then Some (desc_shard_id y) else None) (zip xs xs) = []"
    for xs :: "shard_descriptor list"
    by (induction xs) (auto simp: map_filter_def)
  ultimately show ?thesis using assms(4,5) by (simp add: diff_shard_descriptors_def)
qed

text \<open>
  C11. The Merkle root binds every descriptor: when two indexes have the same root and the hash
  function does not collide on messages at the same place of the two computations, every shard has the same
  descriptor in both, with every field equal, and their difference is empty.
\<close>

theorem merkle_root_binding:
  assumes "\<And>m. length (H m) = 32"
    and "compute_merkle_root rfc3339 H shards = Inr v" "compute_merkle_root rfc3339 H shards' = Inr v"
    and "index_shard_descriptors rfc3339 H shards = Inr ordered"
    and "index_shard_descriptors rfc3339 H shards' = Inr ordered'"
    and "no_collision H (root_trace H ordered) (root_trace H ordered')"
  shows "ordered = ordered' \<and> set shards = set shards'
    \<and> diff_shard_descriptors rfc3339 H shards shards' = Inr []"
  using assms by (rule merkle_root_bound)

theorem merkle_root_binding_witness:
  "diff_shard_descriptors sample_rfc3339 sample_H (empty_shards sample_H) (rev (empty_shards sample_H))
     = Inr []"
proof -
  let ?e = "empty_shards sample_H"
  note ix = index_empty_shards [of sample_rfc3339 sample_H] index_rev_empty_shards [of sample_rfc3339 sample_H]
  obtain v where v: "compute_merkle_root sample_rfc3339 sample_H ?e = Inr v"
    "compute_merkle_root sample_rfc3339 sample_H (rev ?e) = Inr v"
    by (simp add: compute_merkle_root_Inr [OF sample_H_length] ix)
  from merkle_root_binding [OF sample_H_length v ix no_collision_same] show ?thesis by blast
qed

text \<open>
  The comparison of two complete descriptor lists is exact: it reports, in ascending order
  and once each, exactly the numbers of the shards whose descriptors differ.
\<close>

theorem diff_shard_descriptors_exact:
  assumes "diff_shard_descriptors rfc3339 H old new = Inr ids"
  shows "sorted (map unat ids) \<and> distinct ids
    \<and> set ids = {i. \<exists>d\<in>set old. \<exists>d'\<in>set new. desc_shard_id d = i \<and> desc_shard_id d' = i \<and> d \<noteq> d'}"
proof -
  from assms obtain o' n' where o': "indexed old o'" and n': "indexed new n'"
    and ids: "ids = List.map_filter (\<lambda>(x, y). if x \<noteq> y then Some (desc_shard_id y) else None) (zip o' n')"
    by (auto simp: diff_shard_descriptors_def result_bind_eq_Inr index_shard_descriptors_Inr)
  note ids' = diff_keys [OF o' n', folded ids]
  have "i \<in> set ids \<longleftrightarrow>
      (\<exists>d\<in>set old. \<exists>d'\<in>set new. desc_shard_id d = i \<and> desc_shard_id d' = i \<and> d \<noteq> d')" for i
  proof -
    have "i \<in> set ids \<longleftrightarrow> unat i \<in> set (map unat ids)" by (auto simp flip: word_unat_eq_iff)
    also have "\<dots> \<longleftrightarrow> unat i < NUM_SHARDS \<and> o' ! unat i \<noteq> n' ! unat i" unfolding ids' by auto
    also have "\<dots> \<longleftrightarrow> (\<exists>d d'. (unat i < NUM_SHARDS \<and> d = o' ! unat i)
        \<and> (unat i < NUM_SHARDS \<and> d' = n' ! unat i) \<and> d \<noteq> d')" by blast
    also have "\<dots> \<longleftrightarrow> (\<exists>d d'. (d \<in> set old \<and> desc_shard_id d = i)
        \<and> (d' \<in> set new \<and> desc_shard_id d' = i) \<and> d \<noteq> d')"
      by (simp only: indexed_at [OF o'] indexed_at [OF n'])
    finally show ?thesis by blast
  qed
  moreover have "sorted (map unat ids)" unfolding ids' by (rule sorted_wrt_filter) simp
  moreover have "distinct (map unat ids)" unfolding ids' by simp
  ultimately show ?thesis by (auto simp: distinct_map)
qed

theorem diff_shard_descriptors_exact_witness:
  "\<exists>ids. diff_shard_descriptors sample_rfc3339 sample_H (empty_shards sample_H)
       (rev (empty_shards sample_H)) = Inr ids \<and> sorted (map unat ids) \<and> distinct ids"
proof -
  let ?e = "empty_shards sample_H"
  obtain ids where "diff_shard_descriptors sample_rfc3339 sample_H ?e (rev ?e) = Inr ids"
    using index_empty_shards [of sample_rfc3339 sample_H] index_rev_empty_shards [of sample_rfc3339 sample_H]
    by (simp add: diff_shard_descriptors_def)
  with diff_shard_descriptors_exact [OF this] show ?thesis by blast
qed

end
