(* ===== verification/Core_Index.thy ===== *)
theory Core_Index
  imports Shard_Root
begin

text \<open>
  The stored documents of \<^verbatim>\<open>types.rs\<close>: the index root \<open>ShardedArchCacheIndexData\<close> with its
  1024 descriptors, the payload of one shard, and the build receipt. Deserialising is modelled
  from the point where the fields have been read. The current time, which the source takes
  from \<open>chrono::Utc::now\<close>, is the argument \<open>now\<close>. A \<open>usize\<close> counter has 64 bits and its sums
  wrap, as in a release build.
\<close>

definition SCHEMA_VERSION_V8 :: u32 where
  "SCHEMA_VERSION_V8 = 8"

definition RECEIPT_VERSION :: u32 where
  "RECEIPT_VERSION = 7"

record index_limits =
  max_shard_entries :: u64
  max_gc_roots :: u64
  max_uncompressed_bytes :: u64
  max_nar_size :: u64

section \<open>The index root\<close>

record index_data =
  idx_version :: u32
  idx_system :: system_arch
  idx_repo :: string
  idx_registry :: string
  idx_generated :: string
  idx_public_key :: string
  idx_shards :: "shard_descriptor list"
  idx_merkle_root :: string
  idx_gc_roots :: "store_hash list"
  idx_last_promoted_run :: "u64 option"

text \<open>The two \<open>expect\<close> calls of the constructor panic where the model returns an error.\<close>

definition index_new ::
  "(string \<Rightarrow> 't option) \<Rightarrow> (bytes \<Rightarrow> bytes) \<Rightarrow> string \<Rightarrow> system_arch \<Rightarrow> string \<Rightarrow> string
     \<Rightarrow> core_error + index_data" where
  "index_new rfc3339 H now system repo registry =
     result_bind (try_map (\<lambda>i. desc_empty rfc3339 H (of_nat i)) [0..<NUM_SHARDS]) (\<lambda>shards.
     result_bind (compute_merkle_root rfc3339 H shards) (\<lambda>merkle_root. Inr
       \<lparr>idx_version = SCHEMA_VERSION_V8, idx_system = system, idx_repo = repo,
        idx_registry = registry, idx_generated = now, idx_public_key = [], idx_shards = shards,
        idx_merkle_root = merkle_root, idx_gc_roots = [], idx_last_promoted_run = None\<rparr>))"

definition find_shard_by_id :: "index_data \<Rightarrow> u16 \<Rightarrow> shard_descriptor option" where
  "find_shard_by_id idx sid = get (idx_shards idx) (unat sid)"

definition find_shard :: "index_data \<Rightarrow> store_hash \<Rightarrow> shard_descriptor option" where
  "find_shard idx hash = get (idx_shards idx) (unat (calculate_shard_id hash))"

text \<open>A mutable reference is the current value with the way to write a new one back.\<close>

definition find_shard_by_id_mut ::
  "index_data \<Rightarrow> u16 \<Rightarrow> (shard_descriptor \<times> (shard_descriptor \<Rightarrow> index_data)) option" where
  "find_shard_by_id_mut idx sid =
     map_option (\<lambda>d. (d, \<lambda>d'. idx\<lparr>idx_shards := (idx_shards idx)[unat sid := d']\<rparr>))
       (get (idx_shards idx) (unat sid))"

definition find_shard_mut ::
  "index_data \<Rightarrow> store_hash \<Rightarrow> (shard_descriptor \<times> (shard_descriptor \<Rightarrow> index_data)) option" where
  "find_shard_mut idx hash = find_shard_by_id_mut idx (calculate_shard_id hash)"

definition total_entries :: "index_data \<Rightarrow> u64" where
  "total_entries idx = sum_list (map desc_entry_count (idx_shards idx))"

definition recalculate_merkle_root ::
  "(string \<Rightarrow> 't option) \<Rightarrow> (bytes \<Rightarrow> bytes) \<Rightarrow> index_data \<Rightarrow> core_error + index_data" where
  "recalculate_merkle_root rfc3339 H idx =
     map_ok (\<lambda>root. idx\<lparr>idx_merkle_root := root\<rparr>) (compute_merkle_root rfc3339 H (idx_shards idx))"

definition is_shard_empty :: "index_data \<Rightarrow> store_hash \<Rightarrow> bool" where
  "is_shard_empty idx hash = (case find_shard idx hash of Some shard \<Rightarrow> desc_is_empty shard | None \<Rightarrow> True)"

definition valid_timestamp :: "(string \<Rightarrow> 't option) \<Rightarrow> string \<Rightarrow> bool" where
  "valid_timestamp rfc3339 s \<longleftrightarrow> \<not> (trim s = [] \<or> rfc3339 s = None)"

definition index_validate_structure ::
  "(string \<Rightarrow> 't option) \<Rightarrow> (bytes \<Rightarrow> bytes) \<Rightarrow> index_data \<Rightarrow> core_error + unit" where
  "index_validate_structure rfc3339 H idx =
     (if idx_version idx \<noteq> SCHEMA_VERSION_V8
      then Inl (InvalidIndex [Lit ''version must be '', Num 8])
      else if \<not> is_known (idx_system idx) then Inl (InvalidIndex [Lit ''root system must be known''])
      else if trim (idx_repo idx) = [] \<or> trim (idx_registry idx) = []
      then Inl (InvalidIndex [Lit ''root repository and registry must not be empty''])
      else if \<not> valid_timestamp rfc3339 (idx_generated idx)
      then Inl (InvalidIndex [Lit ''root generated must be a valid RFC3339 timestamp''])
      else if length (idx_shards idx) \<noteq> NUM_SHARDS
      then Inl (InvalidIndex [Lit ''expected exactly '', Num NUM_SHARDS, Lit '' shard descriptors''])
      else
        result_bind
          (try_each (\<lambda>(index, shard).
               if desc_shard_id shard \<noteq> of_nat index
               then Inl (InvalidIndex
                 [Lit ''shard descriptor at index '', Num index, Lit '' has wrong id''])
               else desc_validate_structure rfc3339 H shard)
             (enumerate0 (idx_shards idx))) (\<lambda>_.
        result_bind
          (map_err (\<lambda>details. InvalidIndex [Lit ''root Merkle hash: '', Str details])
             (validate_sha256 (idx_merkle_root idx))) (\<lambda>_.
        result_bind (compute_merkle_root rfc3339 H (idx_shards idx)) (\<lambda>root.
        if root \<noteq> idx_merkle_root idx
        then Inl (InvalidIndex [Lit ''root Merkle hash does not match shard descriptors''])
        else Inr ()))))"

definition index_validate_for ::
  "(string \<Rightarrow> 't option) \<Rightarrow> (bytes \<Rightarrow> bytes) \<Rightarrow> index_data \<Rightarrow> system_arch \<Rightarrow> string \<Rightarrow> string
     \<Rightarrow> index_limits \<Rightarrow> core_error + unit" where
  "index_validate_for rfc3339 H idx system repo registry limits =
     result_bind (index_validate_structure rfc3339 H idx) (\<lambda>_.
     if idx_system idx \<noteq> system
     then Inl (InvalidIndex [Lit ''root system does not match the requested system''])
     else if idx_repo idx \<noteq> repo \<or> idx_registry idx \<noteq> registry
     then Inl (InvalidIndex [Lit ''root repository or registry does not match the client target''])
     else
       result_bind
         (try_each (\<lambda>shard.
              if desc_is_empty shard then Inr ()
              else if desc_uncompressed_size shard > max_uncompressed_bytes limits
              then Inl (LimitExceeded ''shard uncompressed bytes'' (max_uncompressed_bytes limits)
                (desc_uncompressed_size shard))
              else if desc_entry_count shard > max_shard_entries limits
              then Inl (LimitExceeded ''shard entries'' (max_shard_entries limits)
                (desc_entry_count shard))
              else Inr ())
            (idx_shards idx)) (\<lambda>_.
       if of_nat (length (idx_gc_roots idx)) > max_gc_roots limits
       then Inl (LimitExceeded ''GC roots'' (max_gc_roots limits) (of_nat (length (idx_gc_roots idx))))
       else Inr ()))"

definition index_deserialize ::
  "(string \<Rightarrow> 't option) \<Rightarrow> (bytes \<Rightarrow> bytes) \<Rightarrow> index_data \<Rightarrow> core_error + index_data" where
  "index_deserialize rfc3339 H wire =
     result_bind (index_validate_structure rfc3339 H wire) (\<lambda>_. Inr wire)"

section \<open>The payload of a shard\<close>

record shard_payload =
  payload_version :: u32
  payload_shard_id :: u16
  payload_prefix :: string
  payload_entries :: "(store_hash \<times> index_entry) list"

definition payload_new :: "u16 \<Rightarrow> core_error + shard_payload" where
  "payload_new sid =
     (if \<not> unat sid < NUM_SHARDS
      then Inl (InvalidShard [Lit ''shard id '', Num (unat sid), Lit '' is out of range''])
      else Inr \<lparr>payload_version = SCHEMA_VERSION_V8, payload_shard_id = sid,
        payload_prefix = shard_id_to_prefix sid, payload_entries = []\<rparr>)"

definition payload_with_entries ::
  "u16 \<Rightarrow> (store_hash \<times> index_entry) list \<Rightarrow> core_error + shard_payload" where
  "payload_with_entries sid entries =
     map_ok (\<lambda>payload. payload\<lparr>payload_entries := entries\<rparr>) (payload_new sid)"

definition payload_compute_merkle_hash ::
  "(string \<Rightarrow> 't option) \<Rightarrow> (bytes \<Rightarrow> bytes) \<Rightarrow> shard_payload \<Rightarrow> core_error + string" where
  "payload_compute_merkle_hash rfc3339 H p =
     compute_shard_merkle_hash rfc3339 H (payload_shard_id p) (payload_entries p)"

definition payload_is_empty :: "shard_payload \<Rightarrow> bool" where
  "payload_is_empty p \<longleftrightarrow> payload_entries p = []"

definition payload_len :: "shard_payload \<Rightarrow> nat" where
  "payload_len p = length (payload_entries p)"

definition payload_check_entry ::
  "(string \<Rightarrow> 't option) \<Rightarrow> u16 \<Rightarrow> store_hash \<times> index_entry \<Rightarrow> core_error + unit" where
  "payload_check_entry rfc3339 sid he = (case he of (hash, e) \<Rightarrow>
     result_bind
       (map_err (\<lambda>error. InvalidShard [Lit ''entry '', Str (as_str hash), Lit '': '', CoreErr error])
          (entry_validate_structure rfc3339 e)) (\<lambda>_.
     if calculate_shard_id hash \<noteq> sid
     then Inl (InvalidShard [Lit ''entry '', Str (as_str hash), Lit '' belongs to another shard''])
     else if is_none_or (\<lambda>system. \<not> is_known system) (entry_system e)
     then Inl (InvalidShard
       [Lit ''entry '', Str (as_str hash), Lit '' has an unknown or missing system''])
     else if entry_store_hash e \<noteq> Some hash
     then Inl (InvalidShard
       [Lit ''entry '', Str (as_str hash), Lit '' StorePath does not match map key''])
     else Inr ()))"

definition payload_validate_structure ::
  "(string \<Rightarrow> 't option) \<Rightarrow> shard_payload \<Rightarrow> core_error + unit" where
  "payload_validate_structure rfc3339 p =
     (if payload_version p \<noteq> SCHEMA_VERSION_V8
      then Inl (InvalidShard [Lit ''version must be '', Num 8])
      else if \<not> unat (payload_shard_id p) < NUM_SHARDS
      then Inl (InvalidShard
        [Lit ''shard id '', Num (unat (payload_shard_id p)), Lit '' is out of range''])
      else if payload_prefix p \<noteq> shard_id_to_prefix (payload_shard_id p)
      then Inl (InvalidShard [Lit ''payload prefix does not match shard id''])
      else try_each (payload_check_entry rfc3339 (payload_shard_id p)) (payload_entries p))"

definition payload_validate_for ::
  "(string \<Rightarrow> 't option) \<Rightarrow> shard_payload \<Rightarrow> u16 \<Rightarrow> system_arch \<Rightarrow> index_limits
     \<Rightarrow> core_error + unit" where
  "payload_validate_for rfc3339 p sid system limits =
     result_bind (payload_validate_structure rfc3339 p) (\<lambda>_.
     if \<not> unat sid < NUM_SHARDS \<or> payload_shard_id p \<noteq> sid
     then Inl (InvalidShard [Lit ''payload shard id is invalid or does not match the descriptor''])
     else if payload_prefix p \<noteq> shard_id_to_prefix sid
     then Inl (InvalidShard [Lit ''payload prefix does not match shard id''])
     else if of_nat (length (payload_entries p)) > max_shard_entries limits
     then Inl (LimitExceeded ''shard entries'' (max_shard_entries limits)
       (of_nat (length (payload_entries p))))
     else
       try_each (\<lambda>(hash, e).
           if entry_system e \<noteq> Some system
           then Inl (InvalidShard
             [Lit ''entry '', Str (as_str hash), Lit '' has a mismatched or missing system''])
           else if entry_nar_size e > max_nar_size limits
           then Inl (LimitExceeded ''NAR size'' (max_nar_size limits) (entry_nar_size e))
           else Inr ())
         (payload_entries p))"

definition payload_validate_merkle_hash ::
  "(string \<Rightarrow> 't option) \<Rightarrow> (bytes \<Rightarrow> bytes) \<Rightarrow> shard_payload \<Rightarrow> string \<Rightarrow> core_error + unit" where
  "payload_validate_merkle_hash rfc3339 H p expected =
     result_bind (payload_compute_merkle_hash rfc3339 H p) (\<lambda>actual.
     if actual \<noteq> expected
     then Inl (InvalidShard [Lit ''payload Merkle hash does not match root descriptor''])
     else Inr ())"

definition payload_deserialize ::
  "(string \<Rightarrow> 't option) \<Rightarrow> shard_payload \<Rightarrow> core_error + shard_payload" where
  "payload_deserialize rfc3339 wire =
     result_bind (payload_validate_structure rfc3339 wire) (\<lambda>_. Inr wire)"

section \<open>Build receipts\<close>

record build_stats =
  discovered_outputs :: u64
  built_paths :: u64
  substituted_paths :: u64
  uploaded_blobs :: u64
  total_bytes_uploaded :: u64

record build_receipt =
  rcpt_version :: u32
  rcpt_system :: system_arch
  rcpt_repo :: string
  rcpt_origin :: "origin_metadata option"
  rcpt_timestamp :: string
  rcpt_public_key :: "string option"
  rcpt_new_entries :: "(store_hash \<times> index_entry) list"
  rcpt_active_gc_roots :: "store_hash list"
  rcpt_stats :: build_stats

definition show_origin :: "origin_metadata option \<Rightarrow> (u64 option \<times> string option) option" where
  "show_origin = map_option (\<lambda>o'. (origin_run_id o', origin_job_id o'))"

definition receipt_check_origin ::
  "origin_metadata option \<Rightarrow> store_hash \<times> index_entry \<Rightarrow> core_error + unit" where
  "receipt_check_origin origin he = (case he of (hash, e) \<Rightarrow>
     result_bind
       (case entry_origin e of
          None \<Rightarrow> Inr ()
        | Some o' \<Rightarrow> map_err (\<lambda>error. InvalidReceipt
            [Lit ''entry '', Str (as_str hash), Lit '' origin: '', TypeErr error])
            (origin_validate_structure o')) (\<lambda>_.
     if entry_origin e \<noteq> origin
     then Inl (ReceiptOriginMismatch (as_str hash) (show_origin origin) (show_origin (entry_origin e)))
     else Inr ()))"

definition receipt_validate_origin_consistency :: "build_receipt \<Rightarrow> core_error + unit" where
  "receipt_validate_origin_consistency r =
     result_bind
       (case rcpt_origin r of
          None \<Rightarrow> Inr ()
        | Some o' \<Rightarrow> map_err CoreType (origin_validate_structure o')) (\<lambda>_.
     try_each (receipt_check_origin (rcpt_origin r)) (rcpt_new_entries r))"

definition receipt_new ::
  "system_arch \<Rightarrow> string \<Rightarrow> string \<Rightarrow> string option \<Rightarrow> (store_hash \<times> index_entry) list
     \<Rightarrow> store_hash list \<Rightarrow> build_stats \<Rightarrow> origin_metadata option \<Rightarrow> core_error + build_receipt" where
  "receipt_new system repo timestamp public_key new_entries active_gc_roots stats origin =
     (let receipt =
        \<lparr>rcpt_version = RECEIPT_VERSION, rcpt_system = system, rcpt_repo = repo, rcpt_origin = origin,
         rcpt_timestamp = timestamp, rcpt_public_key = public_key, rcpt_new_entries = new_entries,
         rcpt_active_gc_roots = active_gc_roots, rcpt_stats = stats\<rparr>
      in result_bind (receipt_validate_origin_consistency receipt) (\<lambda>_. Inr receipt))"

definition receipt_validate_structure ::
  "(string \<Rightarrow> 't option) \<Rightarrow> build_receipt \<Rightarrow> core_error + unit" where
  "receipt_validate_structure rfc3339 r =
     (if rcpt_version r \<noteq> RECEIPT_VERSION
      then Inl (InvalidReceipt [Lit ''version must be '', Num 7])
      else if \<not> is_known (rcpt_system r)
      then Inl (InvalidReceipt [Lit ''receipt system must be known''])
      else if trim (rcpt_repo r) = []
      then Inl (InvalidReceipt [Lit ''receipt repository must not be empty''])
      else if \<not> valid_timestamp rfc3339 (rcpt_timestamp r)
      then Inl (InvalidReceipt [Lit ''receipt timestamp must be a valid RFC3339 timestamp''])
      else
        result_bind (receipt_validate_origin_consistency r) (\<lambda>_.
        try_each (\<lambda>(hash, e). map_err
             (\<lambda>error. InvalidReceipt [Lit ''entry '', Str (as_str hash), Lit '': '', CoreErr error])
             (entry_validate_structure rfc3339 e))
          (rcpt_new_entries r)))"

definition stats_add :: "build_stats \<Rightarrow> build_stats \<Rightarrow> build_stats" where
  "stats_add a b =
     \<lparr>discovered_outputs = discovered_outputs a + discovered_outputs b,
      built_paths = built_paths a + built_paths b,
      substituted_paths = substituted_paths a + substituted_paths b,
      uploaded_blobs = uploaded_blobs a + uploaded_blobs b,
      total_bytes_uploaded = total_bytes_uploaded a + total_bytes_uploaded b\<rparr>"

text \<open>
  \<open>merge_with\<close> updates the receipt in place: the result is the receipt after the call with
  what the call returns. \<open>HashMap::extend\<close> overwrites, \<open>sort_unstable\<close> on equal hashes cannot
  be told from \<open>sort\<close>, and \<open>dedup\<close> removes consecutive repetitions (\<open>remdups_adj\<close>).
\<close>

definition receipt_merged :: "build_receipt \<Rightarrow> build_receipt \<Rightarrow> build_receipt" where
  "receipt_merged r other = r\<lparr>
     rcpt_new_entries :=
       fold (\<lambda>(h, e). AList.update h e) (rcpt_new_entries other) (rcpt_new_entries r),
     rcpt_active_gc_roots :=
       remdups_adj (sort (rcpt_active_gc_roots r @ rcpt_active_gc_roots other)),
     rcpt_stats := stats_add (rcpt_stats r) (rcpt_stats other),
     rcpt_public_key :=
       (if rcpt_public_key r = None then rcpt_public_key other else rcpt_public_key r)\<rparr>"

definition receipt_merge_with ::
  "build_receipt \<Rightarrow> build_receipt \<Rightarrow> build_receipt \<times> (core_error + unit)" where
  "receipt_merge_with r other =
     (case result_bind (receipt_validate_origin_consistency r) (\<lambda>_.
           result_bind (receipt_validate_origin_consistency other) (\<lambda>_.
           if rcpt_system r \<noteq> rcpt_system other
           then Inl (InvalidReceipt [Lit ''cannot merge receipts of different architectures''])
           else if rcpt_origin r \<noteq> rcpt_origin other
           then Inl (InvalidReceipt [Lit ''cannot merge receipts with different origins''])
           else Inr ())) of
        Inl error \<Rightarrow> (r, Inl error)
      | Inr _ \<Rightarrow>
          let merged = receipt_merged r other
          in (merged, receipt_validate_origin_consistency merged))"

definition receipt_deserialize ::
  "(string \<Rightarrow> 't option) \<Rightarrow> build_receipt \<Rightarrow> core_error + build_receipt" where
  "receipt_deserialize rfc3339 wire =
     result_bind (receipt_validate_structure rfc3339 wire) (\<lambda>_. Inr wire)"

section \<open>Valid index roots\<close>

lemma index_validate_Inr:
  assumes "\<And>m. length (H m) = 32"
  shows "index_validate_structure rfc3339 H idx = Inr () \<longleftrightarrow>
    idx_version idx = SCHEMA_VERSION_V8 \<and> is_known (idx_system idx)
    \<and> trim (idx_repo idx) \<noteq> [] \<and> trim (idx_registry idx) \<noteq> []
    \<and> valid_timestamp rfc3339 (idx_generated idx)
    \<and> map desc_shard_id (idx_shards idx) = map of_nat [0..<NUM_SHARDS]
    \<and> list_all (desc_valid H) (idx_shards idx)
    \<and> compute_merkle_root rfc3339 H (idx_shards idx) = Inr (idx_merkle_root idx)"
proof -
  have each: "try_each (\<lambda>(index, shard). if desc_shard_id shard \<noteq> of_nat index
        then Inl (InvalidIndex [Lit ''shard descriptor at index '', Num index, Lit '' has wrong id''])
        else desc_validate_structure rfc3339 H shard) (enumerate0 xs) = Inr u
      \<longleftrightarrow> map desc_shard_id xs = map of_nat [0..<length xs] \<and> list_all (desc_valid H) xs" for xs u
  proof -
    have ids: "map desc_shard_id xs = map of_nat [0..<length xs]
        \<longleftrightarrow> (\<forall>i<length xs. desc_shard_id (xs ! i) = of_nat i)"
      unfolding list_eq_iff_nth_eq [of "map desc_shard_id xs"] by simp
    show ?thesis
      unfolding try_each_Inr ball_enumerate0 ids list_all_length case_prod_conv if_Inl_eq_Inr desc_valid_any
      by blast
  qed
  have sha: "is_sha256 v" if "compute_merkle_root rfc3339 H xs = Inr v" for xs v
    using that compute_merkle_root_Inr [of H, OF assms] format_digest_sha256 [of "H m" for m, OF assms]
    by metis
  have len: "length xs = NUM_SHARDS" if "map desc_shard_id xs = map of_nat [0..<NUM_SHARDS]" for xs
    using arg_cong [OF that, of length] by simp
  show ?thesis
  proof (cases "length (idx_shards idx) = NUM_SHARDS")
    case True
    have root: "is_sha256 (idx_merkle_root idx)
        \<and> compute_merkle_root rfc3339 H (idx_shards idx) = Inr (idx_merkle_root idx)
        \<longleftrightarrow> compute_merkle_root rfc3339 H (idx_shards idx) = Inr (idx_merkle_root idx)"
      using sha by blast
    have ids: "map desc_shard_id (idx_shards idx) = map of_nat [0..<length (idx_shards idx)]
        \<longleftrightarrow> map desc_shard_id (idx_shards idx) = map of_nat [0..<NUM_SHARDS]"
      by (simp only: True)
    show ?thesis
      unfolding index_validate_structure_def if_Inl_eq_Inr result_bind_eq_Inr map_err_eq_Inr
        validate_sha256_Inr each ids
      using True root by fastforce
  next
    case False
    with len [of "idx_shards idx"] show ?thesis by (auto simp: index_validate_structure_def)
  qed
qed

lemma index_valid_keys:
  assumes "\<And>m. length (H m) = 32" "index_validate_structure rfc3339 H idx = Inr ()"
  shows "map desc_key (idx_shards idx) = [0..<NUM_SHARDS]" "length (idx_shards idx) = NUM_SHARDS"
proof -
  have "map desc_shard_id (idx_shards idx) = map of_nat [0..<NUM_SHARDS]"
    using assms by (simp add: index_validate_Inr)
  then have "map unat (map desc_shard_id (idx_shards idx)) = map unat (map of_nat [0..<NUM_SHARDS] :: u16 list)"
    by (rule arg_cong)
  also have "map unat (map of_nat [0..<NUM_SHARDS] :: u16 list) = [0..<NUM_SHARDS]"
    unfolding map_map by (rule map_idI) (simp add: shard_number)
  finally show k: "map desc_key (idx_shards idx) = [0..<NUM_SHARDS]" by (simp add: comp_def)
  show "length (idx_shards idx) = NUM_SHARDS" using arg_cong [OF k, of length] by simp
qed

lemma index_valid_indexed:
  assumes "\<And>m. length (H m) = 32" "index_validate_structure rfc3339 H idx = Inr ()"
  shows "index_shard_descriptors rfc3339 H (idx_shards idx) = Inr (idx_shards idx)"
  using assms index_valid_keys [OF assms]
  by (simp add: index_shard_descriptors_Inr indexed_def index_validate_Inr)

lemma try_map_empty_shards:
  "try_map (\<lambda>i. desc_empty rfc3339 H (of_nat i)) [0..<NUM_SHARDS] = Inr (empty_shards H)"
  unfolding empty_shards_def by (rule try_map_total) (simp add: desc_empty_Inr shard_number)

lemma empty_shards_ids: "map desc_shard_id (empty_shards H) = map of_nat [0..<NUM_SHARDS]"
  by (simp add: empty_shards_def empty_desc_def)

section \<open>Properties of the index\<close>

text \<open>
  The constructor of the index never panics, and the fresh index is valid and empty: it
  validates whenever the system is known, the repository and registry are not blank and the
  clock prints a readable time stamp.
\<close>

theorem index_new_valid:
  assumes "\<And>m. length (H m) = 32"
    and "is_known system" "trim repo \<noteq> []" "trim registry \<noteq> []" "valid_timestamp rfc3339 now"
  shows "\<exists>idx. index_new rfc3339 H now system repo registry = Inr idx
    \<and> index_validate_structure rfc3339 H idx = Inr ()
    \<and> total_entries idx = 0 \<and> (\<forall>h. is_shard_empty idx h)"
proof -
  obtain v where v: "compute_merkle_root rfc3339 H (empty_shards H) = Inr v"
    by (simp add: compute_merkle_root_Inr [OF assms(1)] index_empty_shards)
  let ?idx = "\<lparr>idx_version = SCHEMA_VERSION_V8, idx_system = system, idx_repo = repo,
    idx_registry = registry, idx_generated = now, idx_public_key = [], idx_shards = empty_shards H,
    idx_merkle_root = v, idx_gc_roots = [], idx_last_promoted_run = None\<rparr>"
  have "index_new rfc3339 H now system repo registry = Inr ?idx"
    by (simp add: index_new_def try_map_empty_shards v)
  moreover have "index_validate_structure rfc3339 H ?idx = Inr ()"
    using assms(2-) v empty_shards_ids by (simp add: index_validate_Inr [OF assms(1)] empty_shards_valid)
  moreover have "total_entries ?idx = 0"
    by (simp add: total_entries_def empty_shards_def empty_desc_def comp_def)
  moreover have "is_shard_empty ?idx h" for h
    by (simp add: is_shard_empty_def find_shard_def get_def desc_is_empty_def empty_shards_def
        empty_desc_def)
  ultimately show ?thesis by blast
qed

lemma sample_timestamp: "valid_timestamp sample_rfc3339 ''2024-01-01T00:00:00Z''"
  by (simp add: valid_timestamp_def all_printable_no_ws sample_rfc3339_def to_digit_def
      is_ascii_digit_def between_def)

lemma sample_names: "trim ''owner/cache'' \<noteq> []" "trim ''ghcr.io'' \<noteq> []"
  by (simp_all add: all_printable_no_ws)

theorem index_new_valid_witness:
  "\<exists>idx. index_new sample_rfc3339 sample_H ''2024-01-01T00:00:00Z'' X86_64Linux ''owner/cache'' ''ghcr.io''
       = Inr idx
     \<and> index_validate_structure sample_rfc3339 sample_H idx = Inr () \<and> total_entries idx = 0"
  using index_new_valid [of sample_H, OF sample_H_length _ sample_names sample_timestamp, of X86_64Linux]
  by (auto simp: is_known_def)

text \<open>
  In a validated index the lookup of a valid hash always finds the descriptor of the shard
  that the hash belongs to: its number is the shard number of the hash and its prefix the
  first two letters.
\<close>

theorem find_shard_correct:
  assumes "\<And>m. length (H m) = 32" "index_validate_structure rfc3339 H idx = Inr ()"
    and "valid_store_hash h"
  shows "\<exists>d. find_shard idx h = Some d \<and> find_shard_by_id idx (calculate_shard_id h) = Some d
    \<and> desc_shard_id d = calculate_shard_id h \<and> desc_prefix d = take 2 (as_str h)"
proof -
  let ?i = "unat (calculate_shard_id h)"
  have i: "?i < NUM_SHARDS" using assms(3) by (rule valid_hash_shard)
  note keys = index_valid_keys [OF assms(1,2)]
  have "map desc_key (idx_shards idx) ! ?i = ?i" using keys(1) i by simp
  then have id: "desc_shard_id (idx_shards idx ! ?i) = calculate_shard_id h"
    using keys(2) i by (simp add: word_unat_eq_iff)
  have "desc_valid H (idx_shards idx ! ?i)"
    using assms(2) keys(2) i by (simp add: index_validate_Inr [OF assms(1)] list_all_length)
  then have "desc_prefix (idx_shards idx ! ?i) = take 2 (as_str h)"
    using id valid_hash_shard(2) [OF assms(3)] by (simp add: desc_valid_def desc_validate_Inr)
  with id keys(2) i show ?thesis by (simp add: find_shard_def find_shard_by_id_def get_def)
qed

definition sample_index :: index_data where
  "sample_index = \<lparr>idx_version = 8, idx_system = X86_64Linux, idx_repo = ''owner/cache'',
     idx_registry = ''ghcr.io'', idx_generated = ''2024-01-01T00:00:00Z'', idx_public_key = [],
     idx_shards = empty_shards sample_H,
     idx_merkle_root = format_digest (sample_H (root_msg sample_H (empty_shards sample_H))),
     idx_gc_roots = [], idx_last_promoted_run = None\<rparr>"

lemma sample_index_valid: "index_validate_structure sample_rfc3339 sample_H sample_index = Inr ()"
  using sample_timestamp sample_names
  by (simp add: index_validate_Inr [OF sample_H_length] sample_index_def SCHEMA_VERSION_V8_def
      is_known_def empty_shards_valid compute_merkle_root_Inr [OF sample_H_length] index_empty_shards
      empty_shards_ids)

theorem find_shard_correct_witness:
  "\<exists>d. find_shard sample_index hash_a = Some d \<and> desc_shard_id d = calculate_shard_id hash_a
     \<and> desc_prefix d = take 2 (as_str hash_a)"
  using find_shard_correct [of sample_H, OF sample_H_length sample_index_valid sample_hashes_valid(1)]
  by blast

text \<open>
  C29. Replacing the descriptor of one shard through the mutable lookup and recomputing the root
  gives a valid index again, in which that shard has the new descriptor and every other shard
  its old one.
\<close>

theorem update_shard_keeps_valid:
  assumes "\<And>m. length (H m) = 32" "index_validate_structure rfc3339 H idx = Inr ()"
    and "find_shard_mut idx h = Some (d, put)"
    and "desc_validate_structure rfc3339 H d' = Inr ()" "desc_shard_id d' = calculate_shard_id h"
  shows "\<exists>idx'. recalculate_merkle_root rfc3339 H (put d') = Inr idx'
    \<and> index_validate_structure rfc3339 H idx' = Inr ()
    \<and> find_shard idx' h = Some d'
    \<and> (\<forall>h'. calculate_shard_id h' \<noteq> calculate_shard_id h \<longrightarrow> find_shard idx' h' = find_shard idx h')"
proof -
  let ?i = "unat (calculate_shard_id h)" and ?s = "idx_shards idx"
  let ?s' = "?s[?i := d']"
  have i: "?i < length ?s" and put: "put d' = idx\<lparr>idx_shards := ?s'\<rparr>"
    using assms(3) by (auto simp: find_shard_mut_def find_shard_by_id_mut_def)
  note v = index_validate_Inr [of H, OF assms(1), THEN iffD1, OF assms(2)]
  have "desc_key (?s ! ?i) = ?i"
    using index_valid_keys [of H, OF assms(1,2)] i by (metis add_0 nth_map nth_upt)
  then have ids: "map desc_shard_id ?s' = map of_nat [0..<NUM_SHARDS]"
    using v assms(5) by (metis list_update_id map_update unsigned_word_eqI)
  have valid: "list_all (desc_valid H) ?s'"
    using v assms(4) set_update_subset_insert [of ?s ?i d'] by (auto simp: list_all_iff desc_valid_any)
  have "map unat (map desc_shard_id ?s') = map unat (map of_nat [0..<NUM_SHARDS] :: u16 list)"
    by (simp only: ids)
  also have "\<dots> = [0..<NUM_SHARDS]"
    unfolding map_map by (rule map_idI) (simp add: shard_number)
  finally have "indexed ?s' ?s'" by (simp add: indexed_def comp_def)
  moreover have "length ?s' = NUM_SHARDS" using index_valid_keys(2) [of H, OF assms(1,2)] by simp
  ultimately have "index_shard_descriptors rfc3339 H ?s' = Inr ?s'"
    using valid by (simp add: index_shard_descriptors_Inr)
  then obtain root where root: "compute_merkle_root rfc3339 H ?s' = Inr root"
    by (simp add: compute_merkle_root_Inr [of H, OF assms(1)])
  let ?idx' = "idx\<lparr>idx_shards := ?s', idx_merkle_root := root\<rparr>"
  have "recalculate_merkle_root rfc3339 H (put d') = Inr ?idx'"
    by (simp add: recalculate_merkle_root_def put root)
  moreover have "index_validate_structure rfc3339 H ?idx' = Inr ()"
    using v ids valid root by (simp add: index_validate_Inr [of H, OF assms(1)])
  moreover have "find_shard ?idx' h = Some d'" using i by (simp add: find_shard_def get_def)
  moreover have "find_shard ?idx' h' = find_shard idx h'"
    if "calculate_shard_id h' \<noteq> calculate_shard_id h" for h'
    using that by (simp add: find_shard_def get_def word_unat_eq_iff)
  ultimately show ?thesis by blast
qed

theorem update_shard_keeps_valid_witness:
  "\<exists>d put idx'. find_shard_mut sample_index hash_a = Some (d, put)
     \<and> recalculate_merkle_root sample_rfc3339 sample_H (put (empty_desc sample_H (calculate_shard_id hash_a)))
         = Inr idx'
     \<and> index_validate_structure sample_rfc3339 sample_H idx' = Inr ()"
proof -
  let ?i = "calculate_shard_id hash_a"
  let ?d' = "empty_desc sample_H ?i"
  have i: "unat ?i < NUM_SHARDS" using sample_hashes_valid(1) by (rule valid_hash_shard)
  then obtain d put where m: "find_shard_mut sample_index hash_a = Some (d, put)"
    by (auto simp: find_shard_mut_def find_shard_by_id_mut_def get_def sample_index_def)
  have "desc_validate_structure sample_rfc3339 sample_H ?d' = Inr ()" "desc_shard_id ?d' = ?i"
    using empty_desc_valid [OF i] by (simp_all add: desc_valid_any empty_desc_def)
  from update_shard_keeps_valid [of sample_H, OF sample_H_length sample_index_valid m this] m
  show ?thesis by blast
qed

section \<open>Properties of payloads\<close>

lemma payload_check_entry_Inr:
  "payload_check_entry rfc3339 sid (h, e) = Inr u \<longleftrightarrow>
     entry_validate_structure rfc3339 e = Inr () \<and> calculate_shard_id h = sid
     \<and> (\<exists>sys. entry_system e = Some sys \<and> is_known sys) \<and> entry_store_hash e = Some h"
  by (cases "entry_system e") (auto simp: payload_check_entry_def result_simps split: if_splits)

lemma payload_with_entries_Inr:
  "payload_with_entries sid entries = Inr p \<longleftrightarrow> unat sid < NUM_SHARDS \<and>
     p = \<lparr>payload_version = SCHEMA_VERSION_V8, payload_shard_id = sid,
       payload_prefix = shard_id_to_prefix sid, payload_entries = entries\<rparr>"
  by (auto simp: payload_with_entries_def payload_new_def)

lemma payload_validate_Inr:
  "payload_validate_structure rfc3339 p = Inr () \<longleftrightarrow>
     payload_version p = SCHEMA_VERSION_V8 \<and> unat (payload_shard_id p) < NUM_SHARDS
     \<and> payload_prefix p = shard_id_to_prefix (payload_shard_id p)
     \<and> (\<forall>he\<in>set (payload_entries p). payload_check_entry rfc3339 (payload_shard_id p) he = Inr ())"
  by (auto simp: payload_validate_structure_def try_each_Inr)

text \<open>
  What the partitioning produces can be stored: when every entry is valid, has a known
  system and is filed under the hash of its store path, the payload built from any shard of
  the partition exists, validates, and has a Merkle hash.
\<close>

theorem partition_payloads_valid:
  assumes "distinct (map fst entries)"
    and "\<forall>(h, e)\<in>set entries. entry_validate_structure rfc3339 e = Inr () \<and> entry_store_hash e = Some h
      \<and> (\<exists>sys. entry_system e = Some sys \<and> is_known sys)
      \<and> is_sha256 (digest_str (entry_nar_digest e))"
    and "map_of (partition_entries_by_shard entries) i = Some bucket"
  shows "\<exists>p v. payload_with_entries i bucket = Inr p \<and> payload_validate_structure rfc3339 p = Inr ()
    \<and> payload_compute_merkle_hash rfc3339 H p = Inr v"
proof -
  have "map_of (partition_entries_by_shard entries) i =
      (if \<exists>h e. (h, e) \<in> set entries \<and> calculate_shard_id h = i
       then Some (filter (\<lambda>(h, e). calculate_shard_id h = i) entries) else None)"
    using assms(1) by (rule partition_entries_lookup)
  with assms(3) have b: "bucket = filter (\<lambda>(h, e). calculate_shard_id h = i) entries"
    and "\<exists>h e. (h, e) \<in> set entries \<and> calculate_shard_id h = i"
    by (auto split: if_splits)
  then obtain h e where he: "(h, e) \<in> set entries" "calculate_shard_id h = i" by blast
  have hash: "valid_store_hash h'" if "(h', e') \<in> set entries" for h' e'
    using assms(2) that store_hash_of_path_valid by (fastforce simp: entry_store_hash_def)
  have i: "unat i < NUM_SHARDS" using valid_hash_shard(1) [OF hash [OF he(1)]] he(2) by simp
  let ?p = "\<lparr>payload_version = SCHEMA_VERSION_V8, payload_shard_id = i,
    payload_prefix = shard_id_to_prefix i, payload_entries = bucket\<rparr>"
  have "payload_with_entries i bucket = Inr ?p" using i by (simp add: payload_with_entries_Inr)
  moreover have "payload_validate_structure rfc3339 ?p = Inr ()"
    using i assms(2) by (auto simp: payload_validate_Inr payload_check_entry_Inr b)
  moreover have "list_all (shard_entry_ok rfc3339 i) bucket"
    using assms(2) hash
    by (auto simp: b list_all_iff shard_entry_ok_def validate_entry_identity_def sample_hash_parse)
  then have "\<exists>v. payload_compute_merkle_hash rfc3339 H ?p = Inr v"
    using i distinct_map_filter [OF assms(1)]
    by (simp add: payload_compute_merkle_hash_def b compute_shard_merkle_hash_Inr)
  ultimately show ?thesis by blast
qed

theorem partition_payloads_valid_witness:
  "\<exists>bucket p v. map_of (partition_entries_by_shard sample_pair) (calculate_shard_id hash_a) = Some bucket
     \<and> payload_with_entries (calculate_shard_id hash_a) bucket = Inr p
     \<and> payload_validate_structure sample_rfc3339 p = Inr ()
     \<and> payload_compute_merkle_hash sample_rfc3339 sample_H p = Inr v"
proof -
  let ?i = "calculate_shard_id hash_a"
  have "(hash_a, sample_entry hash_a [hash_b] ''2020-01-01T00:00:00Z'') \<in> set sample_pair"
    by (simp add: sample_pair_def)
  then obtain b where b: "map_of (partition_entries_by_shard sample_pair) ?i = Some b"
    using partition_entries_lookup [OF sample_distinct(3), of ?i] by (metis (no_types, lifting))
  have "\<forall>(h, e)\<in>set sample_pair. entry_system e = Some X86_64Linux \<and> is_known X86_64Linux"
    by (simp add: sample_pair_def sample_entry_def is_known_def)
  then have "\<forall>(h, e)\<in>set sample_pair.
      entry_validate_structure sample_rfc3339 e = Inr () \<and> entry_store_hash e = Some h
      \<and> (\<exists>sys. entry_system e = Some sys \<and> is_known sys) \<and> is_sha256 (digest_str (entry_nar_digest e))"
    using sample_valid by fastforce
  from partition_payloads_valid [OF sample_distinct(3) this b, of sample_H] b show ?thesis by blast
qed

section \<open>Properties of receipts\<close>

lemma receipt_consistent_Inr:
  "receipt_validate_origin_consistency r = Inr () \<longleftrightarrow>
     (\<forall>o'. rcpt_origin r = Some o' \<longrightarrow> origin_validate_structure o' = Inr ())
     \<and> (\<forall>(h, e)\<in>set (rcpt_new_entries r). entry_origin e = rcpt_origin r)"
proof -
  have "receipt_check_origin origin (h, e) = Inr () \<longleftrightarrow> entry_origin e = origin"
    if "\<forall>o'. origin = Some o' \<longrightarrow> origin_validate_structure o' = Inr ()" for origin h e
    using that by (auto simp: receipt_check_origin_def result_simps split: option.splits)
  then show ?thesis
    by (auto simp: receipt_validate_origin_consistency_def result_simps split: option.splits)
qed

lemma set_fold_update:
  "set (fold (\<lambda>(h, e). AList.update h e) ys xs) \<subseteq> set xs \<union> set ys"
proof (induction ys arbitrary: xs)
  case (Cons y ys)
  have "set (AList.update k v al) \<subseteq> insert (k, v) (set al)" for k :: 'a and v :: 'b and al
    by (induction al) auto
  then show ?case using Cons [of "AList.update (fst y) (snd y) xs"] by (cases y) fastforce
qed simp

lemma map_of_fold_update:
  "distinct (map fst ys) \<Longrightarrow>
   map_of (fold (\<lambda>(h, e). AList.update h e) ys xs) = map_of xs ++ map_of ys"
proof (induction ys arbitrary: xs)
  case (Cons y ys)
  obtain k v where y: "y = (k, v)" by fastforce
  have "map_of ys k = None" using Cons.prems y by (simp add: map_of_eq_None_iff)
  then have "map_of (AList.update k v xs) ++ map_of ys = map_of xs ++ map_of (y # ys)"
    by (auto simp: fun_eq_iff map_add_def update_conv' y split: option.split)
  moreover have "map_of (fold (\<lambda>(h, e). AList.update h e) (y # ys) xs)
      = map_of (AList.update k v xs) ++ map_of ys"
    using Cons.IH [of "AList.update k v xs"] Cons.prems by (simp add: y)
  ultimately show ?case by (rule trans [rotated])
qed simp

lemma distinct_remdups_adj_sorted: "sorted xs \<Longrightarrow> distinct (remdups_adj xs)"
  by (induction xs rule: remdups_adj.induct) auto

lemma receipt_merged_consistent:
  assumes "receipt_validate_origin_consistency r = Inr ()"
    "receipt_validate_origin_consistency other = Inr ()" "rcpt_origin r = rcpt_origin other"
  shows "receipt_validate_origin_consistency (receipt_merged r other) = Inr ()"
  using assms set_fold_update [of "rcpt_new_entries other" "rcpt_new_entries r"]
  by (fastforce simp: receipt_consistent_Inr receipt_merged_def)

text \<open>
  Merging receipts is all or nothing: a call that reports an error leaves the receipt as it
  was (the last check cannot fail once the receipt has been changed), and it succeeds exactly
  when both receipts are consistent and have the same system and origin. Then the entries are
  those of both, the other receipt's taking precedence, the roots are the union in ascending
  order without repetition, and the counters are added.
\<close>

theorem receipt_merge_atomic:
  assumes "distinct (map fst (rcpt_new_entries other))" "receipt_merge_with r other = (r', res)"
  shows "(res \<noteq> Inr () \<longrightarrow> r' = r)
    \<and> (res = Inr () \<longleftrightarrow> receipt_validate_origin_consistency r = Inr ()
        \<and> receipt_validate_origin_consistency other = Inr ()
        \<and> rcpt_system r = rcpt_system other \<and> rcpt_origin r = rcpt_origin other)
    \<and> (res = Inr () \<longrightarrow>
        map_of (rcpt_new_entries r') = map_of (rcpt_new_entries r) ++ map_of (rcpt_new_entries other)
        \<and> set (rcpt_active_gc_roots r') = set (rcpt_active_gc_roots r) \<union> set (rcpt_active_gc_roots other)
        \<and> sorted (rcpt_active_gc_roots r') \<and> distinct (rcpt_active_gc_roots r')
        \<and> rcpt_stats r' = stats_add (rcpt_stats r) (rcpt_stats other))"
proof -
  let ?ok = "receipt_validate_origin_consistency r = Inr ()
    \<and> receipt_validate_origin_consistency other = Inr ()
    \<and> rcpt_system r = rcpt_system other \<and> rcpt_origin r = rcpt_origin other"
  define pre where "pre = result_bind (receipt_validate_origin_consistency r) (\<lambda>_.
    result_bind (receipt_validate_origin_consistency other) (\<lambda>_.
    if rcpt_system r \<noteq> rcpt_system other
    then Inl (InvalidReceipt [Lit ''cannot merge receipts of different architectures''])
    else if rcpt_origin r \<noteq> rcpt_origin other
    then Inl (InvalidReceipt [Lit ''cannot merge receipts with different origins''])
    else Inr ()))"
  have pre: "pre = Inr () \<longleftrightarrow> ?ok" by (auto simp: pre_def result_bind_eq_Inr)
  show ?thesis
  proof (cases pre)
    case (Inl error)
    then have "r' = r" "res \<noteq> Inr ()"
      using assms(2) by (auto simp: receipt_merge_with_def pre_def [symmetric])
    then show ?thesis using Inl pre by auto
  next
    case (Inr u)
    then have ok: ?ok using pre by simp
    then have m: "receipt_validate_origin_consistency (receipt_merged r other) = Inr ()"
      by (intro receipt_merged_consistent) auto
    then have r': "r' = receipt_merged r other" "res = Inr ()"
      using assms(2) Inr by (auto simp: receipt_merge_with_def pre_def [symmetric] Let_def)
    have "sorted (remdups_adj (sort xs)) \<and> distinct (remdups_adj (sort xs))" for xs :: "store_hash list"
      by (simp add: distinct_remdups_adj_sorted)
    then show ?thesis
      using ok r' map_of_fold_update [OF assms(1)] by (simp add: receipt_merged_def)
  qed
qed

definition sample_receipt :: "(store_hash \<times> index_entry) list \<Rightarrow> build_receipt" where
  "sample_receipt entries =
     \<lparr>rcpt_version = 7, rcpt_system = X86_64Linux, rcpt_repo = ''owner/cache'', rcpt_origin = None,
      rcpt_timestamp = ''2024-01-01T00:00:00Z'', rcpt_public_key = None, rcpt_new_entries = entries,
      rcpt_active_gc_roots = map fst entries,
      rcpt_stats = \<lparr>discovered_outputs = 1, built_paths = 1, substituted_paths = 0,
        uploaded_blobs = 1, total_bytes_uploaded = 100\<rparr>\<rparr>"

theorem receipt_merge_atomic_witness:
  "\<exists>r'. receipt_merge_with (sample_receipt sample_entries) (sample_receipt sample_pair) = (r', Inr ())
     \<and> map_of (rcpt_new_entries r') = map_of sample_entries ++ map_of sample_pair"
proof -
  let ?r = "sample_receipt sample_entries" and ?o = "sample_receipt sample_pair"
  obtain r' res where m: "receipt_merge_with ?r ?o = (r', res)" by fastforce
  have "distinct (map fst (rcpt_new_entries ?o))" using sample_distinct(3) by (simp add: sample_receipt_def)
  note t = receipt_merge_atomic [OF this m]
  have "receipt_validate_origin_consistency ?r = Inr ()" "receipt_validate_origin_consistency ?o = Inr ()"
    by (auto simp: receipt_consistent_Inr sample_receipt_def sample_entries_def sample_pair_def
        sample_entry_def)
  then have "res = Inr ()" using t by (simp add: sample_receipt_def)
  then show ?thesis using t m by (simp add: sample_receipt_def)
qed

end
