(* ===== verification/Murmur3.thy ===== *)
theory Murmur3
  imports Core_Error
begin

text \<open>
  \<open>murmur3_x64_128\<close> and \<open>fmix64\<close> of \<^verbatim>\<open>crates/nixcache-core/src/bloom.rs\<close>. All arithmetic is
  on 64-bit words, so it does not depend on the width of \<open>usize\<close>. The arms of the source's
  \<open>match tail.len()\<close> are two tables: for each length, the bytes that are shifted and xored
  into \<open>k2\<close> and into \<open>k1\<close>, in the order of the source.
\<close>

definition rotate_left :: "nat \<Rightarrow> u64 \<Rightarrow> u64" where
  "rotate_left n w = word_rotl n w"

definition C1 :: u64 where
  "C1 = 0x87c37b91114253d5"

definition C2 :: u64 where
  "C2 = 0x4cf5ad432745937f"

definition mix_k1 :: "u64 \<Rightarrow> u64" where
  "mix_k1 k1 = rotate_left 31 (k1 * C1) * C2"

definition mix_k2 :: "u64 \<Rightarrow> u64" where
  "mix_k2 k2 = rotate_left 33 (k2 * C2) * C1"

definition murmur_block :: "u64 \<times> u64 \<Rightarrow> u8 list \<Rightarrow> u64 \<times> u64" where
  "murmur_block h chunk = (case h of (h1, h2) \<Rightarrow>
     let k1 = from_le_bytes64 (take 8 chunk);
         k2 = from_le_bytes64 (take 8 (drop 8 chunk));
         h1 = h1 XOR mix_k1 k1;
         h1 = (rotate_left 27 h1 + h2) * 5 + 0x52dce729;
         h2 = h2 XOR mix_k2 k2;
         h2 = (rotate_left 31 h2 + h1) * 5 + 0x38495ab5
     in (h1, h2))"

definition k2_shifts :: "nat \<Rightarrow> (nat \<times> nat) list" where
  "k2_shifts n =
     (if n = 15 then [(14, 48), (13, 40), (12, 32), (11, 24), (10, 16), (9, 8), (8, 0)]
      else if n = 14 then [(13, 40), (12, 32), (11, 24), (10, 16), (9, 8), (8, 0)]
      else if n = 13 then [(12, 32), (11, 24), (10, 16), (9, 8), (8, 0)]
      else if n = 12 then [(11, 24), (10, 16), (9, 8), (8, 0)]
      else if n = 11 then [(10, 16), (9, 8), (8, 0)]
      else if n = 10 then [(9, 8), (8, 0)]
      else if n = 9 then [(8, 0)]
      else [])"

definition k1_shifts :: "nat \<Rightarrow> (nat \<times> nat) list" where
  "k1_shifts n =
     (if 8 \<le> n \<and> n \<le> 15
      then [(7, 56), (6, 48), (5, 40), (4, 32), (3, 24), (2, 16), (1, 8), (0, 0)]
      else if n = 7 then [(6, 48), (5, 40), (4, 32), (3, 24), (2, 16), (1, 8), (0, 0)]
      else if n = 6 then [(5, 40), (4, 32), (3, 24), (2, 16), (1, 8), (0, 0)]
      else if n = 5 then [(4, 32), (3, 24), (2, 16), (1, 8), (0, 0)]
      else if n = 4 then [(3, 24), (2, 16), (1, 8), (0, 0)]
      else if n = 3 then [(2, 16), (1, 8), (0, 0)]
      else if n = 2 then [(1, 8), (0, 0)]
      else if n = 1 then [(0, 0)]
      else [])"

definition xor_shifts :: "u8 list \<Rightarrow> (nat \<times> nat) list \<Rightarrow> u64" where
  "xor_shifts tail shifts =
     fold (\<lambda>(index, shift) k. k XOR push_bit shift (ucast (tail ! index))) shifts 0"

definition murmur_tail :: "u64 \<times> u64 \<Rightarrow> u8 list \<Rightarrow> u64 \<times> u64" where
  "murmur_tail h tail = (case h of (h1, h2) \<Rightarrow>
     let n = length tail;
         h2 = (if 9 \<le> n \<and> n \<le> 15 then h2 XOR mix_k2 (xor_shifts tail (k2_shifts n)) else h2);
         h1 = (if 1 \<le> n \<and> n \<le> 15 then h1 XOR mix_k1 (xor_shifts tail (k1_shifts n)) else h1)
     in (h1, h2))"

definition fmix64 :: "u64 \<Rightarrow> u64" where
  "fmix64 k =
     (let k = k XOR drop_bit 33 k;
          k = k * 0xff51afd7ed558ccd;
          k = k XOR drop_bit 33 k;
          k = k * 0xc4ceb9fe1a85ec53
      in k XOR drop_bit 33 k)"

definition murmur_finish :: "nat \<Rightarrow> u64 \<times> u64 \<Rightarrow> u64 \<times> u64" where
  "murmur_finish len h = (case h of (h1, h2) \<Rightarrow>
     let h1 = h1 XOR of_nat len;
         h2 = h2 XOR of_nat len;
         h1 = h1 + h2;
         h2 = h2 + h1;
         h1 = fmix64 h1;
         h2 = fmix64 h2;
         h1 = h1 + h2;
         h2 = h2 + h1
     in (h1, h2))"

definition murmur3_x64_128 :: "u8 list \<Rightarrow> u64 \<Rightarrow> u64 \<times> u64" where
  "murmur3_x64_128 data seed =
     (let n_blocks = length data div 16;
          h = fold (\<lambda>i h. murmur_block h (take 16 (drop (i * 16) data))) [0..<n_blocks] (seed, seed);
          h = murmur_tail h (drop (n_blocks * 16) data)
      in murmur_finish (length data) h)"

section \<open>The tail is a zero-padded block\<close>

lemma from_le_bytes64_Cons_xor:
  "from_le_bytes64 (b # bs) = ucast b XOR push_bit 8 (from_le_bytes64 bs)"
proof (rule bit_word_eqI)
  fix n :: nat assume "n < LENGTH(64)"
  have "\<not> bit b n" if "8 \<le> n" using that bit_imp_le_length [of b n] by auto
  then show "bit (from_le_bytes64 (b # bs)) n = bit (ucast b XOR push_bit 8 (from_le_bytes64 bs)) n"
    by (auto simp: bit_or_iff bit_xor_iff bit_push_bit_iff bit_ucast_iff)
qed

definition le_shifts :: "nat \<Rightarrow> (nat \<times> nat) list" where
  "le_shifts m = map (\<lambda>j. (j, 8 * j)) (rev [0..<m])"

lemma xor_shifts_snoc:
  "xor_shifts tail (xs @ [(i, s)]) = xor_shifts tail xs XOR push_bit s (ucast (tail ! i))"
  by (simp add: xor_shifts_def)

lemma xor_shifts_Suc:
  "xor_shifts (b # bs) (map (\<lambda>(i, s). (Suc i, s + 8)) xs) = push_bit 8 (xor_shifts bs xs)"
proof (induction xs rule: rev_induct)
  case Nil
  then show ?case by (simp add: xor_shifts_def)
next
  case (snoc x xs)
  then show ?case by (cases x) (simp add: xor_shifts_snoc push_bit_xor add.commute)
qed

lemma le_shifts_Suc: "le_shifts (Suc m) = map (\<lambda>(i, s). (Suc i, s + 8)) (le_shifts m) @ [(0, 0)]"
proof -
  have "[0..<Suc m] = 0 # map Suc [0..<m]" by (simp only: upt_conv_Cons zero_less_Suc map_Suc_upt)
  then show ?thesis by (simp add: le_shifts_def rev_map comp_def del: upt_Suc)
qed

lemma xor_le_shifts: "xor_shifts bs (le_shifts (length bs)) = from_le_bytes64 bs"
proof (induction bs)
  case Nil
  then show ?case by (simp add: le_shifts_def xor_shifts_def)
next
  case (Cons b bs)
  then show ?case
    by (simp add: le_shifts_Suc xor_shifts_snoc xor_shifts_Suc from_le_bytes64_Cons_xor xor.commute
        del: from_le_bytes64.simps)
qed

lemma xor_shifts_cong:
  "(\<And>i s. (i, s) \<in> set xs \<Longrightarrow> t ! i = t' ! i) \<Longrightarrow> xor_shifts t xs = xor_shifts t' xs"
  unfolding xor_shifts_def by (rule fold_cong) auto

lemma xor_shifts_drop:
  "8 \<le> length t \<Longrightarrow> xor_shifts t (map (\<lambda>(i, s). (i + 8, s)) xs) = xor_shifts (drop 8 t) xs"
proof (induction xs rule: rev_induct)
  case (snoc x xs)
  then show ?case by (cases x) (simp add: xor_shifts_snoc add.commute)
qed (simp add: xor_shifts_def)

text \<open>Each arm reads the remaining bytes as little-endian numbers.\<close>

lemma shift_tables:
  "list_all (\<lambda>n. k1_shifts n = le_shifts (min 8 n)
     \<and> k2_shifts n = map (\<lambda>(i, s). (i + 8, s)) (le_shifts (n - 8))) [0..<16]"
  by code_simp

lemma k1_shifts_le:
  assumes "length tail \<le> 15"
  shows "xor_shifts tail (k1_shifts (length tail)) = from_le_bytes64 (take 8 tail)"
proof -
  have "k1_shifts (length tail) = le_shifts (length (take 8 tail))"
    using shift_tables assms by (simp add: list_all_iff min.commute)
  moreover have "xor_shifts tail (le_shifts (length (take 8 tail)))
      = xor_shifts (take 8 tail) (le_shifts (length (take 8 tail)))"
    by (rule xor_shifts_cong) (auto simp: le_shifts_def)
  ultimately show ?thesis by (simp only: xor_le_shifts)
qed

lemma k2_shifts_le:
  assumes "8 \<le> length tail" "length tail \<le> 15"
  shows "xor_shifts tail (k2_shifts (length tail)) = from_le_bytes64 (drop 8 tail)"
proof -
  have "k2_shifts (length tail) = map (\<lambda>(i, s). (i + 8, s)) (le_shifts (length (drop 8 tail)))"
    using shift_tables assms by (simp add: list_all_iff)
  then show ?thesis using assms by (simp add: xor_shifts_drop xor_le_shifts del: length_drop)
qed

lemma mix_zero: "mix_k1 0 = 0" "mix_k2 0 = 0"
  by (simp_all add: mix_k1_def mix_k2_def rotate_left_def)

section \<open>Properties\<close>

text \<open>
  The fifteen hand-written arms for the last bytes all do the same: they mix the bytes in as
  two little-endian numbers, as if the block were filled up with zeros.
\<close>

theorem murmur_tail_uniform:
  assumes "length tail \<le> 15"
  shows "murmur_tail (h1, h2) tail =
    (h1 XOR mix_k1 (from_le_bytes64 (take 8 tail)), h2 XOR mix_k2 (from_le_bytes64 (drop 8 tail)))"
proof -
  have "h1 XOR mix_k1 (from_le_bytes64 (take 8 tail)) = fst (murmur_tail (h1, h2) tail)"
    using k1_shifts_le [OF assms] assms
    by (cases tail) (simp_all add: murmur_tail_def Let_def mix_zero)
  moreover have "h2 XOR mix_k2 (from_le_bytes64 (drop 8 tail)) = snd (murmur_tail (h1, h2) tail)"
    using k2_shifts_le [of tail] assms
    by (cases "9 \<le> length tail") (simp_all add: murmur_tail_def Let_def mix_zero)
  ultimately show ?thesis by (simp add: prod_eq_iff)
qed

theorem murmur_tail_uniform_witness:
  "murmur_tail (7, 9) [1, 2, 3, 4, 5, 6, 7, 8, 9, 10] =
    (7 XOR mix_k1 (from_le_bytes64 [1, 2, 3, 4, 5, 6, 7, 8]), 9 XOR mix_k2 (from_le_bytes64 [9, 10]))"
  using murmur_tail_uniform [of "[1, 2, 3, 4, 5, 6, 7, 8, 9, 10]" 7 9] by simp

text \<open>
  The two golden vectors of the test suite: the first word of the hash of two store hashes
  and the block they select among three.
\<close>

theorem murmur3_golden_vectors:
  "fst (murmur3_x64_128 (as_bytes ''0g15l22sw4lgnh1x159ngkcyz5n7f9ag'') 0) = 0xca7671463c6a9f37
   \<and> fst (murmur3_x64_128 (as_bytes ''47pw62r4vgy8y7p5r64cjvxbwrsixmxd'') 0) = 0x70fcbc929b66ae56
   \<and> fst (murmur3_x64_128 (as_bytes ''0g15l22sw4lgnh1x159ngkcyz5n7f9ag'') 0) mod 3 = 1
   \<and> fst (murmur3_x64_128 (as_bytes ''47pw62r4vgy8y7p5r64cjvxbwrsixmxd'') 0) mod 3 = 0"
  by code_simp

end
