(* ===== verification/Bloom.thy ===== *)
theory Bloom
  imports Complex_Main Murmur3 Core_Types Samples
begin

text \<open>
  The blocked Bloom filter \<open>FastBlockedBloomFilter\<close> of \<^verbatim>\<open>bloom.rs\<close>. A block has 512 bits, eight
  64-bit words. \<open>usize_max\<close> is the largest \<open>usize\<close> of the target (\<open>2 ^ 32 - 1\<close> on wasm32,
  \<open>2 ^ 64 - 1\<close> on x86_64) and \<open>alloc\<close> the outcome of \<open>Vec::try_reserve_exact\<close>.

  The constructor computes with floating-point numbers. A finite \<open>f64\<close> is a real, a
  non-finite one \<open>None\<close>; \<open>bits64\<close> is the value of \<open>-(p.ln() / 2.0.ln().powi(2)) * 1.15\<close>, whose
  last bits the Rust documentation leaves to the platform, \<open>hashes64\<close> the value of
  \<open>(bits * 2.0.ln()).round()\<close>, and \<open>show64\<close> prints a rate.
\<close>

record bloom_filter =
  bloom_bits :: "u64 list"
  bloom_num_blocks :: u32
  bloom_num_entries :: u64
  bloom_num_hashes :: u8

definition MAX_BLOCKS :: nat where
  "MAX_BLOCKS = 1048576"

definition MAX_HASHES :: nat where
  "MAX_HASHES = 30"

definition WORDS_PER_BLOCK :: nat where
  "WORDS_PER_BLOCK = 8"

definition BLOCK_BITS :: nat where
  "BLOCK_BITS = 512"

definition checked_div_ceil :: "u64 \<Rightarrow> u64 \<Rightarrow> bloom_error + u64" where
  "checked_div_ceil v divisor =
     (if divisor = 0 then Inl (ArithmeticOverflow ''division by zero'')
      else if v = 0 then Inr 0
      else ok_or (ArithmeticOverflow ''rounded block count'')
        (map_option (\<lambda>adjusted. adjusted div divisor) (checked_add64 v (divisor - 1))))"

definition checked_mul_usize :: "nat \<Rightarrow> nat \<Rightarrow> nat \<Rightarrow> nat option" where
  "checked_mul_usize usize_max a b = (if a * b \<le> usize_max then Some (a * b) else None)"

definition allocate_zeroed_words :: "(nat \<Rightarrow> string + unit) \<Rightarrow> nat \<Rightarrow> bloom_error + u64 list" where
  "allocate_zeroed_words alloc word_len =
     result_bind (map_err (AllocationFailed word_len) (alloc word_len)) (\<lambda>_.
       Inr (replicate word_len 0))"

definition calculate_block_offset :: "nat \<Rightarrow> u64 \<Rightarrow> u32 \<Rightarrow> nat option" where
  "calculate_block_offset usize_max h1 num_blocks =
     (if num_blocks = 0 then None
      else
        let block_idx = unat (h1 mod ucast num_blocks) in
        if block_idx \<le> usize_max then checked_mul_usize usize_max block_idx WORDS_PER_BLOCK else None)"

definition validated_word_len :: "nat \<Rightarrow> u64 \<Rightarrow> bloom_error + u32 \<times> nat" where
  "validated_word_len usize_max num_blocks =
     (if \<not> unat num_blocks < 2 ^ 32 then Inl (BlockCountOverflow num_blocks (2 ^ 32 - 1))
      else if num_blocks = 0 then Inl (InvalidBlockCount 0)
      else if unat num_blocks > MAX_BLOCKS
      then Inl (BlockLimitExceeded num_blocks (of_nat MAX_BLOCKS))
      else if \<not> unat num_blocks \<le> usize_max
      then Inl (ArithmeticOverflow ''block count conversion to usize'')
      else
        map_ok (\<lambda>word_len. (ucast num_blocks, word_len))
          (ok_or (ArithmeticOverflow ''bitmap word count'')
             (checked_mul_usize usize_max (unat num_blocks) WORDS_PER_BLOCK)))"

definition clamp :: "nat \<Rightarrow> nat \<Rightarrow> nat \<Rightarrow> nat" where
  "clamp lo hi n = max lo (min hi n)"

definition bloom_new ::
  "nat \<Rightarrow> (nat \<Rightarrow> string + unit) \<Rightarrow> (real option \<Rightarrow> string) \<Rightarrow> (real \<Rightarrow> real option) \<Rightarrow> (u64 \<Rightarrow> nat)
     \<Rightarrow> nat \<Rightarrow> real option \<Rightarrow> bloom_error + bloom_filter" where
  "bloom_new usize_max alloc show64 bits64 hashes64 expected_entries rate =
     (case rate of
        None \<Rightarrow> Inl (InvalidFalsePositiveRate (show64 rate) ''0.00001'' ''0.5'')
      | Some p \<Rightarrow>
          if \<not> (0.00001 \<le> p \<and> p \<le> 0.5)
          then Inl (InvalidFalsePositiveRate (show64 rate) ''0.00001'' ''0.5'')
          else (case bits64 p of
              None \<Rightarrow> Inl (ArithmeticOverflow ''bits per entry'')
            | Some b \<Rightarrow>
                if b \<le> 0 then Inl (ArithmeticOverflow ''bits per entry'')
                else if real_of_int \<lceil>b\<rceil> > 2 ^ 64
                then Inl (ArithmeticOverflow ''bits per entry conversion'')
                else
                  let bits_per_entry = of_nat (min (nat \<lceil>b\<rceil>) (2 ^ 64 - 1)) :: u64 in
                  if \<not> expected_entries < 2 ^ 64
                  then Inl (ArithmeticOverflow ''expected entry count conversion'')
                  else
                    result_bind
                      (ok_or (ArithmeticOverflow ''total bit count'')
                         (checked_mul64 (of_nat expected_entries) bits_per_entry)) (\<lambda>product.
                    result_bind
                      (checked_div_ceil (max product (of_nat BLOCK_BITS)) (of_nat BLOCK_BITS))
                      (\<lambda>blocks.
                    result_bind (validated_word_len usize_max blocks) (\<lambda>(num_blocks, word_len).
                    result_bind (allocate_zeroed_words alloc word_len) (\<lambda>bits.
                      Inr \<lparr>bloom_bits = bits, bloom_num_blocks = num_blocks, bloom_num_entries = 0,
                        bloom_num_hashes = of_nat (clamp 1 MAX_HASHES
                          (min 255 (hashes64 bits_per_entry)))\<rparr>))))))"

definition bloom_validate_internal :: "nat \<Rightarrow> bloom_filter \<Rightarrow> bloom_error + unit" where
  "bloom_validate_internal usize_max f =
     result_bind (validated_word_len usize_max (ucast (bloom_num_blocks f))) (\<lambda>(_, expected_words).
     if length (bloom_bits f) \<noteq> expected_words
     then Inl (InvalidStructure (bloom_num_blocks f) expected_words (length (bloom_bits f)))
     else if \<not> (1 \<le> unat (bloom_num_hashes f) \<and> unat (bloom_num_hashes f) \<le> MAX_HASHES)
     then Inl (InvalidHashCount (bloom_num_hashes f) 1 (of_nat MAX_HASHES))
     else Inr ())"

fun as_chunks8 :: "u8 list \<Rightarrow> u8 list list" where
  "as_chunks8 (a # b # c # d # e # f # g # h # rest) = [a, b, c, d, e, f, g, h] # as_chunks8 rest"
| "as_chunks8 _ = []"

definition bloom_from_bytes ::
  "nat \<Rightarrow> (nat \<Rightarrow> string + unit) \<Rightarrow> u8 list \<Rightarrow> u64 \<Rightarrow> u8 \<Rightarrow> bloom_error + bloom_filter" where
  "bloom_from_bytes usize_max alloc bytes num_entries num_hashes =
     (if \<not> (1 \<le> unat num_hashes \<and> unat num_hashes \<le> MAX_HASHES)
      then Inl (InvalidHashCount num_hashes 1 (of_nat MAX_HASHES))
      else if bytes = [] \<or> length bytes mod 64 \<noteq> 0 then Inl (InvalidByteLength (length bytes))
      else
        let num_blocks_raw = length bytes div 64 in
        if \<not> num_blocks_raw < 2 ^ 64
        then Inl (ArithmeticOverflow ''serialized block count conversion'')
        else
          result_bind (validated_word_len usize_max (of_nat num_blocks_raw)) (\<lambda>(num_blocks, word_len).
          result_bind (map_err (AllocationFailed word_len) (alloc word_len)) (\<lambda>_.
          let bits = map from_le_bytes64 (as_chunks8 bytes) in
          if length bits \<noteq> word_len
          then Inl (InvalidStructure num_blocks word_len (length bits))
          else Inr \<lparr>bloom_bits = bits, bloom_num_blocks = num_blocks,
            bloom_num_entries = num_entries, bloom_num_hashes = num_hashes\<rparr>)))"

definition bloom_to_bytes :: "bloom_filter \<Rightarrow> u8 list" where
  "bloom_to_bytes f = concat (map le_bytes64 (bloom_bits f))"

text \<open>The word and the bit of the block that each probe looks at.\<close>

definition bloom_probes :: "u64 \<Rightarrow> u64 \<Rightarrow> u8 \<Rightarrow> (nat \<times> nat) list" where
  "bloom_probes h1 h2 num_hashes =
     (let base = drop_bit 32 h1 XOR (h1 AND 0xFFFFFFFF);
          step = h2 OR 1
      in map (\<lambda>i.
           let probe = base + of_nat i * step;
               bit_in_block = unat (probe AND 511)
           in (drop_bit 6 bit_in_block, take_bit 6 bit_in_block)) [0..<unat num_hashes])"

definition set_probe :: "nat \<Rightarrow> nat \<times> nat \<Rightarrow> u64 list \<Rightarrow> u64 list" where
  "set_probe block_offset p bits = (case p of (word_idx, bit_idx) \<Rightarrow>
     bits[block_offset + word_idx := bits ! (block_offset + word_idx) OR push_bit bit_idx 1])"

definition test_probe :: "nat \<Rightarrow> u64 list \<Rightarrow> nat \<times> nat \<Rightarrow> bool" where
  "test_probe block_offset bits p = (case p of (word_idx, bit_idx) \<Rightarrow>
     bits ! (block_offset + word_idx) AND push_bit bit_idx 1 \<noteq> 0)"

definition bloom_insert_bytes :: "nat \<Rightarrow> bloom_filter \<Rightarrow> u8 list \<Rightarrow> bloom_error + bloom_filter" where
  "bloom_insert_bytes usize_max f key =
     result_bind (bloom_validate_internal usize_max f) (\<lambda>_.
     result_bind
       (ok_or (EntryCountOverflow (bloom_num_entries f)) (checked_add64 (bloom_num_entries f) 1))
       (\<lambda>next_entries.
     case murmur3_x64_128 key 0 of (h1, h2) \<Rightarrow>
     result_bind
       (ok_or (InvalidBlockCount (bloom_num_blocks f))
          (calculate_block_offset usize_max h1 (bloom_num_blocks f))) (\<lambda>block_offset.
       Inr (f\<lparr>bloom_bits := fold (set_probe block_offset)
               (bloom_probes h1 h2 (bloom_num_hashes f)) (bloom_bits f),
              bloom_num_entries := next_entries\<rparr>))))"

definition bloom_insert :: "nat \<Rightarrow> bloom_filter \<Rightarrow> store_hash \<Rightarrow> bloom_error + bloom_filter" where
  "bloom_insert usize_max f hash = bloom_insert_bytes usize_max f (as_bytes (as_str hash))"

definition bloom_contains_bytes :: "nat \<Rightarrow> bloom_filter \<Rightarrow> u8 list \<Rightarrow> bool" where
  "bloom_contains_bytes usize_max f key =
     (if bloom_num_entries f = 0 then False
      else case murmur3_x64_128 key 0 of (h1, h2) \<Rightarrow>
        (case calculate_block_offset usize_max h1 (bloom_num_blocks f) of
           None \<Rightarrow> False
         | Some block_offset \<Rightarrow>
             list_all (test_probe block_offset (bloom_bits f))
               (bloom_probes h1 h2 (bloom_num_hashes f))))"

definition bloom_contains :: "nat \<Rightarrow> bloom_filter \<Rightarrow> store_hash \<Rightarrow> bool" where
  "bloom_contains usize_max f hash = bloom_contains_bytes usize_max f (as_bytes (as_str hash))"

definition bloom_new_with_defaults ::
  "nat \<Rightarrow> (nat \<Rightarrow> string + unit) \<Rightarrow> (real option \<Rightarrow> string) \<Rightarrow> (real \<Rightarrow> real option) \<Rightarrow> (u64 \<Rightarrow> nat)
     \<Rightarrow> nat \<Rightarrow> bloom_error + bloom_filter" where
  "bloom_new_with_defaults usize_max alloc show64 bits64 hashes64 expected_entries =
     bloom_new usize_max alloc show64 bits64 hashes64 expected_entries (Some 0.01)"

definition bloom_from_entries ::
  "nat \<Rightarrow> (nat \<Rightarrow> string + unit) \<Rightarrow> (real option \<Rightarrow> string) \<Rightarrow> (real \<Rightarrow> real option) \<Rightarrow> (u64 \<Rightarrow> nat)
     \<Rightarrow> store_hash list \<Rightarrow> bloom_error + bloom_filter" where
  "bloom_from_entries usize_max alloc show64 bits64 hashes64 items =
     result_bind
       (bloom_new_with_defaults usize_max alloc show64 bits64 hashes64 (length items))
       (\<lambda>f. try_fold (bloom_insert usize_max) f items)"

definition bloom_num_bits :: "bloom_filter \<Rightarrow> u64" where
  "bloom_num_bits f = ucast (bloom_num_blocks f) * of_nat BLOCK_BITS"

definition bloom_is_empty :: "bloom_filter \<Rightarrow> bool" where
  "bloom_is_empty f \<longleftrightarrow> bloom_num_entries f = 0"

section \<open>Well-formed filters\<close>

definition bloom_ok :: "bloom_filter \<Rightarrow> bool" where
  "bloom_ok f \<longleftrightarrow> 1 \<le> unat (bloom_num_blocks f) \<and> unat (bloom_num_blocks f) \<le> MAX_BLOCKS
     \<and> length (bloom_bits f) = unat (bloom_num_blocks f) * WORDS_PER_BLOCK
     \<and> 1 \<le> unat (bloom_num_hashes f) \<and> unat (bloom_num_hashes f) \<le> MAX_HASHES"

text \<open>A \<open>usize\<close> of at least 32 bits, as on every target of the program.\<close>

definition usize_wide :: "nat \<Rightarrow> bool" where
  "usize_wide usize_max \<longleftrightarrow> 2 ^ 32 - 1 \<le> usize_max"

lemma validated_word_len_Inr:
  assumes "usize_wide usize_max"
  shows "validated_word_len usize_max n = Inr (b, w) \<longleftrightarrow>
    1 \<le> unat n \<and> unat n \<le> MAX_BLOCKS \<and> b = ucast n \<and> w = unat n * WORDS_PER_BLOCK"
proof -
  have "n = 0 \<longleftrightarrow> unat n = 0" by (simp add: unsigned_eq_0_iff)
  with assms show ?thesis
    by (auto simp: validated_word_len_def checked_mul_usize_def map_ok_eq_Inr ok_or_eq_Inr
        usize_wide_def MAX_BLOCKS_def WORDS_PER_BLOCK_def)
qed

lemma unat_ucast_u32: "unat (ucast (w :: u32) :: u64) = unat w"
proof -
  have "unat w < 2 ^ LENGTH(32)" by (rule unsigned_less)
  then show ?thesis by (simp add: unsigned_ucast_eq take_bit_nat_eq_self)
qed

lemma bloom_validate_Inr:
  "usize_wide usize_max \<Longrightarrow> bloom_validate_internal usize_max f = Inr () \<longleftrightarrow> bloom_ok f"
  unfolding bloom_validate_internal_def bloom_ok_def
  by (auto simp: result_bind_eq_Inr validated_word_len_Inr unat_ucast_u32 split: prod.splits)

lemma block_offset_ok:
  assumes "usize_wide usize_max" "1 \<le> unat nb" "unat nb \<le> MAX_BLOCKS"
  shows "calculate_block_offset usize_max h1 nb = Some (unat h1 mod unat nb * WORDS_PER_BLOCK)"
    and "unat h1 mod unat nb * WORDS_PER_BLOCK + WORDS_PER_BLOCK \<le> unat nb * WORDS_PER_BLOCK"
proof -
  have lt: "unat h1 mod unat nb < unat nb" using assms(2) by simp
  then show "unat h1 mod unat nb * WORDS_PER_BLOCK + WORDS_PER_BLOCK \<le> unat nb * WORDS_PER_BLOCK"
    by (simp add: WORDS_PER_BLOCK_def)
  have "nb \<noteq> 0" using assms(2) by auto
  moreover have "unat (h1 mod ucast nb) = unat h1 mod unat nb"
    by (simp add: unat_mod_distrib unat_ucast_u32)
  ultimately show "calculate_block_offset usize_max h1 nb = Some (unat h1 mod unat nb * WORDS_PER_BLOCK)"
    using lt assms(1,3)
    by (auto simp: calculate_block_offset_def checked_mul_usize_def usize_wide_def MAX_BLOCKS_def
        WORDS_PER_BLOCK_def)
qed

section \<open>Probes\<close>

lemma bloom_probes_range:
  assumes "(w, b) \<in> set (bloom_probes h1 h2 k)"
  shows "w < WORDS_PER_BLOCK" "b < 64"
proof -
  obtain probe :: u64 where wb: "w = drop_bit 6 (unat (probe AND 511))" "b = take_bit 6 (unat (probe AND 511))"
    using assms by (auto simp: bloom_probes_def Let_def)
  have "unat (probe AND 511) < 512"
  proof -
    have "probe AND 511 \<le> 511" by (rule word_and_le1)
    then have "unat (probe AND 511) \<le> unat (511 :: u64)" by (simp only: word_le_nat_alt)
    then show ?thesis by simp
  qed
  then show "w < WORDS_PER_BLOCK" "b < 64"
    unfolding wb WORDS_PER_BLOCK_def by (simp_all add: drop_bit_eq_div take_bit_eq_mod)
qed

lemma test_probe_bit: "b < 64 \<Longrightarrow> test_probe off bits (w, b) \<longleftrightarrow> bit (bits ! (off + w)) b"
proof -
  assume b: "b < 64"
  have "(x AND push_bit b 1 \<noteq> 0) = bit x b" for x :: u64
    by (simp add: and_exp_eq_0_iff_not_bit)
  then show ?thesis by (simp add: test_probe_def)
qed

lemma fold_set_probe_bit:
  assumes "\<forall>(w, b)\<in>set ps. off + w < length bits \<and> b < 64" "n < 64"
  shows "bit (fold (set_probe off) ps bits ! i) n \<longleftrightarrow>
    bit (bits ! i) n \<or> (\<exists>(w, b)\<in>set ps. i = off + w \<and> n = b)"
  using assms(1)
proof (induction ps arbitrary: bits)
  case (Cons p ps)
  obtain w b where p: "p = (w, b)" by fastforce
  have "bit (set_probe off p bits ! i) n \<longleftrightarrow> bit (bits ! i) n \<or> (i = off + w \<and> n = b)"
    using Cons.prems assms(2) p
    by (auto simp: set_probe_def nth_list_update bit_or_iff bit_exp_iff)
  moreover have "\<forall>(w, b)\<in>set ps. off + w < length (set_probe off p bits) \<and> b < 64"
    using Cons.prems by (auto simp: set_probe_def p)
  ultimately show ?case using Cons.IH [of "set_probe off p bits"] p by auto
qed simp

lemma length_fold_set_probe [simp]: "length (fold (set_probe off) ps bits) = length bits"
  by (induction ps arbitrary: bits) (auto simp: set_probe_def split: prod.split)

section \<open>Insertion\<close>

text \<open>What an insertion does, when the filter is well formed.\<close>

lemma bloom_insert_bytes_Inr:
  assumes "usize_wide usize_max"
  shows "bloom_insert_bytes usize_max f key = Inr f' \<longleftrightarrow>
    bloom_ok f \<and> unat (bloom_num_entries f) + 1 < 2 ^ 64
    \<and> f' = f\<lparr>bloom_bits := fold
          (set_probe (unat (fst (murmur3_x64_128 key 0)) mod unat (bloom_num_blocks f) * WORDS_PER_BLOCK))
          (bloom_probes (fst (murmur3_x64_128 key 0)) (snd (murmur3_x64_128 key 0)) (bloom_num_hashes f))
          (bloom_bits f),
        bloom_num_entries := bloom_num_entries f + 1\<rparr>"
proof (cases "bloom_ok f")
  case True
  then have off: "calculate_block_offset usize_max h1 (bloom_num_blocks f)
      = Some (unat h1 mod unat (bloom_num_blocks f) * WORDS_PER_BLOCK)" for h1
    using block_offset_ok(1) [OF assms] by (simp add: bloom_ok_def)
  have v: "bloom_validate_internal usize_max f = Inr ()"
    using True bloom_validate_Inr [OF assms] by simp
  obtain h1 h2 where h: "murmur3_x64_128 key 0 = (h1, h2)" by fastforce
  show ?thesis
    by (auto simp: bloom_insert_bytes_def v h off checked_add64_def True split: if_splits)
next
  case False
  then have "bloom_validate_internal usize_max f \<noteq> Inr ()" using bloom_validate_Inr [OF assms] by simp
  then obtain e where "bloom_validate_internal usize_max f = Inl e"
    by (cases "bloom_validate_internal usize_max f") auto
  with False show ?thesis by (simp add: bloom_insert_bytes_def)
qed

lemma bloom_contains_bytes_iff:
  assumes "usize_wide usize_max" "bloom_ok f"
  shows "bloom_contains_bytes usize_max f key \<longleftrightarrow> bloom_num_entries f \<noteq> 0
    \<and> (\<forall>(w, b)\<in>set (bloom_probes (fst (murmur3_x64_128 key 0)) (snd (murmur3_x64_128 key 0)) (bloom_num_hashes f)).
        bit (bloom_bits f ! (unat (fst (murmur3_x64_128 key 0)) mod unat (bloom_num_blocks f) * WORDS_PER_BLOCK + w)) b)"
proof -
  obtain h1 h2 where h: "murmur3_x64_128 key 0 = (h1, h2)" by fastforce
  have off: "calculate_block_offset usize_max h1 (bloom_num_blocks f)
      = Some (unat h1 mod unat (bloom_num_blocks f) * WORDS_PER_BLOCK)"
    using block_offset_ok(1) [OF assms(1)] assms(2) by (simp add: bloom_ok_def)
  have "list_all (test_probe o' (bloom_bits f)) (bloom_probes h1 h2 k) \<longleftrightarrow>
      (\<forall>(w, b)\<in>set (bloom_probes h1 h2 k). bit (bloom_bits f ! (o' + w)) b)" for o' k
    using bloom_probes_range [of _ _ h1 h2 k]
    by (auto simp: list_all_iff test_probe_bit split: prod.splits)
  then show ?thesis by (simp add: bloom_contains_bytes_def h off)
qed

section \<open>The interface: a set without false negatives\<close>

text \<open>
  What the users of the filter rely on: an element that was put in is found, and stays found
  whatever is put in later.
\<close>

locale approx_set =
  fixes ins :: "'s \<Rightarrow> 'k \<Rightarrow> 'e + 's" and mem :: "'s \<Rightarrow> 'k \<Rightarrow> bool" and inv :: "'s \<Rightarrow> bool"
  assumes ins_inv: "inv s \<Longrightarrow> ins s k = Inr s' \<Longrightarrow> inv s'"
    and ins_mem: "inv s \<Longrightarrow> ins s k = Inr s' \<Longrightarrow> mem s' k"
    and ins_mono: "inv s \<Longrightarrow> ins s k = Inr s' \<Longrightarrow> mem s j \<Longrightarrow> mem s' j"
begin

lemma fold_ins:
  "inv s \<Longrightarrow> try_fold ins s ks = Inr s' \<Longrightarrow>
   inv s' \<and> (\<forall>k\<in>set ks. mem s' k) \<and> (\<forall>j. mem s j \<longrightarrow> mem s' j)"
proof (induction ks arbitrary: s)
  case (Cons k ks)
  then obtain t where t: "ins s k = Inr t" "try_fold ins t ks = Inr s'"
    by (auto simp: result_bind_eq_Inr)
  with Cons.prems Cons.IH [of t] ins_inv ins_mem ins_mono show ?case by fastforce
qed simp

end

lemma bloom_probe_indices:
  assumes "bloom_ok f" "(w, b) \<in> set (bloom_probes h1 h2 k)"
  shows "unat (h1' :: u64) mod unat (bloom_num_blocks f) * WORDS_PER_BLOCK + w < length (bloom_bits f)"
    "b < 64"
proof -
  have "usize_wide (2 ^ 32)" by (simp add: usize_wide_def)
  then have "unat h1' mod unat (bloom_num_blocks f) * WORDS_PER_BLOCK + WORDS_PER_BLOCK
      \<le> length (bloom_bits f)"
    using block_offset_ok(2) [of "2 ^ 32" "bloom_num_blocks f" h1'] assms(1) by (simp add: bloom_ok_def)
  with bloom_probes_range [OF assms(2)]
  show "unat h1' mod unat (bloom_num_blocks f) * WORDS_PER_BLOCK + w < length (bloom_bits f)" "b < 64"
    by simp_all
qed

lemma bloom_insert_bits:
  assumes "usize_wide usize_max" "bloom_insert_bytes usize_max f key = Inr f'"
  shows "bloom_ok f'" "bloom_num_entries f' \<noteq> 0"
    "unat (bloom_num_entries f') = unat (bloom_num_entries f) + 1"
    "n < 64 \<Longrightarrow> bit (bloom_bits f' ! i) n \<longleftrightarrow> bit (bloom_bits f ! i) n
      \<or> (\<exists>(w, b)\<in>set (bloom_probes (fst (murmur3_x64_128 key 0)) (snd (murmur3_x64_128 key 0)) (bloom_num_hashes f)).
          i = unat (fst (murmur3_x64_128 key 0)) mod unat (bloom_num_blocks f) * WORDS_PER_BLOCK + w \<and> n = b)"
proof -
  note ins = bloom_insert_bytes_Inr [OF assms(1), THEN iffD1, OF assms(2)]
  then have ok: "bloom_ok f" by blast
  from ins show "bloom_ok f'" by (auto simp: bloom_ok_def)
  show u: "unat (bloom_num_entries f') = unat (bloom_num_entries f) + 1"
    using ins by (auto simp: unat_word_ariths)
  then show "bloom_num_entries f' \<noteq> 0" by auto
  let ?h = "murmur3_x64_128 key 0"
  let ?ps = "bloom_probes (fst ?h) (snd ?h) (bloom_num_hashes f)"
  let ?off = "unat (fst ?h) mod unat (bloom_num_blocks f) * WORDS_PER_BLOCK"
  have range: "\<forall>(w, b)\<in>set ?ps. ?off + w < length (bloom_bits f) \<and> b < 64"
    using bloom_probe_indices [OF ok] by auto
  assume "n < 64"
  from fold_set_probe_bit [OF range this, of i] ins
  show "bit (bloom_bits f' ! i) n \<longleftrightarrow> bit (bloom_bits f ! i) n
      \<or> (\<exists>(w, b)\<in>set ?ps. i = ?off + w \<and> n = b)"
    by simp
qed

lemma bloom_insert_same:
  assumes "usize_wide usize_max" "bloom_insert_bytes usize_max f key = Inr f'"
  shows "bloom_num_blocks f' = bloom_num_blocks f" "bloom_num_hashes f' = bloom_num_hashes f" "bloom_ok f"
  using bloom_insert_bytes_Inr [OF assms(1), THEN iffD1, OF assms(2)] by simp_all

interpretation bloom_set: approx_set "bloom_insert_bytes usize_max" "bloom_contains_bytes usize_max"
  "\<lambda>f. usize_wide usize_max \<and> bloom_ok f" for usize_max
proof
  fix f f' :: bloom_filter and k j :: "u8 list"
  assume a: "usize_wide usize_max \<and> bloom_ok f" and i: "bloom_insert_bytes usize_max f k = Inr f'"
  then have w: "usize_wide usize_max" by simp
  note b = bloom_insert_bits [OF w i] and s = bloom_insert_same [OF w i]
  show "usize_wide usize_max \<and> bloom_ok f'" using w b(1) by simp
  show "bloom_contains_bytes usize_max f' k"
    unfolding bloom_contains_bytes_iff [OF w b(1)] s
  proof (intro conjI ballI, rule b(2), clarify)
    fix x n
    assume p: "(x, n) \<in> set (bloom_probes (fst (murmur3_x64_128 k 0)) (snd (murmur3_x64_128 k 0))
      (bloom_num_hashes f))"
    show "bit (bloom_bits f' ! (unat (fst (murmur3_x64_128 k 0)) mod unat (bloom_num_blocks f)
        * WORDS_PER_BLOCK + x)) n"
      unfolding b(4) [OF bloom_probes_range(2) [OF p]] using p by blast
  qed
  show "bloom_contains_bytes usize_max f' j" if "bloom_contains_bytes usize_max f j"
    unfolding bloom_contains_bytes_iff [OF w b(1)] s
  proof (intro conjI ballI, rule b(2), clarify)
    fix x n
    assume p: "(x, n) \<in> set (bloom_probes (fst (murmur3_x64_128 j 0)) (snd (murmur3_x64_128 j 0))
      (bloom_num_hashes f))"
    then show "bit (bloom_bits f' ! (unat (fst (murmur3_x64_128 j 0)) mod unat (bloom_num_blocks f)
        * WORDS_PER_BLOCK + x)) n"
      unfolding b(4) [OF bloom_probes_range(2) [OF p]]
      using that bloom_contains_bytes_iff [OF w s(3), of j] by blast
  qed
qed

text \<open>A well-formed filter accepts an insertion unless its counter is full.\<close>

lemma bloom_insert_total:
  assumes "usize_wide usize_max" "bloom_ok f" "unat (bloom_num_entries f) + 1 < 2 ^ 64"
  shows "\<exists>f'. bloom_insert_bytes usize_max f key = Inr f'"
  using bloom_insert_bytes_Inr [OF assms(1)] assms(2,3) by blast

lemma bloom_fold_total:
  assumes "usize_wide usize_max" "bloom_ok f" "unat (bloom_num_entries f) + length keys < 2 ^ 64"
  shows "\<exists>f'. try_fold (bloom_insert_bytes usize_max) f keys = Inr f'
    \<and> unat (bloom_num_entries f') = unat (bloom_num_entries f) + length keys"
  using assms(2,3)
proof (induction keys arbitrary: f)
  case (Cons key keys)
  obtain g where g: "bloom_insert_bytes usize_max f key = Inr g"
    using bloom_insert_total [OF assms(1) Cons.prems(1)] Cons.prems(2) by fastforce
  note b = bloom_insert_bits [OF assms(1) g]
  from Cons.IH [OF b(1)] b(3) Cons.prems(2) g show ?case by auto
qed simp

lemma bloom_fold_keys:
  "try_fold (bloom_insert usize_max) f hs
     = try_fold (bloom_insert_bytes usize_max) f (map (\<lambda>h. as_bytes (as_str h)) hs)"
  by (induction hs arbitrary: f) (auto simp: bloom_insert_def result_bind_def split: sum.split)

section \<open>Construction\<close>

lemma clamp_hashes: "1 \<le> unat (of_nat (clamp 1 MAX_HASHES n) :: u8) \<and> unat (of_nat (clamp 1 MAX_HASHES n) :: u8) \<le> MAX_HASHES"
proof -
  have "1 \<le> clamp 1 MAX_HASHES n" "clamp 1 MAX_HASHES n \<le> 30" by (simp_all add: clamp_def MAX_HASHES_def)
  then show ?thesis by (simp add: unat_of_nat take_bit_nat_eq_self MAX_HASHES_def)
qed

lemma checked_div_ceil_bound:
  assumes "checked_div_ceil v 512 = Inr n"
  shows "unat v \<le> unat n * 512"
proof (cases "v = 0")
  case False
  then obtain a where a: "checked_add64 v 511 = Some a" "n = a div 512"
    using assms by (auto simp: checked_div_ceil_def ok_or_eq_Inr)
  have "unat a = unat v + 511" using checked_add64_unat [OF a(1)] by simp
  moreover have "unat n = unat a div 512" using a(2) by (simp add: unat_div_distrib)
  ultimately show ?thesis by simp
qed simp

lemma unat_ucast_block:
  "unat (n :: u64) \<le> MAX_BLOCKS \<Longrightarrow> unat (ucast n :: u32) = unat n"
  by (simp add: unsigned_ucast_eq MAX_BLOCKS_def take_bit_nat_eq_self)

lemma bloom_new_parts:
  assumes "usize_wide usize_max"
    and "bloom_new usize_max alloc show64 bits64 hashes64 n rate = Inr f"
  obtains p b where "rate = Some p" "0.00001 \<le> p" "p \<le> 0.5" "bits64 p = Some b" "0 < b" "n < 2 ^ 64"
    "bloom_ok f" "bloom_num_entries f = 0" "bloom_bits f = replicate (length (bloom_bits f)) 0"
    "n * min (nat \<lceil>b\<rceil>) (2 ^ 64 - 1) \<le> unat (bloom_num_blocks f) * BLOCK_BITS"
proof -
  from assms(2) obtain p b where pb: "rate = Some p" "0.00001 \<le> p" "p \<le> 0.5" "bits64 p = Some b" "0 < b"
    by (auto simp: bloom_new_def split: option.splits if_splits)
  define bpe where "bpe = (of_nat (min (nat \<lceil>b\<rceil>) (2 ^ 64 - 1)) :: u64)"
  from assms(2) pb obtain product blocks nb wl where n: "n < 2 ^ 64"
    and product: "checked_mul64 (of_nat n) bpe = Some product"
    and blocks: "checked_div_ceil (max product (of_nat BLOCK_BITS)) (of_nat BLOCK_BITS) = Inr blocks"
    and nb: "validated_word_len usize_max blocks = Inr (nb, wl)"
    and f: "f = \<lparr>bloom_bits = replicate wl 0, bloom_num_blocks = nb, bloom_num_entries = 0,
      bloom_num_hashes = of_nat (clamp 1 MAX_HASHES (min 255 (hashes64 bpe)))\<rparr>"
    by (auto simp: bloom_new_def Let_def bpe_def result_bind_eq_Inr ok_or_eq_Inr
        allocate_zeroed_words_def map_err_eq_Inr split: if_splits)
  have b: "1 \<le> unat blocks" "unat blocks \<le> MAX_BLOCKS" "nb = ucast blocks" "wl = unat blocks * WORDS_PER_BLOCK"
    using nb by (simp_all add: validated_word_len_Inr [OF assms(1)])
  have "bloom_ok f" using b clamp_hashes by (simp add: bloom_ok_def f unat_ucast_block)
  moreover have "n * min (nat \<lceil>b\<rceil>) (2 ^ 64 - 1) \<le> unat (bloom_num_blocks f) * BLOCK_BITS"
  proof -
    have "unat bpe = min (nat \<lceil>b\<rceil>) (2 ^ 64 - 1)" unfolding bpe_def by (rule unat_of_nat64) simp
    then have "unat product = n * min (nat \<lceil>b\<rceil>) (2 ^ 64 - 1)"
      using checked_mul64_unat [OF product] n by (simp add: unat_of_nat64)
    moreover have "unat product \<le> unat (max product (of_nat BLOCK_BITS))"
      by (simp flip: word_le_nat_alt)
    moreover have "unat (max product (of_nat BLOCK_BITS)) \<le> unat blocks * 512"
      using checked_div_ceil_bound [of "max product (of_nat BLOCK_BITS)" blocks] blocks
      by (simp add: BLOCK_BITS_def)
    ultimately show ?thesis using b by (simp add: f unat_ucast_block BLOCK_BITS_def)
  qed
  ultimately show thesis using that pb n f by simp
qed

section \<open>Serialised filters\<close>

lemma as_chunks8_words: "as_chunks8 (concat (map le_bytes64 ws)) = map le_bytes64 ws"
  by (induction ws) (simp_all add: le_bytes64_def)

lemma length_words: "length (concat (map le_bytes64 ws)) = 8 * length ws"
  by (induction ws) simp_all

lemma length_as_chunks8: "length (as_chunks8 bs) = length bs div 8"
  by (induction bs rule: as_chunks8.induct) auto

lemma validated_word_len_wide:
  "usize_wide u \<Longrightarrow> usize_wide u' \<Longrightarrow> validated_word_len u n = validated_word_len u' n"
  by (simp add: validated_word_len_def usize_wide_def checked_mul_usize_def MAX_BLOCKS_def
      WORDS_PER_BLOCK_def)

lemma calculate_block_offset_wide:
  assumes "usize_wide u" "usize_wide u'" "bloom_ok f"
  shows "calculate_block_offset u h1 (bloom_num_blocks f) = calculate_block_offset u' h1 (bloom_num_blocks f)"
  using block_offset_ok(1) [OF assms(1)] block_offset_ok(1) [OF assms(2)] assms(3)
  by (simp add: bloom_ok_def)

lemma bloom_from_bytes_Inr:
  assumes "usize_wide usize_max"
  shows "bloom_from_bytes usize_max alloc bytes n k = Inr f \<longleftrightarrow>
    1 \<le> unat k \<and> unat k \<le> MAX_HASHES \<and> bytes \<noteq> [] \<and> length bytes mod 64 = 0
    \<and> length bytes div 64 \<le> MAX_BLOCKS \<and> is_ok (alloc (length bytes div 64 * WORDS_PER_BLOCK))
    \<and> f = \<lparr>bloom_bits = map from_le_bytes64 (as_chunks8 bytes),
        bloom_num_blocks = of_nat (length bytes div 64), bloom_num_entries = n, bloom_num_hashes = k\<rparr>"
proof (cases "length bytes div 64 < 2 ^ 64")
  case True
  let ?b = "length bytes div 64"
  have u: "unat (of_nat ?b :: u64) = ?b" using True by (rule unat_of_nat64)
  have c: "(ucast (of_nat ?b :: u64) :: u32) = of_nat ?b" 
    by (rule bit_word_eqI) (simp add: bit_ucast_iff bit_of_nat_iff)
  have len: "length (as_chunks8 bytes) = ?b * WORDS_PER_BLOCK" if "length bytes mod 64 = 0"
    using that by (auto simp: length_as_chunks8 WORDS_PER_BLOCK_def)
  have pos: "1 \<le> ?b" if "length bytes mod 64 = 0" "bytes \<noteq> []"
    using that by (cases bytes) auto
  show ?thesis
    using True len pos
    by (auto simp: bloom_from_bytes_def Let_def result_bind_eq_Inr map_err_eq_Inr is_ok_iff
        validated_word_len_Inr [OF assms] u c split: prod.splits)
next
  case False
  then show ?thesis by (auto simp: bloom_from_bytes_def Let_def MAX_BLOCKS_def)
qed

section \<open>A sample filter\<close>

text \<open>A 32-bit target, memory for every request, and the two roundings at the default rate.\<close>

abbreviation sample_usize :: nat where
  "sample_usize \<equiv> 2 ^ 32 - 1"

abbreviation sample_alloc :: "nat \<Rightarrow> string + unit" where
  "sample_alloc \<equiv> \<lambda>_. Inr ()"

abbreviation sample_new :: "nat \<Rightarrow> real option \<Rightarrow> bloom_error + bloom_filter" where
  "sample_new \<equiv> bloom_new sample_usize sample_alloc (\<lambda>_. ''rate'') (\<lambda>_. Some 12) (\<lambda>_. 8)"

abbreviation sample_filter :: bloom_filter where
  "sample_filter \<equiv> \<lparr>bloom_bits = replicate 8 0, bloom_num_blocks = 1, bloom_num_entries = 0,
     bloom_num_hashes = 8\<rparr>"

lemma sample_usize_wide: "usize_wide sample_usize"
  by (simp add: usize_wide_def)

lemma sample_filter_ok: "bloom_ok sample_filter"
  by (simp add: bloom_ok_def MAX_BLOCKS_def WORDS_PER_BLOCK_def MAX_HASHES_def)

lemma sample_new_eq:
  assumes "n \<le> 42"
  shows "sample_new n (Some 0.01) = Inr sample_filter"
proof -
  have "unat (of_nat n :: u64) = n" using assms by (simp add: unat_of_nat64)
  then have "checked_mul64 (of_nat n) 12 = Some (of_nat (n * 12))"
    using assms by (simp add: checked_mul64_def)
  moreover have "max (of_nat (n * 12) :: u64) 512 = 512"
  proof -
    have "unat (of_nat (n * 12) :: u64) = n * 12" using assms by (intro unat_of_nat64) simp
    then show ?thesis using assms by (simp add: max_def word_le_nat_alt)
  qed
  ultimately show ?thesis using assms
    by (simp add: bloom_new_def Let_def BLOCK_BITS_def checked_div_ceil_def
        checked_add64_def validated_word_len_def MAX_BLOCKS_def checked_mul_usize_def
        WORDS_PER_BLOCK_def allocate_zeroed_words_def clamp_def MAX_HASHES_def)
qed

section \<open>Properties\<close>

text \<open>
  C17. No false negatives: when the filter for a list of hashes can be allocated, building it
  succeeds, counts every hash, and finds every hash of the list.
\<close>

theorem bloom_no_false_negatives:
  assumes "usize_wide usize_max"
    and "bloom_new_with_defaults usize_max alloc show64 bits64 hashes64 (length hs) = Inr f0"
  shows "\<exists>f. bloom_from_entries usize_max alloc show64 bits64 hashes64 hs = Inr f
    \<and> unat (bloom_num_entries f) = length hs \<and> (\<forall>h\<in>set hs. bloom_contains usize_max f h)"
proof -
  let ?ks = "map (\<lambda>h. as_bytes (as_str h)) hs"
  obtain p b where "length hs < 2 ^ 64" and ok: "bloom_ok f0" "bloom_num_entries f0 = 0"
    using bloom_new_parts [OF assms(1)] assms(2) unfolding bloom_new_with_defaults_def by metis
  then obtain f where f: "try_fold (bloom_insert_bytes usize_max) f0 ?ks = Inr f"
    "unat (bloom_num_entries f) = length hs"
    using bloom_fold_total [OF assms(1) ok(1), of ?ks] by auto
  moreover have "\<forall>k\<in>set ?ks. bloom_contains_bytes usize_max f k"
    using bloom_set.fold_ins [OF _ f(1)] assms(1) ok(1) by blast
  ultimately show ?thesis
    using assms(2) by (simp add: bloom_from_entries_def bloom_fold_keys bloom_contains_def)
qed

theorem bloom_no_false_negatives_witness:
  "\<exists>f. bloom_from_entries sample_usize sample_alloc (\<lambda>_. ''rate'') (\<lambda>_. Some 12) (\<lambda>_. 8)
        [hash_a, hash_b] = Inr f
    \<and> unat (bloom_num_entries f) = 2
    \<and> bloom_contains sample_usize f hash_a \<and> bloom_contains sample_usize f hash_b"
  using bloom_no_false_negatives [OF sample_usize_wide, of sample_alloc "\<lambda>_. ''rate''" "\<lambda>_. Some 12"
      "\<lambda>_. 8" "[hash_a, hash_b]" sample_filter] sample_new_eq [of 2]
  by (simp add: bloom_new_with_defaults_def numeral_2_eq_2)

text \<open>
  Constructing a filter establishes the invariant: the filter is well formed and empty, its
  number of probes is between 1 and 30, and it has room for the requested number of bits per
  entry.
\<close>

theorem bloom_new_invariant:
  assumes "usize_wide usize_max" "bloom_new usize_max alloc show64 bits64 hashes64 n (Some p) = Inr f"
  shows "bloom_ok f \<and> bloom_is_empty f
    \<and> (\<exists>b. bits64 p = Some b \<and> n * min (nat \<lceil>b\<rceil>) (2 ^ 64 - 1) \<le> unat (bloom_num_bits f))"
proof -
  obtain q b where pb: "Some p = Some q" "bits64 q = Some b" "bloom_ok f" "bloom_num_entries f = 0"
    "n * min (nat \<lceil>b\<rceil>) (2 ^ 64 - 1) \<le> unat (bloom_num_blocks f) * BLOCK_BITS"
    using bloom_new_parts [OF assms] by metis
  have "unat (bloom_num_blocks f) * 512 < 2 ^ 64" using pb(3) by (simp add: bloom_ok_def MAX_BLOCKS_def)
  then have "unat (bloom_num_bits f) = unat (bloom_num_blocks f) * BLOCK_BITS"
    by (simp add: bloom_num_bits_def BLOCK_BITS_def unat_word_ariths unat_ucast_u32)
  with pb show ?thesis by (auto simp: bloom_is_empty_def)
qed

theorem bloom_new_invariant_witness:
  "sample_new 42 (Some 0.01) = Inr sample_filter
    \<and> bloom_ok sample_filter \<and> bloom_is_empty sample_filter \<and> 42 * 12 \<le> unat (bloom_num_bits sample_filter)"
  using bloom_new_invariant [OF sample_usize_wide sample_new_eq [of 42]] sample_new_eq [of 42]
  by simp

text \<open>
  Insertion keeps the filter well formed, never indexes outside the bitmap, and fails on a
  well-formed filter only when the entry counter is full.
\<close>

theorem bloom_insert_invariant:
  assumes "usize_wide usize_max" "bloom_ok f"
  shows "(bloom_insert_bytes usize_max f key = Inl e
        \<longleftrightarrow> bloom_num_entries f = 2 ^ 64 - 1 \<and> e = EntryCountOverflow (bloom_num_entries f))
    \<and> (\<forall>f'. bloom_insert_bytes usize_max f key = Inr f' \<longrightarrow>
        bloom_ok f' \<and> unat (bloom_num_entries f') = unat (bloom_num_entries f) + 1)
    \<and> (\<forall>(w, b)\<in>set (bloom_probes h1 h2 (bloom_num_hashes f)).
        unat h1 mod unat (bloom_num_blocks f) * WORDS_PER_BLOCK + w < length (bloom_bits f) \<and> b < 64)"
proof -
  have full: "unat (bloom_num_entries f) + 1 < 2 ^ 64 \<longleftrightarrow> bloom_num_entries f \<noteq> 2 ^ 64 - 1"
  proof -
    have "unat (bloom_num_entries f) < 2 ^ LENGTH(64)" by (rule unsigned_less)
    then show ?thesis by (auto simp: word_unat_eq_iff)
  qed
  have v: "bloom_validate_internal usize_max f = Inr ()" using assms by (simp add: bloom_validate_Inr)
  have "bloom_insert_bytes usize_max f key = Inl e
      \<longleftrightarrow> bloom_num_entries f = 2 ^ 64 - 1 \<and> e = EntryCountOverflow (bloom_num_entries f)"
  proof (cases "bloom_num_entries f = 2 ^ 64 - 1")
    case True
    then have "checked_add64 (bloom_num_entries f) 1 = None" using full by (simp add: checked_add64_def)
    then show ?thesis using True by (auto simp: bloom_insert_bytes_def v)
  next
    case False
    then obtain f' where "bloom_insert_bytes usize_max f key = Inr f'"
      using bloom_insert_total [OF assms] full by blast
    with False show ?thesis by simp
  qed
  with bloom_insert_bits(1,3) [OF assms(1)] bloom_probe_indices [OF assms(2)] show ?thesis by blast
qed

theorem bloom_insert_invariant_witness:
  "bloom_insert_bytes sample_usize sample_filter [1, 2, 3] \<noteq> Inl (EntryCountOverflow 0)
    \<and> bloom_insert_bytes sample_usize (sample_filter\<lparr>bloom_num_entries := 2 ^ 64 - 1\<rparr>) [1, 2, 3]
      = Inl (EntryCountOverflow (2 ^ 64 - 1))"
proof
  show "bloom_insert_bytes sample_usize sample_filter [1, 2, 3] \<noteq> Inl (EntryCountOverflow 0)"
    using bloom_insert_invariant [OF sample_usize_wide sample_filter_ok,
        of "[1, 2, 3]" "EntryCountOverflow 0"] by simp
  have "bloom_ok (sample_filter\<lparr>bloom_num_entries := 2 ^ 64 - 1\<rparr>)"
    by (simp add: bloom_ok_def MAX_BLOCKS_def WORDS_PER_BLOCK_def MAX_HASHES_def)
  from bloom_insert_invariant [OF sample_usize_wide this, of "[1, 2, 3]"]
  show "bloom_insert_bytes sample_usize (sample_filter\<lparr>bloom_num_entries := 2 ^ 64 - 1\<rparr>) [1, 2, 3]
      = Inl (EntryCountOverflow (2 ^ 64 - 1))"
    by simp
qed

text \<open>
  Writing a well-formed filter and reading it back gives the same filter, when the memory can
  be allocated.
\<close>

theorem bloom_bytes_roundtrip:
  assumes "usize_wide usize_max" "bloom_ok f" "is_ok (alloc (length (bloom_bits f)))"
  shows "bloom_from_bytes usize_max alloc (bloom_to_bytes f) (bloom_num_entries f) (bloom_num_hashes f)
    = Inr f"
proof -
  have len: "length (bloom_to_bytes f) = 64 * unat (bloom_num_blocks f)"
    using assms(2) by (simp add: bloom_to_bytes_def length_words bloom_ok_def WORDS_PER_BLOCK_def)
  have words: "map from_le_bytes64 (as_chunks8 (bloom_to_bytes f)) = bloom_bits f"
    by (simp add: bloom_to_bytes_def as_chunks8_words comp_def)
  have "bloom_to_bytes f \<noteq> []" using len assms(2) by (auto simp: bloom_ok_def)
  then show ?thesis
    using assms len words
    by (auto simp: bloom_from_bytes_Inr [OF assms(1)] bloom_ok_def intro: bloom_filter.equality)
qed

theorem bloom_bytes_roundtrip_witness:
  "bloom_from_bytes sample_usize sample_alloc (replicate 64 0) 0 8 = Inr sample_filter"
proof -
  have "bloom_to_bytes sample_filter = replicate 64 0" by code_simp
  with bloom_bytes_roundtrip [OF sample_usize_wide sample_filter_ok, of sample_alloc]
  show ?thesis by simp
qed

text \<open>
  Reading a serialised filter succeeds exactly for 1 to 30 probes and a whole number of
  blocks between 1 and 1048576, and what is read is well formed.
\<close>

theorem bloom_from_bytes_exact:
  assumes "usize_wide usize_max" "\<And>n. is_ok (alloc n)"
  shows "is_ok (bloom_from_bytes usize_max alloc bytes n k) = (1 \<le> unat k \<and> unat k \<le> 30
      \<and> bytes \<noteq> [] \<and> length bytes mod 64 = 0 \<and> length bytes div 64 \<le> 1048576)
    \<and> (\<forall>f. bloom_from_bytes usize_max alloc bytes n k = Inr f \<longrightarrow> bloom_ok f)"
proof -
  note iff = bloom_from_bytes_Inr [OF assms(1), of alloc bytes n k]
  have "bloom_ok f" if "bloom_from_bytes usize_max alloc bytes n k = Inr f" for f
    using that div_greater_zero_iff [of "length bytes" 64] dvd_imp_le [of 64 "length bytes"] unfolding iff
    by (auto simp: bloom_ok_def length_as_chunks8 MAX_BLOCKS_def WORDS_PER_BLOCK_def unat_of_nat take_bit_nat_eq_self)
  then show ?thesis using assms(2)
    by (auto simp: is_ok_iff iff MAX_HASHES_def MAX_BLOCKS_def)
qed

theorem bloom_from_bytes_exact_witness:
  "is_ok (bloom_from_bytes sample_usize sample_alloc (replicate 128 7) 5 30)
    \<and> \<not> is_ok (bloom_from_bytes sample_usize sample_alloc (replicate 100 7) 5 30)
    \<and> \<not> is_ok (bloom_from_bytes sample_usize sample_alloc (replicate 128 7) 5 31)"
  using bloom_from_bytes_exact [OF sample_usize_wide, of sample_alloc "replicate 128 7" 5 30]
    bloom_from_bytes_exact [OF sample_usize_wide, of sample_alloc "replicate 100 7" 5 30]
    bloom_from_bytes_exact [OF sample_usize_wide, of sample_alloc "replicate 128 7" 5 31]
  by simp

end
