(* ===== verification/Rust_Text.thy ===== *)
theory Rust_Text
  imports Rust_Str
begin

text \<open>
  How trimming, line splitting and word splitting undo the writing of a line-based text: facts
  on \<^const>\<open>trim\<close>, \<^const>\<open>str_lines\<close> and \<^const>\<open>split_whitespace\<close> that the reader of
  \<open>.narinfo\<close> texts rests on.
\<close>

section \<open>Trimmed strings\<close>

definition trimmed :: "string \<Rightarrow> bool" where
  "trimmed s \<longleftrightarrow> ws_len s = 0 \<and> ws_len_end s = 0"

lemma trim_trimmed [str_simps]: "trimmed s \<Longrightarrow> trim s = s"
  by (simp add: trimmed_def trim_def trim_start_no_ws trim_end.simps [of s])

lemma ws_len_prefix: "ws_len (take n s) \<noteq> 0 \<Longrightarrow> ws_len s \<noteq> 0"
  by (cases s; cases "tl s"; cases "tl (tl s)"; cases n; cases "n - 1"; cases "n - 2")
    (auto simp: ws_len_def split: if_splits)

lemma trimmed_trim: "trimmed (trim s)"
proof -
  obtain n where "trim_end (trim_start s) = take n (trim_start s)" using trim_end_prefix by blast
  then have "ws_len (trim s) = 0"
    using ws_len_prefix [of n "trim_start s"] trim_start_fixed [of s] by (auto simp: trim_def)
  then show ?thesis by (simp add: trimmed_def trim_def trim_end_fixed)
qed

lemma trimmed_iff: "trimmed s \<longleftrightarrow> trim s = s"
  using trim_trimmed trimmed_trim by metis

lemma trimmed_no_ws: "\<not> any_ws s \<Longrightarrow> trimmed s"
  by (simp add: trimmed_def ws_len_no_ws ws_len_end_def any_ws_drop)

lemma any_control_or_ws_append:
  "\<not> any_control_or_ws (a @ b) \<Longrightarrow> \<not> any_control_or_ws b"
  by (induction a) auto

text \<open>Trimming removes no inner character.\<close>

lemma set_trim_start: "set (trim_start s) \<subseteq> set s"
proof (induction s rule: trim_start.induct)
  case (1 s)
  then show ?case
    by (cases "ws_len s = 0") (auto simp: trim_start.simps [of s] dest: in_set_dropD)
qed

lemma set_trim: "set (trim s) \<subseteq> set s"
proof -
  obtain n where "trim_end (trim_start s) = take n (trim_start s)" using trim_end_prefix by blast
  then show ?thesis using set_trim_start [of s] set_take_subset [of n "trim_start s"]
    by (auto simp: trim_def)
qed

text \<open>A blank in front of a word is not part of a longer white-space character.\<close>

lemma ws_len_blank: "ws_len (CHR '' '' # s) = 1"
  by (simp add: ws_len_def)

lemma trim_blank_value:
  assumes "trimmed v" "v \<noteq> []"
  shows "trim (CHR '' '' # v) = v"
proof -
  have "trim_start (CHR '' '' # v) = trim_start v"
    by (subst trim_start.simps) (simp add: ws_len_blank)
  with assms show ?thesis by (simp add: trim_def trimmed_def trim_start_no_ws trim_end.simps [of v])
qed

lemma blank_end:
  assumes "ws_len_end v = 0" "v \<noteq> []"
  shows "ws_len_end (k @ CHR '' '' # v) = 0"
proof -
  consider (one) a where "v = [a]" | (two) a b where "v = [a, b]" | (more) "3 \<le> length v"
    using assms(2) by (cases v; cases "tl v"; cases "tl (tl v)") auto
  then show ?thesis
  proof cases
    case one
    then have a: "ws_len [a] \<noteq> 1" using assms(1) by (auto simp: ws_len_end_def split: if_splits)
    have "ws_len (drop (length k - 1) (k @ [CHR '' '', a])) \<noteq> 3"
      by (cases k rule: rev_cases) (auto simp: ws_len_def)
    with a one show ?thesis by (simp add: ws_len_end_def ws_len_blank)
  next
    case two
    then have "ws_len [b] \<noteq> 1" "ws_len [a, b] \<noteq> 2"
      using assms(1) by (auto simp: ws_len_end_def split: if_splits)
    with two show ?thesis by (simp add: ws_len_end_def ws_len_blank Suc_diff_Suc)
  next
    case more
    then have "drop (length (k @ CHR '' '' # v) - i) (k @ CHR '' '' # v) = drop (length v - i) v"
      if "i \<le> 3" for i
      using that by (simp add: drop_Cons')
    with assms(1) show ?thesis by (simp only: ws_len_end_def split: if_splits)
  qed
qed

lemma trimmed_key_value:
  assumes "ws_len k = 0" "k \<noteq> []" "list_all (between 33 126) k" "trimmed v" "v \<noteq> []"
  shows "trimmed (k @ '': '' @ v)"
proof -
  obtain c k' where k: "k = c # k'" using assms(2) by (cases k) auto
  then have "33 \<le> code c" "code c \<le> 126" using assms(3) by (auto simp: between_def)
  then have "ws_len (c # k' @ '': '' @ v) = 0"
    by (auto simp: ws_len_def split: list.split)
  with k assms blank_end [of v "k @ '':''"] show ?thesis by (simp add: trimmed_def)
qed

section \<open>Lines\<close>

lemma str_lines_Nil [simp]: "str_lines [] = []"
  by (simp add: str_lines.simps)

lemma str_lines_line:
  assumes "newline \<notin> set l" "l = [] \<or> last l \<noteq> char_of (13::nat)"
  shows "str_lines (l @ newline # r) = l # str_lines r"
  using assms by (subst str_lines.simps) (auto simp: strip_cr_def split_once_eq_Some)

lemma str_lines_join:
  assumes "\<forall>l\<in>set ls. newline \<notin> set l \<and> (l = [] \<or> last l \<noteq> char_of (13::nat))"
  shows "ls \<noteq> [] \<Longrightarrow> str_lines (join [newline] ls @ [newline]) = ls"
  using assms
proof (induction "[newline]" ls rule: join.induct)
  case (2 l)
  then show ?case using str_lines_line [of l "[]"] by simp
next
  case (3 l l' ls)
  then show ?case using str_lines_line [of l "join [newline] (l' # ls) @ [newline]"] by simp
qed simp

lemma last_trimmed: "trimmed l \<Longrightarrow> l \<noteq> [] \<Longrightarrow> last l \<noteq> char_of (13::nat)"
proof
  assume "trimmed l" "l \<noteq> []" "last l = char_of (13::nat)"
  then have "drop (length l - 1) l = [char_of (13::nat)]"
    by (metis One_nat_def append_butlast_last_id append_eq_conv_conj length_butlast)
  then have "ws_len_end l = 1" by (simp add: ws_len_end_def ws_len_def)
  with \<open>trimmed l\<close> show False by (simp add: trimmed_def)
qed

lemma str_lines_no_newline: "l \<in> set (str_lines s) \<Longrightarrow> newline \<notin> set l"
proof (induction s rule: str_lines.induct)
  case (1 s)
  show ?case
  proof (cases "split_once newline s")
    case None
    then have "str_lines s = (if s = [] then [] else [s])" by (subst str_lines.simps) simp
    with None show ?thesis using "1.prems" by (auto simp: split_once_eq_None split: if_splits)
  next
    case (Some p)
    then obtain a b where ab: "split_once newline s = Some (a, b)" by (cases p) auto
    then have s: "s = a @ newline # b" "newline \<notin> set a" by (simp_all add: split_once_eq_Some)
    then have "newline \<notin> set (strip_cr a)" by (auto simp: strip_cr_def dest: in_set_butlastD)
    moreover have "str_lines s = strip_cr a # str_lines b"
      using s ab by (subst str_lines.simps) simp
    moreover have "newline \<notin> set l" if "l \<in> set (str_lines b)"
      by (rule "1.IH" [OF _ ab refl that]) (use s in simp)
    ultimately show ?thesis using "1.prems" by (metis set_ConsD)
  qed
qed

section \<open>Words\<close>

lemma split_ws_aux_no_ws:
  "\<not> any_ws w \<Longrightarrow> split_ws_aux acc w = (if acc = [] \<and> w = [] then [] else [rev acc @ w])"
  by (induction w arbitrary: acc) (simp_all add: split_ws_aux.simps)

lemma ws_len_before_blank:
  assumes "\<not> any_ws w" "w \<noteq> []"
  shows "ws_len (w @ CHR '' '' # r) = 0"
proof -
  have "ws_len w = 0" using assms(1) by (rule ws_len_no_ws)
  with assms(2) show ?thesis
    by (cases w; cases "tl w"; cases "tl (tl w)") (auto simp: ws_len_def split: if_splits list.splits)
qed

lemma split_ws_aux_word:
  "\<not> any_ws w \<Longrightarrow> acc \<noteq> [] \<or> w \<noteq> [] \<Longrightarrow>
   split_ws_aux acc (w @ CHR '' '' # r) = (rev acc @ w) # split_ws_aux [] r"
proof (induction w arbitrary: acc)
  case Nil
  then show ?case by (simp add: split_ws_aux.simps [of acc] ws_len_blank)
next
  case (Cons c w)
  have "ws_len ((c # w) @ CHR '' '' # r) = 0" by (rule ws_len_before_blank) (use Cons.prems in auto)
  then show ?case using Cons by (simp add: split_ws_aux.simps [of acc])
qed

lemma split_whitespace_join:
  assumes "\<forall>w\<in>set ws. \<not> any_ws w \<and> w \<noteq> []"
  shows "split_whitespace (join '' '' ws) = ws"
  unfolding split_whitespace_def using assms
proof (induction "'' ''" ws rule: join.induct)
  case (2 w)
  then show ?case by (simp add: split_ws_aux_no_ws)
next
  case (3 w w' ws)
  then show ?case using split_ws_aux_word [of w "[]" "join '' '' (w' # ws)"] by simp
qed (simp add: split_ws_aux.simps)

lemma any_ws_take_word:
  assumes "\<forall>n < length w. ws_len (drop n w @ r) = 0"
  shows "\<not> any_ws w"
  using assms
proof (induction w)
  case (Cons c w)
  have "ws_len (c # w) = 0"
    using Cons.prems [rule_format, of 0] ws_len_prefix [of "length (c # w)" "(c # w) @ r"] by auto
  moreover have "\<forall>n < length w. ws_len (drop n w @ r) = 0"
  proof (intro allI impI)
    fix n assume "n < length w"
    then show "ws_len (drop n w @ r) = 0" using Cons.prems [rule_format, of "Suc n"] by simp
  qed
  ultimately show ?case using Cons.IH by simp
qed simp

lemma split_ws_aux_words:
  assumes "x \<in> set (split_ws_aux acc s)" "\<forall>n < length acc. ws_len (drop n (rev acc) @ s) = 0"
  shows "\<not> any_ws x \<and> x \<noteq> []"
  using assms
proof (induction acc s rule: split_ws_aux.induct)
  case (1 w s)
  have word: "\<not> any_ws (rev w)" using any_ws_take_word [of "rev w" s] "1.prems"(2) by simp
  consider (nil) "s = []" | (ws) "s \<noteq> []" "0 < ws_len s" | (char) "s \<noteq> []" "ws_len s = 0" by auto
  then show ?case
  proof cases
    case nil
    then show ?thesis using "1.prems" word
      by (auto simp: split_ws_aux.simps [of w] split: if_splits)
  next
    case ws
    then consider "x = rev w" "w \<noteq> []" | "x \<in> set (split_ws_aux [] (drop (ws_len s) s))"
      using "1.prems"(1) by (auto simp: split_ws_aux.simps [of w s] split: if_splits)
    then show ?thesis using "1.IH"(1) [OF ws] word by cases auto
  next
    case char
    then obtain c s' where s: "s = c # s'" by (cases s) auto
    have "ws_len (drop n (rev (c # w)) @ s') = 0" if "n < length (c # w)" for n
      using that "1.prems"(2) char s by (cases "n < length w") (auto simp: less_Suc_eq)
    then show ?thesis using "1.IH"(2) char s "1.prems"(1)
      by (simp add: split_ws_aux.simps [of w])
  qed
qed

lemma split_whitespace_words: "x \<in> set (split_whitespace s) \<Longrightarrow> \<not> any_ws x \<and> x \<noteq> []"
  unfolding split_whitespace_def by (erule split_ws_aux_words) simp

end
