(* ===== verification/Lookup.thy ===== *)
theory Lookup
  imports Rust_Text Samples
begin

text \<open>
  The helpers of \<^verbatim>\<open>crates/nixcache-core/src/lookup.rs\<close>: the store hash of a path, the file name
  of a NAR, and the table from NAR names to blob digests. Slicing a string at a byte index that
  is not a character boundary panics in Rust; the slice returns an error value for it.
\<close>

datatype rust_panic = NotCharBoundary nat

definition is_char_boundary :: "string \<Rightarrow> nat \<Rightarrow> bool" where
  "is_char_boundary s n \<longleftrightarrow> n = 0 \<or> n = length s \<or> n < length s \<and> \<not> between 128 191 (s ! n)"

definition slice_to :: "string \<Rightarrow> nat \<Rightarrow> rust_panic + string" where
  "slice_to s n = (if is_char_boundary s n then Inr (take n s) else Inl (NotCharBoundary n))"

text \<open>
  \<open>Path::file_name\<close> on Unix: the last component, empty components and \<open>.\<close> left out; none for
  the root, the empty path and a path that ends in \<open>..\<close>.
\<close>

definition file_name :: "string \<Rightarrow> string option" where
  "file_name path =
     (case rev (filter (\<lambda>c. c \<noteq> [] \<and> c \<noteq> ''.'') (split_on (CHR ''/'') path)) of
        [] \<Rightarrow> None
      | c # _ \<Rightarrow> if c = ''..'' then None else Some c)"

definition extract_store_hash_str :: "string \<Rightarrow> rust_panic + string option" where
  "extract_store_hash_str store_path =
     (case file_name store_path of
        None \<Rightarrow> Inr None
      | Some name \<Rightarrow>
          if length name \<ge> 32 then map_ok Some (slice_to name 32) else Inr None)"

definition extract_store_hash :: "string \<Rightarrow> rust_panic + store_hash option" where
  "extract_store_hash store_path =
     (case file_name store_path of
        None \<Rightarrow> Inr None
      | Some name \<Rightarrow>
          if length name \<ge> 32
          then map_ok (\<lambda>s. result_ok (store_hash_parse s)) (slice_to name 32)
          else Inr None)"

definition first_word :: "string \<Rightarrow> string" where
  "first_word rest = (case split_whitespace rest of [] \<Rightarrow> rest | w # _ \<Rightarrow> w)"

definition rsplit_last :: "string \<Rightarrow> string" where
  "rsplit_last path = last (split_on (CHR ''/'') path)"

definition extract_nar_basename :: "string \<Rightarrow> string" where
  "extract_nar_basename url_or_path =
     (let t = trim url_or_path in
      case strip_prefix ''URL: nar/'' t of
        Some rest \<Rightarrow> first_word rest
      | None \<Rightarrow> (case strip_prefix ''URL: '' t of
            Some rest \<Rightarrow> rsplit_last (first_word rest)
          | None \<Rightarrow> (case strip_prefix ''nar/'' t of
                Some rest \<Rightarrow> first_word rest
              | None \<Rightarrow> if CHR ''/'' \<in> set t then rsplit_last t else t)))"

definition build_nar_lookup_map :: "('k \<times> index_entry) list \<Rightarrow> (string \<times> nar_digest) list" where
  "build_nar_lookup_map entries =
     fold (\<lambda>(_, e) m. if entry_nar_basename e = [] then m
        else AList.update (entry_nar_basename e) (entry_nar_digest e) m) entries []"

section \<open>The lookup table\<close>

lemma lookup_map_fold:
  "map_of (fold (\<lambda>(_, e) m. if entry_nar_basename e = [] then m
        else AList.update (entry_nar_basename e) (entry_nar_digest e) m) es m0) name
   = (case find (\<lambda>p. entry_nar_basename (snd p) = name \<and> name \<noteq> []) (rev es) of
        None \<Rightarrow> map_of m0 name
      | Some p \<Rightarrow> Some (entry_nar_digest (snd p)))"
proof (induction es rule: rev_induct)
  case (snoc p es)
  obtain k e where "p = (k, e)" by (cases p) auto
  with snoc show ?case by (auto simp: update_conv' split: option.splits)
qed simp

section \<open>Files names without a slash\<close>

lemma file_name_basename:
  assumes "CHR ''/'' \<notin> set s" "s \<noteq> []" "s \<noteq> ''.''" "s \<noteq> ''..''"
  shows "file_name s = Some s"
  using assms by (simp add: file_name_def split_on_no_sep)

lemma first_word_no_ws: "\<not> any_ws s \<Longrightarrow> first_word s = s"
  by (simp add: first_word_def split_whitespace_def split_ws_aux_no_ws)

lemma base32_boundary: "valid_store_hash h \<Longrightarrow> slice_to (as_str h @ r) 32 = Inr (as_str h)"
  if "r = [] \<or> \<not> between 128 191 (hd r)"
  using that by (auto simp: slice_to_def is_char_boundary_def valid_store_hash_def nth_append hd_conv_nth)

lemma base32_no_slash: "valid_store_hash h \<Longrightarrow> CHR ''/'' \<notin> set (as_str h)"
  by (auto simp: valid_store_hash_def list_all_iff nix_base32_digit_def between_def)

section \<open>Properties\<close>

text \<open>
  The NAR table: a name is found exactly when some entry has it, and the digest found is
  the digest of an entry with that name.
\<close>

theorem nar_lookup_exact:
  assumes "name \<noteq> []"
  shows "(map_of (build_nar_lookup_map entries) name = None
      \<longleftrightarrow> (\<forall>(k, e)\<in>set entries. entry_nar_basename e \<noteq> name))
    \<and> (\<forall>d. map_of (build_nar_lookup_map entries) name = Some d \<longrightarrow>
        (\<exists>(k, e)\<in>set entries. entry_nar_basename e = name \<and> entry_nar_digest e = d))"
proof -
  let ?f = "find (\<lambda>p. entry_nar_basename (snd p) = name \<and> name \<noteq> []) (rev entries)"
  have m: "map_of (build_nar_lookup_map entries) name
      = (case ?f of None \<Rightarrow> None | Some p \<Rightarrow> Some (entry_nar_digest (snd p)))"
    unfolding build_nar_lookup_map_def lookup_map_fold by (simp cong: option.case_cong)
  show ?thesis
  proof (cases ?f)
    case None
    with m have "map_of (build_nar_lookup_map entries) name = None" by simp
    moreover have "\<forall>(k, e)\<in>set entries. entry_nar_basename e \<noteq> name"
      using None assms by (auto simp: find_None_iff)
    ultimately show ?thesis by simp
  next
    case (Some p)
    then have "p \<in> set entries" "entry_nar_basename (snd p) = name"
      by (auto simp: find_Some_iff split: prod.splits) (metis length_rev nth_mem set_rev)
    moreover have "map_of (build_nar_lookup_map entries) name = Some (entry_nar_digest (snd p))"
      using m Some by simp
    moreover obtain k e where "p = (k, e)" by fastforce
    ultimately show ?thesis by (metis (mono_tags, lifting) case_prodI option.distinct(1) option.inject case_prodD snd_conv)
  qed
qed

theorem nar_lookup_exact_witness:
  "\<exists>d. map_of (build_nar_lookup_map sample_pair) (entry_nar_basename (snd (hd sample_pair))) = Some d"
  using nar_lookup_exact [of "entry_nar_basename (snd (hd sample_pair))" sample_pair]
  by (cases "map_of (build_nar_lookup_map sample_pair) (entry_nar_basename (snd (hd sample_pair)))")
    (auto simp: sample_pair_def sample_entry_def sample_meta_def entry_nar_basename_def)

text \<open>
  The store hash of a store path, or of a file name that starts with a store hash, is that
  hash, whatever ASCII character follows it.
\<close>

theorem extract_store_hash_of_path:
  assumes "valid_store_hash h" "CHR ''/'' \<notin> set r" "r = [] \<or> \<not> between 128 191 (hd r)"
  shows "extract_store_hash (''/nix/store/'' @ as_str h @ r) = Inr (Some h)
    \<and> extract_store_hash (as_str h @ r) = Inr (Some h)
    \<and> extract_store_hash_str (as_str h @ r) = Inr (Some (as_str h))"
proof -
  let ?n = "as_str h @ r"
  have len: "length (as_str h) = 32" using assms(1) by (simp add: valid_store_hash_def)
  then have ne: "?n \<noteq> []" "?n \<noteq> ''.''" "?n \<noteq> ''..''"
    by (auto dest!: arg_cong [where f = length])
  have slash: "CHR ''/'' \<notin> set ?n" using assms(1,2) by (simp add: base32_no_slash)
  then have "split_on (CHR ''/'') (''/nix/store/'' @ ?n) = [[], ''nix'', ''store'', ?n]"
    by (simp add: split_on_no_sep)
  then have "file_name (''/nix/store/'' @ ?n) = Some ?n" using ne by (simp add: file_name_def)
  moreover have "file_name ?n = Some ?n" using file_name_basename [OF slash ne] .
  moreover have "slice_to ?n 32 = Inr (as_str h)" using base32_boundary assms by blast
  moreover have "store_hash_parse (as_str h) = Inr h"
    using assms(1) by (simp add: store_hash_parse_Inr)
  ultimately show ?thesis using len by (simp add: extract_store_hash_def extract_store_hash_str_def)
qed

theorem extract_store_hash_of_path_witness:
  "extract_store_hash (as_str hash_a @ ''.nar.xz'') = Inr (Some hash_a)"
  using extract_store_hash_of_path [of hash_a "''.nar.xz''"] sample_hashes_valid(1)
  by (simp add: between_def)


end
