(* ===== verification/Narinfo.thy ===== *)
theory Narinfo
  imports Lookup
begin

text \<open>
  The reader of \<open>.narinfo\<close> texts, \<^verbatim>\<open>crates/nixcache-core/src/narinfo.rs\<close>. The local variables
  of the parsing loop are a record, one line is one step on it, and the loop is
  \<^const>\<open>try_fold\<close> over the lines. The rendering it inverts is
  \<^const>\<open>render\<close>.
\<close>

record nar_info =
  info_meta :: nar_info_meta
  info_nar_size :: u64

record narinfo_acc =
  acc_store_path :: "string option"
  acc_nar_basename :: "string option"
  acc_compression :: "string option"
  acc_file_hash :: "string option"
  acc_file_size :: "u64 option"
  acc_nar_hash :: "string option"
  acc_nar_size :: "u64 option"
  acc_references :: "string list"
  acc_deriver :: "string option"
  acc_signatures :: "string list"
  acc_ca :: "string option"
  acc_seen :: "string list"

definition narinfo_start :: narinfo_acc where
  "narinfo_start =
     \<lparr>acc_store_path = None, acc_nar_basename = None, acc_compression = None, acc_file_hash = None,
      acc_file_size = None, acc_nar_hash = None, acc_nar_size = None, acc_references = [],
      acc_deriver = None, acc_signatures = [], acc_ca = None, acc_seen = []\<rparr>"

definition parse_nar_url :: "string \<Rightarrow> narinfo_parse_error + string" where
  "parse_nar_url value =
     (if value = [] then Inl (EmptyField ''URL'')
      else if any_control_or_ws value \<or> contains_char (CHR 0x5C) value then Inl (InvalidUrl value)
      else if list_ex (\<lambda>component. component = ''.'' \<or> component = ''..'') (split_on (CHR ''/'') value)
      then Inl (InvalidUrl value)
      else
        let basename = extract_nar_basename value in
        result_bind (map_err (\<lambda>_. InvalidUrl value) (validate_nar_basename basename)) (\<lambda>_.
        Inr basename))"

definition single_fields :: "string list" where
  "single_fields =
     [''StorePath'', ''URL'', ''Compression'', ''FileHash'', ''FileSize'', ''NarHash'', ''NarSize'',
      ''References'', ''Deriver'', ''CA'']"

definition parse_size :: "string \<Rightarrow> string \<Rightarrow> narinfo_parse_error + u64" where
  "parse_size field value =
     (if value = [] then Inl (EmptyField field)
      else result_bind (map_err (InvalidNumber field) (parse_u64 value)) (\<lambda>parsed.
        if parsed = 0 then Inl (NonPositiveSize field) else Inr parsed))"

definition parse_hash :: "string \<Rightarrow> string \<Rightarrow> narinfo_parse_error + string" where
  "parse_hash field value =
     (if value = [] then Inl (EmptyField field)
      else result_bind (map_err (InvalidHash field) (validate_nix_hash value)) (\<lambda>_. Inr value))"

definition parse_deriver :: "string \<Rightarrow> narinfo_parse_error + string" where
  "parse_deriver value =
     (if value = [] then Inl (EmptyField ''Deriver'')
      else
        result_bind (map_err (\<lambda>_. InvalidField ''Deriver''
             [Lit ''must be a valid StorePath basename or full path''])
           (normalize_store_reference value)) (\<lambda>normalized.
        if \<not> ends_with ''.drv'' normalized
        then Inl (InvalidField ''Deriver'' [Lit ''must end with .drv''])
        else Inr normalized))"

definition narinfo_field :: "narinfo_acc \<Rightarrow> string \<Rightarrow> string \<Rightarrow> narinfo_parse_error + narinfo_acc" where
  "narinfo_field a key value =
     (if key = ''StorePath'' then
        (if value = [] then Inl (EmptyField ''StorePath'')
         else
           result_bind (map_err (\<lambda>_. InvalidStorePath value) (validate_store_path value)) (\<lambda>_.
           Inr (a\<lparr>acc_store_path := Some value\<rparr>)))
      else if key = ''URL'' then
        result_bind (parse_nar_url value) (\<lambda>basename. Inr (a\<lparr>acc_nar_basename := Some basename\<rparr>))
      else if key = ''Compression'' then
        (if value = [] then Inl (EmptyField ''Compression'')
         else if value \<noteq> ''none'' then Inr (a\<lparr>acc_compression := Some value\<rparr>)
         else Inr a)
      else if key = ''FileHash'' then
        result_bind (parse_hash ''FileHash'' value) (\<lambda>h. Inr (a\<lparr>acc_file_hash := Some h\<rparr>))
      else if key = ''FileSize'' then
        result_bind (parse_size ''FileSize'' value) (\<lambda>n. Inr (a\<lparr>acc_file_size := Some n\<rparr>))
      else if key = ''NarHash'' then
        result_bind (parse_hash ''NarHash'' value) (\<lambda>h. Inr (a\<lparr>acc_nar_hash := Some h\<rparr>))
      else if key = ''NarSize'' then
        result_bind (parse_size ''NarSize'' value) (\<lambda>n. Inr (a\<lparr>acc_nar_size := Some n\<rparr>))
      else if key = ''References'' then
        result_bind
          (try_map (\<lambda>token. map_err (\<lambda>_. InvalidReference token) (normalize_store_reference token))
             (split_whitespace value)) (\<lambda>rs.
        Inr (a\<lparr>acc_references := acc_references a @ rs\<rparr>))
      else if key = ''Deriver'' then
        result_bind (parse_deriver value) (\<lambda>d. Inr (a\<lparr>acc_deriver := Some d\<rparr>))
      else if key = ''Sig'' \<and> value \<noteq> [] then
        Inr (a\<lparr>acc_signatures := acc_signatures a @ [value]\<rparr>)
      else if key = ''CA'' then
        (if value = [] then Inl (EmptyField ''CA'') else Inr (a\<lparr>acc_ca := Some value\<rparr>))
      else Inr a)"

definition narinfo_line :: "narinfo_acc \<Rightarrow> string \<Rightarrow> narinfo_parse_error + narinfo_acc" where
  "narinfo_line a raw =
     (let line = trim raw in
      if line = [] \<or> starts_with ''#'' line then Inr a
      else (case split_once (CHR '':'') line of
          None \<Rightarrow> Inl (MalformedLine line)
        | Some (k, v) \<Rightarrow>
            let key = trim k; value = trim v in
            if key \<in> set single_fields
            then
              (if key \<in> set (acc_seen a) then Inl (DuplicateField key)
               else narinfo_field (a\<lparr>acc_seen := key # acc_seen a\<rparr>) key value)
            else narinfo_field a key value))"

definition narinfo_finish :: "narinfo_acc \<Rightarrow> narinfo_parse_error + nar_info" where
  "narinfo_finish a =
     result_bind (ok_or (MissingRequiredField ''StorePath'') (acc_store_path a)) (\<lambda>store_path.
     result_bind (ok_or (MissingRequiredField ''URL'') (acc_nar_basename a)) (\<lambda>nar_basename.
     result_bind (ok_or (MissingRequiredField ''NarHash'') (acc_nar_hash a)) (\<lambda>nar_hash.
     result_bind (ok_or (MissingRequiredField ''NarSize'') (acc_nar_size a)) (\<lambda>nar_size.
     let meta = \<lparr>meta_store_path = store_path, meta_nar_basename = nar_basename,
           meta_compression = acc_compression a, meta_file_hash = acc_file_hash a,
           meta_file_size = acc_file_size a, meta_nar_hash = nar_hash,
           meta_references = acc_references a, meta_deriver = acc_deriver a,
           meta_signatures = acc_signatures a, meta_ca = acc_ca a\<rparr> in
     result_bind (map_err (\<lambda>error. InvalidField ''NarInfo'' [CoreErr error])
         (meta_validate_structure meta)) (\<lambda>_.
     Inr \<lparr>info_meta = meta, info_nar_size = nar_size\<rparr>)))))"

definition narinfo_parse :: "string \<Rightarrow> narinfo_parse_error + nar_info" where
  "narinfo_parse content =
     (if trim content = [] then Inl EmptyContent
      else result_bind (try_fold narinfo_line narinfo_start (str_lines content)) narinfo_finish)"

definition to_narinfo_string :: "nar_info \<Rightarrow> string" where
  "to_narinfo_string i = render (info_meta i) (info_nar_size i)"

definition info_url :: "nar_info \<Rightarrow> string" where
  "info_url i = ''nar/'' @ meta_nar_basename (info_meta i)"

definition info_store_hash :: "nar_info \<Rightarrow> store_hash option" where
  "info_store_hash i = meta_store_hash (info_meta i)"

definition into_meta :: "nar_info \<Rightarrow> nar_info_meta \<times> u64" where
  "into_meta i = (info_meta i, info_nar_size i)"


section \<open>Values that fit on a line\<close>

definition line_ok :: "string \<Rightarrow> bool" where
  "line_ok v \<longleftrightarrow> v \<noteq> [] \<and> trimmed v \<and> newline \<notin> set v"

text \<open>The metadata that survive rendering: what a line holds is trimmed and stays on one line.\<close>

definition narinfo_canonical :: "nar_info_meta \<Rightarrow> bool" where
  "narinfo_canonical m \<longleftrightarrow>
     meta_validate_structure m = Inr () \<and> line_ok (meta_store_path m)
     \<and> pred_option (\<lambda>c. line_ok c \<and> c \<noteq> ''none'') (meta_compression m)
     \<and> pred_option line_ok (meta_file_hash m) \<and> line_ok (meta_nar_hash m)
     \<and> list_all (\<lambda>r. \<not> any_ws r \<and> normalize_store_reference r = Inr r) (meta_references m)
     \<and> pred_option (\<lambda>d. line_ok d \<and> normalize_store_reference d = Inr d) (meta_deriver m)
     \<and> list_all line_ok (meta_signatures m) \<and> pred_option line_ok (meta_ca m)"

lemma trim_end_keeps: "ws_len s = 0 \<Longrightarrow> s \<noteq> [] \<Longrightarrow> trim_end s \<noteq> []"
proof (induction s rule: trim_end.induct)
  case (1 s)
  show ?case
  proof (cases "ws_len_end s = 0")
    case True
    with "1.prems" show ?thesis by (simp add: trim_end.simps [of s])
  next
    case False
    then have "ws_len_end s < length s \<or> ws_len_end s = length s \<and> ws_len s = ws_len_end s"
      using "1.prems"(2) ws_len_le [of s]
      by (cases s; cases "tl s"; cases "tl (tl s)") (auto simp: ws_len_end_def split: if_splits)
    with False "1.prems" have "ws_len_end s < length s" by auto
    moreover have "ws_len (take (length s - ws_len_end s) s) = 0"
      using ws_len_prefix "1.prems"(1) by blast
    ultimately show ?thesis using "1.IH" "1.prems"(2) False by (simp add: trim_end.simps [of s])
  qed
qed

definition plain_key :: "string \<Rightarrow> bool" where
  "plain_key k \<longleftrightarrow> k \<noteq> [] \<and> list_all (between 33 126) k \<and> CHR '':'' \<notin> set k \<and> hd k \<noteq> CHR ''#''"

lemma plain_keys:
  "list_all plain_key single_fields" "plain_key ''Sig''"
  by (simp_all add: plain_key_def single_fields_def between_def)

lemma narinfo_line_key:
  assumes "plain_key k" "line_ok v"
  shows "narinfo_line a (k @ '': '' @ v) =
    (if k \<in> set single_fields
     then (if k \<in> set (acc_seen a) then Inl (DuplicateField k)
           else narinfo_field (a\<lparr>acc_seen := k # acc_seen a\<rparr>) k v)
     else narinfo_field a k v)"
proof -
  have k: "\<not> any_ws k" using assms(1) printable_no_ws any_control_or_ws_any_ws
    by (auto simp: plain_key_def)
  have "trimmed (k @ '': '' @ v)"
    using assms trimmed_key_value [of k v] ws_len_no_ws [OF k]
    by (simp add: plain_key_def line_ok_def)
  then have t: "trim (k @ CHR '':'' # CHR '' '' # v) = k @ CHR '':'' # CHR '' '' # v"
    using trim_trimmed by fastforce
  have "trim k = k" using k by (rule trim_no_ws)
  moreover have "trim (CHR '' '' # v) = v" using assms(2) trim_blank_value by (simp add: line_ok_def)
  moreover have "split_once (CHR '':'') (k @ CHR '':'' # CHR '' '' # v) = Some (k, CHR '' '' # v)"
    using assms(1) by (simp add: plain_key_def)
  moreover have "\<not> starts_with ''#'' (k @ CHR '':'' # CHR '' '' # v)"
    using assms(1) by (cases k) (auto simp: plain_key_def starts_with_def)
  ultimately show ?thesis by (simp add: narinfo_line_def t)
qed

lemma narinfo_line_ok:
  assumes "plain_key k" "line_ok v"
  shows "newline \<notin> set (k @ '': '' @ v) \<and> last (k @ '': '' @ v) \<noteq> char_of (13::nat)"
proof -
  have "newline \<notin> set k" using assms(1) by (auto simp: plain_key_def list_all_iff between_def)
  moreover have "last v \<noteq> char_of (13::nat)" using assms(2) last_trimmed by (auto simp: line_ok_def)
  moreover have "newline \<noteq> CHR '':''" "newline \<noteq> CHR '' ''" by code_simp+
  ultimately show ?thesis using assms(2) by (simp add: line_ok_def)
qed

section \<open>References and names\<close>

lemma normalize_basename:
  assumes "normalize_store_reference r = Inr n"
  shows "normalize_store_reference n = Inr n" "n \<noteq> []" "\<exists>p. r = p @ n"
proof -
  obtain h where h: "validate_store_path_basename n = Inr h"
    using normalize_store_reference_Inr [OF assms] by blast
  have slash: "CHR ''/'' \<notin> set n" "CHR 0x5C \<notin> set n" and suffix: "\<exists>p. r = p @ n"
  proof (atomize (full), cases "starts_with ''/nix/store/'' r")
    case True
    then obtain v where v: "r = ''/nix/store/'' @ v" by (auto simp only: starts_with_iff)
    with assms True have "n = v" "\<exists>g. validate_store_path r = Inr g"
      by (auto simp: normalize_store_reference_def result_bind_eq_Inr)
    with v show "(CHR ''/'' \<notin> set n \<and> CHR 0x5C \<notin> set n) \<and> (\<exists>p. r = p @ n)"
      by (auto simp only: validate_store_path_Inr append_same_eq same_append_eq)
  next
    case False
    with assms show "(CHR ''/'' \<notin> set n \<and> CHR 0x5C \<notin> set n) \<and> (\<exists>p. r = p @ n)"
      by (auto simp: normalize_store_reference_def result_bind_eq_Inr contains_char_def
          split: if_splits)
  qed
  then have "\<not> starts_with ''/nix/store/'' n" by (auto simp: starts_with_iff)
  with slash h show "normalize_store_reference n = Inr n"
    by (simp add: normalize_store_reference_def contains_char_def)
  from h show "n \<noteq> []" by (auto simp only: validate_basename_Inr split_once_eq_Some)
  from suffix show "\<exists>p. r = p @ n" .
qed

lemma any_ws_suffix: "\<not> any_ws (p @ n) \<Longrightarrow> \<not> any_ws n"
  using any_ws_drop [of "p @ n" "length p"] by simp

lemma normalize_token:
  assumes "normalize_store_reference r = Inr n" "\<not> any_ws r"
  shows "\<not> any_ws n" "normalize_store_reference n = Inr n"
  using normalize_basename [OF assms(1)] assms(2) any_ws_suffix by auto

lemma validate_nar_basename_Inr:
  "validate_nar_basename b = Inr () \<longleftrightarrow> b \<noteq> [] \<and> b \<noteq> ''.'' \<and> b \<noteq> ''..'' \<and> \<not> contains_str ''..'' b
     \<and> CHR ''/'' \<notin> set b \<and> CHR 0x5C \<notin> set b \<and> \<not> any_control_or_ws b"
  by (auto simp: validate_nar_basename_def contains_char_def)

lemma nar_prefix_no_ws:
  assumes "\<not> any_control_or_ws b"
  shows "\<not> any_control_or_ws (''nar/'' @ b)"
proof -
  have "ws_len (c # s) = 0 \<and> ctl_len (c # s) = 0" if "33 \<le> code c" "code c \<le> 126" for c s
    using that by (auto simp: ws_len_def ctl_len_def split: list.split)
  with assms show ?thesis by simp
qed

lemma parse_nar_url_render:
  assumes "validate_nar_basename b = Inr ()"
  shows "parse_nar_url (''nar/'' @ b) = Inr b"
proof -
  note b = assms [unfolded validate_nar_basename_Inr]
  have ws: "\<not> any_control_or_ws (''nar/'' @ b)" using b nar_prefix_no_ws by blast
  then have "trim (''nar/'' @ b) = ''nar/'' @ b"
    by (intro trim_no_ws any_control_or_ws_any_ws)
  moreover have "\<not> any_ws b" using b any_control_or_ws_any_ws by blast
  then have "first_word b = b" by (rule first_word_no_ws)
  moreover have "split_on (CHR ''/'') (''nar/'' @ b) = [''nar'', b]"
    using b by (simp add: split_on_no_sep)
  ultimately show ?thesis using b ws assms
    by (simp add: parse_nar_url_def extract_nar_basename_def Let_def strip_prefix_def starts_with_def
        contains_char_def)
qed

lemma parse_nar_url_valid: "parse_nar_url v = Inr b \<Longrightarrow> validate_nar_basename b = Inr ()"
  by (auto simp: parse_nar_url_def Let_def result_simps split: if_splits)


section \<open>Reading a rendered text\<close>

lemma signature_fold:
  "list_all line_ok sigs \<Longrightarrow>
   try_fold narinfo_line a (map (\<lambda>s. ''Sig: '' @ s) sigs)
     = Inr (a\<lparr>acc_signatures := acc_signatures a @ sigs\<rparr>)"
proof (induction sigs arbitrary: a)
  case (Cons s sigs)
  then have "narinfo_line a (''Sig'' @ '': '' @ s)
      = Inr (a\<lparr>acc_signatures := acc_signatures a @ [s]\<rparr>)"
    by (subst narinfo_line_key) (simp_all add: plain_keys single_fields_def narinfo_field_def line_ok_def)
  with Cons show ?case by simp
qed simp

lemma show_u64_line: "line_ok (show_u64 n)"
proof -
  have "list_all (between 33 126) (show_u64 n)"
    by (auto simp: list_all_iff show_u64_def is_ascii_digit_def between_def dest: show_nat_digit)
  moreover from this have "newline \<notin> set (show_u64 n)" by (auto simp: list_all_iff between_def)
  ultimately show ?thesis
    by (simp add: line_ok_def show_u64_def show_nat_nonempty trimmed_no_ws any_control_or_ws_any_ws
        printable_no_ws)
qed

lemma parse_size_show: "n \<noteq> 0 \<Longrightarrow> parse_size field (show_u64 n) = Inr n"
  using show_u64_line [of n] by (simp add: parse_size_def parse_show_u64 line_ok_def)

lemma no_ws_no_newline: "\<not> any_ws s \<Longrightarrow> newline \<notin> set s"
proof (induction s)
  case (Cons c s)
  have "0 < ws_len (newline # s)" by (simp add: ws_len_def)
  with Cons show ?case by auto
qed simp

lemma nar_url_line:
  assumes "validate_nar_basename b = Inr ()"
  shows "line_ok (''nar/'' @ b)"
proof -
  have ws: "\<not> any_ws (''nar/'' @ b)"
    using assms nar_prefix_no_ws any_control_or_ws_any_ws by (auto simp only: validate_nar_basename_Inr)
  then show ?thesis
    unfolding line_ok_def using trimmed_no_ws [OF ws] no_ws_no_newline [OF ws] by simp
qed

lemma references_line:
  assumes "list_all (\<lambda>r. \<not> any_ws r \<and> normalize_store_reference r = Inr r) rs" "rs \<noteq> []"
  shows "line_ok (join '' '' rs)"
  using assms
proof (induction "'' ''" rs rule: join.induct)
  case (2 r)
  then show ?case using normalize_basename(2)
    by (auto simp: line_ok_def trimmed_no_ws no_ws_no_newline)
next
  case (3 r r' rs)
  let ?j = "join '' '' (r' # rs)"
  have j: "line_ok ?j" using 3 by simp
  have r: "\<not> any_ws r" "r \<noteq> []" using 3 normalize_basename(2) by auto
  have "newline \<noteq> CHR '' ''" by code_simp
  then have nl: "newline \<notin> set (r @ '' '' @ ?j)" using j r by (simp add: line_ok_def no_ws_no_newline)
  have start: "ws_len (r @ '' '' @ ?j) = 0" using ws_len_before_blank [OF r, of ?j] by simp
  have "ws_len_end (r @ CHR '' '' # ?j) = 0" using j blank_end by (simp add: line_ok_def trimmed_def)
  with nl start show ?case using r by (simp add: line_ok_def trimmed_def)
qed simp


lemma render_lines_opt:
  "render_lines m n =
     opt_line ''StorePath'' (Some (meta_store_path m)) @ opt_line ''URL'' (Some (''nar/'' @ meta_nar_basename m))
     @ opt_line ''Compression'' (meta_compression m) @ opt_line ''FileHash'' (meta_file_hash m)
     @ opt_line ''FileSize'' (map_option show_u64 (meta_file_size m))
     @ opt_line ''NarHash'' (Some (meta_nar_hash m)) @ opt_line ''NarSize'' (Some (show_u64 n))
     @ opt_line ''References'' (if meta_references m = [] then None else Some (join '' '' (meta_references m)))
     @ opt_line ''Deriver'' (meta_deriver m) @ map (\<lambda>sig. ''Sig: '' @ sig) (meta_signatures m)
     @ opt_line ''CA'' (meta_ca m)"
  by (simp add: render_lines_def opt_line_def)

text \<open>What the structural validation gives for the single fields.\<close>

lemma meta_valid_fields:
  assumes "meta_validate_structure m = Inr ()"
  shows "validate_store_path (meta_store_path m) = Inr h \<or> (\<exists>h. validate_store_path (meta_store_path m) = Inr h)"
    "validate_nar_basename (meta_nar_basename m) = Inr ()"
    "meta_file_hash m = Some x \<Longrightarrow> validate_nix_hash x = Inr ()"
    "validate_nix_hash (meta_nar_hash m) = Inr ()"
    "meta_file_size m \<noteq> Some 0"
    "meta_deriver m = Some d \<Longrightarrow> \<exists>n. normalize_store_reference d = Inr n \<and> ends_with ''.drv'' n"
  using assms
  by (auto simp: meta_validate_structure_def validate_file_hash_def validate_deriver_def result_simps
      split: option.splits if_splits)

lemma read_references:
  assumes "list_all (\<lambda>r. \<not> any_ws r \<and> normalize_store_reference r = Inr r) rs"
  shows "try_map (\<lambda>token. map_err (\<lambda>_. InvalidReference token) (normalize_store_reference token))
      (split_whitespace (join '' '' rs)) = Inr rs"
proof -
  have "split_whitespace (join '' '' rs) = rs"
    using assms normalize_basename(2) by (intro split_whitespace_join) (auto simp: list_all_iff)
  moreover have "try_map (\<lambda>token. map_err (\<lambda>_. InvalidReference token) (normalize_store_reference token)) rs
      = Inr (map id rs)"
    by (rule try_map_total) (use assms in \<open>auto simp: list_all_iff\<close>)
  ultimately show ?thesis by simp
qed

text \<open>
  Reading the lines \<open>ls\<close> takes the accumulator to one with the fields of \<open>b\<close>, and marks at most
  the fields of \<open>fs\<close> as seen.
\<close>

definition reads :: "string set \<Rightarrow> narinfo_acc \<Rightarrow> string list \<Rightarrow> narinfo_acc \<Rightarrow> bool" where
  "reads fs a ls b \<longleftrightarrow> (\<exists>s. try_fold narinfo_line a ls = Inr (b\<lparr>acc_seen := s\<rparr>)
     \<and> set s \<subseteq> fs \<union> set (acc_seen a))"

lemma reads_append:
  assumes "reads fs a xs b"
    and "\<And>s. set s \<subseteq> fs \<union> set (acc_seen a) \<Longrightarrow> reads gs (b\<lparr>acc_seen := s\<rparr>) ys c"
  shows "reads (fs \<union> gs) a (xs @ ys) c"
proof -
  obtain s where s: "try_fold narinfo_line a xs = Inr (b\<lparr>acc_seen := s\<rparr>)" "set s \<subseteq> fs \<union> set (acc_seen a)"
    using assms(1) by (auto simp: reads_def)
  then obtain t where "try_fold narinfo_line (b\<lparr>acc_seen := s\<rparr>) ys = Inr (c\<lparr>acc_seen := t\<rparr>)"
    "set t \<subseteq> gs \<union> set s"
    using assms(2) [OF s(2)] by (auto simp: reads_def)
  with s show ?thesis by (auto simp: reads_def try_fold_append)
qed

lemma reads_seen: "reads fs a ls b \<Longrightarrow> b\<lparr>acc_seen := []\<rparr> = c\<lparr>acc_seen := []\<rparr> \<Longrightarrow> reads fs a ls c"
proof -
  assume r: "reads fs a ls b" and eq: "b\<lparr>acc_seen := []\<rparr> = c\<lparr>acc_seen := []\<rparr>"
  have "b\<lparr>acc_seen := s\<rparr> = c\<lparr>acc_seen := s\<rparr>" for s
    using arg_cong [OF eq, of "\<lambda>x. x\<lparr>acc_seen := s\<rparr>"] by simp
  with r show ?thesis by (simp add: reads_def)
qed

lemma reads_opt_line:
  assumes "k \<in> set single_fields" "k \<notin> set (acc_seen a)" "pred_option line_ok v"
    and "\<And>x s. v = Some x \<Longrightarrow> narinfo_field (a\<lparr>acc_seen := s\<rparr>) k x = Inr (b\<lparr>acc_seen := s\<rparr>)"
    and "v = None \<Longrightarrow> b = a"
  shows "reads {k} a (opt_line k v) b"
proof (cases v)
  case None
  then show ?thesis using assms(5) by (auto simp: reads_def opt_line_def intro: exI [of _ "acc_seen a"])
next
  case (Some x)
  have "plain_key k" using plain_keys(1) assms(1) by (auto simp: list_all_iff)
  then have "narinfo_line a (k @ '': '' @ x) = Inr (b\<lparr>acc_seen := k # acc_seen a\<rparr>)"
    using narinfo_line_key [of k x a] assms Some by simp
  then show ?thesis using Some
    by (auto simp: reads_def opt_line_def intro!: exI [of _ "k # acc_seen a"])
qed

definition narinfo_read :: "nar_info_meta \<Rightarrow> u64 \<Rightarrow> narinfo_acc" where
  "narinfo_read m n =
    \<lparr>acc_store_path = Some (meta_store_path m), acc_nar_basename = Some (meta_nar_basename m),
     acc_compression = meta_compression m, acc_file_hash = meta_file_hash m,
     acc_file_size = meta_file_size m, acc_nar_hash = Some (meta_nar_hash m), acc_nar_size = Some n,
     acc_references = meta_references m, acc_deriver = meta_deriver m,
     acc_signatures = meta_signatures m, acc_ca = meta_ca m, acc_seen = []\<rparr>"

text \<open>The fields one by one, for a canonical meta.\<close>

lemma narinfo_field_simps:
  "narinfo_field a ''StorePath'' v = (if v = [] then Inl (EmptyField ''StorePath'')
     else result_bind (map_err (\<lambda>_. InvalidStorePath v) (validate_store_path v)) (\<lambda>_.
       Inr (a\<lparr>acc_store_path := Some v\<rparr>)))"
  "narinfo_field a ''URL'' v = result_bind (parse_nar_url v) (\<lambda>b. Inr (a\<lparr>acc_nar_basename := Some b\<rparr>))"
  "narinfo_field a ''Compression'' v = (if v = [] then Inl (EmptyField ''Compression'')
     else if v \<noteq> ''none'' then Inr (a\<lparr>acc_compression := Some v\<rparr>) else Inr a)"
  "narinfo_field a ''FileHash'' v
     = result_bind (parse_hash ''FileHash'' v) (\<lambda>h. Inr (a\<lparr>acc_file_hash := Some h\<rparr>))"
  "narinfo_field a ''FileSize'' v
     = result_bind (parse_size ''FileSize'' v) (\<lambda>n. Inr (a\<lparr>acc_file_size := Some n\<rparr>))"
  "narinfo_field a ''NarHash'' v
     = result_bind (parse_hash ''NarHash'' v) (\<lambda>h. Inr (a\<lparr>acc_nar_hash := Some h\<rparr>))"
  "narinfo_field a ''NarSize'' v
     = result_bind (parse_size ''NarSize'' v) (\<lambda>n. Inr (a\<lparr>acc_nar_size := Some n\<rparr>))"
  "narinfo_field a ''References'' v = result_bind
     (try_map (\<lambda>token. map_err (\<lambda>_. InvalidReference token) (normalize_store_reference token))
        (split_whitespace v)) (\<lambda>rs. Inr (a\<lparr>acc_references := acc_references a @ rs\<rparr>))"
  "narinfo_field a ''Deriver'' v = result_bind (parse_deriver v) (\<lambda>d. Inr (a\<lparr>acc_deriver := Some d\<rparr>))"
  "narinfo_field a ''CA'' v
     = (if v = [] then Inl (EmptyField ''CA'') else Inr (a\<lparr>acc_ca := Some v\<rparr>))"
  by (simp_all add: narinfo_field_def)

lemma single_field_members:
  "''StorePath'' \<in> set single_fields" "''URL'' \<in> set single_fields" "''Compression'' \<in> set single_fields"
  "''FileHash'' \<in> set single_fields" "''FileSize'' \<in> set single_fields" "''NarHash'' \<in> set single_fields"
  "''NarSize'' \<in> set single_fields" "''References'' \<in> set single_fields" "''Deriver'' \<in> set single_fields"
  "''CA'' \<in> set single_fields"
  by (simp_all add: single_fields_def)

lemma reads_required:
  assumes "narinfo_canonical m" "n \<noteq> 0"
  shows
    "''StorePath'' \<notin> set (acc_seen a) \<Longrightarrow> reads {''StorePath''} a (opt_line ''StorePath'' (Some (meta_store_path m)))
       (a\<lparr>acc_store_path := Some (meta_store_path m)\<rparr>)"
    "''URL'' \<notin> set (acc_seen a) \<Longrightarrow> reads {''URL''} a (opt_line ''URL'' (Some (''nar/'' @ meta_nar_basename m)))
       (a\<lparr>acc_nar_basename := Some (meta_nar_basename m)\<rparr>)"
    "''NarHash'' \<notin> set (acc_seen a) \<Longrightarrow> reads {''NarHash''} a (opt_line ''NarHash'' (Some (meta_nar_hash m)))
       (a\<lparr>acc_nar_hash := Some (meta_nar_hash m)\<rparr>)"
    "''NarSize'' \<notin> set (acc_seen a) \<Longrightarrow> reads {''NarSize''} a (opt_line ''NarSize'' (Some (show_u64 n)))
       (a\<lparr>acc_nar_size := Some n\<rparr>)"
proof -
  note c = assms(1) [unfolded narinfo_canonical_def]
  note v = meta_valid_fields [OF c [THEN conjunct1]]
  have ok: "line_ok (meta_store_path m)" "line_ok (meta_nar_hash m)" using c by simp_all
  then have ne: "meta_store_path m \<noteq> []" "meta_nar_hash m \<noteq> []" by (simp_all add: line_ok_def)
  obtain h where h: "validate_store_path (meta_store_path m) = Inr h" using v(1) by blast
  note url = nar_url_line [OF v(2)] parse_nar_url_render [OF v(2)]
  show "''StorePath'' \<notin> set (acc_seen a) \<Longrightarrow>
      reads {''StorePath''} a (opt_line ''StorePath'' (Some (meta_store_path m)))
       (a\<lparr>acc_store_path := Some (meta_store_path m)\<rparr>)"
    by (rule reads_opt_line) (use h ok ne in \<open>auto simp: single_field_members narinfo_field_simps\<close>)
  show "''URL'' \<notin> set (acc_seen a) \<Longrightarrow>
      reads {''URL''} a (opt_line ''URL'' (Some (''nar/'' @ meta_nar_basename m)))
       (a\<lparr>acc_nar_basename := Some (meta_nar_basename m)\<rparr>)"
    by (rule reads_opt_line) (use url in \<open>simp_all add: single_field_members narinfo_field_simps\<close>)
  show "''NarHash'' \<notin> set (acc_seen a) \<Longrightarrow>
      reads {''NarHash''} a (opt_line ''NarHash'' (Some (meta_nar_hash m)))
       (a\<lparr>acc_nar_hash := Some (meta_nar_hash m)\<rparr>)"
    by (rule reads_opt_line)
      (use v(4) ok ne in \<open>auto simp: single_field_members narinfo_field_simps parse_hash_def\<close>)
  show "''NarSize'' \<notin> set (acc_seen a) \<Longrightarrow> reads {''NarSize''} a (opt_line ''NarSize'' (Some (show_u64 n)))
       (a\<lparr>acc_nar_size := Some n\<rparr>)"
    by (rule reads_opt_line)
      (use assms(2) show_u64_line in \<open>auto simp: single_field_members narinfo_field_simps parse_size_show\<close>)
qed

lemma reads_optional:
  assumes "narinfo_canonical m"
  shows
    "''Compression'' \<notin> set (acc_seen a) \<Longrightarrow> acc_compression a = None \<Longrightarrow>
       reads {''Compression''} a (opt_line ''Compression'' (meta_compression m))
       (a\<lparr>acc_compression := meta_compression m\<rparr>)"
    "''FileHash'' \<notin> set (acc_seen a) \<Longrightarrow> acc_file_hash a = None \<Longrightarrow>
       reads {''FileHash''} a (opt_line ''FileHash'' (meta_file_hash m))
       (a\<lparr>acc_file_hash := meta_file_hash m\<rparr>)"
    "''FileSize'' \<notin> set (acc_seen a) \<Longrightarrow> acc_file_size a = None \<Longrightarrow>
       reads {''FileSize''} a (opt_line ''FileSize'' (map_option show_u64 (meta_file_size m)))
       (a\<lparr>acc_file_size := meta_file_size m\<rparr>)"
    "''Deriver'' \<notin> set (acc_seen a) \<Longrightarrow> acc_deriver a = None \<Longrightarrow>
       reads {''Deriver''} a (opt_line ''Deriver'' (meta_deriver m)) (a\<lparr>acc_deriver := meta_deriver m\<rparr>)"
    "''CA'' \<notin> set (acc_seen a) \<Longrightarrow> acc_ca a = None \<Longrightarrow> reads {''CA''} a (opt_line ''CA'' (meta_ca m))
       (a\<lparr>acc_ca := meta_ca m\<rparr>)"
proof -
  note c = assms(1) [unfolded narinfo_canonical_def]
  note v = meta_valid_fields [OF c [THEN conjunct1]]
  note s = single_field_members narinfo_field_simps pred_option_def line_ok_def
  show "''Compression'' \<notin> set (acc_seen a) \<Longrightarrow> acc_compression a = None \<Longrightarrow>
       reads {''Compression''} a (opt_line ''Compression'' (meta_compression m))
       (a\<lparr>acc_compression := meta_compression m\<rparr>)"
    by (rule reads_opt_line) (use c in \<open>auto simp: s\<close>)
  show "''FileHash'' \<notin> set (acc_seen a) \<Longrightarrow> acc_file_hash a = None \<Longrightarrow>
       reads {''FileHash''} a (opt_line ''FileHash'' (meta_file_hash m))
       (a\<lparr>acc_file_hash := meta_file_hash m\<rparr>)"
    by (rule reads_opt_line) (use c v(3) in \<open>auto simp: s parse_hash_def\<close>)
  show "''FileSize'' \<notin> set (acc_seen a) \<Longrightarrow> acc_file_size a = None \<Longrightarrow>
       reads {''FileSize''} a (opt_line ''FileSize'' (map_option show_u64 (meta_file_size m)))
       (a\<lparr>acc_file_size := meta_file_size m\<rparr>)"
    by (rule reads_opt_line)
      (use v(5) show_u64_line in \<open>auto simp: single_field_members narinfo_field_simps pred_option_def parse_size_show\<close>)
  show "''Deriver'' \<notin> set (acc_seen a) \<Longrightarrow> acc_deriver a = None \<Longrightarrow>
       reads {''Deriver''} a (opt_line ''Deriver'' (meta_deriver m)) (a\<lparr>acc_deriver := meta_deriver m\<rparr>)"
    by (rule reads_opt_line) (use c v(6) in \<open>auto simp: s parse_deriver_def\<close>)
  show "''CA'' \<notin> set (acc_seen a) \<Longrightarrow> acc_ca a = None \<Longrightarrow> reads {''CA''} a (opt_line ''CA'' (meta_ca m))
       (a\<lparr>acc_ca := meta_ca m\<rparr>)"
    by (rule reads_opt_line) (use c in \<open>auto simp: s\<close>)
qed

lemma reads_lists:
  assumes "narinfo_canonical m"
  shows
    "''References'' \<notin> set (acc_seen a) \<Longrightarrow> acc_references a = [] \<Longrightarrow>
       reads {''References''} a
         (opt_line ''References'' (if meta_references m = [] then None else Some (join '' '' (meta_references m))))
       (a\<lparr>acc_references := meta_references m\<rparr>)"
    "acc_signatures a = [] \<Longrightarrow> reads {} a (map (\<lambda>sig. ''Sig: '' @ sig) (meta_signatures m))
       (a\<lparr>acc_signatures := meta_signatures m\<rparr>)"
proof -
  note c = assms(1) [unfolded narinfo_canonical_def]
  have refs: "list_all (\<lambda>r. \<not> any_ws r \<and> normalize_store_reference r = Inr r) (meta_references m)"
    using c by simp
  show "''References'' \<notin> set (acc_seen a) \<Longrightarrow> acc_references a = [] \<Longrightarrow>
       reads {''References''} a
         (opt_line ''References'' (if meta_references m = [] then None else Some (join '' '' (meta_references m))))
       (a\<lparr>acc_references := meta_references m\<rparr>)"
    by (rule reads_opt_line)
      (use references_line [OF refs] read_references [OF refs] in
        \<open>auto simp: single_field_members narinfo_field_simps pred_option_def split: if_splits\<close>)
  show "acc_signatures a = [] \<Longrightarrow> reads {} a (map (\<lambda>sig. ''Sig: '' @ sig) (meta_signatures m))
       (a\<lparr>acc_signatures := meta_signatures m\<rparr>)"
    using signature_fold [of "meta_signatures m" a] c
    by (auto simp: reads_def intro!: exI [of _ "acc_seen a"])
qed

lemma read_rendered:
  assumes "narinfo_canonical m" "n \<noteq> 0"
  obtains s where "try_fold narinfo_line narinfo_start (render_lines m n)
    = Inr ((narinfo_read m n)\<lparr>acc_seen := s\<rparr>)"
proof -
  note r = reads_required [OF assms] and o = reads_optional [OF assms(1)] and l = reads_lists [OF assms(1)]
  have "\<exists>fs. reads fs narinfo_start (render_lines m n) (narinfo_read m n)"
    unfolding render_lines_opt
    apply (rule exI)
     apply (rule reads_append, rule r(1), force simp: narinfo_start_def)
     apply (rule reads_append, rule r(2), force simp: narinfo_start_def)
     apply (rule reads_append, rule o(1), force simp: narinfo_start_def, force simp: narinfo_start_def)
     apply (rule reads_append, rule o(2), force simp: narinfo_start_def, force simp: narinfo_start_def)
     apply (rule reads_append, rule o(3), force simp: narinfo_start_def, force simp: narinfo_start_def)
     apply (rule reads_append, rule r(3), force simp: narinfo_start_def)
     apply (rule reads_append, rule r(4), force simp: narinfo_start_def)
     apply (rule reads_append, rule l(1), force simp: narinfo_start_def, force simp: narinfo_start_def)
     apply (rule reads_append, rule o(4), force simp: narinfo_start_def, force simp: narinfo_start_def)
     apply (rule reads_append, rule l(2), force simp: narinfo_start_def)
    apply (rule reads_seen, rule o(5), force simp: narinfo_start_def, force simp: narinfo_start_def)
    by (simp add: narinfo_start_def narinfo_read_def)
  then show thesis using that by (auto simp: reads_def)
qed


definition one_line :: "string \<Rightarrow> bool" where
  "one_line l \<longleftrightarrow> newline \<notin> set l \<and> (l = [] \<or> last l \<noteq> char_of (13::nat))"

lemma one_line_key: "plain_key k \<Longrightarrow> line_ok v \<Longrightarrow> one_line (k @ '': '' @ v)"
  using narinfo_line_ok by (simp add: one_line_def)

lemma one_line_opt:
  "k \<in> set single_fields \<Longrightarrow> pred_option line_ok v \<Longrightarrow> \<forall>l\<in>set (opt_line k v). one_line l"
  using one_line_key plain_keys(1) by (auto simp: opt_line_def list_all_iff split: option.split)

lemma one_line_signatures:
  "list_all line_ok sigs \<Longrightarrow> \<forall>l\<in>set (map (\<lambda>sig. ''Sig: '' @ sig) sigs). one_line l"
  using one_line_key [OF plain_keys(2)] by (auto simp: list_all_iff)

lemma render_one_line:
  assumes "narinfo_canonical m"
  shows "\<forall>l\<in>set (render_lines m n). one_line l"
proof -
  note c = assms(1) [unfolded narinfo_canonical_def]
  note v = meta_valid_fields [OF c [THEN conjunct1]]
  have "pred_option line_ok
      (if meta_references m = [] then None else Some (join '' '' (meta_references m)))"
    using references_line [of "meta_references m"] c by simp
  moreover have "pred_option line_ok (map_option show_u64 (meta_file_size m))"
    using show_u64_line by (auto simp: pred_option_def)
  moreover have "pred_option line_ok (meta_compression m)" "pred_option line_ok (meta_deriver m)"
    using c by (auto simp: pred_option_def)
  ultimately show ?thesis
    using c nar_url_line [OF v(2)] show_u64_line
    unfolding render_lines_opt set_append ball_Un
    by (intro conjI one_line_opt one_line_signatures) (simp_all add: single_field_members)
qed

lemma render_nonblank: "trim (render m n) \<noteq> []"
proof -
  have "\<exists>r. render m n = CHR ''S'' # r"
    by (simp add: render_def render_lines_def)
  then obtain r where r: "render m n = CHR ''S'' # r" by blast
  have "ws_len (CHR ''S'' # r) = 0" by (auto simp: ws_len_def split: list.split)
  then show ?thesis using trim_end_keeps [of "render m n"] r by (simp add: trim_def trim_start_no_ws)
qed

lemma finish_read:
  "meta_validate_structure m = Inr () \<Longrightarrow>
   narinfo_finish ((narinfo_read m n)\<lparr>acc_seen := s\<rparr>) = Inr \<lparr>info_meta = m, info_nar_size = n\<rparr>"
  by (cases m) (simp add: narinfo_finish_def narinfo_read_def)

lemma parse_rendered:
  assumes "narinfo_canonical m" "n \<noteq> 0"
  shows "narinfo_parse (render m n) = Inr \<lparr>info_meta = m, info_nar_size = n\<rparr>"
proof -
  have "str_lines (render m n) = render_lines m n"
    unfolding render_def
    by (rule str_lines_join) (use render_one_line [OF assms(1)] in \<open>auto simp: one_line_def render_lines_def\<close>)
  moreover obtain s where "try_fold narinfo_line narinfo_start (render_lines m n)
      = Inr ((narinfo_read m n)\<lparr>acc_seen := s\<rparr>)"
    using read_rendered [OF assms] .
  moreover have "meta_validate_structure m = Inr ()" using assms(1) by (simp add: narinfo_canonical_def)
  ultimately show ?thesis
    by (simp add: narinfo_parse_def render_nonblank finish_read)
qed

section \<open>What parsing returns\<close>

text \<open>The invariant of the reading loop: what has been read so far is canonical.\<close>

definition acc_ok :: "narinfo_acc \<Rightarrow> bool" where
  "acc_ok a \<longleftrightarrow> pred_option line_ok (acc_store_path a)
     \<and> pred_option (\<lambda>c. line_ok c \<and> c \<noteq> ''none'') (acc_compression a)
     \<and> pred_option line_ok (acc_file_hash a) \<and> pred_option line_ok (acc_nar_hash a)
     \<and> pred_option (\<lambda>n. n \<noteq> 0) (acc_nar_size a)
     \<and> list_all (\<lambda>r. \<not> any_ws r \<and> normalize_store_reference r = Inr r) (acc_references a)
     \<and> pred_option (\<lambda>d. d \<noteq> [] \<and> newline \<notin> set d \<and> normalize_store_reference d = Inr d) (acc_deriver a)
     \<and> list_all line_ok (acc_signatures a) \<and> pred_option line_ok (acc_ca a)"

lemma acc_ok_references:
  assumes "try_map (\<lambda>token. map_err (\<lambda>_. InvalidReference token) (normalize_store_reference token))
      (split_whitespace v) = Inr rs"
  shows "list_all (\<lambda>r. \<not> any_ws r \<and> normalize_store_reference r = Inr r) rs"
proof -
  have "\<exists>t. t \<in> set (split_whitespace v) \<and> normalize_store_reference t = Inr r" if "r \<in> set rs" for r
    using try_map_set [OF assms] that by (auto simp: map_err_eq_Inr)
  then show ?thesis unfolding list_all_iff using normalize_token split_whitespace_words by blast
qed

lemma parse_deriver_ok:
  assumes "parse_deriver v = Inr d" "newline \<notin> set v"
  shows "d \<noteq> [] \<and> newline \<notin> set d \<and> normalize_store_reference d = Inr d"
proof -
  have n: "normalize_store_reference v = Inr d"
    using assms(1) by (auto simp: parse_deriver_def result_simps split: if_splits)
  then obtain p where "v = p @ d" using normalize_basename(3) by blast
  with assms(2) normalize_basename(1,2) [OF n] show ?thesis by auto
qed

lemma narinfo_field_ok:
  assumes "acc_ok a" "narinfo_field a k v = Inr b" "trimmed v" "newline \<notin> set v"
  shows "acc_ok b"
proof -
  have v: "v \<noteq> [] \<Longrightarrow> line_ok v" using assms(3,4) by (simp add: line_ok_def)
  have hash: "parse_hash f v = Inr h \<Longrightarrow> line_ok h" for f h
    using v by (auto simp: parse_hash_def result_simps split: if_splits)
  have size: "parse_size f v = Inr n \<Longrightarrow> n \<noteq> 0" for f n
    by (auto simp: parse_size_def result_simps split: if_splits)
  note deriver = parse_deriver_ok [OF _ assms(4)]
  show ?thesis
    using assms(1,2) v hash size deriver acc_ok_references
    unfolding narinfo_field_def
    by (auto simp: acc_ok_def result_bind_eq_Inr map_err_eq_Inr split: if_splits)
qed


lemma narinfo_line_acc_ok:
  assumes "acc_ok a" "narinfo_line a l = Inr b" "newline \<notin> set l"
  shows "acc_ok b"
proof -
  consider "b = a" | k v where "split_once (CHR '':'') (trim l) = Some (k, v)"
      "narinfo_field a (trim k) (trim v) = Inr b
        \<or> narinfo_field (a\<lparr>acc_seen := trim k # acc_seen a\<rparr>) (trim k) (trim v) = Inr b"
    using assms(2) by (auto simp: narinfo_line_def Let_def split: if_splits option.splits)
  then show ?thesis
  proof cases
    case 2
    have "set v \<subseteq> set (trim l)" using 2(1) by (auto simp: split_once_eq_Some)
    then have "newline \<notin> set (trim v)" using assms(3) set_trim [of l] set_trim [of v] by blast
    moreover have "acc_ok (a\<lparr>acc_seen := s\<rparr>)" for s using assms(1) by (simp add: acc_ok_def)
    ultimately show ?thesis using 2(2) narinfo_field_ok [OF _ _ trimmed_trim] assms(1) by blast
  qed (use assms(1) in simp)
qed

lemma narinfo_fold_acc_ok:
  "acc_ok a \<Longrightarrow> \<forall>l\<in>set ls. newline \<notin> set l \<Longrightarrow> try_fold narinfo_line a ls = Inr b \<Longrightarrow> acc_ok b"
  by (induction ls arbitrary: a) (auto simp: result_bind_eq_Inr dest: narinfo_line_acc_ok)

lemma parse_canonical:
  assumes "narinfo_parse c = Inr i" "pred_option trimmed (meta_deriver (info_meta i))"
  shows "narinfo_canonical (info_meta i)" "info_nar_size i \<noteq> 0"
proof -
  obtain a where a: "try_fold narinfo_line narinfo_start (str_lines c) = Inr a" "narinfo_finish a = Inr i"
    using assms(1) by (auto simp: narinfo_parse_def result_bind_eq_Inr split: if_splits)
  have "acc_ok narinfo_start" by (simp add: acc_ok_def narinfo_start_def)
  then have ok: "acc_ok a" using narinfo_fold_acc_ok a(1) str_lines_no_newline by blast
  from a(2) show "narinfo_canonical (info_meta i)" "info_nar_size i \<noteq> 0"
    using ok assms(2)
    by (auto simp: narinfo_finish_def Let_def result_simps acc_ok_def narinfo_canonical_def line_ok_def
        pred_option_def)
qed

section \<open>A sample text\<close>

abbreviation sample_info_entry :: index_entry where
  "sample_info_entry \<equiv> sample_entry hash_a [hash_b] ''2020-01-01T00:00:00Z''"

lemma printable_line: "list_all (between 33 126) v \<Longrightarrow> v \<noteq> [] \<Longrightarrow> line_ok v"
  by (auto simp: line_ok_def trimmed_no_ws any_control_or_ws_any_ws printable_no_ws list_all_iff between_def)

lemma sample_info_valid: "entry_validate_structure sample_rfc3339 sample_info_entry = Inr ()"
  using sample_valid by (simp add: sample_entries_def)

lemma sample_meta_canonical: "narinfo_canonical (entry_meta sample_info_entry)"
proof -
  have m: "entry_meta sample_info_entry = sample_meta hash_a [hash_b]" by (simp add: sample_entry_def)
  have "meta_validate_structure (sample_meta hash_a [hash_b]) = Inr ()"
    using sample_info_valid m
    by (auto simp: entry_validate_structure_def result_simps split: if_splits)
  moreover have digits: "list_all (between 33 126) (as_str h)" if "valid_store_hash h" for h
    using that base32_printable by (auto simp: valid_store_hash_def list_all_iff)
  have "line_ok (''/nix/store/'' @ as_str hash_a @ ''-pkg'')"
    using digits [OF sample_hashes_valid(1)] by (intro printable_line) (simp_all add: between_def)
  moreover have "line_ok (''sha256:'' @ replicate 52 (CHR ''0''))"
    by (rule printable_line) (simp_all add: between_def list_all_iff del: replicate.simps)
  moreover have "\<not> any_ws (as_str hash_b @ ''-dep'')"
    using digits [OF sample_hashes_valid(2)]
    by (intro any_control_or_ws_any_ws printable_no_ws) (simp add: between_def)
  moreover have "normalize_store_reference (as_str hash_b @ ''-dep'') = Inr (as_str hash_b @ ''-dep'')"
    using sample_reference(1) [OF sample_hashes_valid(2)] .
  moreover have "line_ok ''zstd''" by (rule printable_line) (simp_all add: between_def)
  ultimately show ?thesis unfolding m
    by (simp add: narinfo_canonical_def sample_meta_def del: replicate.simps)
qed

section \<open>Properties\<close>

text \<open>
  C19. Round trip of \<open>.narinfo\<close> texts: what parsing any text returns is rendered to a text that
  parses to the same value again. The one exception is a deriver with white space in front of
  its hash, which parsing accepts.
\<close>

theorem narinfo_roundtrip:
  assumes "narinfo_parse content = Inr i" "pred_option trimmed (meta_deriver (info_meta i))"
  shows "narinfo_parse (to_narinfo_string i) = Inr i"
  using parse_rendered [OF parse_canonical [OF assms]] by (simp add: to_narinfo_string_def)

theorem narinfo_roundtrip_witness:
  "\<exists>i. narinfo_parse (entry_to_narinfo_string sample_info_entry) = Inr i
    \<and> narinfo_parse (to_narinfo_string i) = Inr i"
proof -
  let ?i = "\<lparr>info_meta = entry_meta sample_info_entry, info_nar_size = entry_nar_size sample_info_entry\<rparr>"
  have "entry_nar_size sample_info_entry \<noteq> 0" by (simp add: sample_entry_def)
  then have p: "narinfo_parse (entry_to_narinfo_string sample_info_entry) = Inr ?i"
    using parse_rendered [OF sample_meta_canonical] by (simp add: entry_to_narinfo_string_def)
  have "pred_option trimmed (meta_deriver (info_meta ?i))"
    by (simp add: sample_entry_def sample_meta_def)
  from narinfo_roundtrip [OF p this] p show ?thesis by blast
qed

text \<open>
  An index entry is served as it is stored: the text rendered for a structurally valid entry
  with canonical metadata parses back to its metadata and its NAR size.
\<close>

theorem entry_narinfo_reads_back:
  assumes "entry_validate_structure rfc3339 e = Inr ()" "narinfo_canonical (entry_meta e)"
  shows "narinfo_parse (entry_to_narinfo_string e)
    = Inr \<lparr>info_meta = entry_meta e, info_nar_size = entry_nar_size e\<rparr>"
proof -
  have "entry_nar_size e \<noteq> 0"
    using assms(1) by (auto simp: entry_validate_structure_def result_simps split: if_splits)
  then show ?thesis using parse_rendered assms(2) by (simp add: entry_to_narinfo_string_def)
qed


theorem entry_narinfo_reads_back_witness:
  "\<exists>i. narinfo_parse (entry_to_narinfo_string sample_info_entry) = Inr i
    \<and> info_meta i = entry_meta sample_info_entry"
  using entry_narinfo_reads_back [OF sample_info_valid sample_meta_canonical] by simp

end
