(* ===== verification/Oci_Error.thy ===== *)
theory Oci_Error
  imports Core_Error
begin

text \<open>
  The error types of \<^verbatim>\<open>crates/nixcache-oci/src/error.rs\<close>, with the endpoint errors of
  \<^verbatim>\<open>backend/endpoint.rs\<close>, the registry kinds of \<^verbatim>\<open>backend/kind.rs\<close> and the compression
  errors of \<^verbatim>\<open>nixcache-utils\<close>. An HTTP status is its number. The errors of the standard
  library and of \<open>serde_json\<close> that the variants wrap are the text they print, a duration is in
  milliseconds. A \<open>details\<close> string built with \<open>format!\<close> is the list of its pieces,
  a status among them its number.
\<close>

type_synonym status_code = nat

datatype registry_kind = Ghcr | DockerHub | AwsEcr | GcpArtifactRegistry | AzureAcr | GenericOci

datatype registry_endpoint_error =
    EndpointEmpty
  | UnsupportedScheme string string
  | MissingAuthority string
  | UserInfo string
  | QueryOrFragment string
  | InvalidAuthority string string
  | InvalidLocation string string

datatype transport_error =
    TransportIo string
  | HttpStatus status_code "string option"
  | ConnectionFailed string string
  | Timeout nat
  | InvalidUri string string
  | HeaderParse string
  | ResponseTooLarge string u64 u64

datatype token_error =
    TokenMissingInBody
  | FlightFailed
  | ExchangeFailed string status_code
  | InvalidResponse string string

datatype compression_error =
    ZstdCompress nat
  | ZstdDecompress nat
  | InvalidMagic u32
  | EmptyBuffer
  | OutputLimitExceeded u64 u64
  | CompressionIo string

datatype (plugins only: size code) oci_error =
    InvalidEndpoint registry_endpoint_error
  | DigestMismatch string string string
  | HeaderDigestMismatch string string string
  | InvalidDescriptor string "frag list"
  | SizeMismatch string u64 u64
  | SizeLimitExceeded string u64 u64
  | AuthChallengeInvalid "frag list"
  | AuthenticationFailed string status_code string
  | AuthenticationNotReplayable string
  | DeletionDiscoveryFailed string string "frag list"
  | DeletionVerificationFailed string "frag list"
  | DeletionObjectLimitExceeded string
  | PaginationFailed string "string option" nat nat "frag list"
  | OperationNotSupported string registry_kind "frag list"
  | DeletionFailed string status_code "frag list"
  | InsufficientPermission string string "frag list"
  | BlobNotFound string
  | BlobCheckFailed status_code
  | BlobUploadFailed status_code
  | BlobDownloadFailed status_code
  | ManifestPushFailed status_code
  | ManifestFetchFailed status_code
  | CasPreconditionFailed string "string option" "string option"
  | CasUnsupported string registry_kind
  | UploadLocationMissing
  | UploadDigestUnavailable
  | UploadRangeInvalid "frag list"
  | ResumableUploadFailed nat oci_error
  | SubManifestMissing string
  | LayerDescriptorMissing
  | UnsupportedMediaType string
  | InvalidUtf8Manifest string
  | OciToken token_error
  | OciTransport transport_error
  | OciCompression compression_error
  | OciCore core_error
  | OciJson string
  | OciIo string

text \<open>\<open>From<TransportError> for OciError\<close> and \<open>From<TypeError> for OciError\<close>.\<close>

fun from_transport_error :: "transport_error \<Rightarrow> oci_error" where
  "from_transport_error (ResponseTooLarge url limit actual) = SizeLimitExceeded url limit actual"
| "from_transport_error other = OciTransport other"

definition from_type_error :: "type_error \<Rightarrow> oci_error" where
  "from_type_error err = OciCore (CoreType err)"

text \<open>\<open>StatusCode::is_success\<close> and \<open>is_server_error\<close> of the \<open>http\<close> crate.\<close>

definition is_success :: "status_code \<Rightarrow> bool" where
  "is_success status \<longleftrightarrow> 200 \<le> status \<and> status < 300"

definition is_server_error :: "status_code \<Rightarrow> bool" where
  "is_server_error status \<longleftrightarrow> 500 \<le> status \<and> status < 600"

end
