(* ===== verification/Oci_Integrity.thy ===== *)
theory Oci_Integrity
  imports Canonical_Encoder Oci_Error
begin

text \<open>
  Content digests and body verification of \<^verbatim>\<open>crates/nixcache-oci/src/integrity.rs\<close>, and the
  verifying and hashing streams of \<^verbatim>\<open>transport.rs\<close>. \<open>H\<close> is SHA-256. A header value is what
  \<open>HeaderValue::to_str\<close> returns for it, \<open>None\<close> when it is not visible ASCII. A stream is the list
  of the items its remaining polls return; polls that are pending leave every state unchanged
  and are left out. The running hasher is the bytes it has been fed.
\<close>

section \<open>Content digests\<close>

datatype content_digest = ContentDigest (content_str: string)

definition content_digest_parse :: "string \<Rightarrow> oci_error + content_digest" where
  "content_digest_parse raw =
     (let valid = length raw = 71 \<and> starts_with ''sha256:'' raw
        \<and> list_all (\<lambda>b. is_ascii_hexdigit b \<and> \<not> is_ascii_uppercase b) (drop 7 raw)
      in if \<not> valid
         then Inl (InvalidDescriptor raw
           [Lit ''expected canonical sha256: followed by 64 lowercase hexadecimal characters''])
         else Inr (ContentDigest raw))"

definition content_digest_from_hasher :: "(bytes \<Rightarrow> bytes) \<Rightarrow> bytes \<Rightarrow> content_digest" where
  "content_digest_from_hasher H fed = ContentDigest (''sha256:'' @ concat (map hex_byte (H fed)))"

definition content_digest_from_bytes :: "(bytes \<Rightarrow> bytes) \<Rightarrow> bytes \<Rightarrow> content_digest" where
  "content_digest_from_bytes H bs = content_digest_from_hasher H bs"

type_synonym header_value = "string option"

definition check_header_digest ::
  "string \<Rightarrow> header_value option \<Rightarrow> content_digest \<Rightarrow> oci_error + unit" where
  "check_header_digest target header_digest actual =
     (case header_digest of
        None \<Rightarrow> Inr ()
      | Some header \<Rightarrow>
          result_bind (ok_or (HeaderDigestMismatch target ''<invalid UTF-8>'' (content_str actual)) header)
            (\<lambda>header_text.
          result_bind (map_err (\<lambda>_. HeaderDigestMismatch target header_text (content_str actual))
              (content_digest_parse header_text)) (\<lambda>parsed.
          if parsed \<noteq> actual
          then Inl (HeaderDigestMismatch target (content_str parsed) (content_str actual))
          else Inr ())))"

definition check_expected_digest :: "string \<Rightarrow> string \<Rightarrow> content_digest \<Rightarrow> oci_error + unit" where
  "check_expected_digest target expected_digest actual =
     result_bind (content_digest_parse expected_digest) (\<lambda>expected.
     if expected \<noteq> actual
     then Inl (DigestMismatch target (content_str expected) (content_str actual))
     else Inr ())"

definition verify_stream_digest ::
  "string \<Rightarrow> string \<Rightarrow> header_value option \<Rightarrow> content_digest \<Rightarrow> oci_error + unit" where
  "verify_stream_digest target expected_digest header_digest actual =
     result_bind (check_header_digest target header_digest actual) (\<lambda>_.
     check_expected_digest target expected_digest actual)"

definition verify_size :: "string \<Rightarrow> u64 \<Rightarrow> u64 \<Rightarrow> oci_error + unit" where
  "verify_size target expected actual =
     (if expected \<noteq> actual then Inl (SizeMismatch target expected actual) else Inr ())"

definition verify_size_option :: "string \<Rightarrow> u64 option \<Rightarrow> u64 \<Rightarrow> oci_error + unit" where
  "verify_size_option target expected actual =
     (case expected of None \<Rightarrow> Inr () | Some n \<Rightarrow> verify_size target n actual)"

definition verify_buffered_body ::
  "(bytes \<Rightarrow> bytes) \<Rightarrow> string \<Rightarrow> string option \<Rightarrow> header_value option \<Rightarrow> u64 option \<Rightarrow> u64 option
     \<Rightarrow> bytes \<Rightarrow> oci_error + content_digest" where
  "verify_buffered_body H target expected_digest header_digest expected_size content_length body =
     result_bind (verify_size_option target expected_size (of_nat (length body))) (\<lambda>_.
     result_bind (verify_size_option target content_length (of_nat (length body))) (\<lambda>_.
     let actual = content_digest_from_bytes H body in
     result_bind (check_header_digest target header_digest actual) (\<lambda>_.
     result_bind
       (case expected_digest of
          None \<Rightarrow> Inr ()
        | Some expected \<Rightarrow> check_expected_digest target expected actual) (\<lambda>_.
     Inr actual))))"

section \<open>Response headers\<close>

text \<open>\<open>headers\<close> is the value of the header in question, when the response has it.\<close>

definition parse_content_length :: "header_value option \<Rightarrow> transport_error + u64 option" where
  "parse_content_length content_length_header =
     (case content_length_header of
        None \<Rightarrow> Inr None
      | Some value \<Rightarrow>
          result_bind (ok_or (HeaderParse ''Content-Length'') value) (\<lambda>text.
          result_bind (map_err (\<lambda>_. HeaderParse ''Content-Length'') (parse_u64 text)) (\<lambda>n.
          Inr (Some n))))"

definition check_content_length ::
  "string \<Rightarrow> header_value option \<Rightarrow> u64 \<Rightarrow> transport_error + u64 option" where
  "check_content_length url content_length_header max_bytes =
     result_bind (parse_content_length content_length_header) (\<lambda>len.
     case len of
       None \<Rightarrow> Inr None
     | Some n \<Rightarrow> if n > max_bytes then Inl (ResponseTooLarge url max_bytes n) else Inr (Some n))"

definition saturating_add64 :: "u64 \<Rightarrow> u64 \<Rightarrow> u64" where
  "saturating_add64 a b = (if unat a + unat b < 2 ^ 64 then a + b else 2 ^ 64 - 1)"

text \<open>\<open>collect_limited\<close>: the check comes before a chunk is appended.\<close>

fun collect_limited_loop ::
  "string \<Rightarrow> u64 \<Rightarrow> bytes \<Rightarrow> (transport_error + bytes) list \<Rightarrow> transport_error + bytes" where
  "collect_limited_loop url max_bytes body [] = Inr body"
| "collect_limited_loop url max_bytes body (Inl e # rest) = Inl e"
| "collect_limited_loop url max_bytes body (Inr chunk # rest) =
     (let total = saturating_add64 (of_nat (length body)) (of_nat (length chunk)) in
      if total > max_bytes then Inl (ResponseTooLarge url max_bytes total)
      else collect_limited_loop url max_bytes (body @ chunk) rest)"

definition collect_limited ::
  "string \<Rightarrow> u64 \<Rightarrow> (transport_error + bytes) list \<Rightarrow> transport_error + bytes" where
  "collect_limited url max_bytes stream = collect_limited_loop url max_bytes [] stream"

section \<open>The verifying stream\<close>

record verified_stream =
  vs_inner :: "(transport_error + bytes) list"
  vs_target :: string
  vs_expected_digest :: string
  vs_header_digest :: "header_value option"
  vs_content_length :: "u64 option"
  vs_max_bytes :: u64
  vs_bytes_seen :: u64
  vs_hasher :: bytes
  vs_finished :: bool

definition verified_new ::
  "(transport_error + bytes) list \<Rightarrow> string \<Rightarrow> string \<Rightarrow> header_value option \<Rightarrow> header_value option
     \<Rightarrow> u64 \<Rightarrow> oci_error + verified_stream" where
  "verified_new inner target expected_digest content_length_header digest_header max_bytes =
     result_bind (content_digest_parse expected_digest) (\<lambda>_.
     result_bind (map_err OciTransport (parse_content_length content_length_header)) (\<lambda>len.
     if is_some_and (\<lambda>n. n > max_bytes) len
     then Inl (SizeLimitExceeded target max_bytes (the len))
     else Inr \<lparr>vs_inner = inner, vs_target = target, vs_expected_digest = expected_digest,
       vs_header_digest = digest_header, vs_content_length = len, vs_max_bytes = max_bytes,
       vs_bytes_seen = 0, vs_hasher = [], vs_finished = False\<rparr>))"

definition verified_poll ::
  "(bytes \<Rightarrow> bytes) \<Rightarrow> verified_stream \<Rightarrow> (oci_error + bytes) option \<times> verified_stream" where
  "verified_poll H s =
     (if vs_finished s then (None, s)
      else (case vs_inner s of
          Inl error # rest \<Rightarrow>
            (Some (Inl (OciTransport error)), s\<lparr>vs_inner := rest, vs_finished := True\<rparr>)
        | Inr chunk # rest \<Rightarrow>
            let total = saturating_add64 (vs_bytes_seen s) (of_nat (length chunk)) in
            if total > vs_max_bytes s
            then (Some (Inl (SizeLimitExceeded (vs_target s) (vs_max_bytes s) total)),
              s\<lparr>vs_inner := rest, vs_finished := True\<rparr>)
            else (Some (Inr chunk),
              s\<lparr>vs_inner := rest, vs_bytes_seen := total, vs_hasher := vs_hasher s @ chunk\<rparr>)
        | [] \<Rightarrow>
            let s' = s\<lparr>vs_finished := True, vs_hasher := []\<rparr> in
            (case result_bind
                (verify_size_option (vs_target s) (vs_content_length s) (vs_bytes_seen s)) (\<lambda>_.
                verify_stream_digest (vs_target s) (vs_expected_digest s) (vs_header_digest s)
                  (content_digest_from_hasher H (vs_hasher s))) of
               Inr _ \<Rightarrow> (None, s')
             | Inl error \<Rightarrow> (Some (Inl error), s'))))"

section \<open>The hashing stream\<close>

datatype hash_terminal = Complete content_digest | Failed | Aborted

record hashing_stream =
  hs_inner :: "(transport_error + bytes) list"
  hs_hasher :: bytes
  hs_bytes_streamed :: u64
  hs_terminal :: "hash_terminal option"

datatype hash_status = InProgress | StatusComplete | StatusFailed | StatusAborted

definition hashing_new :: "(transport_error + bytes) list \<Rightarrow> hashing_stream" where
  "hashing_new inner = \<lparr>hs_inner = inner, hs_hasher = [], hs_bytes_streamed = 0, hs_terminal = None\<rparr>"

text \<open>\<open>OnceLock::set\<close> keeps the first value.\<close>

definition set_terminal :: "hash_terminal \<Rightarrow> hashing_stream \<Rightarrow> hashing_stream" where
  "set_terminal t s = (if hs_terminal s = None then s\<lparr>hs_terminal := Some t\<rparr> else s)"

definition hashing_poll ::
  "(bytes \<Rightarrow> bytes) \<Rightarrow> hashing_stream \<Rightarrow> (transport_error + bytes) option \<times> hashing_stream" where
  "hashing_poll H s =
     (if hs_terminal s \<noteq> None then (None, s)
      else (case hs_inner s of
          Inr chunk # rest \<Rightarrow>
            (Some (Inr chunk), s\<lparr>hs_inner := rest, hs_hasher := hs_hasher s @ chunk,
               hs_bytes_streamed := hs_bytes_streamed s + of_nat (length chunk)\<rparr>)
        | Inl e # rest \<Rightarrow> (Some (Inl e), set_terminal Failed (s\<lparr>hs_inner := rest\<rparr>))
        | [] \<Rightarrow> (None, set_terminal (Complete (content_digest_from_hasher H (hs_hasher s))) s)))"

definition hashing_drop :: "hashing_stream \<Rightarrow> hashing_stream" where
  "hashing_drop s = set_terminal Aborted s"

definition hashing_digest :: "hashing_stream \<Rightarrow> content_digest option" where
  "hashing_digest s = (case hs_terminal s of Some (Complete d) \<Rightarrow> Some d | _ \<Rightarrow> None)"

definition hashing_status :: "hashing_stream \<Rightarrow> hash_status" where
  "hashing_status s =
     (case hs_terminal s of
        Some (Complete _) \<Rightarrow> StatusComplete
      | Some Failed \<Rightarrow> StatusFailed
      | Some Aborted \<Rightarrow> StatusAborted
      | None \<Rightarrow> InProgress)"

section \<open>Range headers\<close>

definition parse_range_header :: "string \<Rightarrow> (u64 \<times> u64) option" where
  "parse_range_header header_val =
     (let clean = trim header_val;
          val = (case strip_prefix ''bytes='' clean of
              Some v \<Rightarrow> v
            | None \<Rightarrow> (case strip_prefix ''bytes '' clean of Some v \<Rightarrow> v | None \<Rightarrow> clean));
          range_part = (case split_once (CHR ''/'') val of Some (r, _) \<Rightarrow> trim r | None \<Rightarrow> trim val)
      in case split_once (CHR ''-'') range_part of
           None \<Rightarrow> None
         | Some (start_str, end_str) \<Rightarrow>
             (case (result_ok (parse_u64 (trim start_str)), result_ok (parse_u64 (trim end_str))) of
                (Some start, Some end') \<Rightarrow> Some (start, end')
              | _ \<Rightarrow> None))"


section \<open>Facts on digests\<close>

lemma strict_hex_lower: "is_ascii_hexdigit c \<and> \<not> is_ascii_uppercase c \<longleftrightarrow> lower_hex c"
  by (auto simp: is_ascii_hexdigit_def is_ascii_uppercase_def lower_hex_def is_ascii_digit_def
      is_ascii_lower_hex_def between_def)

lemma content_digest_parse_Inr [result_simps]:
  "content_digest_parse raw = Inr d \<longleftrightarrow> d = ContentDigest raw \<and> is_sha256 raw"
  by (auto simp: content_digest_parse_def Let_def is_sha256_def strict_hex_lower)

lemma content_digest_of: "content_digest_from_hasher H bs = ContentDigest (format_digest (H bs))"
  by (simp add: content_digest_from_hasher_def format_digest_def)

lemma content_digest_sha256:
  "length (H bs) = 32 \<Longrightarrow> is_sha256 (content_str (content_digest_from_hasher H bs))"
  by (simp add: content_digest_of format_digest_sha256)

lemma check_header_digest_Inr:
  assumes "is_sha256 (content_str actual)"
  shows "check_header_digest target header actual = Inr ()
    \<longleftrightarrow> header = None \<or> header = Some (Some (content_str actual))"
  using assms by (cases actual)
    (auto simp: check_header_digest_def result_simps split: option.split)

lemma check_expected_digest_Inr:
  assumes "is_sha256 (content_str actual)"
  shows "check_expected_digest target expected actual = Inr () \<longleftrightarrow> expected = content_str actual"
  using assms by (cases actual) (auto simp: check_expected_digest_def result_simps)

lemma verify_size_option_Inr:
  "verify_size_option target expected actual = Inr () \<longleftrightarrow> expected = None \<or> expected = Some actual"
  by (auto simp: verify_size_option_def verify_size_def split: option.split)

lemma verify_buffered_body_Inr:
  assumes "\<And>m. length (H m) = 32"
  shows "verify_buffered_body H target expected header want len body = Inr d \<longleftrightarrow>
    d = ContentDigest (format_digest (H body))
    \<and> (want = None \<or> want = Some (of_nat (length body))) \<and> (len = None \<or> len = Some (of_nat (length body)))
    \<and> (header = None \<or> header = Some (Some (content_str d)))
    \<and> (expected = None \<or> expected = Some (content_str d))"
proof -
  have d: "content_digest_from_bytes H body = ContentDigest (format_digest (H body))"
    by (simp add: content_digest_from_bytes_def content_digest_of)
  have c: "is_sha256 (content_str (ContentDigest (format_digest (H body))))"
    using assms by (simp add: format_digest_sha256)
  show ?thesis
    by (cases expected)
      (auto simp: verify_buffered_body_def Let_def result_bind_eq_Inr verify_size_option_Inr d
        check_header_digest_Inr [OF c] check_expected_digest_Inr [OF c])
qed

section \<open>Draining a verifying stream\<close>

lemma verified_poll_chunk:
  assumes "verified_poll H s = (Some (Inr chunk), s')"
  obtains rest where "vs_inner s = Inr chunk # rest" "\<not> vs_finished s"
    "\<not> saturating_add64 (vs_bytes_seen s) (of_nat (length chunk)) > vs_max_bytes s"
    "s' = s\<lparr>vs_inner := rest,
      vs_bytes_seen := saturating_add64 (vs_bytes_seen s) (of_nat (length chunk)),
      vs_hasher := vs_hasher s @ chunk\<rparr>"
  using assms
  by (auto simp: verified_poll_def Let_def split: if_splits list.splits sum.splits)

text \<open>
  A reader that polls until the stream ends or reports an error, and puts the chunks together.
\<close>

function verified_drain :: "(bytes \<Rightarrow> bytes) \<Rightarrow> verified_stream \<Rightarrow> oci_error + bytes" where
  "verified_drain H s =
     (case verified_poll H s of
        (None, _) \<Rightarrow> Inr []
      | (Some (Inl e), _) \<Rightarrow> Inl e
      | (Some (Inr chunk), s') \<Rightarrow> map_ok (\<lambda>rest. chunk @ rest) (verified_drain H s'))"
  by pat_completeness auto
termination
  by (relation "measure (\<lambda>(H, s). length (vs_inner s))") (auto elim!: verified_poll_chunk [OF sym])

declare verified_drain.simps [simp del]

definition chunks_of :: "(transport_error + bytes) list \<Rightarrow> bytes" where
  "chunks_of items = concat (map (\<lambda>i. case i of Inr b \<Rightarrow> b | Inl _ \<Rightarrow> []) items)"

definition all_chunks :: "(transport_error + bytes) list \<Rightarrow> bool" where
  "all_chunks items \<longleftrightarrow> list_all (\<lambda>i. \<exists>b. i = Inr b) items"

lemma chunks_simps [simp]:
  "chunks_of [] = []" "chunks_of (Inr b # items) = b @ chunks_of items"
  "all_chunks []" "all_chunks (Inr b # items) = all_chunks items" "\<not> all_chunks (Inl e # items)"
  by (simp_all add: chunks_of_def all_chunks_def)

lemma seen_step:
  assumes "unat (vs_bytes_seen s) = length (vs_hasher s)" "unat (vs_max_bytes s) < 2 ^ 64 - 1"
    "length chunk < 2 ^ 64"
  shows "saturating_add64 (vs_bytes_seen s) (of_nat (length chunk)) > vs_max_bytes s
      \<longleftrightarrow> unat (vs_max_bytes s) < length (vs_hasher s) + length chunk"
    "\<not> saturating_add64 (vs_bytes_seen s) (of_nat (length chunk)) > vs_max_bytes s \<Longrightarrow>
      unat (saturating_add64 (vs_bytes_seen s) (of_nat (length chunk))) = length (vs_hasher s) + length chunk"
proof -
  let ?t = "saturating_add64 (vs_bytes_seen s) (of_nat (length chunk))"
  have c: "unat (of_nat (length chunk) :: u64) = length chunk" using assms(3) by (rule unat_of_nat64)
  have t: "unat ?t = (if length (vs_hasher s) + length chunk < 2 ^ 64
      then length (vs_hasher s) + length chunk else 2 ^ 64 - 1)"
    using assms(1) c by (auto simp: saturating_add64_def unat_word_ariths)
  then show "?t > vs_max_bytes s \<longleftrightarrow> unat (vs_max_bytes s) < length (vs_hasher s) + length chunk"
    using assms(2) by (auto simp: word_less_nat_alt)
  then show "\<not> ?t > vs_max_bytes s \<Longrightarrow> unat ?t = length (vs_hasher s) + length chunk"
    using t assms(2) by auto
qed

lemma verified_drain_Inr:
  assumes "\<And>m. length (H m) = 32" "unat (vs_max_bytes s) < 2 ^ 64 - 1"
    "unat (vs_bytes_seen s) = length (vs_hasher s)" "\<not> vs_finished s"
    "\<forall>b. Inr b \<in> set (vs_inner s) \<longrightarrow> length b < 2 ^ 64" "length (vs_hasher s) \<le> unat (vs_max_bytes s)"
  shows "verified_drain H s = Inr body \<longleftrightarrow>
    all_chunks (vs_inner s) \<and> body = chunks_of (vs_inner s)
    \<and> length (vs_hasher s @ body) \<le> unat (vs_max_bytes s)
    \<and> (vs_content_length s = None \<or> vs_content_length s = Some (of_nat (length (vs_hasher s @ body))))
    \<and> vs_expected_digest s = format_digest (H (vs_hasher s @ body))
    \<and> (vs_header_digest s = None
       \<or> vs_header_digest s = Some (Some (format_digest (H (vs_hasher s @ body)))))"
  using assms(2-)
proof (induction "vs_inner s" arbitrary: s body)
  case Nil
  let ?d = "content_digest_from_hasher H (vs_hasher s)"
  have seen: "vs_bytes_seen s = of_nat (length (vs_hasher s))"
    by (simp flip: Nil.prems(2))
  have d: "is_sha256 (content_str ?d)" using assms(1) by (rule content_digest_sha256)
  let ?r = "result_bind (verify_size_option (vs_target s) (vs_content_length s) (vs_bytes_seen s)) (\<lambda>_.
      verify_stream_digest (vs_target s) (vs_expected_digest s) (vs_header_digest s) ?d)"
  have "verified_drain H s = Inr body \<longleftrightarrow> ?r = Inr () \<and> body = []"
    using Nil by (subst verified_drain.simps) (auto simp: verified_poll_def Let_def split: sum.split)
  also have "?r = Inr () \<longleftrightarrow> (vs_content_length s = None \<or> vs_content_length s = Some (vs_bytes_seen s))
      \<and> (vs_header_digest s = None \<or> vs_header_digest s = Some (Some (content_str ?d)))
      \<and> vs_expected_digest s = content_str ?d"
    by (simp add: result_bind_eq_Inr verify_size_option_Inr verify_stream_digest_def
        check_header_digest_Inr [OF d] check_expected_digest_Inr [OF d])
  finally show ?case using Nil by (auto simp: seen content_digest_of)
next
  case (Cons i rest)
  show ?case
  proof (cases i)
    case (Inl e)
    then show ?thesis using Cons.hyps(2) Cons.prems
      by (subst verified_drain.simps) (simp add: verified_poll_def flip: Cons.hyps(2))
  next
    case (Inr chunk)
    let ?t = "saturating_add64 (vs_bytes_seen s) (of_nat (length chunk))"
    let ?s = "s\<lparr>vs_inner := rest, vs_bytes_seen := ?t, vs_hasher := vs_hasher s @ chunk\<rparr>"
    have "length chunk < 2 ^ 64" using Cons.prems(4) Cons.hyps(2) Inr by (metis list.set_intros(1))
    note seen = seen_step [OF Cons.prems(2,1) this]
    show ?thesis
    proof (cases "?t > vs_max_bytes s")
      case True
      then have "verified_drain H s = Inl (SizeLimitExceeded (vs_target s) (vs_max_bytes s) ?t)"
        using Cons.hyps(2) Cons.prems Inr
        by (subst verified_drain.simps) (simp add: verified_poll_def flip: Cons.hyps(2))
      with True seen(1) Cons.hyps(2) Inr show ?thesis by (auto simp flip: Cons.hyps(2))
    next
      case False
      then have step: "verified_drain H s = map_ok (\<lambda>r. chunk @ r) (verified_drain H ?s)"
        using Cons.hyps(2) Cons.prems Inr
        by (subst verified_drain.simps) (simp add: verified_poll_def flip: Cons.hyps(2))
      have n: "unat (vs_bytes_seen ?s) = length (vs_hasher ?s)" using seen(2) [OF False] by simp
      have small: "\<forall>b. Inr b \<in> set (vs_inner ?s) \<longrightarrow> length b < 2 ^ 64"
        using Cons.prems(4) Cons.hyps(2) [symmetric] by simp
      have fits: "length (vs_hasher ?s) \<le> unat (vs_max_bytes ?s)" using False seen(1) by simp
      have same: "rest = vs_inner ?s" "unat (vs_max_bytes ?s) < 2 ^ 64 - 1" "\<not> vs_finished ?s"
        using Cons.prems(1,3) by simp_all
      note IH = Cons.hyps(1) [OF same(1,2) n same(3) small fits]
      show ?thesis
        unfolding step Cons.hyps(2) [symmetric] Inr map_ok_eq_Inr IH by auto
    qed
  qed
qed


section \<open>The hashing stream as a state machine\<close>

text \<open>The steps of a stream's life: polls, and the drop of the wrapper.\<close>

inductive hashing_step :: "(bytes \<Rightarrow> bytes) \<Rightarrow> hashing_stream \<Rightarrow> hashing_stream \<Rightarrow> bool" for H where
  poll: "hashing_step H s (snd (hashing_poll H s))"
| drop: "hashing_step H s (hashing_drop s)"

inductive_cases hashing_stepE: "hashing_step H s s'"

definition hashing_inv :: "(bytes \<Rightarrow> bytes) \<Rightarrow> (transport_error + bytes) list \<Rightarrow> hashing_stream \<Rightarrow> bool" where
  "hashing_inv H items s \<longleftrightarrow>
     (\<exists>done. items = done @ hs_inner s \<and> hs_bytes_streamed s = of_nat (length (hs_hasher s))
       \<and> hs_hasher s = chunks_of done
       \<and> (hs_terminal s = None \<longrightarrow> all_chunks done)
       \<and> (\<forall>d. hs_terminal s = Some (Complete d) \<longrightarrow> hs_inner s = [] \<and> all_chunks done
            \<and> d = content_digest_from_bytes H (hs_hasher s)))"

lemma chunks_of_snoc [simp]:
  "chunks_of (xs @ [Inr b]) = chunks_of xs @ b" "chunks_of (xs @ [Inl e]) = chunks_of xs"
  "all_chunks (xs @ [Inr b]) = all_chunks xs"
  by (simp_all add: chunks_of_def all_chunks_def)

lemma hashing_inv_step:
  assumes "hashing_inv H items s" "hashing_step H s s'"
  shows "hashing_inv H items s'"
  using assms(2)
proof (cases rule: hashing_step.cases)
  case drop
  then show ?thesis using assms(1) by (auto simp: hashing_inv_def hashing_drop_def set_terminal_def)
next
  case poll
  obtain old where old: "items = old @ hs_inner s" "hs_bytes_streamed s = of_nat (length (hs_hasher s))"
    "hs_hasher s = chunks_of old" "hs_terminal s = None \<Longrightarrow> all_chunks old"
    using assms(1) by (auto simp: hashing_inv_def)
  show ?thesis
  proof (cases "hs_terminal s = None")
    case False
    then show ?thesis using poll assms(1) by (simp add: hashing_poll_def)
  next
    case True
    show ?thesis
    proof (cases "hs_inner s")
      case Nil
      then show ?thesis using poll True old
        by (auto simp: hashing_poll_def hashing_inv_def set_terminal_def content_digest_from_bytes_def)
    next
      case (Cons i rest)
      then show ?thesis using poll True old
        by (cases i) (auto simp: hashing_poll_def hashing_inv_def set_terminal_def intro!: exI [of _ "old @ [i]"])
    qed
  qed
qed

lemma hashing_inv_reachable: "(hashing_step H)\<^sup>*\<^sup>* (hashing_new items) s \<Longrightarrow> hashing_inv H items s"
proof (induction rule: rtranclp_induct)
  case base
  then show ?case by (simp add: hashing_inv_def hashing_new_def)
next
  case (step s s')
  then show ?case using hashing_inv_step by blast
qed

section \<open>Properties\<close>

abbreviation sample_sha :: "bytes \<Rightarrow> bytes" where
  "sample_sha bs \<equiv> take 32 (bs @ replicate 32 0)"

text \<open>
  A buffered body is accepted exactly when every size that is known, the digest in the
  response header if there is one, and the requested digest if there is one, agree with the
  body; the digest returned is that of the body.
\<close>

theorem buffered_body_exact:
  assumes "\<And>m. length (H m) = 32"
  shows "verify_buffered_body H target expected header want len body = Inr d \<longleftrightarrow>
    d = ContentDigest (format_digest (H body))
    \<and> (want = None \<or> want = Some (of_nat (length body))) \<and> (len = None \<or> len = Some (of_nat (length body)))
    \<and> (header = None \<or> header = Some (Some (content_str d)))
    \<and> (expected = None \<or> expected = Some (content_str d))"
  using assms by (rule verify_buffered_body_Inr)

theorem buffered_body_exact_witness:
  "verify_buffered_body sample_sha ''blob'' (Some (format_digest (sample_sha [7]))) None (Some 1) None [7]
   = Inr (ContentDigest (format_digest (sample_sha [7])))"
  using buffered_body_exact [of sample_sha "''blob''" "Some (format_digest (sample_sha [7]))" None "Some 1" None "[7]"
      "ContentDigest (format_digest (sample_sha [7]))"]
  by simp

text \<open>
  C16. Streaming a blob: reading the verified stream to its end succeeds exactly when the inner
  stream delivered all its chunks, together at most the limit and as long as the announced
  length, with the expected digest; what was read is what was delivered.
\<close>

theorem verified_stream_exact:
  assumes "\<And>m. length (H m) = 32" "unat max_bytes < 2 ^ 64 - 1"
    "\<forall>b. Inr b \<in> set items \<longrightarrow> length b < 2 ^ 64"
    "verified_new items target expected len_header digest_header max_bytes = Inr s"
  shows "verified_drain H s = Inr body \<longleftrightarrow>
    all_chunks items \<and> body = chunks_of items \<and> length body \<le> unat max_bytes
    \<and> (\<forall>n. parse_content_length len_header = Inr (Some n) \<longrightarrow> n = of_nat (length body))
    \<and> expected = format_digest (H body)
    \<and> (digest_header = None \<or> digest_header = Some (Some (format_digest (H body))))"
proof -
  obtain len where len: "parse_content_length len_header = Inr len"
    and s: "s = \<lparr>vs_inner = items, vs_target = target, vs_expected_digest = expected,
       vs_header_digest = digest_header, vs_content_length = len, vs_max_bytes = max_bytes,
       vs_bytes_seen = 0, vs_hasher = [], vs_finished = False\<rparr>"
    using assms(4) by (auto simp: verified_new_def result_simps split: if_splits)
  show ?thesis
    using verified_drain_Inr [of H s body, OF assms(1)] assms(2,3) len
    by (cases len) (auto simp: s)
qed

theorem verified_stream_exact_witness:
  "\<exists>s. verified_new [Inr [1], Inr [2, 3]] ''u'' (format_digest (sample_sha [1, 2, 3])) None None 100 = Inr s
    \<and> verified_drain sample_sha s = Inr [1, 2, 3]"
proof -
  have "content_digest_parse (format_digest (sample_sha [1, 2, 3]))
      = Inr (ContentDigest (format_digest (sample_sha [1, 2, 3])))"
    by (simp add: content_digest_parse_Inr format_digest_sha256)
  then obtain s where s: "verified_new [Inr [1], Inr [2, 3]] ''u'' (format_digest (sample_sha [1, 2, 3]))
      None None 100 = Inr s"
    by (simp add: verified_new_def parse_content_length_def is_some_and_def)
  from verified_stream_exact [OF _ _ _ s, of sample_sha "[1, 2, 3]"] s show ?thesis
    by (auto simp: parse_content_length_def)
qed

text \<open>
  The hashing wrapper never reports the digest of a part: whatever sequence of polls and
  drops it went through, a digest is available only when the whole input was read without an
  error, and then it is the digest of the whole input and the byte count its length.
\<close>

theorem hashing_digest_complete:
  assumes "(hashing_step H)\<^sup>*\<^sup>* (hashing_new items) s" "hashing_digest s = Some d"
  shows "all_chunks items \<and> d = content_digest_from_bytes H (chunks_of items)
    \<and> hs_bytes_streamed s = of_nat (length (chunks_of items)) \<and> hashing_status s = StatusComplete"
proof -
  have t: "hs_terminal s = Some (Complete d)"
    using assms(2) by (auto simp: hashing_digest_def split: option.splits hash_terminal.splits)
  then show ?thesis using hashing_inv_reachable [OF assms(1)]
    by (auto simp: hashing_inv_def hashing_status_def)
qed

theorem hashing_digest_complete_witness:
  "\<exists>s. (hashing_step sample_sha)\<^sup>*\<^sup>* (hashing_new [Inr [1]]) s
    \<and> hashing_digest s = Some (content_digest_from_bytes sample_sha [1]) \<and> hashing_status s = StatusComplete"
proof -
  let ?p = "\<lambda>s. snd (hashing_poll sample_sha s)"
  let ?s = "?p (?p (hashing_new [Inr [1]]))"
  have r: "(hashing_step sample_sha)\<^sup>*\<^sup>* (hashing_new [Inr [1]]) ?s"
    by (rule rtranclp.rtrancl_into_rtrancl [OF r_into_rtranclp [where r = "hashing_step sample_sha"]])
      (rule hashing_step.poll)+
  have d: "hashing_digest ?s = Some (content_digest_from_hasher sample_sha [1])"
    by (simp add: hashing_poll_def hashing_new_def set_terminal_def hashing_digest_def)
  from hashing_digest_complete [OF r d] r d show ?thesis by auto
qed

text \<open>
  Collecting a body with a limit succeeds exactly when every chunk arrived and they fit.
\<close>

lemma saturating_add64_unat: "unat (saturating_add64 a b) = min (unat a + unat b) (2 ^ 64 - 1)"
  by (auto simp: saturating_add64_def unat_word_ariths)

lemma collect_limited_loop_Inr:
  assumes "unat max_bytes < 2 ^ 64 - 1"
  shows "length body \<le> unat max_bytes \<Longrightarrow> \<forall>b. Inr b \<in> set items \<longrightarrow> length b < 2 ^ 64 \<Longrightarrow>
   collect_limited_loop url max_bytes body items = Inr r \<longleftrightarrow>
     all_chunks items \<and> r = body @ chunks_of items \<and> length r \<le> unat max_bytes"
proof (induction items arbitrary: body)
  case (Cons i items)
  show ?case
  proof (cases i)
    case (Inr chunk)
    let ?t = "saturating_add64 (of_nat (length body)) (of_nat (length chunk) :: u64)"
    have "length body < 2 ^ 64" using Cons.prems(1) assms by simp
    moreover have "length chunk < 2 ^ 64" using Cons.prems(2) Inr by simp
    ultimately have "unat ?t = min (length body + length chunk) (2 ^ 64 - 1)"
      by (simp add: saturating_add64_unat unat_of_nat64)
    then have t: "?t > max_bytes \<longleftrightarrow> unat max_bytes < length body + length chunk"
      using assms by (auto simp: word_less_nat_alt)
    show ?thesis
    proof (cases "?t > max_bytes")
      case True
      then show ?thesis using t Inr by auto
    next
      case False
      then have "collect_limited_loop url max_bytes body (i # items)
          = collect_limited_loop url max_bytes (body @ chunk) items"
        using Inr by (simp add: Let_def)
      moreover have "length (body @ chunk) \<le> unat max_bytes" using t False by simp
      ultimately show ?thesis using Cons.IH [of "body @ chunk"] Cons.prems(2) Inr by simp
    qed
  qed simp
qed auto

lemma collect_limited_Inr:
  assumes "unat max_bytes < 2 ^ 64 - 1" "\<forall>b. Inr b \<in> set items \<longrightarrow> length b < 2 ^ 64"
  shows "collect_limited url max_bytes items = Inr r \<longleftrightarrow>
    all_chunks items \<and> r = chunks_of items \<and> length r \<le> unat max_bytes"
  using collect_limited_loop_Inr [OF assms(1), of "[]" items url r] assms(2)
  by (simp add: collect_limited_def)

end
