(* ===== verification/Oci_Upload.thy ===== *)
theory Oci_Upload
  imports Oci_Integrity
begin

text \<open>
  The resumable upload of one chunk: \<^verbatim>\<open>crates/nixcache-oci/src/client/upload/state.rs\<close> and
  \<open>upload_chunk_with_retry\<close> of \<^verbatim>\<open>client/upload.rs\<close>. The registry and the network are a world
  \<open>'w\<close> that the requests read and change; \<open>tr_patch\<close> and \<open>tr_get\<close> are the authenticated
  requests, \<open>tr_sleep\<close> the pause between two attempts, \<open>tr_resolve\<close> the resolution of a
  \<open>Location\<close> against the registry endpoint. Offsets are 64-bit; \<open>usize_max\<close> is the largest
  \<open>usize\<close>.
\<close>

section \<open>Offsets and retries\<close>

definition invalid_upload_range :: "frag list \<Rightarrow> oci_error" where
  "invalid_upload_range details = UploadRangeInvalid details"

definition retryable_status :: "status_code \<Rightarrow> bool" where
  "retryable_status status \<longleftrightarrow> status = 408 \<or> status = 425 \<or> status = 429 \<or> is_server_error status"

fun retryable_error :: "oci_error \<Rightarrow> bool" where
  "retryable_error (BlobUploadFailed status) = retryable_status status"
| "retryable_error (OciTransport (TransportIo _)) = True"
| "retryable_error (OciTransport (ConnectionFailed _ _)) = True"
| "retryable_error (OciTransport (Timeout _)) = True"
| "retryable_error (OciTransport (HttpStatus status _)) = retryable_status status"
| "retryable_error _ = False"

definition response_next_offset ::
  "(u64 \<times> u64) option \<Rightarrow> u64 \<Rightarrow> u64 \<Rightarrow> u64 \<Rightarrow> oci_error + u64" where
  "response_next_offset rng chunk_start request_start chunk_end =
     (case rng of
        None \<Rightarrow> ok_or (invalid_upload_range [Lit ''chunk end offset overflowed''])
          (checked_add64 chunk_end 1)
      | Some (start, end') \<Rightarrow>
          if start \<noteq> 0 \<and> start \<noteq> chunk_start \<and> start \<noteq> request_start
          then Inl (invalid_upload_range [Lit ''range starts at '', Num (unat start),
            Lit '', expected 0, chunk start '', Num (unat chunk_start), Lit '', or request start '',
            Num (unat request_start)])
          else if end' < request_start
          then Inl (invalid_upload_range [Lit ''range ends at '', Num (unat end'),
            Lit '', before requested offset '', Num (unat request_start)])
          else if end' > chunk_end
          then Inl (invalid_upload_range [Lit ''range ends at '', Num (unat end'),
            Lit '', beyond chunk end '', Num (unat chunk_end)])
          else ok_or (invalid_upload_range [Lit ''range end offset overflowed''])
            (checked_add64 end' 1))"

definition probe_next_offset ::
  "(u64 \<times> u64) option \<Rightarrow> u64 \<Rightarrow> u64 \<Rightarrow> u64 \<Rightarrow> oci_error + u64 option" where
  "probe_next_offset rng chunk_start current_offset chunk_end =
     (case rng of
        None \<Rightarrow> Inr None
      | Some (start, end') \<Rightarrow>
          if start \<noteq> 0 \<and> start \<noteq> chunk_start
          then Inl (invalid_upload_range [Lit ''probe range starts at '', Num (unat start),
            Lit '', expected 0 or chunk start '', Num (unat chunk_start)])
          else if end' > chunk_end
          then Inl (invalid_upload_range [Lit ''probe range ends at '', Num (unat end'),
            Lit '', beyond chunk end '', Num (unat chunk_end)])
          else
            result_bind (ok_or (invalid_upload_range [Lit ''probe range end offset overflowed''])
                (checked_add64 end' 1)) (\<lambda>nx.
            if nx < current_offset
            then Inl (invalid_upload_range [Lit ''probe moved remote offset backwards from '',
              Num (unat current_offset), Lit '' to '', Num (unat nx)])
            else Inr (Some nx)))"

section \<open>One chunk\<close>

record upload_config =
  cfg_chunk_threshold_bytes :: u64
  cfg_chunk_size_bytes :: nat
  cfg_max_retry_attempts :: nat

definition default_upload_config :: upload_config where
  "default_upload_config =
     \<lparr>cfg_chunk_threshold_bytes = 64 * 1024 * 1024, cfg_chunk_size_bytes = 32 * 1024 * 1024,
      cfg_max_retry_attempts = 5\<rparr>"

text \<open>
  A response carries its \<open>Location\<close> header twice: among the headers, and as the location that
  the transport extracted.
\<close>

record chunk_response =
  resp_status :: status_code
  resp_location_header :: "header_value option"
  resp_location :: "string option"
  resp_range :: "(u64 \<times> u64) option"

record probe_response =
  probe_status :: status_code
  probe_location_header :: "header_value option"
  probe_range_header :: "header_value option"

record 'w upload_transport =
  tr_patch :: "string \<Rightarrow> bytes \<Rightarrow> u64 \<times> u64 \<Rightarrow> 'w \<Rightarrow> (oci_error + chunk_response) \<times> 'w"
  tr_get :: "string \<Rightarrow> 'w \<Rightarrow> (oci_error + probe_response) \<times> 'w"
  tr_sleep :: "nat \<Rightarrow> 'w \<Rightarrow> 'w"
  tr_resolve :: "string \<Rightarrow> registry_endpoint_error + string"

text \<open>The local variables of the loop, with the session URL that it updates in place.\<close>

record 'w chunk_state =
  cs_session_url :: string
  cs_remote_next :: u64
  cs_retry_count :: nat
  cs_patch_attempts :: nat
  cs_probed_416 :: bool
  cs_world :: 'w

definition resolved_location :: "'w upload_transport \<Rightarrow> string \<Rightarrow> oci_error + string" where
  "resolved_location tr location = map_err InvalidEndpoint (tr_resolve tr location)"

definition update_location ::
  "'w upload_transport \<Rightarrow> string \<Rightarrow> header_value option \<Rightarrow> oci_error + string" where
  "update_location tr session_url location_header =
     (case location_header of
        None \<Rightarrow> Inr session_url
      | Some value \<Rightarrow>
          result_bind (ok_or (OciTransport (HeaderParse ''Location'')) value) (resolved_location tr))"

definition probe_upload_session ::
  "'w upload_transport \<Rightarrow> string \<Rightarrow> 'w
     \<Rightarrow> (oci_error + status_code \<times> header_value option \<times> (u64 \<times> u64) option) \<times> 'w" where
  "probe_upload_session tr session_url w = (case tr_get tr session_url w of
     (r, w') \<Rightarrow> (result_bind r (\<lambda>response.
       result_bind
         (case probe_range_header response of
            None \<Rightarrow> Inr None
          | Some value \<Rightarrow>
              result_bind (ok_or (OciTransport (HeaderParse ''Range'')) value) (\<lambda>text.
              result_bind (ok_or (invalid_upload_range
                  [Lit ''cannot parse Range header '', Str text]) (parse_range_header text)) (\<lambda>p.
              Inr (Some p)))) (\<lambda>rng.
       Inr (probe_status response, probe_location_header response, rng))), w'))"

text \<open>
  The computations of the loop body read and change the loop state and may return early:
  \<open>Inl\<close> is \<open>return Err\<close>, the values of \<open>Inr\<close> go on.
\<close>

type_synonym ('s, 'a) step = "'s \<Rightarrow> (oci_error + 'a) \<times> 's"

definition seq :: "('s, 'a) step \<Rightarrow> ('a \<Rightarrow> ('s, 'b) step) \<Rightarrow> ('s, 'b) step" where
  "seq m f = (\<lambda>s. case m s of (Inl e, s') \<Rightarrow> (Inl e, s') | (Inr x, s') \<Rightarrow> f x s')"

definition pure :: "'a \<Rightarrow> ('s, 'a) step" where
  "pure x = (\<lambda>s. (Inr x, s))"

definition fail :: "oci_error \<Rightarrow> ('s, 'a) step" where
  "fail e = (\<lambda>s. (Inl e, s))"

definition lift :: "oci_error + 'a \<Rightarrow> ('s, 'a) step" where
  "lift r = (\<lambda>s. (r, s))"

definition set_location :: "'w upload_transport \<Rightarrow> header_value option \<Rightarrow> ('w chunk_state, unit) step" where
  "set_location tr header = (\<lambda>s. case update_location tr (cs_session_url s) header of
     Inl e \<Rightarrow> (Inl e, s) | Inr url \<Rightarrow> (Inr (), s\<lparr>cs_session_url := url\<rparr>))"

text \<open>
  After a PATCH: \<open>Inr None\<close> continues with the loop, \<open>Inr (Some e)\<close> goes on to the probe with
  \<open>e\<close> as the last error.
\<close>

definition handle_status ::
  "upload_config \<Rightarrow> u64 \<Rightarrow> u64 \<Rightarrow> chunk_response \<Rightarrow> ('w chunk_state, oci_error option) step" where
  "handle_status config chunk_start chunk_end response = (\<lambda>s.
     if is_success (resp_status response)
     then (case response_next_offset (resp_range response) chunk_start (cs_remote_next s) chunk_end of
         Inl e \<Rightarrow> (Inl e, s)
       | Inr nx \<Rightarrow> (Inr None, s\<lparr>cs_remote_next := nx\<rparr>))
     else
       let status_error = BlobUploadFailed (resp_status response);
           is_416 = resp_status response = 416
       in if \<not> is_416 \<and> \<not> retryable_error status_error then (Inl status_error, s)
          else if is_416
          then (if cs_probed_416 s then (Inl status_error, s)
                else (Inr (Some status_error), s\<lparr>cs_probed_416 := True\<rparr>))
          else if cs_retry_count s \<ge> cfg_max_retry_attempts config
          then (Inl (ResumableUploadFailed (cs_patch_attempts s) status_error), s)
          else (Inr (Some status_error), s))"

definition follow_location :: "'w upload_transport \<Rightarrow> chunk_response \<Rightarrow> ('w chunk_state, unit) step" where
  "follow_location tr response =
     seq (set_location tr (resp_location_header response)) (\<lambda>_.
     case resp_location response of
       None \<Rightarrow> pure ()
     | Some location \<Rightarrow> seq (lift (resolved_location tr location)) (\<lambda>url s.
         (Inr (), s\<lparr>cs_session_url := url\<rparr>)))"

definition after_patch ::
  "'w upload_transport \<Rightarrow> upload_config \<Rightarrow> u64 \<Rightarrow> u64 \<Rightarrow> oci_error + chunk_response
     \<Rightarrow> ('w chunk_state, oci_error option) step" where
  "after_patch tr config chunk_start chunk_end outcome =
     (case outcome of
        Inr response \<Rightarrow>
          seq (follow_location tr response) (\<lambda>_. handle_status config chunk_start chunk_end response)
      | Inl error \<Rightarrow> (\<lambda>s.
          if \<not> retryable_error error then (Inl error, s)
          else if cs_retry_count s \<ge> cfg_max_retry_attempts config
          then (Inl (ResumableUploadFailed (cs_patch_attempts s) error), s)
          else (Inr (Some error), s)))"

definition backoff_ms :: "nat \<Rightarrow> nat" where
  "backoff_ms retry_count = 100 * 2 ^ min (retry_count - 1) 5"

text \<open>The probe and the bookkeeping of a retry: \<open>Inr True\<close> is \<open>return Ok(())\<close>.\<close>

definition after_probe ::
  "'w upload_transport \<Rightarrow> upload_config \<Rightarrow> u64 \<Rightarrow> u64 \<Rightarrow> oci_error \<Rightarrow> ('w chunk_state, bool) step" where
  "after_probe tr config chunk_start chunk_end last_error =
     seq (\<lambda>s. case probe_upload_session tr (cs_session_url s) (cs_world s) of
            (r, w) \<Rightarrow> (map_err (ResumableUploadFailed (cs_patch_attempts s)) r, s\<lparr>cs_world := w\<rparr>))
       (\<lambda>(status, location_header, rng).
     seq (set_location tr location_header) (\<lambda>_ s.
     if \<not> is_success status
     then (if cs_probed_416 s then (Inl last_error, s)
           else (Inl (ResumableUploadFailed (cs_patch_attempts s) (BlobUploadFailed status)), s))
     else if cs_probed_416 s \<and> rng = None then (Inl last_error, s)
     else
       seq (lift (probe_next_offset rng chunk_start (cs_remote_next s) chunk_end)) (\<lambda>nx s.
         let s = (case nx of None \<Rightarrow> s | Some n \<Rightarrow> s\<lparr>cs_remote_next := n\<rparr>) in
         if nx \<noteq> None \<and> cs_remote_next s > chunk_end then (Inr True, s)
         else if cs_retry_count s \<ge> cfg_max_retry_attempts config
         then (Inl (ResumableUploadFailed (cs_patch_attempts s) last_error), s)
         else
           let retry_count = cs_retry_count s + 1 in
           (Inr False, s\<lparr>cs_retry_count := retry_count,
             cs_world := tr_sleep tr (backoff_ms retry_count) (cs_world s)\<rparr>)) s))"

definition max_patch_attempts :: "nat \<Rightarrow> upload_config \<Rightarrow> nat" where
  "max_patch_attempts usize_max config = min (cfg_max_retry_attempts config + 1) usize_max"

text \<open>One turn of the loop; \<open>Inr True\<close> when the chunk is complete.\<close>

definition chunk_turn ::
  "nat \<Rightarrow> 'w upload_transport \<Rightarrow> upload_config \<Rightarrow> bytes \<Rightarrow> u64 \<Rightarrow> u64 \<Rightarrow> ('w chunk_state, bool) step" where
  "chunk_turn usize_max tr config chunk chunk_start chunk_end = (\<lambda>s.
     if cs_remote_next s > chunk_end then (Inr True, s)
     else if cs_patch_attempts s \<ge> max_patch_attempts usize_max config
     then (Inl (ResumableUploadFailed (cs_patch_attempts s) (invalid_upload_range
       [Lit ''retry budget exhausted before the logical chunk completed''])), s)
     else
       let body = drop (unat (cs_remote_next s - chunk_start)) chunk;
           (outcome, w) = tr_patch tr (cs_session_url s) body (cs_remote_next s, chunk_end) (cs_world s);
           s = s\<lparr>cs_patch_attempts := cs_patch_attempts s + 1, cs_world := w\<rparr>
       in seq (after_patch tr config chunk_start chunk_end outcome) (\<lambda>continue.
            case continue of
              None \<Rightarrow> pure False
            | Some last_error \<Rightarrow> after_probe tr config chunk_start chunk_end last_error) s)"

section \<open>Termination\<close>

text \<open>Every turn that goes on has used one of the attempts.\<close>

lemma seq_eq: "seq m f s = (case m s of (Inl e, s') \<Rightarrow> (Inl e, s') | (Inr x, s') \<Rightarrow> f x s')"
  by (simp add: seq_def)

lemma seq_Inr:
  "seq m f s = (Inr y, s'') \<longleftrightarrow> (\<exists>x s'. m s = (Inr x, s') \<and> f x s' = (Inr y, s''))"
  by (auto simp: seq_eq split: prod.splits sum.splits)

lemmas step_simps = seq_Inr pure_def fail_def lift_def

lemma set_location_Inr:
  "set_location tr h s = (Inr u, s') \<longleftrightarrow>
     (\<exists>url. update_location tr (cs_session_url s) h = Inr url \<and> s' = s\<lparr>cs_session_url := url\<rparr>)"
  by (auto simp: set_location_def split: sum.splits)

lemma follow_location_only:
  "follow_location tr resp s = (r, s') \<Longrightarrow> \<exists>url. s' = s\<lparr>cs_session_url := url\<rparr>"
  by (cases "update_location tr (cs_session_url s) (resp_location_header resp)";
      cases "resp_location resp")
    (auto simp: follow_location_def seq_eq set_location_def pure_def lift_def
      intro: exI [of _ "cs_session_url s"] split: sum.splits)

lemma handle_status_Inr:
  assumes "handle_status config chunk_start chunk_end resp s = (Inr c, s')"
  shows "if is_success (resp_status resp)
    then c = None \<and> (\<exists>n. response_next_offset (resp_range resp) chunk_start (cs_remote_next s) chunk_end
           = Inr n \<and> s' = s\<lparr>cs_remote_next := n\<rparr>)
    else c \<noteq> None \<and> (s' = s \<or> s' = s\<lparr>cs_probed_416 := True\<rparr>)"
  using assms
  by (auto simp: handle_status_def Let_def split: sum.splits if_splits)

lemma after_patch_Inr:
  assumes "after_patch tr config chunk_start chunk_end outcome s = (Inr c, s')"
  shows "cs_patch_attempts s' = cs_patch_attempts s" "cs_world s' = cs_world s"
    "cs_retry_count s' = cs_retry_count s"
    "(\<exists>resp. outcome = Inr resp \<and> is_success (resp_status resp) \<and> c = None
        \<and> response_next_offset (resp_range resp) chunk_start (cs_remote_next s) chunk_end
          = Inr (cs_remote_next s'))
     \<or> (c \<noteq> None \<and> cs_remote_next s' = cs_remote_next s
        \<and> (\<forall>resp. outcome = Inr resp \<longrightarrow> \<not> is_success (resp_status resp)))" (is ?outcome)
proof -
  have "cs_patch_attempts s' = cs_patch_attempts s \<and> cs_world s' = cs_world s
    \<and> cs_retry_count s' = cs_retry_count s \<and> ?outcome"
  proof (cases outcome)
    case (Inl e)
    then show ?thesis using assms by (auto simp: after_patch_def split: if_splits)
  next
    case (Inr resp)
    then obtain u t where u: "follow_location tr resp s = (Inr u, t)"
      "handle_status config chunk_start chunk_end resp t = (Inr c, s')"
      using assms by (auto simp: after_patch_def seq_Inr)
    obtain url where t: "t = s\<lparr>cs_session_url := url\<rparr>" using follow_location_only [OF u(1)] by blast
    show ?thesis using handle_status_Inr [OF u(2)] Inr t by (auto split: if_splits)
  qed
  then show "cs_patch_attempts s' = cs_patch_attempts s" "cs_world s' = cs_world s"
    "cs_retry_count s' = cs_retry_count s" ?outcome by blast+
qed

lemma after_probe_Inr:
  assumes "after_probe tr config chunk_start chunk_end e s = (Inr b, s')"
  shows "\<exists>status h rng w nx. probe_upload_session tr (cs_session_url s) (cs_world s) = (Inr (status, h, rng), w)
    \<and> is_success status \<and> probe_next_offset rng chunk_start (cs_remote_next s) chunk_end = Inr nx
    \<and> cs_remote_next s' = (case nx of None \<Rightarrow> cs_remote_next s | Some n \<Rightarrow> n)
    \<and> cs_patch_attempts s' = cs_patch_attempts s \<and> (b \<longrightarrow> nx \<noteq> None \<and> cs_remote_next s' > chunk_end)
    \<and> (cs_world s' = w \<or> (\<exists>ms. cs_world s' = tr_sleep tr ms w))"
proof -
  from assms obtain r w where p: "probe_upload_session tr (cs_session_url s) (cs_world s) = (r, w)"
    by (cases "probe_upload_session tr (cs_session_url s) (cs_world s)") auto
  with assms obtain status h rng where r: "r = Inr (status, h, rng)"
    by (cases r) (auto simp: after_probe_def seq_eq)
  from assms obtain url where "update_location tr (cs_session_url s) h = Inr url"
    by (cases "update_location tr (cs_session_url s) h")
      (auto simp: after_probe_def seq_eq p r set_location_def)
  moreover from this assms obtain nx where
    "probe_next_offset rng chunk_start (cs_remote_next s) chunk_end = Inr nx"
    by (cases "probe_next_offset rng chunk_start (cs_remote_next s) chunk_end")
      (auto simp: after_probe_def seq_eq p r set_location_def lift_def split: if_splits)
  ultimately show ?thesis
    using assms
    by (auto simp: after_probe_def seq_eq p r set_location_def lift_def Let_def
        split: if_splits option.splits)
qed

text \<open>A turn that does not return early: complete already, or a PATCH that was followed up.\<close>

lemma chunk_turn_Inr:
  assumes "chunk_turn usize_max tr config chunk chunk_start chunk_end s = (Inr b, s')"
  obtains (complete) "b" "s' = s" "cs_remote_next s > chunk_end"
  | (patched) outcome w c t where "\<not> cs_remote_next s > chunk_end"
      "cs_patch_attempts s < max_patch_attempts usize_max config"
      "tr_patch tr (cs_session_url s) (drop (unat (cs_remote_next s - chunk_start)) chunk)
        (cs_remote_next s, chunk_end) (cs_world s) = (outcome, w)"
      "after_patch tr config chunk_start chunk_end outcome
        (s\<lparr>cs_patch_attempts := cs_patch_attempts s + 1, cs_world := w\<rparr>) = (Inr c, t)"
      "c = None \<and> \<not> b \<and> s' = t
       \<or> c \<noteq> None \<and> after_probe tr config chunk_start chunk_end (the c) t = (Inr b, s')"
proof (cases "cs_remote_next s > chunk_end")
  case True
  with assms complete show thesis by (simp add: chunk_turn_def)
next
  case False
  obtain outcome w where p: "tr_patch tr (cs_session_url s) (drop (unat (cs_remote_next s - chunk_start)) chunk)
      (cs_remote_next s, chunk_end) (cs_world s) = (outcome, w)" by fastforce
  let ?a = "after_patch tr config chunk_start chunk_end outcome
    (s\<lparr>cs_patch_attempts := cs_patch_attempts s + 1, cs_world := w\<rparr>)"
  have n: "cs_patch_attempts s < max_patch_attempts usize_max config"
    using assms False by (auto simp: chunk_turn_def split: if_splits)
  obtain r t where a: "?a = (r, t)" by fastforce
  then obtain c where r: "r = Inr c" using assms False n p
    by (cases r) (auto simp: chunk_turn_def Let_def seq_eq)
  have "c = None \<and> \<not> b \<and> s' = t
      \<or> c \<noteq> None \<and> after_probe tr config chunk_start chunk_end (the c) t = (Inr b, s')"
    using assms False n p a r by (cases c) (auto simp: chunk_turn_def Let_def seq_eq pure_def)
  with patched [OF False n p] a r show thesis by blast
qed

lemma chunk_turn_attempts:
  assumes "chunk_turn usize_max tr config chunk chunk_start chunk_end s = (Inr False, s')"
  shows "cs_patch_attempts s' = cs_patch_attempts s + 1
    \<and> cs_patch_attempts s < max_patch_attempts usize_max config"
  using assms
proof (cases rule: chunk_turn_Inr)
  case (patched outcome w c t)
  have "cs_patch_attempts t = cs_patch_attempts s + 1" using after_patch_Inr(1) [OF patched(4)] by simp
  moreover have "cs_patch_attempts s' = cs_patch_attempts t"
    using patched(5) by (auto dest: after_probe_Inr)
  ultimately show ?thesis using patched(2) by simp
qed simp

function chunk_loop ::
  "nat \<Rightarrow> 'w upload_transport \<Rightarrow> upload_config \<Rightarrow> bytes \<Rightarrow> u64 \<Rightarrow> u64 \<Rightarrow> ('w chunk_state, unit) step" where
  "chunk_loop usize_max tr config chunk chunk_start chunk_end s =
     (case chunk_turn usize_max tr config chunk chunk_start chunk_end s of
        (Inl e, s') \<Rightarrow> (Inl e, s')
      | (Inr True, s') \<Rightarrow> (Inr (), s')
      | (Inr False, s') \<Rightarrow> chunk_loop usize_max tr config chunk chunk_start chunk_end s')"
  by pat_completeness auto
termination
  by (relation "measure (\<lambda>(usize_max, tr, config, chunk, a, b, s).
        max_patch_attempts usize_max config - cs_patch_attempts s)")
    (auto simp del: not_True_eq_False dest!: chunk_turn_attempts [OF sym])

declare chunk_loop.simps [simp del]

definition upload_chunk_with_retry ::
  "nat \<Rightarrow> 'w upload_transport \<Rightarrow> upload_config \<Rightarrow> string \<Rightarrow> bytes \<Rightarrow> u64 \<Rightarrow> 'w
     \<Rightarrow> (oci_error + unit) \<times> string \<times> 'w" where
  "upload_chunk_with_retry usize_max tr config session_url chunk chunk_start w =
     (case Option.bind (checked_add64 chunk_start (of_nat (length chunk))) (\<lambda>e. checked_sub64 e 1) of
        None \<Rightarrow> (Inl (invalid_upload_range [Lit ''chunk end offset overflowed'']), session_url, w)
      | Some chunk_end \<Rightarrow>
          (case chunk_loop usize_max tr config chunk chunk_start chunk_end
              \<lparr>cs_session_url = session_url, cs_remote_next = chunk_start, cs_retry_count = 0,
               cs_patch_attempts = 0, cs_probed_416 = False, cs_world = w\<rparr> of
             (r, s) \<Rightarrow> (r, cs_session_url s, cs_world s)))"


section \<open>Offsets stay inside the chunk\<close>

text \<open>The last offset of a non-empty chunk, and the offsets that the loop may reach.\<close>

definition chunk_span :: "bytes \<Rightarrow> u64 \<Rightarrow> u64 \<Rightarrow> bool" where
  "chunk_span chunk chunk_start chunk_end \<longleftrightarrow> chunk \<noteq> []
     \<and> unat chunk_end + 1 = unat chunk_start + length chunk \<and> unat chunk_end + 1 < 2 ^ 64"

definition offset_ok :: "u64 \<Rightarrow> u64 \<Rightarrow> u64 \<Rightarrow> bool" where
  "offset_ok chunk_start chunk_end n \<longleftrightarrow> unat chunk_start \<le> unat n \<and> unat n \<le> unat chunk_end + 1"

lemma chunk_end_span:
  assumes "Option.bind (checked_add64 chunk_start (of_nat (length chunk))) (\<lambda>e. checked_sub64 e 1) = Some chunk_end"
    "length chunk < 2 ^ 64" "chunk \<noteq> []"
  shows "chunk_span chunk chunk_start chunk_end"
proof -
  obtain e where e: "checked_add64 chunk_start (of_nat (length chunk)) = Some e" "checked_sub64 e 1 = Some chunk_end"
    using assms(1) by (auto simp: bind_eq_Some_conv)
  have "unat e = unat chunk_start + length chunk"
    using checked_add64_unat [OF e(1)] assms(2) by (simp add: unat_of_nat64)
  moreover have "unat chunk_end = unat e - 1" using checked_sub64_unat [OF e(2)] by simp
  moreover have "unat e < 2 ^ 64" using unsigned_less [of e] by simp
  ultimately show ?thesis using assms(3) by (auto simp: chunk_span_def)
qed

lemma response_offset_ok:
  assumes "response_next_offset rng chunk_start n chunk_end = Inr n'" "offset_ok chunk_start chunk_end n"
  shows "offset_ok chunk_start chunk_end n'"
    "unat n' = (case rng of None \<Rightarrow> unat chunk_end + 1 | Some (_, e) \<Rightarrow> unat e + 1)"
  using assms
  by (auto simp: response_next_offset_def offset_ok_def ok_or_eq_Inr word_less_nat_alt not_less
      dest!: checked_add64_unat split: option.splits if_splits)

lemma probe_offset_ok:
  assumes "probe_next_offset rng chunk_start n chunk_end = Inr (Some n')" "offset_ok chunk_start chunk_end n"
  shows "offset_ok chunk_start chunk_end n'" "\<exists>st e. rng = Some (st, e) \<and> unat n' = unat e + 1"
  using assms
  by (auto simp: probe_next_offset_def offset_ok_def result_bind_eq_Inr ok_or_eq_Inr word_less_nat_alt
      not_less dest!: checked_add64_unat split: option.splits if_splits)

section \<open>A registry that stores what it is sent\<close>

text \<open>
  What the upload relies on (OCI distribution specification, chunked uploads). \<open>stored\<close> is what
  the session holds. A PATCH appends a prefix of its body, and only when it starts at the end of
  what is stored; one that is answered with success has told how much is stored, everything when
  it has no \<open>Range\<close>. A status request changes nothing and its \<open>Range\<close> tells how much is stored.
\<close>

definition honest_patch :: "'w upload_transport \<Rightarrow> ('w \<Rightarrow> bytes) \<Rightarrow> bool" where
  "honest_patch tr stored \<longleftrightarrow> (\<forall>url body a b w r w'. tr_patch tr url body (a, b) w = (r, w') \<longrightarrow>
     (\<exists>n. stored w' = stored w @ take n body \<and> (n = 0 \<or> unat a = length (stored w)))
     \<and> (\<forall>resp. r = Inr resp \<and> is_success (resp_status resp) \<longrightarrow>
          unat a = length (stored w)
          \<and> (case resp_range resp of
               None \<Rightarrow> stored w' = stored w @ body
             | Some (_, e) \<Rightarrow> length (stored w') = unat e + 1)))"

definition honest_get :: "'w upload_transport \<Rightarrow> ('w \<Rightarrow> bytes) \<Rightarrow> bool" where
  "honest_get tr stored \<longleftrightarrow> (\<forall>url w r w'. tr_get tr url w = (r, w') \<longrightarrow> stored w' = stored w
     \<and> (\<forall>resp text st e. r = Inr resp \<and> is_success (probe_status resp)
          \<and> probe_range_header resp = Some (Some text) \<and> parse_range_header text = Some (st, e)
          \<longrightarrow> length (stored w) = unat e + 1))"

definition honest_server :: "'w upload_transport \<Rightarrow> ('w \<Rightarrow> bytes) \<Rightarrow> bool" where
  "honest_server tr stored \<longleftrightarrow> honest_patch tr stored \<and> honest_get tr stored
     \<and> (\<forall>ms w. stored (tr_sleep tr ms w) = stored w)"

lemma honest_probe:
  assumes "honest_server tr stored" "probe_upload_session tr url w = (Inr (status, h, rng), w')" "is_success status"
  shows "stored w' = stored w" "rng = Some (st, e) \<Longrightarrow> length (stored w) = unat e + 1"
proof -
  obtain r where g: "tr_get tr url w = (r, w')"
    using assms(2) by (cases "tr_get tr url w") (simp add: probe_upload_session_def)
  then obtain resp where resp: "r = Inr resp" "probe_status resp = status"
    "rng = Some (st, e) \<Longrightarrow>
       \<exists>text. probe_range_header resp = Some (Some text) \<and> parse_range_header text = Some (st, e)"
    using assms(2)
    by (auto simp: probe_upload_session_def result_bind_eq_Inr ok_or_eq_Inr split: option.splits)
  have hg: "honest_get tr stored" using assms(1) by (simp add: honest_server_def)
  from hg [unfolded honest_get_def, rule_format, OF g] resp assms(3)
  show "stored w' = stored w" "rng = Some (st, e) \<Longrightarrow> length (stored w) = unat e + 1" by blast+
qed

text \<open>What the loop keeps: the session holds the old content and a part of the chunk.\<close>

definition upload_inv :: "('w \<Rightarrow> bytes) \<Rightarrow> bytes \<Rightarrow> bytes \<Rightarrow> u64 \<Rightarrow> u64 \<Rightarrow> 'w chunk_state \<Rightarrow> bool" where
  "upload_inv stored old chunk chunk_start chunk_end s \<longleftrightarrow>
     (\<exists>m \<le> length chunk. stored (cs_world s) = old @ take m chunk)
     \<and> offset_ok chunk_start chunk_end (cs_remote_next s)
     \<and> unat (cs_remote_next s) \<le> length (stored (cs_world s))"

lemma honest_patch_stored:
  assumes "honest_patch tr stored" "chunk_span chunk chunk_start chunk_end" "unat chunk_start = length old"
    "stored w = old @ take m chunk" "m \<le> length chunk" "offset_ok chunk_start chunk_end n"
    "tr_patch tr url (drop (unat (n - chunk_start)) chunk) (n, chunk_end) w = (r, w')"
  shows "\<exists>m' \<ge> m. m' \<le> length chunk \<and> stored w' = old @ take m' chunk"
proof -
  let ?body = "drop (unat (n - chunk_start)) chunk"
  obtain k where k: "stored w' = stored w @ take k ?body" "k = 0 \<or> unat n = length (stored w)"
    using assms(1,7) unfolding honest_patch_def by blast
  show ?thesis
  proof (cases "k = 0")
    case True
    then show ?thesis using k assms(4,5) by auto
  next
    case False
    then have "unat n = length old + m" using k assms(4,5) by simp
    moreover have "unat (n - chunk_start) = unat n - unat chunk_start"
      using assms(6) by (simp add: offset_ok_def unat_sub word_le_nat_alt)
    ultimately have "unat (n - chunk_start) = m" using assms(3) by simp
    then have "stored w' = old @ take (m + k) chunk" using k(1) assms(4) by (simp add: take_add)
    then show ?thesis
      by (intro exI [of _ "min (m + k) (length chunk)"]) (use assms(5) in \<open>auto simp: min_def\<close>)
  qed
qed


lemma set_location_world: "set_location tr h s = (r, s') \<Longrightarrow> cs_world s' = cs_world s"
  by (auto simp: set_location_def split: sum.splits)

lemma handle_status_world:
  "handle_status config chunk_start chunk_end resp s = (r, s') \<Longrightarrow> cs_world s' = cs_world s"
  by (auto simp: handle_status_def Let_def split: sum.splits if_splits)

lemma after_patch_world:
  assumes "after_patch tr config chunk_start chunk_end outcome s = (r, s')"
  shows "cs_world s' = cs_world s"
proof (cases outcome)
  case (Inl e)
  then show ?thesis using assms by (simp add: after_patch_def split: if_splits)
next
  case (Inr resp)
  obtain q t where q: "follow_location tr resp s = (q, t)" by fastforce
  have t: "cs_world t = cs_world s" using follow_location_only [OF q] by auto
  show ?thesis
    using assms Inr q t by (cases q) (auto simp: after_patch_def seq_eq dest!: handle_status_world)
qed

lemma after_probe_world:
  assumes "honest_server tr stored" "after_probe tr config chunk_start chunk_end e s = (r, s')"
  shows "stored (cs_world s') = stored (cs_world s)"
proof -
  obtain p w where p: "probe_upload_session tr (cs_session_url s) (cs_world s) = (p, w)" by fastforce
  have "\<exists>q. tr_get tr (cs_session_url s) (cs_world s) = (q, w)"
    using p by (cases "tr_get tr (cs_session_url s) (cs_world s)") (simp add: probe_upload_session_def)
  then have w: "stored w = stored (cs_world s)"
    using assms(1) by (auto simp: honest_server_def honest_get_def)
  have "cs_world s' = w \<or> (\<exists>ms. cs_world s' = tr_sleep tr ms w)"
    using assms(2)
    by (auto simp: after_probe_def seq_eq lift_def p Let_def dest!: set_location_world
        split: sum.splits prod.splits option.splits if_splits)
  with w assms(1) show ?thesis by (auto simp: honest_server_def)
qed

lemma chunk_turn_stored:
  assumes "honest_server tr stored" "chunk_span chunk chunk_start chunk_end" "unat chunk_start = length old"
    "upload_inv stored old chunk chunk_start chunk_end s"
    "chunk_turn usize_max tr config chunk chunk_start chunk_end s = (r, s')"
  shows "\<exists>m \<le> length chunk. stored (cs_world s') = old @ take m chunk"
proof -
  obtain m where m: "m \<le> length chunk" "stored (cs_world s) = old @ take m chunk"
    and off: "offset_ok chunk_start chunk_end (cs_remote_next s)"
    using assms(4) by (auto simp: upload_inv_def)
  obtain outcome w where p: "tr_patch tr (cs_session_url s) (drop (unat (cs_remote_next s - chunk_start)) chunk)
      (cs_remote_next s, chunk_end) (cs_world s) = (outcome, w)" by fastforce
  have "honest_patch tr stored" using assms(1) by (simp add: honest_server_def)
  from honest_patch_stored [OF this assms(2,3) m(2,1) off p]
  obtain m' where m': "m' \<le> length chunk" "stored w = old @ take m' chunk" by blast
  have "stored (cs_world s') = stored (cs_world s) \<or> stored (cs_world s') = stored w"
  proof (cases "cs_remote_next s > chunk_end \<or> cs_patch_attempts s \<ge> max_patch_attempts usize_max config")
    case True
    then show ?thesis using assms(5) by (auto simp: chunk_turn_def split: if_splits)
  next
    case False
    obtain c t where a: "after_patch tr config chunk_start chunk_end outcome
        (s\<lparr>cs_patch_attempts := cs_patch_attempts s + 1, cs_world := w\<rparr>) = (c, t)" by fastforce
    then have t: "cs_world t = w" using after_patch_world by fastforce
    have "(\<exists>e. after_probe tr config chunk_start chunk_end e t = (r, s')) \<or> s' = t"
      using assms(5) False p a
      by (auto simp: chunk_turn_def Let_def seq_eq pure_def split: sum.splits option.splits)
    with t after_probe_world [OF assms(1)] show ?thesis by metis
  qed
  with m m' show ?thesis by metis
qed

text \<open>A successful answer names the end of what is stored.\<close>

lemma success_length:
  assumes "honest_patch tr stored" "chunk_span chunk chunk_start chunk_end" "offset_ok chunk_start chunk_end n"
    "tr_patch tr url (drop (unat (n - chunk_start)) chunk) (n, chunk_end) w = (outcome, w')"
    "outcome = Inr resp" "is_success (resp_status resp)"
    "response_next_offset (resp_range resp) chunk_start n chunk_end = Inr n'"
  shows "length (stored w') = unat n'"
proof -
  let ?body = "drop (unat (n - chunk_start)) chunk"
  have h: "unat n = length (stored w)" "case resp_range resp of
      None \<Rightarrow> stored w' = stored w @ ?body | Some (_, e) \<Rightarrow> length (stored w') = unat e + 1"
    using assms(1) [unfolded honest_patch_def, rule_format, OF assms(4)] assms(5,6) by blast+
  note n' = response_offset_ok(2) [OF assms(7,3)]
  show ?thesis
  proof (cases "resp_range resp")
    case None
    have "unat (n - chunk_start) = unat n - unat chunk_start"
      using assms(3) by (simp add: offset_ok_def unat_sub word_le_nat_alt)
    then show ?thesis using None h n' assms(2,3) by (simp add: chunk_span_def offset_ok_def)
  next
    case (Some p)
    then show ?thesis using h n' by (cases p) simp
  qed
qed

lemma chunk_turn_inv:
  assumes "honest_server tr stored" "chunk_span chunk chunk_start chunk_end" "unat chunk_start = length old"
    "upload_inv stored old chunk chunk_start chunk_end s"
    "chunk_turn usize_max tr config chunk chunk_start chunk_end s = (Inr b, s')"
  shows "upload_inv stored old chunk chunk_start chunk_end s' \<and> (b \<longrightarrow> cs_remote_next s' > chunk_end)"
  using assms(5)
proof (cases rule: chunk_turn_Inr)
  case complete
  then show ?thesis using assms(4) by simp
next
  case (patched outcome w c t)
  have off: "offset_ok chunk_start chunk_end (cs_remote_next s)" using assms(4) by (simp add: upload_inv_def)
  have hp: "honest_patch tr stored" using assms(1) by (simp add: honest_server_def)
  obtain m where "m \<le> length chunk" "stored (cs_world s) = old @ take m chunk"
    using assms(4) by (auto simp: upload_inv_def)
  then have le: "length (stored (cs_world s)) \<le> length (stored w)"
    using honest_patch_stored [OF hp assms(2,3) _ _ off patched(3)] by fastforce
  have t: "cs_world t = w" using after_patch_Inr(2) [OF patched(4)] by simp
  have inv_t: "offset_ok chunk_start chunk_end (cs_remote_next t) \<and> unat (cs_remote_next t) \<le> length (stored w)"
  proof (cases "c = None")
    case True
    then obtain resp where resp: "outcome = Inr resp" "is_success (resp_status resp)"
      "response_next_offset (resp_range resp) chunk_start (cs_remote_next s) chunk_end = Inr (cs_remote_next t)"
      using after_patch_Inr(4) [OF patched(4)] by auto
    have "length (stored w) = unat (cs_remote_next t)"
      using success_length [OF hp assms(2) off patched(3) resp] .
    with response_offset_ok(1) [OF resp(3) off] show ?thesis by simp
  next
    case False
    then have "cs_remote_next t = cs_remote_next s" using after_patch_Inr(4) [OF patched(4)] by auto
    then show ?thesis using assms(4) le by (auto simp: upload_inv_def)
  qed
  have stored': "\<exists>m \<le> length chunk. stored (cs_world s') = old @ take m chunk"
    using chunk_turn_stored [OF assms] .
  from patched(5) show ?thesis
  proof
    assume "c = None \<and> \<not> b \<and> s' = t"
    then show ?thesis using inv_t t stored' by (simp add: upload_inv_def)
  next
    assume "c \<noteq> None \<and> after_probe tr config chunk_start chunk_end (the c) t = (Inr b, s')"
    then have a: "after_probe tr config chunk_start chunk_end (the c) t = (Inr b, s')" by simp
    obtain status h rng w' nx where pr:
      "probe_upload_session tr (cs_session_url t) (cs_world t) = (Inr (status, h, rng), w')" "is_success status"
      "probe_next_offset rng chunk_start (cs_remote_next t) chunk_end = Inr nx"
      "cs_remote_next s' = (case nx of None \<Rightarrow> cs_remote_next t | Some n \<Rightarrow> n)"
      "b \<longrightarrow> cs_remote_next s' > chunk_end"
      using after_probe_Inr [OF a] by blast
    have same: "stored (cs_world s') = stored w" using after_probe_world [OF assms(1) a] t by simp
    have "offset_ok chunk_start chunk_end (cs_remote_next s') \<and> unat (cs_remote_next s') \<le> length (stored w)"
    proof (cases nx)
      case None
      then show ?thesis using pr(4) inv_t by simp
    next
      case (Some n)
      from probe_offset_ok [OF pr(3) [unfolded Some] inv_t [THEN conjunct1]]
        honest_probe(2) [OF assms(1) pr(1,2)] t Some pr(4)
      show ?thesis by auto
    qed
    with stored' same pr(5) show ?thesis by (simp add: upload_inv_def)
  qed
qed

lemma chunk_loop_stored:
  assumes "honest_server tr stored" "chunk_span chunk chunk_start chunk_end" "unat chunk_start = length old"
  shows "upload_inv stored old chunk chunk_start chunk_end s \<Longrightarrow>
   chunk_loop usize_max tr config chunk chunk_start chunk_end s = (r, s') \<Longrightarrow>
   \<exists>m \<le> length chunk. stored (cs_world s') = old @ take m chunk \<and> (r = Inr () \<longrightarrow> m = length chunk)"
proof (induction s arbitrary: r s' rule: measure_induct_rule
    [of "\<lambda>s. max_patch_attempts usize_max config - cs_patch_attempts s"])
  case (less s)
  obtain q t where q: "chunk_turn usize_max tr config chunk chunk_start chunk_end s = (q, t)" by fastforce
  note stored_t = chunk_turn_stored [OF assms less.prems(1) q]
  show ?case
  proof (cases q)
    case (Inl e)
    then show ?thesis using less.prems(2) q stored_t by (subst (asm) chunk_loop.simps) auto
  next
    case (Inr b)
    note inv = chunk_turn_inv [OF assms less.prems(1) q [unfolded Inr]]
    show ?thesis
    proof (cases b)
      case True
      then have r: "r = Inr ()" "s' = t" using less.prems(2) q Inr by (simp_all add: chunk_loop.simps [of _ _ _ _ _ _ s])
      obtain m where m: "m \<le> length chunk" "stored (cs_world t) = old @ take m chunk" using stored_t by blast
      have "unat chunk_end < length old + m"
        using inv True m by (auto simp: upload_inv_def word_less_nat_alt)
      then have "m = length chunk" using m(1) assms(2,3) by (simp add: chunk_span_def)
      then show ?thesis using m r by auto
    next
      case False
      then have loop: "chunk_loop usize_max tr config chunk chunk_start chunk_end t = (r, s')"
        using less.prems(2) q Inr by (simp add: chunk_loop.simps [of _ _ _ _ _ _ s])
      have "max_patch_attempts usize_max config - cs_patch_attempts t
          < max_patch_attempts usize_max config - cs_patch_attempts s"
        using chunk_turn_attempts [OF q [unfolded Inr, simplified False]] by auto
      from less.IH [OF this _ loop] inv show ?thesis by simp
    qed
  qed
qed

lemma upload_chunk_loop:
  assumes "length chunk < 2 ^ 64" "chunk \<noteq> []" "unat chunk_start + length chunk < 2 ^ 64"
  obtains chunk_end where "chunk_span chunk chunk_start chunk_end"
    "upload_chunk_with_retry usize_max tr config session_url chunk chunk_start w =
     (case chunk_loop usize_max tr config chunk chunk_start chunk_end
        \<lparr>cs_session_url = session_url, cs_remote_next = chunk_start, cs_retry_count = 0,
         cs_patch_attempts = 0, cs_probed_416 = False, cs_world = w\<rparr> of
        (r, s) \<Rightarrow> (r, cs_session_url s, cs_world s))"
proof (cases "Option.bind (checked_add64 chunk_start (of_nat (length chunk))) (\<lambda>e. checked_sub64 e 1)")
  case None
  then show thesis
    using assms
    by (cases "length chunk")
      (auto simp: checked_add64_def checked_sub64_def unat_of_nat64 unat_word_ariths word_le_nat_alt
        word_less_nat_alt split: if_splits)
next
  case (Some chunk_end)
  show thesis
    by (rule that [OF chunk_end_span [OF Some assms(1,2)]]) (simp add: upload_chunk_with_retry_def Some)
qed

end
