(* ===== verification/Oci_Limits.thy ===== *)
theory Oci_Limits
  imports Core_Index Oci_Error
begin

text \<open>
  The read limits of \<^verbatim>\<open>crates/nixcache-oci/src/limits.rs\<close>. \<open>usize_max\<close> is the largest
  \<open>usize\<close> of the target. The fields carry the prefix \<open>lim_\<close>; the getters of the source are
  the record selectors.
\<close>

record oci_read_limits =
  lim_max_manifest_bytes :: u64
  lim_max_buffered_blob_bytes :: u64
  lim_max_streamed_blob_bytes :: u64
  lim_max_index_uncompressed_bytes :: u64
  lim_max_image_index_descriptors :: u64
  lim_max_manifest_layers :: u64
  lim_max_shard_entries :: u64
  lim_max_gc_roots :: u64
  lim_max_parallel_index_reads :: u64

datatype read_limits_error = LimitZero string | LimitNotRepresentable string

definition default_limits :: oci_read_limits where
  "default_limits =
     \<lparr>lim_max_manifest_bytes = 4 * 1024 * 1024,
      lim_max_buffered_blob_bytes = 64 * 1024 * 1024,
      lim_max_streamed_blob_bytes = 16 * 1024 * 1024 * 1024,
      lim_max_index_uncompressed_bytes = 64 * 1024 * 1024,
      lim_max_image_index_descriptors = 1024,
      lim_max_manifest_layers = 16,
      lim_max_shard_entries = 500000,
      lim_max_gc_roots = 500000,
      lim_max_parallel_index_reads = 16\<rparr>"

text \<open>The fields in the order in which they are checked, with the names in the errors.\<close>

definition limit_values :: "oci_read_limits \<Rightarrow> (string \<times> u64) list" where
  "limit_values l =
     [(''max_manifest_bytes'', lim_max_manifest_bytes l),
      (''max_buffered_blob_bytes'', lim_max_buffered_blob_bytes l),
      (''max_index_uncompressed_bytes'', lim_max_index_uncompressed_bytes l),
      (''max_image_index_descriptors'', lim_max_image_index_descriptors l),
      (''max_manifest_layers'', lim_max_manifest_layers l),
      (''max_shard_entries'', lim_max_shard_entries l),
      (''max_gc_roots'', lim_max_gc_roots l),
      (''max_parallel_index_reads'', lim_max_parallel_index_reads l)]"

definition check_limit :: "nat \<Rightarrow> string \<times> u64 \<Rightarrow> read_limits_error + unit" where
  "check_limit usize_max fv = (case fv of (field, value) \<Rightarrow>
     if value = 0 then Inl (LimitZero field)
     else if \<not> unat value \<le> usize_max then Inl (LimitNotRepresentable field)
     else Inr ())"

definition limits_validate :: "nat \<Rightarrow> oci_read_limits \<Rightarrow> read_limits_error + unit" where
  "limits_validate usize_max l =
     result_bind (try_each (check_limit usize_max) (limit_values l)) (\<lambda>_.
     if lim_max_streamed_blob_bytes l = 0 then Inl (LimitZero ''max_streamed_blob_bytes'')
     else Inr ())"

definition limits_try_new ::
  "nat \<Rightarrow> u64 \<Rightarrow> u64 \<Rightarrow> u64 \<Rightarrow> u64 \<Rightarrow> u64 \<Rightarrow> u64 \<Rightarrow> u64 \<Rightarrow> u64 \<Rightarrow> u64
     \<Rightarrow> read_limits_error + oci_read_limits" where
  "limits_try_new usize_max v_manifest_bytes v_buffered_blob_bytes v_streamed_blob_bytes v_index_uncompressed_bytes v_image_index_descriptors v_manifest_layers v_shard_entries v_gc_roots v_parallel_index_reads =
     (let limits = \<lparr>lim_max_manifest_bytes = v_manifest_bytes,
        lim_max_buffered_blob_bytes = v_buffered_blob_bytes,
        lim_max_streamed_blob_bytes = v_streamed_blob_bytes,
        lim_max_index_uncompressed_bytes = v_index_uncompressed_bytes,
        lim_max_image_index_descriptors = v_image_index_descriptors,
        lim_max_manifest_layers = v_manifest_layers,
        lim_max_shard_entries = v_shard_entries,
        lim_max_gc_roots = v_gc_roots,
        lim_max_parallel_index_reads = v_parallel_index_reads\<rparr>
      in result_bind (limits_validate usize_max limits) (\<lambda>_. Inr limits))"

definition with_max_manifest_bytes ::
  "nat \<Rightarrow> oci_read_limits \<Rightarrow> u64 \<Rightarrow> read_limits_error + oci_read_limits" where
  "with_max_manifest_bytes usize_max l value = limits_try_new usize_max
     value (lim_max_buffered_blob_bytes l) (lim_max_streamed_blob_bytes l)
     (lim_max_index_uncompressed_bytes l) (lim_max_image_index_descriptors l) (lim_max_manifest_layers l)
     (lim_max_shard_entries l) (lim_max_gc_roots l) (lim_max_parallel_index_reads l)"

definition with_max_buffered_blob_bytes ::
  "nat \<Rightarrow> oci_read_limits \<Rightarrow> u64 \<Rightarrow> read_limits_error + oci_read_limits" where
  "with_max_buffered_blob_bytes usize_max l value = limits_try_new usize_max
     (lim_max_manifest_bytes l) value (lim_max_streamed_blob_bytes l)
     (lim_max_index_uncompressed_bytes l) (lim_max_image_index_descriptors l) (lim_max_manifest_layers l)
     (lim_max_shard_entries l) (lim_max_gc_roots l) (lim_max_parallel_index_reads l)"

definition with_max_streamed_blob_bytes ::
  "nat \<Rightarrow> oci_read_limits \<Rightarrow> u64 \<Rightarrow> read_limits_error + oci_read_limits" where
  "with_max_streamed_blob_bytes usize_max l value = limits_try_new usize_max
     (lim_max_manifest_bytes l) (lim_max_buffered_blob_bytes l) value
     (lim_max_index_uncompressed_bytes l) (lim_max_image_index_descriptors l) (lim_max_manifest_layers l)
     (lim_max_shard_entries l) (lim_max_gc_roots l) (lim_max_parallel_index_reads l)"

definition with_max_index_uncompressed_bytes ::
  "nat \<Rightarrow> oci_read_limits \<Rightarrow> u64 \<Rightarrow> read_limits_error + oci_read_limits" where
  "with_max_index_uncompressed_bytes usize_max l value = limits_try_new usize_max
     (lim_max_manifest_bytes l) (lim_max_buffered_blob_bytes l) (lim_max_streamed_blob_bytes l)
     value (lim_max_image_index_descriptors l) (lim_max_manifest_layers l)
     (lim_max_shard_entries l) (lim_max_gc_roots l) (lim_max_parallel_index_reads l)"

definition with_max_image_index_descriptors ::
  "nat \<Rightarrow> oci_read_limits \<Rightarrow> u64 \<Rightarrow> read_limits_error + oci_read_limits" where
  "with_max_image_index_descriptors usize_max l value = limits_try_new usize_max
     (lim_max_manifest_bytes l) (lim_max_buffered_blob_bytes l) (lim_max_streamed_blob_bytes l)
     (lim_max_index_uncompressed_bytes l) value (lim_max_manifest_layers l)
     (lim_max_shard_entries l) (lim_max_gc_roots l) (lim_max_parallel_index_reads l)"

definition with_max_manifest_layers ::
  "nat \<Rightarrow> oci_read_limits \<Rightarrow> u64 \<Rightarrow> read_limits_error + oci_read_limits" where
  "with_max_manifest_layers usize_max l value = limits_try_new usize_max
     (lim_max_manifest_bytes l) (lim_max_buffered_blob_bytes l) (lim_max_streamed_blob_bytes l)
     (lim_max_index_uncompressed_bytes l) (lim_max_image_index_descriptors l) value
     (lim_max_shard_entries l) (lim_max_gc_roots l) (lim_max_parallel_index_reads l)"

definition with_max_shard_entries ::
  "nat \<Rightarrow> oci_read_limits \<Rightarrow> u64 \<Rightarrow> read_limits_error + oci_read_limits" where
  "with_max_shard_entries usize_max l value = limits_try_new usize_max
     (lim_max_manifest_bytes l) (lim_max_buffered_blob_bytes l) (lim_max_streamed_blob_bytes l)
     (lim_max_index_uncompressed_bytes l) (lim_max_image_index_descriptors l) (lim_max_manifest_layers l)
     value (lim_max_gc_roots l) (lim_max_parallel_index_reads l)"

definition with_max_gc_roots ::
  "nat \<Rightarrow> oci_read_limits \<Rightarrow> u64 \<Rightarrow> read_limits_error + oci_read_limits" where
  "with_max_gc_roots usize_max l value = limits_try_new usize_max
     (lim_max_manifest_bytes l) (lim_max_buffered_blob_bytes l) (lim_max_streamed_blob_bytes l)
     (lim_max_index_uncompressed_bytes l) (lim_max_image_index_descriptors l) (lim_max_manifest_layers l)
     (lim_max_shard_entries l) value (lim_max_parallel_index_reads l)"

definition with_max_parallel_index_reads ::
  "nat \<Rightarrow> oci_read_limits \<Rightarrow> u64 \<Rightarrow> read_limits_error + oci_read_limits" where
  "with_max_parallel_index_reads usize_max l value = limits_try_new usize_max
     (lim_max_manifest_bytes l) (lim_max_buffered_blob_bytes l) (lim_max_streamed_blob_bytes l)
     (lim_max_index_uncompressed_bytes l) (lim_max_image_index_descriptors l) (lim_max_manifest_layers l)
     (lim_max_shard_entries l) (lim_max_gc_roots l) value"

text \<open>\<open>impl IndexValidationLimits for OciReadLimits\<close>.\<close>

definition index_limits_of :: "oci_read_limits \<Rightarrow> index_limits" where
  "index_limits_of l =
     \<lparr>max_shard_entries = lim_max_shard_entries l, max_gc_roots = lim_max_gc_roots l,
      max_uncompressed_bytes = lim_max_index_uncompressed_bytes l,
      max_nar_size = lim_max_streamed_blob_bytes l\<rparr>"

section \<open>Facts\<close>

definition limits_ok :: "nat \<Rightarrow> oci_read_limits \<Rightarrow> bool" where
  "limits_ok usize_max l \<longleftrightarrow>
     list_all (\<lambda>(f, v). 0 < unat v \<and> unat v \<le> usize_max) (limit_values l)
     \<and> 0 < unat (lim_max_streamed_blob_bytes l)"

lemma limits_validate_Inr: "limits_validate usize_max l = Inr () \<longleftrightarrow> limits_ok usize_max l"
  by (auto simp: limits_validate_def limits_ok_def check_limit_def result_bind_eq_Inr try_each_Inr
      list_all_iff unat_gt_0 split: prod.splits)

lemma limits_try_new_Inr:
  "limits_try_new u a b c d e f g h i = Inr l \<longleftrightarrow> limits_ok u l
     \<and> l = \<lparr>lim_max_manifest_bytes = a, lim_max_buffered_blob_bytes = b, lim_max_streamed_blob_bytes = c, lim_max_index_uncompressed_bytes = d, lim_max_image_index_descriptors = e, lim_max_manifest_layers = f, lim_max_shard_entries = g, lim_max_gc_roots = h, lim_max_parallel_index_reads = i\<rparr>"
  by (auto simp: limits_try_new_def Let_def result_bind_eq_Inr limits_validate_Inr)

lemma with_limit_Inr:
  "with_max_manifest_bytes u l v = Inr l' \<longleftrightarrow> l' = l\<lparr>lim_max_manifest_bytes := v\<rparr> \<and> limits_ok u l'"
  "with_max_buffered_blob_bytes u l v = Inr l' \<longleftrightarrow> l' = l\<lparr>lim_max_buffered_blob_bytes := v\<rparr> \<and> limits_ok u l'"
  "with_max_streamed_blob_bytes u l v = Inr l' \<longleftrightarrow> l' = l\<lparr>lim_max_streamed_blob_bytes := v\<rparr> \<and> limits_ok u l'"
  "with_max_index_uncompressed_bytes u l v = Inr l' \<longleftrightarrow> l' = l\<lparr>lim_max_index_uncompressed_bytes := v\<rparr> \<and> limits_ok u l'"
  "with_max_image_index_descriptors u l v = Inr l' \<longleftrightarrow> l' = l\<lparr>lim_max_image_index_descriptors := v\<rparr> \<and> limits_ok u l'"
  "with_max_manifest_layers u l v = Inr l' \<longleftrightarrow> l' = l\<lparr>lim_max_manifest_layers := v\<rparr> \<and> limits_ok u l'"
  "with_max_shard_entries u l v = Inr l' \<longleftrightarrow> l' = l\<lparr>lim_max_shard_entries := v\<rparr> \<and> limits_ok u l'"
  "with_max_gc_roots u l v = Inr l' \<longleftrightarrow> l' = l\<lparr>lim_max_gc_roots := v\<rparr> \<and> limits_ok u l'"
  "with_max_parallel_index_reads u l v = Inr l' \<longleftrightarrow> l' = l\<lparr>lim_max_parallel_index_reads := v\<rparr> \<and> limits_ok u l'"
  by (auto simp: with_max_manifest_bytes_def with_max_buffered_blob_bytes_def with_max_streamed_blob_bytes_def with_max_index_uncompressed_bytes_def with_max_image_index_descriptors_def with_max_manifest_layers_def with_max_shard_entries_def with_max_gc_roots_def with_max_parallel_index_reads_def limits_try_new_Inr)

end
