(* ===== verification/Oci_Manifest.thy ===== *)
theory Oci_Manifest
  imports Oci_Limits Oci_Integrity
begin

text \<open>
  The OCI manifests of \<^verbatim>\<open>crates/nixcache-oci/src/manifest.rs\<close>: platforms, descriptors, image
  indexes and image manifests, their validation, and the manifest of a sharded root index.
  Annotations are finite maps. The time at which a manifest is made is an argument.
\<close>

definition OCI_IMAGE_MANIFEST_MEDIA_TYPE :: string where
  "OCI_IMAGE_MANIFEST_MEDIA_TYPE = ''application/vnd.oci.image.manifest.v1+json''"

definition OCI_IMAGE_INDEX_MEDIA_TYPE :: string where
  "OCI_IMAGE_INDEX_MEDIA_TYPE = ''application/vnd.oci.image.index.v1+json''"

definition OCI_IMAGE_CONFIG_MEDIA_TYPE :: string where
  "OCI_IMAGE_CONFIG_MEDIA_TYPE = ''application/vnd.oci.image.config.v1+json''"

definition EMPTY_CONFIG_DIGEST :: string where
  "EMPTY_CONFIG_DIGEST = ''sha256:44136fa355b3678a1146ad16f7e8649e94fb4fc21fe77e8310c060f61caaff8a''"

definition EMPTY_CONFIG_SIZE :: u64 where
  "EMPTY_CONFIG_SIZE = 2"

definition ROOT_INDEX_V8_ZSTD :: string where
  "ROOT_INDEX_V8_ZSTD = ''application/vnd.nix.cache.root.v8+zstd''"

definition SHARD_DATA_V8_ZSTD :: string where
  "SHARD_DATA_V8_ZSTD = ''application/vnd.nix.cache.shard.v8+zstd''"

section \<open>Layer media types\<close>

datatype cache_layer_media_type = RootIndexV8Zstd | ShardDataV8Zstd

definition media_type_parse :: "string \<Rightarrow> cache_layer_media_type option" where
  "media_type_parse s =
     (if s = ROOT_INDEX_V8_ZSTD then Some RootIndexV8Zstd
      else if s = SHARD_DATA_V8_ZSTD then Some ShardDataV8Zstd
      else None)"

fun media_type_as_str :: "cache_layer_media_type \<Rightarrow> string" where
  "media_type_as_str RootIndexV8Zstd = ROOT_INDEX_V8_ZSTD"
| "media_type_as_str ShardDataV8Zstd = SHARD_DATA_V8_ZSTD"

section \<open>Platforms and descriptors\<close>

record oci_platform =
  plat_architecture :: string
  plat_os :: string
  plat_variant :: "string option"
  plat_os_features :: "string list"

definition platform_new :: "string \<Rightarrow> string \<Rightarrow> oci_platform" where
  "platform_new os architecture =
     \<lparr>plat_architecture = architecture, plat_os = os, plat_variant = None, plat_os_features = []\<rparr>"

definition platform_with_variant :: "oci_platform \<Rightarrow> string \<Rightarrow> oci_platform" where
  "platform_with_variant p variant = p\<lparr>plat_variant := Some variant\<rparr>"

definition platform_from_system :: "system_arch \<Rightarrow> oci_platform" where
  "platform_from_system system = (case to_oci_platform_tuple system of (os, arch, variant) \<Rightarrow>
     \<lparr>plat_architecture = arch, plat_os = os, plat_variant = variant, plat_os_features = []\<rparr>)"

definition platform_to_system :: "oci_platform \<Rightarrow> system_arch" where
  "platform_to_system p = from_oci (plat_os p) (plat_architecture p) (plat_variant p)"

type_synonym annotation_map = "string \<rightharpoonup> string"

record oci_descriptor =
  od_media_type :: string
  od_digest :: string
  od_size :: u64
  od_platform :: "oci_platform option"
  od_annotations :: "annotation_map option"

definition od_validate_for :: "oci_descriptor \<Rightarrow> string \<Rightarrow> u64 \<Rightarrow> oci_error + unit" where
  "od_validate_for d target max_size =
     result_bind (map_err (\<lambda>_. InvalidDescriptor target
         [Lit ''descriptor digest is not a canonical SHA-256 digest'']) (content_digest_parse (od_digest d))) (\<lambda>_.
     if od_size d > max_size then Inl (SizeLimitExceeded target max_size (od_size d))
     else if trim (od_media_type d) = []
     then Inl (InvalidDescriptor target [Lit ''descriptor media type is empty''])
     else Inr ())"

section \<open>Image indexes\<close>

record oci_image_index =
  ix_schema_version :: u32
  ix_media_type :: string
  ix_manifests :: "oci_descriptor list"
  ix_annotations :: "annotation_map option"

definition image_index_new :: oci_image_index where
  "image_index_new = \<lparr>ix_schema_version = 2, ix_media_type = OCI_IMAGE_INDEX_MEDIA_TYPE,
     ix_manifests = [], ix_annotations = None\<rparr>"

abbreviation SYSTEM_KEY :: string where
  "SYSTEM_KEY \<equiv> ''org.nixos.nixcache.system''"

definition annotation_of :: "string \<Rightarrow> annotation_map option \<Rightarrow> string option" where
  "annotation_of key ann = Option.bind ann (\<lambda>m. m key)"

definition annotated_system :: "oci_descriptor \<Rightarrow> system_arch option" where
  "annotated_system d = map_option system_from (annotation_of SYSTEM_KEY (od_annotations d))"

definition platform_system :: "oci_descriptor \<Rightarrow> system_arch option" where
  "platform_system d = map_option platform_to_system (od_platform d)"

definition option_or :: "'a option \<Rightarrow> 'a option \<Rightarrow> 'a option" where
  "option_or a b = (case a of Some x \<Rightarrow> Some x | None \<Rightarrow> b)"

definition option_filter :: "('a \<Rightarrow> bool) \<Rightarrow> 'a option \<Rightarrow> 'a option" where
  "option_filter p a = (case a of Some x \<Rightarrow> if p x then Some x else None | None \<Rightarrow> None)"

definition child_system :: "oci_descriptor \<Rightarrow> oci_error + system_arch" where
  "child_system d =
     (if is_some_and (\<lambda>s. \<not> is_known s) (platform_system d)
         \<or> is_some_and (\<lambda>s. \<not> is_known s) (annotated_system d)
         \<or> (case (platform_system d, annotated_system d) of (Some a, Some b) \<Rightarrow> a \<noteq> b | _ \<Rightarrow> False)
      then Inl (InvalidDescriptor (od_digest d) [Lit ''descriptor platform is unknown or inconsistent''])
      else ok_or (InvalidDescriptor (od_digest d) [Lit ''image index child has no known platform''])
        (option_filter is_known (option_or (platform_system d) (annotated_system d))))"

fun validate_children ::
  "oci_read_limits \<Rightarrow> string \<Rightarrow> system_arch set \<Rightarrow> oci_descriptor list \<Rightarrow> oci_error + unit" where
  "validate_children limits target systems [] = Inr ()"
| "validate_children limits target systems (d # ds) =
     result_bind (od_validate_for d target (lim_max_manifest_bytes limits)) (\<lambda>_.
     if od_media_type d \<noteq> OCI_IMAGE_MANIFEST_MEDIA_TYPE
     then Inl (InvalidDescriptor (od_digest d) [Lit ''image index child is not an OCI image manifest''])
     else
       result_bind (child_system d) (\<lambda>system.
       if system \<in> systems
       then Inl (InvalidDescriptor (od_digest d) [Lit ''image index contains duplicate platforms''])
       else validate_children limits target (insert system systems) ds))"

definition image_index_validate_for ::
  "oci_image_index \<Rightarrow> oci_read_limits \<Rightarrow> string \<Rightarrow> oci_error + unit" where
  "image_index_validate_for ix limits target =
     (if ix_schema_version ix \<noteq> 2
      then Inl (InvalidDescriptor target [Lit ''image index schemaVersion must be 2''])
      else if ix_media_type ix \<noteq> OCI_IMAGE_INDEX_MEDIA_TYPE
      then Inl (InvalidDescriptor target [Lit ''image index mediaType is not the OCI image index type''])
      else if (of_nat (length (ix_manifests ix)) :: u64) > lim_max_image_index_descriptors limits
      then Inl (SizeLimitExceeded target (lim_max_image_index_descriptors limits)
        (of_nat (length (ix_manifests ix))))
      else validate_children limits target {} (ix_manifests ix))"

definition serves_system :: "system_arch \<Rightarrow> oci_descriptor \<Rightarrow> bool" where
  "serves_system system m =
     (if od_platform m = Some (platform_from_system system) then True
      else (case annotation_of SYSTEM_KEY (od_annotations m) of
          Some sys_str \<Rightarrow> sys_str = system_as_str system
        | None \<Rightarrow> False))"

definition find_manifest_for_system :: "oci_image_index \<Rightarrow> system_arch \<Rightarrow> oci_descriptor option" where
  "find_manifest_for_system ix system = List.find (serves_system system) (ix_manifests ix)"

section \<open>Image manifests\<close>

record oci_image_manifest =
  im_schema_version :: u32
  im_media_type :: string
  im_config :: oci_descriptor
  im_layers :: "oci_descriptor list"
  im_annotations :: "annotation_map option"

definition image_manifest_validate_for ::
  "oci_image_manifest \<Rightarrow> oci_read_limits \<Rightarrow> string \<Rightarrow> oci_error + unit" where
  "image_manifest_validate_for im limits target =
     (if im_schema_version im \<noteq> 2
      then Inl (InvalidDescriptor target [Lit ''image manifest schemaVersion must be 2''])
      else if im_media_type im \<noteq> OCI_IMAGE_MANIFEST_MEDIA_TYPE
      then Inl (InvalidDescriptor target
        [Lit ''image manifest mediaType is not the OCI image manifest type''])
      else if (of_nat (length (im_layers im)) :: u64) > lim_max_manifest_layers limits
      then Inl (SizeLimitExceeded target (lim_max_manifest_layers limits) (of_nat (length (im_layers im))))
      else
        result_bind (od_validate_for (im_config im) target (lim_max_buffered_blob_bytes limits)) (\<lambda>_.
        if od_media_type (im_config im) \<noteq> OCI_IMAGE_CONFIG_MEDIA_TYPE
        then Inl (InvalidDescriptor target [Lit ''manifest config has an invalid media type''])
        else try_each (\<lambda>layer. od_validate_for layer target (lim_max_buffered_blob_bytes limits))
          (im_layers im)))"

definition validate_v8_annotations ::
  "annotation_map \<Rightarrow> system_arch \<Rightarrow> string \<Rightarrow> string \<Rightarrow> oci_error + unit" where
  "validate_v8_annotations annotations system merkle_root target =
     (if option_filter is_known (map_option system_from (annotations SYSTEM_KEY)) \<noteq> Some system
         \<or> annotations ''org.nixos.nixcache.schema'' \<noteq> Some ''8''
         \<or> annotations ''org.nixos.nixcache.merkle_root'' \<noteq> Some merkle_root
      then Inl (InvalidDescriptor target [Lit ''Schema v8 annotations are missing or inconsistent''])
      else
        result_bind (map_err (\<lambda>_. InvalidDescriptor target
            [Lit ''Schema v8 merkle_root is not a canonical SHA-256 digest'']) (content_digest_parse merkle_root))
          (\<lambda>_. Inr ()))"

definition validate_schema_v8_root ::
  "oci_image_manifest \<Rightarrow> system_arch \<Rightarrow> string \<Rightarrow> oci_read_limits \<Rightarrow> string \<Rightarrow> oci_error + oci_descriptor" where
  "validate_schema_v8_root im system merkle_root limits target =
     result_bind (image_manifest_validate_for im limits target) (\<lambda>_.
     case im_layers im of
       [layer] \<Rightarrow>
         result_bind (ok_or (InvalidDescriptor target
             [Lit ''Schema v8 root manifest annotations are missing'']) (im_annotations im)) (\<lambda>annotations.
         result_bind (validate_v8_annotations annotations system merkle_root target) (\<lambda>_.
         if od_media_type layer \<noteq> ROOT_INDEX_V8_ZSTD then Inl (UnsupportedMediaType (od_media_type layer))
         else if platform_system layer \<noteq> Some system
         then Inl (InvalidDescriptor (od_digest layer)
           [Lit ''root layer platform does not match requested system''])
         else
           result_bind (ok_or (InvalidDescriptor (od_digest layer)
               [Lit ''Schema v8 root layer annotations are missing'']) (od_annotations layer)) (\<lambda>layer_annotations.
           result_bind (validate_v8_annotations layer_annotations system merkle_root (od_digest layer)) (\<lambda>_.
           Inr layer))))
     | _ \<Rightarrow> Inl LayerDescriptorMissing)"

definition first_layer_digest :: "oci_image_manifest \<Rightarrow> string option" where
  "first_layer_digest im = (case im_layers im of [] \<Rightarrow> None | l # _ \<Rightarrow> Some (od_digest l))"

section \<open>Artifacts\<close>

datatype oci_artifact_manifest = ArtifactIndex oci_image_index | ArtifactManifest oci_image_manifest

fun artifact_schema_version :: "oci_artifact_manifest \<Rightarrow> u32" where
  "artifact_schema_version (ArtifactIndex idx) = ix_schema_version idx"
| "artifact_schema_version (ArtifactManifest m) = im_schema_version m"

fun artifact_media_type :: "oci_artifact_manifest \<Rightarrow> string" where
  "artifact_media_type (ArtifactIndex idx) = ix_media_type idx"
| "artifact_media_type (ArtifactManifest m) = im_media_type m"

fun as_index :: "oci_artifact_manifest \<Rightarrow> oci_image_index option" where
  "as_index (ArtifactIndex idx) = Some idx"
| "as_index (ArtifactManifest _) = None"

fun as_manifest :: "oci_artifact_manifest \<Rightarrow> oci_image_manifest option" where
  "as_manifest (ArtifactIndex _) = None"
| "as_manifest (ArtifactManifest m) = Some m"

fun artifact_validate_for :: "oci_artifact_manifest \<Rightarrow> oci_read_limits \<Rightarrow> string \<Rightarrow> oci_error + unit" where
  "artifact_validate_for (ArtifactIndex ix) limits target = image_index_validate_for ix limits target"
| "artifact_validate_for (ArtifactManifest m) limits target = image_manifest_validate_for m limits target"

section \<open>Building manifests\<close>

record sharded_manifest_params =
  mp_root_blob_digest :: string
  mp_root_blob_size :: u64
  mp_config_digest :: string
  mp_config_size :: u64
  mp_system :: system_arch
  mp_merkle_root :: string

definition build_sharded_arch_index_manifest :: "string \<Rightarrow> sharded_manifest_params \<Rightarrow> oci_image_manifest" where
  "build_sharded_arch_index_manifest utc_now params =
     (let root_layer_annotations =
            [SYSTEM_KEY \<mapsto> system_as_str (mp_system params),
             ''org.nixos.nixcache.merkle_root'' \<mapsto> mp_merkle_root params,
             ''org.nixos.nixcache.schema'' \<mapsto> ''8''];
          manifest_annotations =
            [''org.opencontainers.image.created'' \<mapsto> utc_now,
             ''org.opencontainers.image.description'' \<mapsto>
               ''NixCache Sharded Merkle Baseline ('' @ system_as_str (mp_system params) @ '')'',
             SYSTEM_KEY \<mapsto> system_as_str (mp_system params),
             ''org.nixos.nixcache.merkle_root'' \<mapsto> mp_merkle_root params,
             ''org.nixos.nixcache.schema'' \<mapsto> ''8'']
      in \<lparr>im_schema_version = 2, im_media_type = OCI_IMAGE_MANIFEST_MEDIA_TYPE,
          im_config = \<lparr>od_media_type = OCI_IMAGE_CONFIG_MEDIA_TYPE, od_digest = mp_config_digest params,
            od_size = mp_config_size params, od_platform = None, od_annotations = None\<rparr>,
          im_layers = [\<lparr>od_media_type = ROOT_INDEX_V8_ZSTD, od_digest = mp_root_blob_digest params,
            od_size = mp_root_blob_size params, od_platform = Some (platform_from_system (mp_system params)),
            od_annotations = Some root_layer_annotations\<rparr>],
          im_annotations = Some manifest_annotations\<rparr>)"

definition build_image_index :: "string \<Rightarrow> oci_descriptor list \<Rightarrow> string \<Rightarrow> oci_image_index" where
  "build_image_index utc_now manifest_descriptors description =
     \<lparr>ix_schema_version = 2, ix_media_type = OCI_IMAGE_INDEX_MEDIA_TYPE, ix_manifests = manifest_descriptors,
      ix_annotations = Some [''org.opencontainers.image.created'' \<mapsto> utc_now,
        ''org.opencontainers.image.description'' \<mapsto> description]\<rparr>"

section \<open>Facts\<close>

lemma media_type_roundtrip: "media_type_parse (media_type_as_str m) = Some m"
  by (cases m) (simp_all add: media_type_parse_def ROOT_INDEX_V8_ZSTD_def SHARD_DATA_V8_ZSTD_def)

lemma platform_of_system [simp]: "platform_to_system (platform_from_system system) = system"
  using from_oci_tuple [of system]
  by (simp add: platform_to_system_def platform_from_system_def split: prod.split)

lemma media_types_trim [simp]:
  "trim ROOT_INDEX_V8_ZSTD = ROOT_INDEX_V8_ZSTD" "trim SHARD_DATA_V8_ZSTD = SHARD_DATA_V8_ZSTD" "trim OCI_IMAGE_CONFIG_MEDIA_TYPE = OCI_IMAGE_CONFIG_MEDIA_TYPE"
  "trim OCI_IMAGE_MANIFEST_MEDIA_TYPE = OCI_IMAGE_MANIFEST_MEDIA_TYPE"
  "ROOT_INDEX_V8_ZSTD \<noteq> []" "SHARD_DATA_V8_ZSTD \<noteq> []" "OCI_IMAGE_CONFIG_MEDIA_TYPE \<noteq> []" "OCI_IMAGE_MANIFEST_MEDIA_TYPE \<noteq> []"
  by (simp_all add: all_printable_no_ws ROOT_INDEX_V8_ZSTD_def SHARD_DATA_V8_ZSTD_def OCI_IMAGE_CONFIG_MEDIA_TYPE_def
      OCI_IMAGE_MANIFEST_MEDIA_TYPE_def)

lemma od_validate_for_Inr [result_simps]:
  "od_validate_for d target n = Inr () \<longleftrightarrow> is_sha256 (od_digest d) \<and> od_size d \<le> n \<and> trim (od_media_type d) \<noteq> []"
  by (auto simp: od_validate_for_def result_bind_eq_Inr map_err_eq_Inr content_digest_parse_Inr)

lemma child_system_Inr:
  "child_system d = Inr s \<longleftrightarrow> is_known s \<and>
     (platform_system d = Some s \<and> (annotated_system d = None \<or> annotated_system d = Some s)
      \<or> platform_system d = None \<and> annotated_system d = Some s)"
  by (auto simp: child_system_def ok_or_eq_Inr option_filter_def option_or_def is_some_and_def
      split: option.splits if_splits)

lemma serves_child_system:
  assumes "serves_system system d" "child_system d = Inr s"
  shows "s = system"
  using assms by (auto simp: child_system_Inr serves_system_def platform_system_def annotated_system_def
      split: option.splits if_splits)

lemma validate_children_Inr:
  "validate_children limits target systems ds = Inr () \<longleftrightarrow>
     (\<forall>d\<in>set ds. od_validate_for d target (lim_max_manifest_bytes limits) = Inr ()
        \<and> od_media_type d = OCI_IMAGE_MANIFEST_MEDIA_TYPE)
     \<and> (\<exists>ss. map child_system ds = map Inr ss \<and> distinct ss \<and> set ss \<inter> systems = {})"
proof (induction ds arbitrary: systems)
  case (Cons d ds)
  show ?case
  proof (cases "child_system d")
    case (Inl e)
    then show ?thesis by (auto simp: result_bind_eq_Inr Cons_eq_map_conv)
  next
    case (Inr s)
    then have "(\<exists>ss. map child_system (d # ds) = map Inr ss \<and> distinct ss \<and> set ss \<inter> systems = {}) \<longleftrightarrow>
      s \<notin> systems \<and> (\<exists>ss. map child_system ds = map Inr ss \<and> distinct ss \<and> set ss \<inter> insert s systems = {})"
      by (auto simp: Cons_eq_map_conv intro: exI [of _ "s # ss" for ss])
    then show ?thesis using Inr by (auto simp: result_bind_eq_Inr Cons.IH)
  qed
qed simp


section \<open>Properties\<close>

lemma children_systems:
  assumes "image_index_validate_for ix limits target = Inr ()"
  obtains ss where "map child_system (ix_manifests ix) = map Inr ss" "distinct ss"
  using assms by (auto simp: image_index_validate_for_def validate_children_Inr split: if_splits)

lemma found_serves: "find_manifest_for_system ix system = Some d \<Longrightarrow> d \<in> set (ix_manifests ix) \<and> serves_system system d"
  by (auto simp: find_manifest_for_system_def find_Some_iff)

text \<open>
  In a validated image index the lookup of a system is unambiguous: the descriptor that is
  found is for that system by its platform and by its annotation, whichever of them it has, and it
  is the only one that serves the system.
\<close>

theorem image_index_lookup_unique:
  assumes "image_index_validate_for ix limits target = Inr ()" "find_manifest_for_system ix system = Some d"
  shows "is_known system \<and> child_system d = Inr system
    \<and> (\<forall>i j. i < length (ix_manifests ix) \<and> j < length (ix_manifests ix)
        \<and> serves_system system (ix_manifests ix ! i) \<and> serves_system system (ix_manifests ix ! j) \<longrightarrow> i = j)"
proof -
  obtain ss where ss: "map child_system (ix_manifests ix) = map Inr ss" "distinct ss"
    using children_systems [OF assms(1)] .
  then have len: "length ss = length (ix_manifests ix)" by (metis length_map)
  have child: "child_system (ix_manifests ix ! i) = Inr (ss ! i)" if "i < length (ix_manifests ix)" for i
    using that ss(1) len by (metis nth_map)
  have serves: "ss ! i = system" if "i < length (ix_manifests ix)" "serves_system system (ix_manifests ix ! i)" for i
    using serves_child_system [OF that(2) child [OF that(1)]] .
  obtain i where i: "i < length (ix_manifests ix)" "ix_manifests ix ! i = d"
    using found_serves [OF assms(2)] by (meson in_set_conv_nth)
  with child serves found_serves [OF assms(2)] have "child_system d = Inr system" by metis
  moreover have "i = j" if "i < length (ix_manifests ix)" "j < length (ix_manifests ix)"
    "serves_system system (ix_manifests ix ! i)" "serves_system system (ix_manifests ix ! j)" for i j
    using serves that ss(2) len by (metis nth_eq_iff_index_eq)
  ultimately show ?thesis by (auto simp: child_system_Inr)
qed

definition sample_child :: "system_arch \<Rightarrow> oci_descriptor" where
  "sample_child system = \<lparr>od_media_type = OCI_IMAGE_MANIFEST_MEDIA_TYPE, od_digest = ''sha256:'' @ replicate 64 (CHR ''0''),
     od_size = 10, od_platform = Some (platform_from_system system), od_annotations = None\<rparr>"

lemma sample_digest_sha256: "is_sha256 (''sha256:'' @ replicate 64 (CHR ''0''))"
  by (simp add: is_sha256_iff list_all_iff lower_hex_def is_ascii_digit_def between_def del: replicate.simps)

lemma sample_child_system: "is_known system \<Longrightarrow> child_system (sample_child system) = Inr system"
  by (simp add: child_system_Inr platform_system_def annotated_system_def annotation_of_def sample_child_def)

lemma sample_child_media: "od_media_type (sample_child system) = OCI_IMAGE_MANIFEST_MEDIA_TYPE"
  by (simp add: sample_child_def)

lemma sample_child_valid: "od_validate_for (sample_child system) target (lim_max_manifest_bytes default_limits) = Inr ()"
  using sample_digest_sha256 by (simp add: od_validate_for_Inr sample_child_def default_limits_def)

theorem image_index_lookup_unique_witness:
  "\<exists>d. find_manifest_for_system (build_image_index ''now'' [sample_child X86_64Linux, sample_child Aarch64Linux] ''x'')
      Aarch64Linux = Some d \<and> child_system d = Inr Aarch64Linux"
proof -
  let ?ix = "build_image_index ''now'' [sample_child X86_64Linux, sample_child Aarch64Linux] ''x''"
  have "validate_children default_limits ''t'' {} (ix_manifests ?ix) = Inr ()"
    using sample_child_valid
    by (simp add: build_image_index_def sample_child_system is_known_def sample_child_media)
  then have v: "image_index_validate_for ?ix default_limits ''t'' = Inr ()"
    by (simp add: image_index_validate_for_def build_image_index_def default_limits_def)
  have f: "find_manifest_for_system ?ix Aarch64Linux = Some (sample_child Aarch64Linux)"
    by (simp add: find_manifest_for_system_def build_image_index_def serves_system_def sample_child_def
        annotation_of_def platform_from_system_def)
  from image_index_lookup_unique [OF v f] f show ?thesis by blast
qed

lemma built_root_accepted:
  assumes "is_known (mp_system params)" "is_sha256 (mp_merkle_root params)"
    and "is_sha256 (mp_root_blob_digest params)" "is_sha256 (mp_config_digest params)"
    and "mp_root_blob_size params \<le> lim_max_buffered_blob_bytes limits"
    and "mp_config_size params \<le> lim_max_buffered_blob_bytes limits"
    and "lim_max_manifest_layers limits \<noteq> 0"
  shows "\<exists>layer. validate_schema_v8_root (build_sharded_arch_index_manifest utc_now params) (mp_system params)
      (mp_merkle_root params) limits target = Inr layer
    \<and> od_media_type layer = ROOT_INDEX_V8_ZSTD \<and> od_digest layer = mp_root_blob_digest params \<and> od_size layer = mp_root_blob_size params"
proof -
  let ?m = "build_sharded_arch_index_manifest utc_now params"
  have "image_manifest_validate_for ?m limits target = Inr ()"
    using assms(3-7)
    by (simp add: image_manifest_validate_for_def build_sharded_arch_index_manifest_def Let_def
        result_bind_eq_Inr od_validate_for_Inr not_less)
  moreover have "validate_v8_annotations m (mp_system params) (mp_merkle_root params) t = Inr ()"
    if "m SYSTEM_KEY = Some (system_as_str (mp_system params))"
      "m ''org.nixos.nixcache.merkle_root'' = Some (mp_merkle_root params)"
      "m ''org.nixos.nixcache.schema'' = Some ''8''" for m t
    using that assms(1,2)
    by (simp add: validate_v8_annotations_def option_filter_def result_bind_eq_Inr map_err_eq_Inr
        content_digest_parse_Inr)
  ultimately show ?thesis
    by (simp add: validate_schema_v8_root_def build_sharded_arch_index_manifest_def Let_def platform_system_def)
qed

text \<open>
  What is published can be read: the manifest that is built for a sharded root passes the
  checks that a reader makes for the same system and Merkle root, which return the layer with the
  root blob, as long as the digests are canonical and the sizes within the reader's limits.
\<close>

theorem built_root_manifest_accepted:
  assumes "is_known (mp_system params)" "is_sha256 (mp_merkle_root params)"
    and "is_sha256 (mp_root_blob_digest params)" "is_sha256 (mp_config_digest params)"
    and "mp_root_blob_size params \<le> lim_max_buffered_blob_bytes limits"
    and "mp_config_size params \<le> lim_max_buffered_blob_bytes limits"
    and "lim_max_manifest_layers limits \<noteq> 0"
  shows "\<exists>layer. validate_schema_v8_root (build_sharded_arch_index_manifest utc_now params) (mp_system params)
      (mp_merkle_root params) limits target = Inr layer
    \<and> od_digest layer = mp_root_blob_digest params \<and> od_size layer = mp_root_blob_size params"
  using built_root_accepted [OF assms] by blast

theorem built_root_manifest_accepted_witness:
  "\<exists>layer. validate_schema_v8_root (build_sharded_arch_index_manifest ''now''
      \<lparr>mp_root_blob_digest = EMPTY_CONFIG_DIGEST, mp_root_blob_size = 7, mp_config_digest = EMPTY_CONFIG_DIGEST,
       mp_config_size = EMPTY_CONFIG_SIZE, mp_system = X86_64Linux, mp_merkle_root = EMPTY_CONFIG_DIGEST\<rparr>)
      X86_64Linux EMPTY_CONFIG_DIGEST default_limits ''t'' = Inr layer \<and> od_size layer = 7"
proof -
  have e: "is_sha256 EMPTY_CONFIG_DIGEST"
    by (simp add: is_sha256_def EMPTY_CONFIG_DIGEST_def starts_with_def lower_hex_def is_ascii_digit_def
        is_ascii_lower_hex_def between_def)
  show ?thesis
    using built_root_manifest_accepted [of "\<lparr>mp_root_blob_digest = EMPTY_CONFIG_DIGEST, mp_root_blob_size = 7,
        mp_config_digest = EMPTY_CONFIG_DIGEST, mp_config_size = EMPTY_CONFIG_SIZE, mp_system = X86_64Linux,
        mp_merkle_root = EMPTY_CONFIG_DIGEST\<rparr>" default_limits "''now''" "''t''"] e
    by (auto simp: is_known_def default_limits_def EMPTY_CONFIG_SIZE_def)
qed

end
