(* ===== verification/Oci_Endpoint.thy ===== *)
theory Oci_Endpoint
  imports Oci_Error Canonical_Encoder
begin

text \<open>
  The URLs of the registry API: the endpoint of \<^verbatim>\<open>crates/nixcache-oci/src/backend/endpoint.rs\<close>
  after it was parsed, and the construction of request URLs of \<^verbatim>\<open>client/endpoint.rs\<close>. A string is
  its UTF-8 bytes.
\<close>

datatype registry_scheme = Http | Https

fun scheme_as_str :: "registry_scheme \<Rightarrow> string" where
  "scheme_as_str Http = ''http''"
| "scheme_as_str Https = ''https''"

record registry_endpoint =
  ep_scheme :: registry_scheme
  ep_host :: string
  ep_port :: "u16 option"
  ep_authority :: string
  ep_base_path :: string

definition trim_start_slashes :: "string \<Rightarrow> string" where
  "trim_start_slashes s = dropWhile (\<lambda>c. c = CHR ''/'') s"

definition trim_slashes :: "string \<Rightarrow> string" where
  "trim_slashes s = rev (trim_start_slashes (rev (trim_start_slashes s)))"

definition format_authority :: "string \<Rightarrow> u16 option \<Rightarrow> string" where
  "format_authority host port =
     (let host = (if CHR '':'' \<in> set host then ''['' @ host @ '']'' else host)
      in case port of Some p \<Rightarrow> host @ '':'' @ show_nat (unat p) | None \<Rightarrow> host)"

definition normalize_base_path :: "string \<Rightarrow> string" where
  "normalize_base_path path = (let path = trim_slashes path in if path = [] then [] else ''/'' @ path)"

definition ep_origin :: "registry_endpoint \<Rightarrow> string" where
  "ep_origin e = scheme_as_str (ep_scheme e) @ ''://'' @ ep_authority e"

definition api_url :: "registry_endpoint \<Rightarrow> string \<Rightarrow> string" where
  "api_url e path = ep_origin e @ ep_base_path e @ ''/'' @ trim_start_slashes path"

definition replace_host :: "registry_endpoint \<Rightarrow> string \<Rightarrow> registry_endpoint" where
  "replace_host e host0 =
     (let host = to_ascii_lowercase host0
      in e\<lparr>ep_host := host, ep_authority := format_authority host (ep_port e)\<rparr>)"

section \<open>Request URLs\<close>

definition manifest_url :: "registry_endpoint \<Rightarrow> string \<Rightarrow> string \<Rightarrow> string" where
  "manifest_url e repo reference = api_url e (''/v2/'' @ repo @ ''/nix-cache/manifests/'' @ reference)"

definition blob_url :: "registry_endpoint \<Rightarrow> string \<Rightarrow> string \<Rightarrow> string" where
  "blob_url e repo digest = api_url e (''/v2/'' @ repo @ ''/nix-cache/blobs/'' @ digest)"

definition upload_url :: "registry_endpoint \<Rightarrow> string \<Rightarrow> string" where
  "upload_url e repo = api_url e (''/v2/'' @ repo @ ''/nix-cache/blobs/uploads/'')"

definition tags_url :: "registry_endpoint \<Rightarrow> string \<Rightarrow> string" where
  "tags_url e repo = api_url e (''/v2/'' @ repo @ ''/nix-cache/tags/list'')"

definition with_digest :: "string \<Rightarrow> string \<Rightarrow> string" where
  "with_digest url digest =
     url @ [if CHR ''?'' \<in> set url then CHR ''&'' else CHR ''?''] @ ''digest='' @ digest"

definition url_hex_digit :: "nat \<Rightarrow> char" where
  "url_hex_digit value = (if value \<le> 9 then char_of (48 + value) else char_of (65 + value - 10))"

definition unreserved :: "char \<Rightarrow> bool" where
  "unreserved c \<longleftrightarrow> is_ascii_digit c \<or> between 65 90 c \<or> between 97 122 c
     \<or> c = CHR ''-'' \<or> c = CHR ''.'' \<or> c = CHR ''_'' \<or> c = CHR ''~''"

definition encode_query_value :: "string \<Rightarrow> string" where
  "encode_query_value value = concat (map (\<lambda>b.
     if unreserved b then [b]
     else [CHR ''%'', url_hex_digit (code b div 16), url_hex_digit (code b mod 16)]) value)"

definition with_last_cursor :: "string \<Rightarrow> string \<Rightarrow> string" where
  "with_last_cursor url cursor = url @ ''?n=100&last='' @ encode_query_value cursor"

definition compute_sha256_digest :: "(bytes \<Rightarrow> bytes) \<Rightarrow> bytes \<Rightarrow> string" where
  "compute_sha256_digest H bs = ''sha256:'' @ concat (map hex_byte (H bs))"

section \<open>Decoding a query value\<close>

text \<open>
  What a server does with a query value (RFC 3986): \<open>%\<close> and two upper-case hexadecimal digits stand
  for a byte, every other character for itself.
\<close>

definition url_hex_value :: "char \<Rightarrow> nat" where
  "url_hex_value c = (if is_ascii_digit c then code c - 48 else code c - 55)"

fun decode_query_value :: "string \<Rightarrow> string" where
  "decode_query_value (c # a # b # s) =
     (if c = CHR ''%'' then char_of (16 * url_hex_value a + url_hex_value b) # decode_query_value s
      else c # decode_query_value (a # b # s))"
| "decode_query_value (c # s) = c # decode_query_value s"
| "decode_query_value [] = []"

lemma unreserved_not_percent: "unreserved c \<Longrightarrow> c \<noteq> CHR ''%''"
  by (auto simp: unreserved_def is_ascii_digit_def between_def)

lemma decode_plain: "c \<noteq> CHR ''%'' \<Longrightarrow> decode_query_value (c # s) = c # decode_query_value s"
  by (cases s; cases "tl s") simp_all

lemma url_hex_value_digit: "n < 16 \<Longrightarrow> url_hex_value (url_hex_digit n) = n"
  by (auto simp: url_hex_value_def url_hex_digit_def is_ascii_digit_def between_def)

lemma encode_query_Cons:
  "encode_query_value (c # s) =
     (if unreserved c then [c] else [CHR ''%'', url_hex_digit (code c div 16), url_hex_digit (code c mod 16)])
     @ encode_query_value s"
  by (simp add: encode_query_value_def)

lemma url_hex_digit_unreserved: "n < 16 \<Longrightarrow> unreserved (url_hex_digit n)"
  by (auto simp: url_hex_digit_def unreserved_def is_ascii_digit_def between_def)

lemma code_nibbles: "code c div 16 < 16" "code c mod 16 < 16" "16 * (code c div 16) + code c mod 16 = code c"
  using code_less_256 [of c] by (auto intro: less_mult_imp_div_less)

lemma decode_encode_query:
  "decode_query_value (encode_query_value s) = s
   \<and> list_all (\<lambda>c. unreserved c \<or> c = CHR ''%'') (encode_query_value s)"
proof (induction s)
  case Nil
  then show ?case by (simp add: encode_query_value_def)
next
  case (Cons c s)
  show ?case
  proof (cases "unreserved c")
    case True
    then show ?thesis using Cons by (simp add: encode_query_Cons decode_plain unreserved_not_percent)
  next
    case False
    then show ?thesis using Cons code_nibbles [of c]
      by (simp add: encode_query_Cons url_hex_value_digit url_hex_digit_unreserved)
  qed
qed

text \<open>
  A query value reads back as the bytes it was made from, and contains only characters that
  have no meaning of their own in a query: a pagination cursor reaches the registry unchanged.
\<close>

theorem query_value_roundtrip:
  "decode_query_value (encode_query_value s) = s
   \<and> list_all (\<lambda>c. unreserved c \<or> c = CHR ''%'') (encode_query_value s)"
  by (rule decode_encode_query)

end
