(* ===== verification/Rust_Net.thy ===== *)
theory Rust_Net
  imports Rust_Str
begin

text \<open>
  The parser of IP addresses of the standard library (\<open>core::net::parser\<close>), as far as the program uses
  it: whether a text is an IPv6 address, and whether it is a loopback or unspecified address. A
  reader takes the rest of the input and returns what it read with what is left, or \<open>None\<close>, in which
  case the input is left as it was.
\<close>

type_synonym 'a reader = "string \<Rightarrow> ('a \<times> string) option"

definition radix_digit :: "nat \<Rightarrow> char \<Rightarrow> nat option" where
  "radix_digit radix c =
     (let d = (if is_ascii_digit c then code c - 48
               else if between 97 122 c then code c - 87
               else if between 65 90 c then code c - 55
               else 36)
      in if d < radix then Some d else None)"

fun read_digits :: "nat \<Rightarrow> nat \<Rightarrow> nat \<Rightarrow> nat \<Rightarrow> nat \<Rightarrow> string \<Rightarrow> (nat \<times> nat \<times> string) option" where
  "read_digits radix max_digits bound result digit_count [] = Some (result, digit_count, [])"
| "read_digits radix max_digits bound result digit_count (c # s) =
     (case radix_digit radix c of
        None \<Rightarrow> Some (result, digit_count, c # s)
      | Some d \<Rightarrow>
          if digit_count + 1 > max_digits \<or> result * radix + d \<ge> bound then None
          else read_digits radix max_digits bound (result * radix + d) (digit_count + 1) s)"

definition read_number :: "nat \<Rightarrow> nat \<Rightarrow> bool \<Rightarrow> nat \<Rightarrow> nat reader" where
  "read_number radix max_digits allow_zero_prefix bound s =
     (case read_digits radix max_digits bound 0 0 s of
        None \<Rightarrow> None
      | Some (result, digit_count, rest) \<Rightarrow>
          if digit_count = 0 then None
          else if \<not> allow_zero_prefix \<and> take 1 s = ''0'' \<and> digit_count > 1 then None
          else Some (result, rest))"

definition read_given_char :: "char \<Rightarrow> unit reader" where
  "read_given_char c s = (case s of [] \<Rightarrow> None | d # t \<Rightarrow> if d = c then Some ((), t) else None)"

definition read_separator :: "char \<Rightarrow> nat \<Rightarrow> 'a reader \<Rightarrow> 'a reader" where
  "read_separator sep index inner s =
     (if index > 0 then (case read_given_char sep s of None \<Rightarrow> None | Some (_, t) \<Rightarrow> inner t) else inner s)"

fun read_octets :: "nat \<Rightarrow> nat \<Rightarrow> nat list reader" where
  "read_octets index 0 s = Some ([], s)"
| "read_octets index (Suc n) s =
     (case read_separator (CHR ''.'') index (read_number 10 3 False 256) s of
        None \<Rightarrow> None
      | Some (octet, t) \<Rightarrow> map_option (\<lambda>(octets, u). (octet # octets, u)) (read_octets (index + 1) n t))"

definition read_ipv4_addr :: "nat list reader" where
  "read_ipv4_addr s = read_octets 0 4 s"

text \<open>
  The groups of an IPv6 address, up to a number of them, the last two of which may be written as an
  IPv4 address; the flag says whether they were. \<open>i\<close> groups have been read before.
\<close>

fun read_groups :: "nat \<Rightarrow> nat \<Rightarrow> string \<Rightarrow> nat list \<times> bool \<times> string" where
  "read_groups i 0 s = ([], False, s)"
| "read_groups i (Suc n) s =
     (case (if n > 0 then read_separator (CHR '':'') i read_ipv4_addr s else None) of
        Some (octets, t) \<Rightarrow>
          ([octets ! 0 * 256 + octets ! 1, octets ! 2 * 256 + octets ! 3], True, t)
      | None \<Rightarrow>
          (case read_separator (CHR '':'') i (read_number 16 4 True 65536) s of
             None \<Rightarrow> ([], False, s)
           | Some (piece, t) \<Rightarrow>
               (case read_groups (i + 1) n t of (groups, v4, u) \<Rightarrow> (piece # groups, v4, u))))"

definition read_ipv6_addr :: "nat list reader" where
  "read_ipv6_addr s =
     (case read_groups 0 8 s of (front, front_ipv4, t) \<Rightarrow>
        if length front = 8 then Some (front, t)
        else if front_ipv4 then None
        else (case read_given_char (CHR '':'') t of
            None \<Rightarrow> None
          | Some (_, t1) \<Rightarrow> (case read_given_char (CHR '':'') t1 of
              None \<Rightarrow> None
            | Some (_, t2) \<Rightarrow> (case read_groups 0 (8 - (length front + 1)) t2 of
                (back, _, u) \<Rightarrow> Some (front @ replicate (8 - length front - length back) 0 @ back, u)))))"

text \<open>\<open>parse_with\<close>: the whole input has to be read.\<close>

definition parse_all :: "'a reader \<Rightarrow> string \<Rightarrow> 'a option" where
  "parse_all reader s = (case reader s of Some (x, []) \<Rightarrow> Some x | _ \<Rightarrow> None)"

datatype ip_addr = V4 "nat list" | V6 "nat list"

definition read_ip_addr :: "ip_addr reader" where
  "read_ip_addr s = (case read_ipv4_addr s of
     Some (octets, t) \<Rightarrow> Some (V4 octets, t)
   | None \<Rightarrow> map_option (\<lambda>(groups, t). (V6 groups, t)) (read_ipv6_addr s))"

definition is_ipv6 :: "string \<Rightarrow> bool" where
  "is_ipv6 s \<longleftrightarrow> parse_all read_ipv6_addr s \<noteq> None"

fun is_loopback :: "ip_addr \<Rightarrow> bool" where
  "is_loopback (V4 octets) = (octets ! 0 = 127)"
| "is_loopback (V6 groups) = (groups = [0, 0, 0, 0, 0, 0, 0, 1])"

fun is_unspecified :: "ip_addr \<Rightarrow> bool" where
  "is_unspecified (V4 octets) = (octets = [0, 0, 0, 0])"
| "is_unspecified (V6 groups) = (groups = [0, 0, 0, 0, 0, 0, 0, 0])"

text \<open>A text that starts with neither a hexadecimal digit nor a colon is no IP address.\<close>

lemma read_number_none: "radix_digit radix c = None \<Longrightarrow> read_number radix max_digits z bound (c # s) = None"
  by (simp add: read_number_def)

lemma not_ip_addr:
  assumes "radix_digit 16 c = None" "c \<noteq> CHR '':''"
  shows "parse_all read_ip_addr (c # s) = None"
proof -
  have ten: "radix_digit 10 c = None" using assms(1) by (auto simp: radix_digit_def Let_def split: if_splits)
  have "read_octets 0 (Suc 3) (c # s) = None" unfolding read_octets.simps(2) by (simp add: read_separator_def read_number_none [OF ten])
  then have v4: "read_ipv4_addr (c # s) = None" by (simp add: read_ipv4_addr_def)
  then have "read_groups 0 (Suc 7) (c # s) = ([], False, c # s)"
    unfolding read_groups.simps(2) by (simp add: read_separator_def read_number_none [OF assms(1)])
  then show ?thesis
    using assms(2) by (simp add: parse_all_def read_ip_addr_def v4 read_ipv6_addr_def read_given_char_def)
qed

end
