(* ===== verification/Oci_Endpoint_Parse.thy ===== *)
theory Oci_Endpoint_Parse
  imports Oci_Endpoint Rust_Net
begin

text \<open>
  Reading a registry endpoint and resolving the \<open>Location\<close> of a response:
  \<^verbatim>\<open>crates/nixcache-oci/src/backend/endpoint.rs\<close>. The parser of URIs (\<open>http::Uri\<close>) is an argument, from
  a text to the text of an error or to the parts of the URI that the program reads.
\<close>

record http_uri =
  uri_scheme :: "string option"
  uri_authority :: "string option"
  uri_host :: string
  uri_path :: string
  uri_query :: "string option"

type_synonym uri_parser = "string \<Rightarrow> string + http_uri"

section \<open>Text\<close>

text \<open>The text before and after the first occurrence of a pattern (\<open>str::find\<close> and the slices around it).\<close>

fun split_str :: "string \<Rightarrow> string \<Rightarrow> (string \<times> string) option" where
  "split_str p [] = (if p = [] then Some ([], []) else None)"
| "split_str p (c # s) =
     (if starts_with p (c # s) then Some ([], drop (length p) (c # s))
      else map_option (\<lambda>(a, b). (c # a, b)) (split_str p s))"

definition rsplit_once :: "char \<Rightarrow> string \<Rightarrow> (string \<times> string) option" where
  "rsplit_once c s = map_option (\<lambda>(a, b). (rev b, rev a)) (split_once c (rev s))"

definition is_ascii_whitespace :: "char \<Rightarrow> bool" where
  "is_ascii_whitespace c \<longleftrightarrow> code c \<in> {9, 10, 12, 13, 32}"

definition decimal_value :: "string \<Rightarrow> nat" where
  "decimal_value s = foldl (\<lambda>n c. 10 * n + (code c - 48)) 0 s"

section \<open>Parsing\<close>

fun show_endpoint_error :: "registry_endpoint_error \<Rightarrow> string" where
  "show_endpoint_error EndpointEmpty = ''registry endpoint is empty''"
| "show_endpoint_error (UnsupportedScheme input scheme) =
     ''registry endpoint '' @ [CHR 0x27] @ input @ [CHR 0x27] @ '' has unsupported scheme '' @ [CHR 0x27] @ scheme @ [CHR 0x27]"
| "show_endpoint_error (MissingAuthority input) = ''registry endpoint '' @ [CHR 0x27] @ input @ [CHR 0x27] @ '' has no authority''"
| "show_endpoint_error (UserInfo input) = ''registry endpoint '' @ [CHR 0x27] @ input @ [CHR 0x27] @ '' contains userinfo''"
| "show_endpoint_error (QueryOrFragment input) =
     ''registry endpoint '' @ [CHR 0x27] @ input @ [CHR 0x27] @ '' contains a query or fragment''"
| "show_endpoint_error (InvalidAuthority input details) =
     ''registry endpoint '' @ [CHR 0x27] @ input @ [CHR 0x27] @ '' has invalid authority: '' @ details"
| "show_endpoint_error (InvalidLocation input details) =
     ''registry location '' @ [CHR 0x27] @ input @ [CHR 0x27] @ '' is invalid: '' @ details"

definition parse_scheme :: "string \<Rightarrow> string \<Rightarrow> registry_endpoint_error + registry_scheme" where
  "parse_scheme input scheme =
     (if to_ascii_lowercase scheme = ''http'' then Inr Http
      else if to_ascii_lowercase scheme = ''https'' then Inr Https
      else Inl (UnsupportedScheme input scheme))"

definition parse_port :: "string \<Rightarrow> string \<Rightarrow> registry_endpoint_error + u16 option" where
  "parse_port input port =
     (if port = [] \<or> \<not> list_all is_ascii_digit port then Inl (InvalidAuthority input ''port must be a decimal number'')
      else if decimal_value port \<ge> 2 ^ 16 then Inl (InvalidAuthority input ''port is outside the valid range'')
      else Inr (Some (of_nat (decimal_value port))))"

definition bracketed_authority :: "string \<Rightarrow> string \<Rightarrow> registry_endpoint_error + string \<times> u16 option" where
  "bracketed_authority input authority =
     result_bind (ok_or (InvalidAuthority input ''unterminated IPv6 literal'') (split_once (CHR '']'') (tl authority))) (\<lambda>(host, suffix).
     if \<not> is_ipv6 host then Inl (InvalidAuthority input ''invalid IPv6 literal'')
     else
       result_bind
         (if suffix = [] then Inr None
          else result_bind (ok_or (InvalidAuthority input ''characters after IPv6 literal must be a port'') (strip_prefix '':'' suffix))
            (parse_port input)) (\<lambda>port.
       Inr (to_ascii_lowercase host, port)))"

definition plain_authority :: "string \<Rightarrow> string \<Rightarrow> registry_endpoint_error + string \<times> u16 option" where
  "plain_authority input authority =
     (if contains_char (CHR ''['') authority \<or> contains_char (CHR '']'') authority
        \<or> length (filter (\<lambda>c. c = CHR '':'') authority) > 1
      then Inl (InvalidAuthority input ''IPv6 literals must be enclosed in brackets'')
      else case rsplit_once (CHR '':'') authority of
        Some (host, port) \<Rightarrow> result_bind (parse_port input port) (\<lambda>p. Inr (to_ascii_lowercase host, p))
      | None \<Rightarrow> Inr (to_ascii_lowercase authority, None))"

definition parse_authority :: "string \<Rightarrow> string \<Rightarrow> registry_endpoint_error + string \<times> u16 option" where
  "parse_authority input authority =
     (if authority = [] then Inl (MissingAuthority input)
      else result_bind
        (if starts_with ''['' authority then bracketed_authority input authority else plain_authority input authority) (\<lambda>(host, port).
      if host = [] \<or> list_ex (\<lambda>c. is_ascii_whitespace c \<or> c = CHR ''/'' \<or> c = CHR ''?'' \<or> c = CHR ''#'') host
      then Inl (InvalidAuthority input ''host is empty or contains an invalid character'')
      else Inr (host, port)))"

definition is_local_host :: "string \<Rightarrow> bool" where
  "is_local_host host \<longleftrightarrow> host = ''localhost''
     \<or> is_some_and (\<lambda>address. is_loopback address \<or> is_unspecified address) (parse_all read_ip_addr host)"

definition parse_with_scheme ::
  "uri_parser \<Rightarrow> string \<Rightarrow> registry_scheme \<Rightarrow> string \<Rightarrow> registry_endpoint_error + registry_endpoint" where
  "parse_with_scheme parse_uri input scheme authority_and_path =
     (if authority_and_path = [] \<or> starts_with ''/'' authority_and_path then Inl (MissingAuthority input)
      else
        result_bind (map_err (InvalidAuthority input) (parse_uri (scheme_as_str scheme @ ''://'' @ authority_and_path))) (\<lambda>uri.
        result_bind (ok_or (MissingAuthority input) (uri_authority uri)) (\<lambda>authority.
        if contains_char (CHR ''@'') authority then Inl (UserInfo input)
        else if uri_query uri \<noteq> None then Inl (QueryOrFragment input)
        else
          result_bind (parse_authority input authority) (\<lambda>(host, port).
          Inr \<lparr>ep_scheme = scheme, ep_host = host, ep_port = port, ep_authority = format_authority host port,
               ep_base_path = normalize_base_path (uri_path uri)\<rparr>))))"

definition endpoint_parse :: "uri_parser \<Rightarrow> string \<Rightarrow> registry_endpoint_error + registry_endpoint" where
  "endpoint_parse parse_uri input =
     (let trimmed = trim input in
      if trimmed = [] then Inl EndpointEmpty
      else if contains_char (CHR ''#'') trimmed then Inl (QueryOrFragment trimmed)
      else case split_str ''://'' trimmed of
        Some (raw_scheme, rest) \<Rightarrow>
          result_bind (parse_scheme trimmed raw_scheme) (\<lambda>scheme. parse_with_scheme parse_uri trimmed scheme rest)
      | None \<Rightarrow>
          result_bind (parse_with_scheme parse_uri trimmed Https trimmed) (\<lambda>provisional.
          if is_local_host (ep_host provisional) then parse_with_scheme parse_uri trimmed Http trimmed
          else Inr provisional))"

definition endpoint_display :: "registry_endpoint \<Rightarrow> string" where
  "endpoint_display e = ep_origin e @ ep_base_path e"

definition service_name :: "registry_endpoint \<Rightarrow> string" where
  "service_name e = ep_authority e"

section \<open>Locations\<close>

definition absolute_location :: "uri_parser \<Rightarrow> string \<Rightarrow> string \<Rightarrow> string \<Rightarrow> registry_endpoint_error + string" where
  "absolute_location parse_uri location raw_scheme rest =
     result_bind (map_err (InvalidLocation location \<circ> show_endpoint_error) (parse_scheme location raw_scheme)) (\<lambda>scheme.
     result_bind (map_err (InvalidLocation location) (parse_uri location)) (\<lambda>uri.
     result_bind (ok_or (InvalidLocation location ''absolute location has no authority'') (uri_authority uri)) (\<lambda>authority.
     if contains_char (CHR ''@'') authority then Inl (InvalidLocation location ''userinfo is not allowed'')
     else result_bind (map_err (InvalidLocation location \<circ> show_endpoint_error) (parse_authority location authority)) (\<lambda>_.
       Inr (scheme_as_str scheme @ ''://'' @ rest)))))"

definition relative_location :: "uri_parser \<Rightarrow> registry_endpoint \<Rightarrow> string \<Rightarrow> registry_endpoint_error + string" where
  "relative_location parse_uri e location =
     (let resolved = (if starts_with ''/'' location then ep_origin e @ location
                      else ep_origin e @ ep_base_path e @ ''/'' @ trim_start_slashes location)
      in result_bind (map_err (InvalidLocation location) (parse_uri resolved)) (\<lambda>_. Inr resolved))"

definition resolve_location :: "uri_parser \<Rightarrow> registry_endpoint \<Rightarrow> string \<Rightarrow> registry_endpoint_error + string" where
  "resolve_location parse_uri e location0 =
     (let location = trim location0 in
      if location = [] then Inl (InvalidLocation location ''location is empty'')
      else if contains_char (CHR ''#'') location
      then Inl (InvalidLocation location ''fragments are not valid request targets'')
      else case split_str ''://'' location of
        Some (raw_scheme, rest) \<Rightarrow> absolute_location parse_uri location raw_scheme rest
      | None \<Rightarrow>
          if starts_with ''//'' location
          then Inl (InvalidLocation location ''network-path references are not supported'')
          else relative_location parse_uri e location)"

section \<open>What is parsed\<close>

text \<open>
  A normal endpoint: the authority is made from host and port, the host is in lower case, and the base
  path is empty or starts with the only slash at its ends.
\<close>

definition normal_base_path :: "string \<Rightarrow> bool" where
  "normal_base_path p \<longleftrightarrow> p = [] \<or> (\<exists>q. p = CHR ''/'' # q \<and> q \<noteq> [] \<and> hd q \<noteq> CHR ''/'' \<and> last q \<noteq> CHR ''/'')"

definition normal_endpoint :: "registry_endpoint \<Rightarrow> bool" where
  "normal_endpoint e \<longleftrightarrow>
     ep_authority e = format_authority (ep_host e) (ep_port e) \<and> ep_host e \<noteq> []
     \<and> to_ascii_lowercase (ep_host e) = ep_host e
     \<and> \<not> list_ex (\<lambda>c. is_ascii_whitespace c \<or> c = CHR ''/'' \<or> c = CHR ''?'' \<or> c = CHR ''#'') (ep_host e)
     \<and> normal_base_path (ep_base_path e)"

lemma hd_trim_start_slashes: "trim_start_slashes s \<noteq> [] \<Longrightarrow> hd (trim_start_slashes s) \<noteq> CHR ''/''"
  using hd_dropWhile [of "\<lambda>c. c = CHR ''/''" s] by (simp add: trim_start_slashes_def)

lemma hd_trim_slashes:
  assumes "trim_slashes s \<noteq> []"
  shows "hd (trim_slashes s) \<noteq> CHR ''/''" "last (trim_slashes s) \<noteq> CHR ''/''"
proof -
  let ?t = "trim_start_slashes s" and ?u = "trim_start_slashes (rev (trim_start_slashes s))"
  have u: "?u \<noteq> []" using assms by (simp add: trim_slashes_def)
  then show "last (trim_slashes s) \<noteq> CHR ''/''"
    using hd_trim_start_slashes [OF u] by (simp add: trim_slashes_def last_rev)
  obtain k where "?u = drop k (rev ?t)" using dropWhile_eq_drop by (fastforce simp: trim_start_slashes_def)
  then have "rev ?u = take (length ?t - k) ?t" by (simp add: rev_drop)
  moreover have "hd (take n t) = hd t" if "take n t \<noteq> []" for n and t :: string using that by (cases n; cases t) auto
  ultimately have "hd (rev ?u) = hd ?t" "?t \<noteq> []" using u by (metis rev_is_Nil_conv, fastforce)
  then show "hd (trim_slashes s) \<noteq> CHR ''/''" using hd_trim_start_slashes [of s] by (simp add: trim_slashes_def)
qed

lemma normalize_base_path_normal: "normal_base_path (normalize_base_path p)"
  using hd_trim_slashes [of p] by (auto simp: normalize_base_path_def normal_base_path_def Let_def)

lemma lowercase_idem: "to_ascii_lowercase (to_ascii_lowercase s) = to_ascii_lowercase s"
  by (auto simp: to_ascii_lowercase_def char_to_ascii_lowercase_def is_ascii_uppercase_def between_def)

lemma authority_lower:
  "bracketed_authority input a = Inr (host, port) \<Longrightarrow> to_ascii_lowercase host = host"
  "plain_authority input a = Inr (host, port) \<Longrightarrow> to_ascii_lowercase host = host"
  by (auto simp: bracketed_authority_def plain_authority_def lowercase_idem result_simps split: if_splits option.splits)

lemma parse_authority_normal:
  assumes "parse_authority input a = Inr (host, port)"
  shows "host \<noteq> [] \<and> to_ascii_lowercase host = host
    \<and> \<not> list_ex (\<lambda>c. is_ascii_whitespace c \<or> c = CHR ''/'' \<or> c = CHR ''?'' \<or> c = CHR ''#'') host"
  using assms by (auto simp: parse_authority_def result_simps dest: authority_lower split: if_splits)

lemma parse_with_scheme_normal:
  "parse_with_scheme parse_uri input scheme rest = Inr e \<Longrightarrow> normal_endpoint e"
  using parse_authority_normal
  by (fastforce simp: parse_with_scheme_def normal_endpoint_def normalize_base_path_normal result_simps split: if_splits)

lemma endpoint_parse_normal: "endpoint_parse parse_uri input = Inr e \<Longrightarrow> normal_endpoint e"
  by (auto simp: endpoint_parse_def Let_def result_simps dest: parse_with_scheme_normal split: if_splits option.splits prod.splits)

lemma split_str_Some: "split_str p s = Some (a, b) \<Longrightarrow> s = a @ p @ b"
  by (induction p s arbitrary: a rule: split_str.induct) (auto simp: starts_with_iff split: if_splits)

lemma slash_after_origin:
  assumes "normal_endpoint e"
  shows "\<exists>path. ep_base_path e @ ''/'' @ rest = CHR ''/'' # path"
  using assms by (auto simp: normal_endpoint_def normal_base_path_def)

text \<open>
  C37. An upload goes on at the registry: for an endpoint that was parsed, a location resolves to a
  URL on the origin of the registry, whose host part ends there because a slash follows, unless the
  location is itself an absolute URL, which keeps its text and is \<open>http\<close> or \<open>https\<close>. This holds
  for every URI parser.
\<close>

theorem location_origin:
  assumes "endpoint_parse parse_uri registry = Inr e" "resolve_location parse_uri e location = Inr url"
  shows "(\<exists>path. url = ep_origin e @ CHR ''/'' # path)
    \<or> (\<exists>raw scheme rest. trim location = raw @ ''://'' @ rest \<and> to_ascii_lowercase raw = scheme_as_str scheme
        \<and> url = scheme_as_str scheme @ ''://'' @ rest)"
proof (cases "split_str ''://'' (trim location)")
  case None
  then have "relative_location parse_uri e (trim location) = Inr url"
    using assms(2) by (simp add: resolve_location_def Let_def split: if_splits)
  then show ?thesis
    using slash_after_origin [OF endpoint_parse_normal [OF assms(1)], of "trim_start_slashes (trim location)"]
    by (auto simp: relative_location_def Let_def result_simps starts_with_iff split: if_splits)
next
  case (Some p)
  obtain raw rest where p: "p = (raw, rest)" by force
  have "absolute_location parse_uri (trim location) raw rest = Inr url"
    using assms(2) Some p by (simp add: resolve_location_def Let_def split: if_splits)
  then obtain scheme where "parse_scheme (trim location) raw = Inr scheme" "url = scheme_as_str scheme @ ''://'' @ rest"
    by (auto simp: absolute_location_def result_simps split: if_splits)
  moreover from this(1) have "to_ascii_lowercase raw = scheme_as_str scheme" by (auto simp: parse_scheme_def split: if_splits)
  ultimately show ?thesis using split_str_Some [of "''://''" "trim location" raw rest] Some p by blast
qed

text \<open>A stand-in for the URI parser: it accepts every text, as a URI with the host \<open>r\<close>.\<close>

definition sample_uri_parser :: uri_parser where
  "sample_uri_parser s = Inr \<lparr>uri_scheme = Some ''https'', uri_authority = Some ''r'', uri_host = ''r'', uri_path = ''/'', uri_query = None\<rparr>"

definition sample_registry :: registry_endpoint where
  "sample_registry = \<lparr>ep_scheme = Https, ep_host = ''r'', ep_port = None, ep_authority = ''r'', ep_base_path = []\<rparr>"

lemma sample_registry_parsed: "endpoint_parse sample_uri_parser ''r'' = Inr sample_registry"
proof -
  have [simp]: "trim ''r'' = ''r''" "to_ascii_lowercase ''r'' = ''r''" "\<not> is_ascii_whitespace (CHR ''r'')"
    by code_simp+
  have [simp]: "parse_all read_ip_addr ''r'' = None"
    by (rule not_ip_addr) (simp_all add: radix_digit_def is_ascii_digit_def between_def)
  show ?thesis
    by (simp add: endpoint_parse_def parse_with_scheme_def sample_uri_parser_def sample_registry_def contains_char_def
        starts_with_def parse_authority_def plain_authority_def rsplit_once_def format_authority_def
        normalize_base_path_def trim_slashes_def trim_start_slashes_def is_local_host_def Let_def)
qed

lemma location_origin_witness: "\<exists>path. ''https://r/x'' = ep_origin sample_registry @ CHR ''/'' # path"
proof -
  have "trim ''/x'' = ''/x''" by code_simp
  then have "resolve_location sample_uri_parser sample_registry ''/x'' = Inr ''https://r/x''"
    by (simp add: resolve_location_def contains_char_def starts_with_def relative_location_def sample_uri_parser_def
        sample_registry_def ep_origin_def)
  from location_origin [OF sample_registry_parsed this] \<open>trim ''/x'' = ''/x''\<close> show ?thesis
    by (auto simp: Cons_eq_append_conv)
qed

text \<open>A location with a scheme in its query is taken for an absolute one and is refused.\<close>

lemma location_with_url_in_query_refused:
  "resolve_location parse_uri e ''/u?next=https://a'' =
     Inl (InvalidLocation ''/u?next=https://a'' (show_endpoint_error (UnsupportedScheme ''/u?next=https://a'' ''/u?next=https'')))"
proof -
  have "trim ''/u?next=https://a'' = ''/u?next=https://a''" by code_simp
  moreover have "to_ascii_lowercase ''/u?next=https'' = ''/u?next=https''" by code_simp
  ultimately show ?thesis
    by (simp add: resolve_location_def contains_char_def starts_with_def absolute_location_def parse_scheme_def)
qed

end
