(* ===== verification/Oci_Driver.thy ===== *)
theory Oci_Driver
  imports Oci_Endpoint_Parse
begin

text \<open>
  The kinds of registries and what the program knows of each: \<^verbatim>\<open>backend/kind.rs\<close> and
  \<^verbatim>\<open>backend/driver.rs\<close>. The six drivers have no state, so a driver is its constructor and an operation
  is one function with a case for each driver. \<open>str::to_lowercase\<close> follows the tables of Unicode; it is
  the argument \<open>lower\<close>.
\<close>

section \<open>Kinds and capabilities\<close>

datatype manifest_cas_support = IfMatch | CasSupportUnsupported

datatype blob_upload_strategy = FixedTwoStepPut | PreferMonolithicPost | ResumableChunkedPatch

datatype package_deletion_support = NativeComplete | TaggedGraphOnly | PackageDeletionUnsupported

datatype registry_deletion_strategy =
    GitHubPackagesRestApi
  | DockerHubRestApi
  | AwsEcrApi
  | StandardOciDelete
  | DeletionUnsupported

record registry_capabilities =
  cap_supports_chunked_patch :: bool
  cap_supports_monolithic_post_1rtt :: bool
  cap_manifest_cas_support :: manifest_cas_support
  cap_requires_library_namespace_expansion :: bool
  cap_fixed_upload_strategy :: blob_upload_strategy
  cap_deletion_strategy :: registry_deletion_strategy
  cap_supports_blob_physical_deletion :: bool
  cap_package_deletion_support :: package_deletion_support

fun kind_display :: "registry_kind \<Rightarrow> string" where
  "kind_display Ghcr = ''ghcr''"
| "kind_display DockerHub = ''docker_hub''"
| "kind_display AwsEcr = ''aws_ecr''"
| "kind_display GcpArtifactRegistry = ''gcp_artifact_registry''"
| "kind_display AzureAcr = ''azure_acr''"
| "kind_display GenericOci = ''generic_oci''"

definition clean_name :: "(string \<Rightarrow> string) \<Rightarrow> string \<Rightarrow> string" where
  "clean_name lower s = map (\<lambda>c. if c = CHR ''-'' then CHR ''_'' else c) (lower (trim s))"

definition kind_from_str :: "(string \<Rightarrow> string) \<Rightarrow> string \<Rightarrow> string + registry_kind" where
  "kind_from_str lower s =
     (let clean = clean_name lower s in
      if clean \<in> set [''ghcr'', ''ghcr.io'', ''github''] then Inr Ghcr
      else if clean \<in> set [''docker'', ''dockerhub'', ''docker_hub'', ''docker.io''] then Inr DockerHub
      else if clean \<in> set [''aws'', ''ecr'', ''aws_ecr'', ''awsecr''] then Inr AwsEcr
      else if clean \<in> set [''gcp'', ''gar'', ''gcr'', ''gcp_artifact_registry'', ''artifactregistry''] then Inr GcpArtifactRegistry
      else if clean \<in> set [''azure'', ''acr'', ''azure_acr'', ''azureacr''] then Inr AzureAcr
      else if clean \<in> set [''generic'', ''generic_oci'', ''genericoci'', ''harbor'', ''zot'', ''quay''] then Inr GenericOci
      else Inl (''Unknown registry kind: '' @ [CHR 0x27] @ s @ [CHR 0x27]))"

definition kind_detect :: "uri_parser \<Rightarrow> string \<Rightarrow> registry_kind" where
  "kind_detect parse_uri registry =
     (case endpoint_parse parse_uri registry of
        Inl _ \<Rightarrow> GenericOci
      | Inr endpoint \<Rightarrow>
          let host = ep_host endpoint in
          if host = ''ghcr.io'' then Ghcr
          else if host = ''docker.io'' \<or> host = ''index.docker.io'' \<or> host = ''registry-1.docker.io'' then DockerHub
          else if contains_str ''.dkr.ecr.'' host \<and> ends_with ''.amazonaws.com'' host then AwsEcr
          else if ends_with ''-docker.pkg.dev'' host \<or> host = ''gcr.io'' then GcpArtifactRegistry
          else if ends_with ''.azurecr.io'' host then AzureAcr
          else GenericOci)"

fun upload_strategy_display :: "blob_upload_strategy \<Rightarrow> string" where
  "upload_strategy_display FixedTwoStepPut = ''fixed_two_step_put''"
| "upload_strategy_display PreferMonolithicPost = ''prefer_monolithic_post''"
| "upload_strategy_display ResumableChunkedPatch = ''resumable_chunked_patch''"

definition upload_strategy_from_str :: "(string \<Rightarrow> string) \<Rightarrow> string \<Rightarrow> string + blob_upload_strategy" where
  "upload_strategy_from_str lower s =
     (let clean = clean_name lower s in
      if clean \<in> set [''fixed_two_step_put'', ''two_step_put'', ''twostep''] then Inr FixedTwoStepPut
      else if clean \<in> set [''prefer_monolithic_post'', ''monolithic_post'', ''monolithic''] then Inr PreferMonolithicPost
      else if clean \<in> set [''resumable_chunked_patch'', ''chunked_patch'', ''chunked''] then Inr ResumableChunkedPatch
      else Inl (''Unknown blob upload strategy: '' @ [CHR 0x27] @ s @ [CHR 0x27]))"

fun deletion_strategy_display :: "registry_deletion_strategy \<Rightarrow> string" where
  "deletion_strategy_display GitHubPackagesRestApi = ''github_packages_rest_api''"
| "deletion_strategy_display DockerHubRestApi = ''docker_hub_rest_api''"
| "deletion_strategy_display AwsEcrApi = ''aws_ecr_api''"
| "deletion_strategy_display StandardOciDelete = ''standard_oci_delete''"
| "deletion_strategy_display DeletionUnsupported = ''unsupported''"

definition deletion_strategy_from_str :: "(string \<Rightarrow> string) \<Rightarrow> string \<Rightarrow> string + registry_deletion_strategy" where
  "deletion_strategy_from_str lower s =
     (let clean = clean_name lower s in
      if clean \<in> set [''github_packages_rest_api'', ''ghcr'', ''github''] then Inr GitHubPackagesRestApi
      else if clean \<in> set [''docker_hub_rest_api'', ''dockerhub'', ''docker''] then Inr DockerHubRestApi
      else if clean \<in> set [''aws_ecr_api'', ''ecr'', ''aws''] then Inr AwsEcrApi
      else if clean \<in> set [''standard_oci_delete'', ''standard'', ''oci''] then Inr StandardOciDelete
      else if clean \<in> set [''unsupported'', ''none''] then Inr DeletionUnsupported
      else Inl (''Unknown registry deletion strategy: '' @ [CHR 0x27] @ s @ [CHR 0x27]))"

section \<open>Drivers\<close>

datatype oci_driver = GhcrDriver | DockerHubDriver | AwsEcrDriver | GcpArtifactRegistryDriver | AzureAcrDriver | GenericOciDriver

fun driver_kind :: "oci_driver \<Rightarrow> registry_kind" where
  "driver_kind GhcrDriver = Ghcr"
| "driver_kind DockerHubDriver = DockerHub"
| "driver_kind AwsEcrDriver = AwsEcr"
| "driver_kind GcpArtifactRegistryDriver = GcpArtifactRegistry"
| "driver_kind AzureAcrDriver = AzureAcr"
| "driver_kind GenericOciDriver = GenericOci"

fun driver_for_kind :: "registry_kind \<Rightarrow> oci_driver" where
  "driver_for_kind Ghcr = GhcrDriver"
| "driver_for_kind DockerHub = DockerHubDriver"
| "driver_for_kind AwsEcr = AwsEcrDriver"
| "driver_for_kind GcpArtifactRegistry = GcpArtifactRegistryDriver"
| "driver_for_kind AzureAcr = AzureAcrDriver"
| "driver_for_kind GenericOci = GenericOciDriver"

definition detect_driver :: "uri_parser \<Rightarrow> string \<Rightarrow> oci_driver" where
  "detect_driver parse_uri registry = driver_for_kind (kind_detect parse_uri registry)"

definition GHCR_CAPABILITIES :: registry_capabilities where
  "GHCR_CAPABILITIES = \<lparr>cap_supports_chunked_patch = False, cap_supports_monolithic_post_1rtt = False,
     cap_manifest_cas_support = CasSupportUnsupported, cap_requires_library_namespace_expansion = False,
     cap_fixed_upload_strategy = FixedTwoStepPut, cap_deletion_strategy = GitHubPackagesRestApi,
     cap_supports_blob_physical_deletion = False, cap_package_deletion_support = NativeComplete\<rparr>"

definition DOCKER_HUB_CAPABILITIES :: registry_capabilities where
  "DOCKER_HUB_CAPABILITIES = \<lparr>cap_supports_chunked_patch = True, cap_supports_monolithic_post_1rtt = True,
     cap_manifest_cas_support = IfMatch, cap_requires_library_namespace_expansion = True,
     cap_fixed_upload_strategy = PreferMonolithicPost, cap_deletion_strategy = DockerHubRestApi,
     cap_supports_blob_physical_deletion = False, cap_package_deletion_support = PackageDeletionUnsupported\<rparr>"

definition AWS_ECR_CAPABILITIES :: registry_capabilities where
  "AWS_ECR_CAPABILITIES = \<lparr>cap_supports_chunked_patch = False, cap_supports_monolithic_post_1rtt = True,
     cap_manifest_cas_support = CasSupportUnsupported, cap_requires_library_namespace_expansion = False,
     cap_fixed_upload_strategy = PreferMonolithicPost, cap_deletion_strategy = AwsEcrApi,
     cap_supports_blob_physical_deletion = False, cap_package_deletion_support = PackageDeletionUnsupported\<rparr>"

definition GCP_GAR_CAPABILITIES :: registry_capabilities where
  "GCP_GAR_CAPABILITIES = \<lparr>cap_supports_chunked_patch = True, cap_supports_monolithic_post_1rtt = True,
     cap_manifest_cas_support = IfMatch, cap_requires_library_namespace_expansion = False,
     cap_fixed_upload_strategy = PreferMonolithicPost, cap_deletion_strategy = StandardOciDelete,
     cap_supports_blob_physical_deletion = True, cap_package_deletion_support = TaggedGraphOnly\<rparr>"

definition AZURE_ACR_CAPABILITIES :: registry_capabilities where
  "AZURE_ACR_CAPABILITIES = \<lparr>cap_supports_chunked_patch = True, cap_supports_monolithic_post_1rtt = True,
     cap_manifest_cas_support = IfMatch, cap_requires_library_namespace_expansion = False,
     cap_fixed_upload_strategy = PreferMonolithicPost, cap_deletion_strategy = StandardOciDelete,
     cap_supports_blob_physical_deletion = True, cap_package_deletion_support = TaggedGraphOnly\<rparr>"

definition GENERIC_OCI_CAPABILITIES :: registry_capabilities where
  "GENERIC_OCI_CAPABILITIES = \<lparr>cap_supports_chunked_patch = True, cap_supports_monolithic_post_1rtt = True,
     cap_manifest_cas_support = CasSupportUnsupported, cap_requires_library_namespace_expansion = False,
     cap_fixed_upload_strategy = ResumableChunkedPatch, cap_deletion_strategy = StandardOciDelete,
     cap_supports_blob_physical_deletion = True, cap_package_deletion_support = TaggedGraphOnly\<rparr>"

fun driver_capabilities :: "oci_driver \<Rightarrow> registry_capabilities" where
  "driver_capabilities GhcrDriver = GHCR_CAPABILITIES"
| "driver_capabilities DockerHubDriver = DOCKER_HUB_CAPABILITIES"
| "driver_capabilities AwsEcrDriver = AWS_ECR_CAPABILITIES"
| "driver_capabilities GcpArtifactRegistryDriver = GCP_GAR_CAPABILITIES"
| "driver_capabilities AzureAcrDriver = AZURE_ACR_CAPABILITIES"
| "driver_capabilities GenericOciDriver = GENERIC_OCI_CAPABILITIES"

definition ghcr_endpoint :: "uri_parser \<Rightarrow> string \<Rightarrow> registry_endpoint_error + registry_endpoint" where
  "ghcr_endpoint parse_uri registry = endpoint_parse parse_uri (if trim registry = [] then ''ghcr.io'' else registry)"

definition docker_hub_endpoint :: "uri_parser \<Rightarrow> string \<Rightarrow> registry_endpoint_error + registry_endpoint" where
  "docker_hub_endpoint parse_uri registry =
     result_bind (endpoint_parse parse_uri (if trim registry = [] then ''registry-1.docker.io'' else registry)) (\<lambda>endpoint.
     if ep_host endpoint = ''docker.io'' \<or> ep_host endpoint = ''index.docker.io''
     then Inr (replace_host endpoint ''registry-1.docker.io'')
     else Inr endpoint)"

definition canonicalize_endpoint :: "uri_parser \<Rightarrow> oci_driver \<Rightarrow> string \<Rightarrow> registry_endpoint_error + registry_endpoint" where
  "canonicalize_endpoint parse_uri driver registry = (case driver of
     GhcrDriver \<Rightarrow> ghcr_endpoint parse_uri registry
   | DockerHubDriver \<Rightarrow> docker_hub_endpoint parse_uri registry
   | _ \<Rightarrow> endpoint_parse parse_uri registry)"

definition docker_hub_repository :: "(string \<Rightarrow> string) \<Rightarrow> string \<Rightarrow> string" where
  "docker_hub_repository lower repo =
     (let clean = lower (trim_slashes repo) in if \<not> contains_char (CHR ''/'') clean then ''library/'' @ clean else clean)"

definition canonicalize_repository :: "(string \<Rightarrow> string) \<Rightarrow> oci_driver \<Rightarrow> string \<Rightarrow> string" where
  "canonicalize_repository lower driver repo = (case driver of
     DockerHubDriver \<Rightarrow> docker_hub_repository lower repo
   | _ \<Rightarrow> lower (trim_slashes repo))"

definition format_auth_scope :: "(string \<Rightarrow> string) \<Rightarrow> oci_driver \<Rightarrow> string \<Rightarrow> bool \<Rightarrow> string" where
  "format_auth_scope lower driver repo write =
     (let canonical_repo = canonicalize_repository lower driver repo;
          target_repo = (if ends_with ''/nix-cache'' canonical_repo then canonical_repo else canonical_repo @ ''/nix-cache'');
          action = (if write then ''pull,push'' else ''pull'')
      in ''repository:'' @ target_repo @ '':'' @ action)"

definition default_basic_username :: "oci_driver \<Rightarrow> string option" where
  "default_basic_username driver = (case driver of
     GhcrDriver \<Rightarrow> Some ''token'' | AwsEcrDriver \<Rightarrow> Some ''AWS'' | _ \<Rightarrow> None)"

section \<open>Facts\<close>

text \<open>What is used of \<open>to_lowercase\<close>: it is idempotent, keeps ends that are no slashes, and goes character by character.\<close>

definition lowercasing :: "(string \<Rightarrow> string) \<Rightarrow> bool" where
  "lowercasing lower \<longleftrightarrow> (\<forall>s. lower (lower s) = lower s)
     \<and> (\<forall>s. lower s = [] \<longrightarrow> s = [])
     \<and> (\<forall>s. trim_slashes s = s \<longrightarrow> trim_slashes (lower s) = lower s)
     \<and> (\<forall>s. lower (''library/'' @ s) = ''library/'' @ lower s)"

lemma trim_slashes_keep:
  assumes "s \<noteq> [] \<Longrightarrow> hd s \<noteq> CHR ''/''" "s \<noteq> [] \<Longrightarrow> last s \<noteq> CHR ''/''"
  shows "trim_slashes s = s"
proof -
  have keep: "trim_start_slashes t = t" if "t \<noteq> [] \<Longrightarrow> hd t \<noteq> CHR ''/''" for t
    using that by (cases t) (auto simp: trim_start_slashes_def)
  show ?thesis unfolding trim_slashes_def using keep [of s] keep [of "rev s"] assms by (simp add: hd_rev)
qed

lemma trim_slashes_idem: "trim_slashes (trim_slashes s) = trim_slashes s"
  by (rule trim_slashes_keep) (use hd_trim_slashes in blast)+

lemma trim_slashes_library: "trim_slashes s = s \<Longrightarrow> s \<noteq> [] \<Longrightarrow> trim_slashes (''library/'' @ s) = ''library/'' @ s"
  by (rule trim_slashes_keep) (use hd_trim_slashes(2) [of s] in auto)

lemma driver_kind_for_kind [simp]: "driver_kind (driver_for_kind k) = k"
  by (cases k) simp_all

lemma canonicalize_repository_idem:
  assumes "lowercasing lower" "trim_slashes repo \<noteq> []"
  shows "canonicalize_repository lower driver (canonicalize_repository lower driver repo) = canonicalize_repository lower driver repo"
proof -
  let ?c = "lower (trim_slashes repo)"
  have c: "trim_slashes ?c = ?c" "lower ?c = ?c" "\<And>s. lower (''library/'' @ s) = ''library/'' @ lower s"
    using assms(1) trim_slashes_idem [of repo] unfolding lowercasing_def by blast+
  show ?thesis
  proof (cases "driver = DockerHubDriver \<and> CHR ''/'' \<notin> set ?c")
    case True
    have "?c \<noteq> [] \<Longrightarrow> trim_slashes (''library/'' @ ?c) = ''library/'' @ ?c" using trim_slashes_library c(1) by blast
    moreover have "?c \<noteq> []" using assms unfolding lowercasing_def by blast
    ultimately show ?thesis using True c(2) c(3) [of ?c]
      by (simp add: canonicalize_repository_def docker_hub_repository_def contains_char_def Let_def)
  next
    case False
    then show ?thesis using c by (cases driver) (auto simp: canonicalize_repository_def docker_hub_repository_def contains_char_def Let_def)
  qed
qed

lemma lowercasing_ascii: "lowercasing to_ascii_lowercase"
proof -
  have slash: "char_to_ascii_lowercase c = CHR ''/'' \<longleftrightarrow> c = CHR ''/''" for c
  proof (cases "between 65 90 c")
    case True
    then have "65 \<le> code c" "code c \<le> 90" by (simp_all add: between_def)
    then have "code (char_of (code c + 32)) \<noteq> code (CHR ''/'')" by (simp add: mod_if)
    then have "char_of (code c + 32) \<noteq> CHR ''/''" by metis
    then show ?thesis using \<open>65 \<le> code c\<close> True by (auto simp: char_to_ascii_lowercase_def)
  qed (simp add: char_to_ascii_lowercase_def)
  have "trim_slashes (to_ascii_lowercase s) = to_ascii_lowercase s" if "trim_slashes s = s" for s
    using that hd_trim_slashes [of s]
    by (intro trim_slashes_keep) (auto simp: to_ascii_lowercase_def hd_map last_map slash)
  moreover have "to_ascii_lowercase ''library/'' = ''library/''" by code_simp
  ultimately show ?thesis
    by (simp add: lowercasing_def lowercase_idem) (simp add: to_ascii_lowercase_def)
qed

end
