(* ===== verification/Oci_Client.thy ===== *)
theory Oci_Client
  imports Oci_Upload Oci_Manifest Oci_Driver
begin

text \<open>
  The shared context of \<^verbatim>\<open>crates/nixcache-oci/src/client.rs\<close> and the reading operations of
  \<^verbatim>\<open>client/blob.rs\<close>. The registry and the network are a world \<open>'w\<close>; the fields of
  \<open>oci_requests\<close> are the authenticated requests of \<^verbatim>\<open>client/request.rs\<close>, from a request and a world to
  the answer and the next world. The semaphore that bounds parallel reads only delays a read and
  is left out. A header map gives the value of a header by its name.
\<close>

record oci_client =
  cl_endpoint :: registry_endpoint
  cl_repo :: string
  cl_driver :: oci_driver
  cl_limits :: oci_read_limits

definition cl_kind :: "oci_client \<Rightarrow> registry_kind" where
  "cl_kind client = driver_kind (cl_driver client)"

definition cl_capabilities :: "oci_client \<Rightarrow> registry_capabilities" where
  "cl_capabilities client = driver_capabilities (cl_driver client)"

type_synonym header_map = "string \<Rightarrow> header_value option"

type_synonym request_headers = "(string \<times> string) list"

text \<open>\<open>HeaderValue::from_str\<close> of the \<open>http\<close> crate accepts visible ASCII, blanks and tabs.\<close>

definition header_text :: "string \<Rightarrow> bool" where
  "header_text s \<longleftrightarrow> list_all (\<lambda>c. 32 \<le> code c \<and> code c < 127 \<or> code c = 9) s"

record 'w oci_requests =
  rq_get :: "string \<Rightarrow> u64 \<Rightarrow> ('w, status_code \<times> header_map \<times> bytes) step"
  rq_head :: "string \<Rightarrow> ('w, status_code \<times> header_map) step"
  rq_stream :: "string \<Rightarrow> u64 \<Rightarrow> ('w, status_code \<times> header_map \<times> (transport_error + bytes) list) step"
  rq_post :: "string \<Rightarrow> ('w, status_code \<times> header_map) step"
  rq_post_bytes :: "string \<Rightarrow> request_headers \<Rightarrow> bytes \<Rightarrow> ('w, status_code) step"
  rq_put_bytes :: "string \<Rightarrow> request_headers \<Rightarrow> bytes \<Rightarrow> ('w, status_code) step"
  rq_patch_chunk :: "string \<Rightarrow> bytes \<Rightarrow> u64 \<times> u64 \<Rightarrow> ('w, chunk_response) step"
  rq_put_chunk_finish :: "string \<Rightarrow> ('w, status_code) step"
  rq_delete :: "string \<Rightarrow> ('w, status_code) step"
  rq_sleep :: "nat \<Rightarrow> 'w \<Rightarrow> 'w"

section \<open>Blobs\<close>

definition blob_head :: "'w oci_requests \<Rightarrow> oci_client \<Rightarrow> string \<Rightarrow> ('w, bool) step" where
  "blob_head rq client digest =
     seq (rq_head rq (blob_url (cl_endpoint client) (cl_repo client) digest)) (\<lambda>(status, _).
     if status = 200 then pure True
     else if status = 404 then pure False
     else fail (BlobCheckFailed status))"

definition get_verified ::
  "(bytes \<Rightarrow> bytes) \<Rightarrow> 'w oci_requests \<Rightarrow> oci_client \<Rightarrow> string \<Rightarrow> u64 option \<Rightarrow> ('w, bytes) step" where
  "get_verified H rq client digest expected_size =
     seq (lift (content_digest_parse digest)) (\<lambda>_.
     let url = blob_url (cl_endpoint client) (cl_repo client) digest in
     seq (rq_get rq url (lim_max_buffered_blob_bytes (cl_limits client))) (\<lambda>(status, response_headers, bs).
     if is_success status
     then
       seq (lift (map_err OciTransport (parse_content_length (response_headers ''Content-Length'')))) (\<lambda>content_length.
       seq (lift (verify_buffered_body H url (Some digest) (response_headers ''Docker-Content-Digest'')
         expected_size content_length bs)) (\<lambda>_.
       pure bs))
     else if status = 404 then fail (BlobNotFound digest)
     else fail (BlobDownloadFailed status)))"

definition blob_get :: "(bytes \<Rightarrow> bytes) \<Rightarrow> 'w oci_requests \<Rightarrow> oci_client \<Rightarrow> string \<Rightarrow> ('w, bytes) step" where
  "blob_get H rq client digest = get_verified H rq client digest None"

definition get_descriptor ::
  "(bytes \<Rightarrow> bytes) \<Rightarrow> 'w oci_requests \<Rightarrow> oci_client \<Rightarrow> oci_descriptor \<Rightarrow> ('w, bytes) step" where
  "get_descriptor H rq client descriptor =
     seq (lift (od_validate_for descriptor ''blob descriptor'' (lim_max_buffered_blob_bytes (cl_limits client)))) (\<lambda>_.
     get_verified H rq client (od_digest descriptor) (Some (od_size descriptor)))"

definition blob_stream :: "'w oci_requests \<Rightarrow> oci_client \<Rightarrow> string \<Rightarrow> ('w, verified_stream) step" where
  "blob_stream rq client digest =
     seq (lift (content_digest_parse digest)) (\<lambda>_.
     let url = blob_url (cl_endpoint client) (cl_repo client) digest;
         max_bytes = lim_max_streamed_blob_bytes (cl_limits client) in
     seq (rq_stream rq url max_bytes) (\<lambda>(status, headers, stream).
     if is_success status
     then lift (verified_new stream url digest (headers ''Content-Length'') (headers ''Docker-Content-Digest'') max_bytes)
     else if status = 404 then fail (BlobNotFound digest)
     else fail (BlobDownloadFailed status)))"

section \<open>Facts\<close>

lemma get_verified_Inr:
  assumes "\<And>m. length (H m) = 32" "get_verified H rq client digest expected w = (Inr bs, w')"
  shows "digest = format_digest (H bs) \<and> (expected = None \<or> expected = Some (of_nat (length bs)))"
proof -
  obtain status headers len d where "verify_buffered_body H (blob_url (cl_endpoint client) (cl_repo client) digest)
      (Some digest) (headers ''Docker-Content-Digest'') expected len bs = Inr (d :: content_digest)"
    and "is_success status"
    using assms(2)
    by (auto simp: get_verified_def step_simps Let_def split: prod.splits if_splits)
  then show ?thesis using verify_buffered_body_Inr [of H, OF assms(1)] by (auto simp: assms(1))
qed

lemma get_descriptor_Inr:
  assumes "\<And>m. length (H m) = 32" "get_descriptor H rq client d w = (Inr bs, w')"
  shows "od_digest d = format_digest (H bs) \<and> od_size d = of_nat (length bs)"
  using assms(2) get_verified_Inr [of H, OF assms(1)]
  by (fastforce simp: get_descriptor_def step_simps)

end
