(* ===== verification/Oci_Registry.thy ===== *)
theory Oci_Registry
  imports Oci_Client
begin

text \<open>
  Reading and conditionally replacing manifests: \<^verbatim>\<open>client/manifest.rs\<close> and \<open>put\<close>, \<open>put_cas\<close> of
  \<^verbatim>\<open>client/index.rs\<close>. The JSON reader and writer (\<open>serde_json\<close>) are arguments, as is the text of a
  UTF-8 error.
\<close>

section \<open>UTF-8\<close>

definition continuation :: "nat \<Rightarrow> bool" where
  "continuation b \<longleftrightarrow> 128 \<le> b \<and> b \<le> 191"

fun utf8_valid :: "nat list \<Rightarrow> bool" where
  "utf8_valid [] = True"
| "utf8_valid (a # s) =
     (if a < 128 then utf8_valid s
      else case s of
        [] \<Rightarrow> False
      | b # s1 \<Rightarrow>
          if 194 \<le> a \<and> a \<le> 223 then continuation b \<and> utf8_valid s1
          else case s1 of
            [] \<Rightarrow> False
          | c # s2 \<Rightarrow>
              if 224 \<le> a \<and> a \<le> 239
              then continuation b \<and> (a = 224 \<longrightarrow> 160 \<le> b) \<and> (a = 237 \<longrightarrow> b \<le> 159) \<and> continuation c \<and> utf8_valid s2
              else case s2 of
                [] \<Rightarrow> False
              | d # s3 \<Rightarrow>
                  240 \<le> a \<and> a \<le> 244 \<and> continuation b \<and> (a = 240 \<longrightarrow> 144 \<le> b) \<and> (a = 244 \<longrightarrow> b \<le> 143)
                  \<and> continuation c \<and> continuation d \<and> utf8_valid s3)"

definition from_utf8 :: "bytes \<Rightarrow> string option" where
  "from_utf8 bs = (if utf8_valid (map unat bs) then Some (map char_of (map unat bs)) else None)"

section \<open>Manifests\<close>

datatype manifest_cas_condition = CreateOnly | Match string

record fetched_artifact =
  fa_manifest :: oci_artifact_manifest
  fa_digest :: string

record json_codec =
  js_artifact :: "string \<Rightarrow> string + oci_artifact_manifest"
  js_image_index :: "string \<Rightarrow> string + oci_image_index"
  js_image_manifest :: "string \<Rightarrow> string + oci_image_manifest"
  js_write_index :: "oci_image_index \<Rightarrow> string + string"
  js_write_manifest :: "oci_image_manifest \<Rightarrow> string + string"
  js_utf8_error :: "bytes \<Rightarrow> string"

definition get_with_expected_size ::
  "(bytes \<Rightarrow> bytes) \<Rightarrow> json_codec \<Rightarrow> 'w oci_requests \<Rightarrow> oci_client \<Rightarrow> string \<Rightarrow> u64 option
     \<Rightarrow> ('w, (string \<times> string) option) step" where
  "get_with_expected_size H js rq client tag expected_size =
     (if is_some_and (\<lambda>n. n > lim_max_manifest_bytes (cl_limits client)) expected_size
      then fail (SizeLimitExceeded tag (lim_max_manifest_bytes (cl_limits client)) (the expected_size))
      else
        let url = manifest_url (cl_endpoint client) (cl_repo client) tag in
        seq (rq_get rq url (lim_max_manifest_bytes (cl_limits client))) (\<lambda>(status, response_headers, bs).
        if status = 200
        then
          seq (lift (if starts_with ''sha256:'' tag then map_ok Some (content_digest_parse tag) else Inr None)) (\<lambda>request_digest.
          seq (lift (map_err OciTransport (parse_content_length (response_headers ''Content-Length'')))) (\<lambda>content_length.
          seq (lift (verify_buffered_body H url (map_option content_str request_digest)
            (response_headers ''Docker-Content-Digest'') expected_size content_length bs)) (\<lambda>digest.
          seq (lift (ok_or (InvalidUtf8Manifest (js_utf8_error js bs)) (from_utf8 bs))) (\<lambda>body.
          pure (Some (body, content_str digest))))))
        else if status = 404 then pure None
        else fail (ManifestFetchFailed status)))"

definition get_with_digest ::
  "(bytes \<Rightarrow> bytes) \<Rightarrow> json_codec \<Rightarrow> 'w oci_requests \<Rightarrow> oci_client \<Rightarrow> string
     \<Rightarrow> ('w, (string \<times> string) option) step" where
  "get_with_digest H js rq client tag = get_with_expected_size H js rq client tag None"

definition get_with_digest_and_size ::
  "(bytes \<Rightarrow> bytes) \<Rightarrow> json_codec \<Rightarrow> 'w oci_requests \<Rightarrow> oci_client \<Rightarrow> string \<Rightarrow> u64
     \<Rightarrow> ('w, (string \<times> string) option) step" where
  "get_with_digest_and_size H js rq client reference expected_size =
     get_with_expected_size H js rq client reference (Some expected_size)"

definition fetch_artifact ::
  "(bytes \<Rightarrow> bytes) \<Rightarrow> json_codec \<Rightarrow> 'w oci_requests \<Rightarrow> oci_client \<Rightarrow> string
     \<Rightarrow> ('w, fetched_artifact option) step" where
  "fetch_artifact H js rq client tag_or_digest =
     seq (get_with_digest H js rq client tag_or_digest) (\<lambda>found. case found of
       None \<Rightarrow> pure None
     | Some (body, digest) \<Rightarrow>
         seq (lift (map_err OciJson (js_artifact js body))) (\<lambda>manifest.
         seq (lift (artifact_validate_for manifest (cl_limits client) tag_or_digest)) (\<lambda>_.
         pure (Some \<lparr>fa_manifest = manifest, fa_digest = digest\<rparr>))))"

section \<open>Publishing an image index\<close>

definition insert_cas_condition ::
  "request_headers \<Rightarrow> manifest_cas_condition \<Rightarrow> oci_error + request_headers \<times> string option" where
  "insert_cas_condition headers condition = (case condition of
     CreateOnly \<Rightarrow> Inr (headers @ [(''If-None-Match'', ''*'')], None)
   | Match expected \<Rightarrow>
       if \<not> header_text expected then Inl (from_transport_error (HeaderParse ''If-Match''))
       else Inr (headers @ [(''If-Match'', expected)], Some expected))"

definition published :: "status_code \<Rightarrow> bool" where
  "published status \<longleftrightarrow> status = 200 \<or> status = 201 \<or> status = 202"

definition index_put ::
  "json_codec \<Rightarrow> 'w oci_requests \<Rightarrow> oci_client \<Rightarrow> string \<Rightarrow> oci_image_index \<Rightarrow> ('w, unit) step" where
  "index_put js rq client tag ix =
     (let url = manifest_url (cl_endpoint client) (cl_repo client) tag;
          headers = [(''Content-Type'', OCI_IMAGE_INDEX_MEDIA_TYPE)] in
     seq (lift (map_err OciJson (js_write_index js ix))) (\<lambda>index_json.
     seq (rq_put_bytes rq url headers (as_bytes index_json)) (\<lambda>status.
     if published status then pure () else fail (ManifestPushFailed status))))"

definition index_put_cas ::
  "json_codec \<Rightarrow> 'w oci_requests \<Rightarrow> oci_client \<Rightarrow> string \<Rightarrow> oci_image_index \<Rightarrow> manifest_cas_condition
     \<Rightarrow> ('w, unit) step" where
  "index_put_cas js rq client tag ix condition =
     (if cap_manifest_cas_support (cl_capabilities client) \<noteq> IfMatch
      then fail (CasUnsupported tag (cl_kind client))
      else
        let url = manifest_url (cl_endpoint client) (cl_repo client) tag;
            headers = [(''Content-Type'', OCI_IMAGE_INDEX_MEDIA_TYPE)] in
        seq (lift (insert_cas_condition headers condition)) (\<lambda>(headers, expected).
        seq (lift (map_err OciJson (js_write_index js ix))) (\<lambda>index_json.
        seq (rq_put_bytes rq url headers (as_bytes index_json)) (\<lambda>status.
        if status = 412 \<or> status = 409 then fail (CasPreconditionFailed tag expected None)
        else if published status then pure ()
        else fail (ManifestPushFailed status)))))"

section \<open>Updating an image index\<close>

text \<open>
  \<open>update_cas\<close> and \<open>update_sharded_cas\<close> are the same loop around different reads and writes. The
  loop is cut at its requests, where other clients may come in between: a client is about to read,
  about to write what it computed, waiting, or done.
\<close>

datatype ('v, 'r) cas_pc =
    Fetching
  | Putting 'v manifest_cas_condition
  | Waiting nat
  | Finished "oci_error + 'r"

record ('v, 'r) cas_client =
  cc_attempt :: nat
  cc_pc :: "('v, 'r) cas_pc"

definition cas_fetched ::
  "('v option \<Rightarrow> oci_error + 'v) \<Rightarrow> oci_error + 'v option \<times> manifest_cas_condition
     \<Rightarrow> ('v, 'r) cas_client \<Rightarrow> ('v, 'r) cas_client" where
  "cas_fetched mutator fetched c =
     (let c = c\<lparr>cc_attempt := cc_attempt c + 1\<rparr> in
      case result_bind fetched (\<lambda>(existing, condition).
             map_ok (\<lambda>updated. (updated, condition)) (mutator existing)) of
        Inl e \<Rightarrow> c\<lparr>cc_pc := Finished (Inl e)\<rparr>
      | Inr (updated, condition) \<Rightarrow> c\<lparr>cc_pc := Putting updated condition\<rparr>)"

fun is_precondition_failed :: "oci_error \<Rightarrow> bool" where
  "is_precondition_failed (CasPreconditionFailed _ _ _) = True"
| "is_precondition_failed _ = False"

definition cas_answered ::
  "(nat \<Rightarrow> nat) \<Rightarrow> nat \<Rightarrow> oci_error + 'r \<Rightarrow> ('v, 'r) cas_client \<Rightarrow> ('v, 'r) cas_client" where
  "cas_answered backoff max_retries answer c =
     (case answer of
        Inr r \<Rightarrow> c\<lparr>cc_pc := Finished (Inr r)\<rparr>
      | Inl e \<Rightarrow>
          if is_precondition_failed e \<and> cc_attempt c \<le> max_retries
          then c\<lparr>cc_pc := Waiting (backoff (cc_attempt c))\<rparr>
          else c\<lparr>cc_pc := Finished (Inl e)\<rparr>)"

definition cas_client_step ::
  "('w, 'v option \<times> manifest_cas_condition) step \<Rightarrow> ('v \<Rightarrow> manifest_cas_condition \<Rightarrow> ('w, 'r) step)
     \<Rightarrow> (nat \<Rightarrow> 'w \<Rightarrow> 'w) \<Rightarrow> (nat \<Rightarrow> nat) \<Rightarrow> nat \<Rightarrow> ('v option \<Rightarrow> oci_error + 'v)
     \<Rightarrow> ('v, 'r) cas_client \<Rightarrow> 'w \<Rightarrow> ('v, 'r) cas_client \<times> 'w" where
  "cas_client_step fetch put sleep backoff max_retries mutator c w =
     (case cc_pc c of
        Fetching \<Rightarrow> (case fetch w of (r, w') \<Rightarrow> (cas_fetched mutator r c, w'))
      | Putting updated condition \<Rightarrow>
          (case put updated condition w of (r, w') \<Rightarrow> (cas_answered backoff max_retries r c, w'))
      | Waiting ms \<Rightarrow> (c\<lparr>cc_pc := Fetching\<rparr>, sleep ms w)
      | Finished r \<Rightarrow> (c, w))"

text \<open>Only a failed attempt that leaves another one is followed by a read.\<close>

definition client_rank :: "nat \<Rightarrow> ('v, 'r) cas_client \<Rightarrow> nat" where
  "client_rank max_retries c = (let k = max_retries + 1 - cc_attempt c in case cc_pc c of
     Finished _ \<Rightarrow> 0
   | Putting _ _ \<Rightarrow> 4 * k + 1
   | Fetching \<Rightarrow> if k = 0 then 2 else 4 * k - 1
   | Waiting _ \<Rightarrow> if k = 0 then 3 else 4 * k)"

lemma cas_fetched_rank:
  "cc_pc c = Fetching \<Longrightarrow> client_rank m (cas_fetched mutator r c) < client_rank m c"
  by (auto simp: cas_fetched_def client_rank_def Let_def split: sum.split)

lemma cas_answered_rank:
  "cc_pc c = Putting u cond \<Longrightarrow> client_rank m (cas_answered backoff m r c) < client_rank m c"
  by (auto simp: cas_answered_def client_rank_def Let_def split: sum.split)

lemma cas_client_step_rank:
  assumes "cas_client_step fetch put sleep backoff m mutator c w = (c', w')"
  shows "(\<exists>r. cc_pc c = Finished r) \<or> client_rank m c' < client_rank m c"
proof (cases "cc_pc c")
  case Fetching
  then show ?thesis using assms cas_fetched_rank [OF Fetching]
    by (auto simp: cas_client_step_def split: prod.splits)
next
  case (Putting u cond)
  then show ?thesis using assms cas_answered_rank [OF Putting]
    by (auto simp: cas_client_step_def split: prod.splits)
next
  case (Waiting ms)
  then show ?thesis using assms by (auto simp: cas_client_step_def client_rank_def Let_def)
next
  case (Finished r)
  then show ?thesis by simp
qed

text \<open>The loop of one client alone: steps until it is finished.\<close>

function cas_loop ::
  "('w, 'v option \<times> manifest_cas_condition) step \<Rightarrow> ('v \<Rightarrow> manifest_cas_condition \<Rightarrow> ('w, 'r) step)
     \<Rightarrow> (nat \<Rightarrow> 'w \<Rightarrow> 'w) \<Rightarrow> (nat \<Rightarrow> nat) \<Rightarrow> nat \<Rightarrow> ('v option \<Rightarrow> oci_error + 'v)
     \<Rightarrow> ('v, 'r) cas_client \<Rightarrow> ('w, 'r) step" where
  "cas_loop fetch put sleep backoff max_retries mutator c w =
     (case cc_pc c of
        Finished r \<Rightarrow> (r, w)
      | _ \<Rightarrow> (case cas_client_step fetch put sleep backoff max_retries mutator c w of
            (c', w') \<Rightarrow> cas_loop fetch put sleep backoff max_retries mutator c' w'))"
  by pat_completeness auto
termination
  by (relation "measure (\<lambda>(_, _, _, _, m, _, c, _). client_rank m c)")
    (auto dest!: sym [of "(_, _)"], (drule cas_client_step_rank, simp)+)

declare cas_loop.simps [simp del]

definition ensure_cas_supported :: "oci_client \<Rightarrow> string \<Rightarrow> oci_error + unit" where
  "ensure_cas_supported client tag =
     (if cap_manifest_cas_support (cl_capabilities client) = IfMatch then Inr ()
      else Inl (CasUnsupported tag (cl_kind client)))"

definition fetch_index_condition ::
  "(bytes \<Rightarrow> bytes) \<Rightarrow> json_codec \<Rightarrow> 'w oci_requests \<Rightarrow> oci_client \<Rightarrow> string
     \<Rightarrow> ('w, oci_image_index option \<times> manifest_cas_condition) step" where
  "fetch_index_condition H js rq client tag =
     seq (fetch_artifact H js rq client tag) (\<lambda>found. pure (case found of
       Some artifact \<Rightarrow> (as_index (fa_manifest artifact), Match (fa_digest artifact))
     | None \<Rightarrow> (None, CreateOnly)))"

definition update_backoff :: "nat \<Rightarrow> nat \<Rightarrow> nat" where
  "update_backoff pid attempt = 500 * 2 ^ min attempt 5 + (pid * 37 + attempt * 53) mod 150"

definition update_cas ::
  "(bytes \<Rightarrow> bytes) \<Rightarrow> json_codec \<Rightarrow> 'w oci_requests \<Rightarrow> nat \<Rightarrow> oci_client \<Rightarrow> string \<Rightarrow> nat
     \<Rightarrow> (oci_image_index option \<Rightarrow> oci_error + oci_image_index) \<Rightarrow> ('w, unit) step" where
  "update_cas H js rq pid client tag max_retries mutator =
     seq (lift (ensure_cas_supported client tag)) (\<lambda>_.
     cas_loop (fetch_index_condition H js rq client tag) (index_put_cas js rq client tag) (rq_sleep rq)
       (update_backoff pid) max_retries mutator \<lparr>cc_attempt = 0, cc_pc = Fetching\<rparr>)"

definition update_single_writer ::
  "(bytes \<Rightarrow> bytes) \<Rightarrow> json_codec \<Rightarrow> 'w oci_requests \<Rightarrow> oci_client \<Rightarrow> string
     \<Rightarrow> (oci_image_index option \<Rightarrow> oci_error + oci_image_index) \<Rightarrow> ('w, unit) step" where
  "update_single_writer H js rq client tag mutator =
     seq (fetch_artifact H js rq client tag) (\<lambda>found.
     seq (lift (mutator (Option.bind found (\<lambda>artifact. as_index (fa_manifest artifact))))) (\<lambda>updated_index.
     index_put js rq client tag updated_index))"

end
