(* ===== verification/Oci_Upload_Recovery.thy ===== *)
theory Oci_Upload_Recovery
  imports Oci_Upload
begin

text \<open>
  The upload of a chunk against a registry: what is stored is always the old content followed by a
  prefix of the chunk, all of it when the upload succeeds, and an upload that is disturbed no more
  often than it may retry does succeed.
\<close>

section \<open>Recovering from faults\<close>

text \<open>
  A registry behind a network that fails at most \<open>faults w\<close> more times: a PATCH at the right
  offset is stored completely, or fails with an error that may be retried, having stored any
  prefix; status requests are answered; locations can be resolved.
\<close>

definition located :: "'w upload_transport \<Rightarrow> header_value option \<Rightarrow> bool" where
  "located tr h \<longleftrightarrow> h = None \<or> (\<exists>l u. h = Some (Some l) \<and> tr_resolve tr l = Inr u)"

definition response_located :: "'w upload_transport \<Rightarrow> chunk_response \<Rightarrow> bool" where
  "response_located tr resp \<longleftrightarrow> located tr (resp_location_header resp)
     \<and> located tr (map_option Some (resp_location resp))"

definition accepted :: "'w upload_transport \<Rightarrow> oci_error + chunk_response \<Rightarrow> bool" where
  "accepted tr r \<longleftrightarrow> (\<exists>resp. r = Inr resp \<and> is_success (resp_status resp) \<and> response_located tr resp
     \<and> (resp_range resp = None \<or> (\<exists>e. resp_range resp = Some (0, e))))"

definition disturbed :: "'w upload_transport \<Rightarrow> oci_error + chunk_response \<Rightarrow> bool" where
  "disturbed tr r \<longleftrightarrow> (\<exists>e. r = Inl e \<and> retryable_error e)
     \<or> (\<exists>resp. r = Inr resp \<and> retryable_status (resp_status resp) \<and> response_located tr resp)"

definition answered :: "'w upload_transport \<Rightarrow> nat \<Rightarrow> probe_response \<Rightarrow> bool" where
  "answered tr len resp \<longleftrightarrow> is_success (probe_status resp) \<and> located tr (probe_location_header resp)
     \<and> (if len = 0 then probe_range_header resp = None
        else \<exists>text e. probe_range_header resp = Some (Some text) \<and> parse_range_header text = Some (0, e))"

definition recovering :: "'w upload_transport \<Rightarrow> ('w \<Rightarrow> bytes) \<Rightarrow> ('w \<Rightarrow> nat) \<Rightarrow> bool" where
  "recovering tr stored faults \<longleftrightarrow> honest_server tr stored
     \<and> (\<forall>url body a b w r w'. tr_patch tr url body (a, b) w = (r, w') \<and> unat a = length (stored w)
          \<and> length (stored w @ body) < 2 ^ 64 \<longrightarrow>
          stored w' = stored w @ body \<and> accepted tr r \<or> faults w' < faults w \<and> disturbed tr r)
     \<and> (\<forall>url w. length (stored w) < 2 ^ 64 \<longrightarrow>
          (\<exists>resp w'. tr_get tr url w = (Inr resp, w') \<and> answered tr (length (stored w)) resp
             \<and> faults w' = faults w))
     \<and> (\<forall>ms w. faults (tr_sleep tr ms w) = faults w)"

lemma update_location_located: "located tr h \<Longrightarrow> \<exists>u. update_location tr url h = Inr u"
  by (auto simp: located_def update_location_def resolved_location_def)

lemma set_location_located: "located tr h \<Longrightarrow> \<exists>u. set_location tr h s = (Inr (), s\<lparr>cs_session_url := u\<rparr>)"
  using update_location_located [of tr h "cs_session_url s"] by (auto simp: set_location_def)

lemma follow_location_located:
  assumes "response_located tr resp"
  shows "\<exists>u. follow_location tr resp s = (Inr (), s\<lparr>cs_session_url := u\<rparr>)"
proof -
  obtain u where u: "set_location tr (resp_location_header resp) s = (Inr (), s\<lparr>cs_session_url := u\<rparr>)"
    using assms set_location_located [of tr "resp_location_header resp" s]
    by (auto simp: response_located_def)
  show ?thesis
    using assms
    by (cases "resp_location resp")
      (auto simp: follow_location_def seq_eq u pure_def lift_def response_located_def located_def
        resolved_location_def)
qed

lemma retryable_not_success: "retryable_status st \<Longrightarrow> \<not> is_success st \<and> st \<noteq> 416"
  by (auto simp: retryable_status_def is_success_def is_server_error_def)

lemma after_patch_accepted:
  assumes "accepted tr (Inr resp)"
    and "response_next_offset (resp_range resp) chunk_start (cs_remote_next s) chunk_end = Inr n"
  shows "\<exists>u. after_patch tr config chunk_start chunk_end (Inr resp) s
    = (Inr None, s\<lparr>cs_session_url := u, cs_remote_next := n\<rparr>)"
  using follow_location_located [of tr resp s] assms
  by (auto simp: accepted_def after_patch_def seq_eq handle_status_def)

lemma after_patch_disturbed:
  assumes "disturbed tr r" "cs_retry_count s < cfg_max_retry_attempts config"
  shows "\<exists>u e. after_patch tr config chunk_start chunk_end r s = (Inr (Some e), s\<lparr>cs_session_url := u\<rparr>)"
proof -
  consider e where "r = Inl e" "retryable_error e"
    | resp where "r = Inr resp" "retryable_status (resp_status resp)" "response_located tr resp"
    using assms(1) by (auto simp: disturbed_def)
  then show ?thesis
  proof cases
    case 1
    then show ?thesis using assms(2) by (auto simp: after_patch_def intro!: exI [of _ "cs_session_url s"])
  next
    case 2
    then show ?thesis
      using follow_location_located [OF 2(3), of s] retryable_not_success [OF 2(2)] assms(2)
      by (auto simp: after_patch_def seq_eq handle_status_def Let_def)
  qed
qed

lemma after_probe_answered:
  assumes "tr_get tr (cs_session_url s) (cs_world s) = (Inr resp, w)" "answered tr len resp"
    "len \<noteq> 0 \<Longrightarrow> (\<And>text e. probe_range_header resp = Some (Some text) \<Longrightarrow> parse_range_header text = Some (0, e) \<Longrightarrow> unat e + 1 = len)"
    "len \<le> unat chunk_end + 1" "unat (cs_remote_next s) \<le> len" "unat chunk_end + 1 < 2 ^ 64"
    "len = 0 \<Longrightarrow> cs_remote_next s = 0" "cs_retry_count s < cfg_max_retry_attempts config" "\<not> cs_probed_416 s"
  shows "\<exists>b t. after_probe tr config chunk_start chunk_end e s = (Inr b, t)
    \<and> unat (cs_remote_next t) = len \<and> cs_patch_attempts t = cs_patch_attempts s \<and> \<not> cs_probed_416 t
    \<and> (\<not> b \<longrightarrow> cs_retry_count t = cs_retry_count s + 1 \<and> (\<exists>ms. cs_world t = tr_sleep tr ms w))"
proof -
  obtain rng where p: "probe_upload_session tr (cs_session_url s) (cs_world s)
      = (Inr (probe_status resp, probe_location_header resp, rng), w)"
    and rng: "if len = 0 then rng = None else \<exists>e. rng = Some (0, e) \<and> unat e + 1 = len"
    using assms(1-3) by (auto simp: probe_upload_session_def answered_def split: if_splits)
  obtain u where u: "set_location tr (probe_location_header resp) (s\<lparr>cs_world := w\<rparr>)
      = (Inr (), s\<lparr>cs_world := w, cs_session_url := u\<rparr>)"
    using set_location_located [of tr "probe_location_header resp" "s\<lparr>cs_world := w\<rparr>"] assms(2)
    by (auto simp: answered_def)
  have "\<exists>nx. probe_next_offset rng chunk_start (cs_remote_next s) chunk_end = Inr nx
      \<and> unat (case nx of None \<Rightarrow> cs_remote_next s | Some n \<Rightarrow> n) = len"
  proof (cases "len = 0")
    case True
    then show ?thesis using rng assms(7) by (simp add: probe_next_offset_def)
  next
    case False
    then obtain e where e: "rng = Some (0, e)" "unat e + 1 = len" using rng by auto
    then have "checked_add64 e 1 = Some (e + 1)" "unat (e + 1) = len"
      using assms(4,6) by (simp_all add: checked_add64_def unat_word_ariths)
    then show ?thesis using e assms(4,5)
      by (auto simp: probe_next_offset_def word_less_nat_alt intro!: exI [of _ "Some (e + 1)"])
  qed
  then obtain nx where nx: "probe_next_offset rng chunk_start (cs_remote_next s) chunk_end = Inr nx"
    "unat (case nx of None \<Rightarrow> cs_remote_next s | Some n \<Rightarrow> n) = len" by blast
  have "is_success (probe_status resp)" using assms(2) by (simp add: answered_def)
  then show ?thesis using nx assms(8,9)
    by (cases nx) (auto simp: after_probe_def seq_eq p u lift_def Let_def)
qed


section \<open>The upload succeeds\<close>

text \<open>
  Between two turns the client knows exactly how much is stored, every attempt so far was one
  retry, and the faults that are left fit into the retries that are left.
\<close>

definition recover_inv ::
  "upload_config \<Rightarrow> ('w \<Rightarrow> bytes) \<Rightarrow> ('w \<Rightarrow> nat) \<Rightarrow> u64 \<Rightarrow> 'w chunk_state \<Rightarrow> bool" where
  "recover_inv config stored faults chunk_end s \<longleftrightarrow> cs_remote_next s > chunk_end
     \<or> unat (cs_remote_next s) = length (stored (cs_world s)) \<and> cs_patch_attempts s = cs_retry_count s
       \<and> \<not> cs_probed_416 s \<and> faults (cs_world s) + cs_retry_count s \<le> cfg_max_retry_attempts config"

lemma response_next_end:
  assumes "length (stored w) = unat chunk_end + 1" "unat chunk_end + 1 < 2 ^ 64" "unat n \<le> unat chunk_end"
    "rng = None \<or> (\<exists>e. rng = Some (0, e))"
    "\<And>st e. rng = Some (st, e) \<Longrightarrow> length (stored w) = unat e + 1"
  shows "response_next_offset rng chunk_start n chunk_end = Inr (chunk_end + 1)"
proof -
  have "checked_add64 chunk_end 1 = Some (chunk_end + 1)" using assms(2) by (simp add: checked_add64_Some)
  moreover have "rng = Some (st, e) \<Longrightarrow> e = chunk_end" for st e
    using assms(1) assms(5) [of st e] by (simp add: word_unat_eq_iff)
  ultimately show ?thesis
    using assms(3,4) by (auto simp: response_next_offset_def word_less_nat_alt)
qed

lemma recover_turn_disturbed:
  assumes rec: "recovering tr stored faults" and span: "chunk_span chunk chunk_start chunk_end"
    and start: "unat chunk_start = length old"
    and inv: "upload_inv stored old chunk chunk_start chunk_end s" "recover_inv config stored faults chunk_end s"
      "\<not> cs_remote_next s > chunk_end" "cfg_max_retry_attempts config < usize_max"
    and p: "tr_patch tr (cs_session_url s) (drop (unat (cs_remote_next s - chunk_start)) chunk)
      (cs_remote_next s, chunk_end) (cs_world s) = (outcome, w)"
    and dist: "faults w < faults (cs_world s)" "disturbed tr outcome"
  shows "\<exists>b t. chunk_turn usize_max tr config chunk chunk_start chunk_end s = (Inr b, t)
    \<and> (\<not> b \<longrightarrow> recover_inv config stored faults chunk_end t)"
proof -
  let ?s = "s\<lparr>cs_patch_attempts := cs_patch_attempts s + 1, cs_world := w\<rparr>"
  have honest: "honest_server tr stored" "honest_patch tr stored"
    using rec by (simp_all add: recovering_def honest_server_def)
  have off: "offset_ok chunk_start chunk_end (cs_remote_next s)" using inv(1) by (simp add: upload_inv_def)
  obtain m where m: "m \<le> length chunk" "stored (cs_world s) = old @ take m chunk"
    using inv(1) by (auto simp: upload_inv_def)
  obtain m' where m': "m \<le> m'" "m' \<le> length chunk" "stored w = old @ take m' chunk"
    using honest_patch_stored [OF honest(2) span start m(2,1) off p] by blast
  define len where "len = length (stored w)"
  have len: "len \<le> unat chunk_end + 1" "unat (cs_remote_next s) \<le> len" "len < 2 ^ 64"
    using m m' span start inv(2,3) by (simp_all add: len_def recover_inv_def chunk_span_def)
  have budget: "cs_retry_count s < cfg_max_retry_attempts config" "\<not> cs_probed_416 s"
    "cs_patch_attempts s = cs_retry_count s"
    "faults w + cs_retry_count s + 1 \<le> cfg_max_retry_attempts config"
    using inv(2,3) dist(1) by (auto simp: recover_inv_def)
  obtain u e where a: "after_patch tr config chunk_start chunk_end outcome ?s = (Inr (Some e), ?s\<lparr>cs_session_url := u\<rparr>)"
    using after_patch_disturbed [OF dist(2), of ?s config chunk_start chunk_end] budget(1) by auto
  let ?t = "?s\<lparr>cs_session_url := u\<rparr>"
  obtain resp w' where g: "tr_get tr u w = (Inr resp, w')" "answered tr len resp" "faults w' = faults w"
    using rec len(3) unfolding recovering_def len_def by blast
  have same: "stored w' = stored w" using honest(1) g(1) by (auto simp: honest_server_def honest_get_def)
  have "len = unat e + 1"
    if "probe_range_header resp = Some (Some v)" "parse_range_header v = Some (0, e)" for v e
    using honest(1) g that unfolding honest_server_def honest_get_def answered_def len_def by blast
  then have "\<exists>b t. after_probe tr config chunk_start chunk_end e ?t = (Inr b, t)
    \<and> unat (cs_remote_next t) = len \<and> cs_patch_attempts t = cs_patch_attempts ?t \<and> \<not> cs_probed_416 t
    \<and> (\<not> b \<longrightarrow> cs_retry_count t = cs_retry_count ?t + 1 \<and> (\<exists>ms. cs_world t = tr_sleep tr ms w'))"
    using g len budget(1,2) span
    by (intro after_probe_answered [of tr ?t resp w' len]) (simp_all add: chunk_span_def word_unat_eq_iff)
  then obtain b t where t: "after_probe tr config chunk_start chunk_end e ?t = (Inr b, t)"
    "unat (cs_remote_next t) = len" "cs_patch_attempts t = cs_patch_attempts ?t" "\<not> cs_probed_416 t"
    "\<not> b \<longrightarrow> cs_retry_count t = cs_retry_count ?t + 1 \<and> (\<exists>ms. cs_world t = tr_sleep tr ms w')"
    by blast
  have "chunk_turn usize_max tr config chunk chunk_start chunk_end s = (Inr b, t)"
    using inv(3,4) budget p a t(1)
    by (simp add: chunk_turn_def Let_def seq_eq max_patch_attempts_def)
  moreover have "\<not> b \<longrightarrow> recover_inv config stored faults chunk_end t"
    using t budget rec same g(3) by (auto simp: recover_inv_def recovering_def honest_server_def len_def)
  ultimately show ?thesis by blast
qed

lemma recover_turn:
  assumes "recovering tr stored faults" "chunk_span chunk chunk_start chunk_end" "unat chunk_start = length old"
    "upload_inv stored old chunk chunk_start chunk_end s" "recover_inv config stored faults chunk_end s"
    "cfg_max_retry_attempts config < usize_max"
  shows "\<exists>b t. chunk_turn usize_max tr config chunk chunk_start chunk_end s = (Inr b, t)
    \<and> (\<not> b \<longrightarrow> recover_inv config stored faults chunk_end t)"
proof (cases "cs_remote_next s > chunk_end")
  case True
  then show ?thesis by (auto simp: chunk_turn_def)
next
  case False
  let ?body = "drop (unat (cs_remote_next s - chunk_start)) chunk"
  obtain outcome w where p: "tr_patch tr (cs_session_url s) ?body (cs_remote_next s, chunk_end) (cs_world s)
    = (outcome, w)" by fastforce
  have off: "offset_ok chunk_start chunk_end (cs_remote_next s)" using assms(4) by (simp add: upload_inv_def)
  then have "unat (cs_remote_next s - chunk_start) = unat (cs_remote_next s) - unat chunk_start"
    by (simp add: offset_ok_def unat_sub word_le_nat_alt)
  then have len: "length (stored (cs_world s) @ ?body) = unat chunk_end + 1"
    using False off assms(2,5) by (auto simp: recover_inv_def chunk_span_def offset_ok_def)
  then have "stored w = stored (cs_world s) @ ?body \<and> accepted tr outcome
      \<or> faults w < faults (cs_world s) \<and> disturbed tr outcome"
  proof -
    have "unat (cs_remote_next s) = length (stored (cs_world s))" "length (stored (cs_world s) @ ?body) < 2 ^ 64"
      using len assms(2,5) False by (simp_all add: recover_inv_def chunk_span_def)
    then show ?thesis using assms(1) p unfolding recovering_def by blast
  qed
  then show ?thesis
  proof
    have hp: "honest_patch tr stored" using assms(1) by (simp add: recovering_def honest_server_def)
    assume acc: "stored w = stored (cs_world s) @ ?body \<and> accepted tr outcome"
    then obtain resp where resp: "outcome = Inr resp" "is_success (resp_status resp)"
      "resp_range resp = None \<or> (\<exists>e. resp_range resp = Some (0, e))" by (auto simp: accepted_def)
    have "response_next_offset (resp_range resp) chunk_start (cs_remote_next s) chunk_end = Inr (chunk_end + 1)"
    proof (rule response_next_end [of stored w])
      show "length (stored w) = unat chunk_end + 1" using acc len by simp
      show "unat chunk_end + 1 < 2 ^ 64" using assms(2) by (simp add: chunk_span_def)
      show "unat (cs_remote_next s) \<le> unat chunk_end" using False by (simp add: word_less_nat_alt not_less)
      show "length (stored w) = unat e + 1" if "resp_range resp = Some (st, e)" for st e
        using hp [unfolded honest_patch_def, rule_format, OF p] resp that by fastforce
    qed (rule resp(3))
    then obtain u where "after_patch tr config chunk_start chunk_end outcome
        (s\<lparr>cs_patch_attempts := cs_patch_attempts s + 1, cs_world := w\<rparr>)
        = (Inr None, s\<lparr>cs_patch_attempts := cs_patch_attempts s + 1, cs_world := w,
             cs_session_url := u, cs_remote_next := chunk_end + 1\<rparr>)"
      using after_patch_accepted [of tr resp chunk_start
          "s\<lparr>cs_patch_attempts := cs_patch_attempts s + 1, cs_world := w\<rparr>" chunk_end "chunk_end + 1" config]
        acc resp by auto
    moreover have "chunk_end < chunk_end + 1"
      using assms(2) by (simp add: chunk_span_def word_less_nat_alt unat_word_ariths)
    ultimately show ?thesis
      using False assms(5,6) p
      by (auto simp: chunk_turn_def Let_def seq_eq max_patch_attempts_def pure_def recover_inv_def)
  next
    assume "faults w < faults (cs_world s) \<and> disturbed tr outcome"
    then show ?thesis using recover_turn_disturbed [OF assms(1-5) False assms(6) p] by blast
  qed
qed

lemma chunk_loop_recovers:
  assumes "recovering tr stored faults" "chunk_span chunk chunk_start chunk_end" "unat chunk_start = length old"
    "cfg_max_retry_attempts config < usize_max"
  shows "upload_inv stored old chunk chunk_start chunk_end s \<Longrightarrow> recover_inv config stored faults chunk_end s \<Longrightarrow>
    \<exists>s'. chunk_loop usize_max tr config chunk chunk_start chunk_end s = (Inr (), s')"
proof (induction s rule: measure_induct_rule
    [of "\<lambda>s. max_patch_attempts usize_max config - cs_patch_attempts s"])
  case (less s)
  obtain b t where t: "chunk_turn usize_max tr config chunk chunk_start chunk_end s = (Inr b, t)"
    "\<not> b \<longrightarrow> recover_inv config stored faults chunk_end t"
    using recover_turn [OF assms(1-3) less.prems assms(4)] by blast
  show ?case
  proof (cases b)
    case True
    then show ?thesis using t by (simp add: chunk_loop.simps [of _ _ _ _ _ _ s])
  next
    case False
    have "honest_server tr stored" using assms(1) by (simp add: recovering_def)
    then have "upload_inv stored old chunk chunk_start chunk_end t"
      using chunk_turn_inv [OF _ assms(2,3) less.prems(1) t(1)] by blast
    moreover have "max_patch_attempts usize_max config - cs_patch_attempts t
        < max_patch_attempts usize_max config - cs_patch_attempts s"
      using chunk_turn_attempts [OF t(1) [simplified False]] by auto
    ultimately show ?thesis
      using less.IH t False by (simp add: chunk_loop.simps [of _ _ _ _ _ _ s])
  qed
qed


section \<open>A sample registry\<close>

text \<open>
  A registry that keeps one session and fails a given number of times, each time after storing one
  byte of the request.
\<close>

definition sample_patch :: "string \<Rightarrow> bytes \<Rightarrow> u64 \<times> u64 \<Rightarrow> bytes \<times> nat \<Rightarrow> (oci_error + chunk_response) \<times> (bytes \<times> nat)" where
  "sample_patch url body rng w = (case w of (content, faults) \<Rightarrow>
     if unat (fst rng) \<noteq> length content
     then (Inr \<lparr>resp_status = 416, resp_location_header = None, resp_location = None, resp_range = None\<rparr>, w)
     else case faults of
       0 \<Rightarrow> (Inr \<lparr>resp_status = 202, resp_location_header = None, resp_location = None, resp_range = None\<rparr>,
            (content @ body, 0))
     | Suc n \<Rightarrow> (Inl (OciTransport (Timeout 30)), (content @ take 1 body, n)))"

definition sample_get :: "string \<Rightarrow> bytes \<times> nat \<Rightarrow> (oci_error + probe_response) \<times> (bytes \<times> nat)" where
  "sample_get url w =
     (Inr \<lparr>probe_status = 204, probe_location_header = None,
           probe_range_header =
             (if fst w = [] \<or> \<not> length (fst w) < 2 ^ 64 then None
              else Some (Some (''0-'' @ show_u64 (of_nat (length (fst w) - 1)))))\<rparr>, w)"

definition sample_transport :: "(bytes \<times> nat) upload_transport" where
  "sample_transport = \<lparr>tr_patch = sample_patch, tr_get = sample_get, tr_sleep = (\<lambda>_ w. w), tr_resolve = Inr\<rparr>"

lemma show_u64_chars: "c \<in> set (show_u64 n) \<Longrightarrow> is_ascii_digit c"
  by (auto simp: show_u64_def dest: show_nat_digit)

lemma digits_no_ws: "\<forall>c \<in> set s. is_ascii_digit c \<Longrightarrow> \<not> any_ws s"
  by (rule any_control_or_ws_any_ws, rule printable_no_ws)
    (auto simp: list_all_iff is_ascii_digit_def between_def)

lemma range_no_ws: "\<not> any_ws (''0-'' @ show_u64 n)"
  by (rule any_control_or_ws_any_ws, rule printable_no_ws)
    (auto simp: list_all_iff is_ascii_digit_def between_def dest!: show_u64_chars)

lemma parse_range_show: "parse_range_header (''0-'' @ show_u64 n) = Some (0, n)"
proof -
  have no: "CHR ''/'' \<notin> set (''0-'' @ show_u64 n)"
    by (auto dest!: show_u64_chars simp: is_ascii_digit_def between_def)
  have "strip_prefix ''bytes='' (''0-'' @ show_u64 n) = None" "strip_prefix ''bytes '' (''0-'' @ show_u64 n) = None"
    by (simp_all add: strip_prefix_def starts_with_def)
  moreover have "split_once (CHR ''-'') (''0-'' @ show_u64 n) = Some (''0'', show_u64 n)"
    using split_once_append [of "CHR ''-''" "''0''" "show_u64 n"] by simp
  moreover have "split_once (CHR ''/'') (''0-'' @ show_u64 n) = None" using no split_once_eq_None by blast
  moreover have "parse_u64 ''0'' = Inr 0"
    using parse_show_u64 [of 0] by (simp add: show_u64_def show_nat.simps char_of_def bit_0)
  moreover have "trim ''0'' = ''0''"
    by (rule trim_no_ws, rule digits_no_ws) (simp add: is_ascii_digit_def between_def)
  moreover have "trim (show_u64 n) = show_u64 n"
    by (rule trim_no_ws, rule digits_no_ws) (simp add: show_u64_chars)
  ultimately show ?thesis
    using range_no_ws [of n]
    by (simp add: parse_range_header_def trim_no_ws parse_show_u64 del: append_Cons)
qed

lemma sample_honest: "honest_server sample_transport fst"
proof -
  have "honest_patch sample_transport fst"
    by (auto simp: honest_patch_def sample_transport_def sample_patch_def is_success_def
        intro: exI [of _ 0] take_all [symmetric] split: nat.splits prod.splits if_splits)
  moreover have "honest_get sample_transport fst"
    by (auto simp del: append_Cons
        simp: honest_get_def sample_transport_def sample_get_def parse_range_show unat_of_nat64
        split: if_splits)
  ultimately show ?thesis by (simp add: honest_server_def sample_transport_def)
qed

lemma sample_answered:
  "length (fst w) < 2 ^ 64 \<Longrightarrow> \<exists>resp. sample_get url w = (Inr resp, w) \<and> answered tr (length (fst w)) resp"
  using parse_range_show [of "of_nat (length (fst w) - 1)"]
  by (auto simp: sample_get_def answered_def located_def is_success_def)

lemma sample_patched:
  assumes "sample_patch url body (a, b) w = (r, w')" "unat a = length (fst w)"
  shows "fst w' = fst w @ body \<and> accepted tr r \<or> snd w' < snd w \<and> disturbed tr r"
  using assms
  by (auto simp: sample_patch_def accepted_def disturbed_def response_located_def located_def is_success_def
      split: prod.splits nat.splits)

lemma sample_recovering: "recovering sample_transport fst snd"
  unfolding recovering_def
proof (intro conjI allI impI)
  show "honest_server sample_transport fst" by (rule sample_honest)
  show "fst w' = fst w @ body \<and> accepted sample_transport r \<or> snd w' < snd w \<and> disturbed sample_transport r"
    if "tr_patch sample_transport url body (a, b) w = (r, w') \<and> unat a = length (fst w)
      \<and> length (fst w @ body) < 2 ^ 64" for url body a b w r w'
    using that by (intro sample_patched [of url body a b]) (simp_all add: sample_transport_def)
  show "\<exists>resp w'. tr_get sample_transport url w = (Inr resp, w')
      \<and> answered sample_transport (length (fst w)) resp \<and> snd w' = snd w"
    if "length (fst w) < 2 ^ 64" for url w
    using sample_answered [OF that, of url sample_transport] by (force simp: sample_transport_def)
qed (simp add: sample_transport_def)

lemma upload_chunk_stored:
  assumes "honest_server tr stored" "stored w = old" "unat chunk_start = length old"
    and "chunk \<noteq> []" "length old + length chunk < 2 ^ 64"
    and "upload_chunk_with_retry usize_max tr config session_url chunk chunk_start w = (r, url', w')"
  shows "\<exists>m \<le> length chunk. stored w' = old @ take m chunk \<and> (r = Inr () \<longrightarrow> m = length chunk)"
proof -
  let ?s = "\<lparr>cs_session_url = session_url, cs_remote_next = chunk_start, cs_retry_count = 0,
    cs_patch_attempts = 0, cs_probed_416 = False, cs_world = w\<rparr>"
  obtain chunk_end where e: "chunk_span chunk chunk_start chunk_end"
    "upload_chunk_with_retry usize_max tr config session_url chunk chunk_start w =
       (case chunk_loop usize_max tr config chunk chunk_start chunk_end ?s of
          (r, s) \<Rightarrow> (r, cs_session_url s, cs_world s))"
    by (rule upload_chunk_loop [of chunk chunk_start usize_max tr config session_url w]) (use assms(3-5) in auto)
  have "upload_inv stored old chunk chunk_start chunk_end ?s"
    using assms(2,3) e(1) by (auto simp: upload_inv_def offset_ok_def chunk_span_def intro: exI [of _ 0])
  moreover obtain s' where "chunk_loop usize_max tr config chunk chunk_start chunk_end ?s = (r, s')"
    "w' = cs_world s'"
    using assms(6) e(2) by (auto split: prod.splits)
  ultimately show ?thesis using chunk_loop_stored [OF assms(1) e(1) assms(3)] by blast
qed

section \<open>Properties\<close>

text \<open>
  C12. Against a registry that stores what it is sent, whatever fails on the way and however the
  upload of a chunk ends, the session holds what it held before followed by a prefix of the chunk,
  never a gap, a repetition or foreign bytes; and when the upload reports success, the whole chunk.
\<close>

theorem upload_chunk_stores:
  assumes "honest_server tr stored" "stored w = old" "unat chunk_start = length old"
    and "chunk \<noteq> []" "length old + length chunk < 2 ^ 64"
    and "upload_chunk_with_retry usize_max tr config session_url chunk chunk_start w = (r, url', w')"
  shows "\<exists>m \<le> length chunk. stored w' = old @ take m chunk \<and> (r = Inr () \<longrightarrow> m = length chunk)"
  using assms by (rule upload_chunk_stored)

lemma upload_chunk_stores_witness:
  "\<exists>m \<le> 3. fst (snd (snd (upload_chunk_with_retry 10 sample_transport default_upload_config ''u'' [7, 8, 9] 2
      ([1, 2], 2)))) = [1, 2] @ take m [7, 8, 9]"
proof -
  obtain r url' w' where
    u: "upload_chunk_with_retry 10 sample_transport default_upload_config ''u'' [7, 8, 9] 2 ([1, 2], 2) = (r, url', w')"
    using prod_cases3 by blast
  then have "\<exists>m \<le> length [7, 8, 9 :: u8]. fst w' = [1, 2] @ take m [7, 8, 9] \<and> (r = Inr () \<longrightarrow> m = length [7, 8, 9 :: u8])"
    by (intro upload_chunk_stores [OF sample_honest]) simp_all
  with u show ?thesis by (auto simp: eval_nat_numeral)
qed

text \<open>
  C14. The upload of a chunk recovers: when the registry or the network fails at most as often as
  the configuration allows retries, each time with an error that may be retried and after storing
  any part of the request, the upload succeeds and the session holds the whole chunk.
\<close>

theorem upload_chunk_recovers:
  assumes "recovering tr stored faults" "faults w \<le> cfg_max_retry_attempts config"
    and "cfg_max_retry_attempts config < usize_max" "unat chunk_start = length (stored w)"
    and "chunk \<noteq> []" "length (stored w) + length chunk < 2 ^ 64"
  shows "\<exists>url' w'. upload_chunk_with_retry usize_max tr config session_url chunk chunk_start w
      = (Inr (), url', w') \<and> stored w' = stored w @ chunk"
proof -
  let ?s = "\<lparr>cs_session_url = session_url, cs_remote_next = chunk_start, cs_retry_count = 0,
    cs_patch_attempts = 0, cs_probed_416 = False, cs_world = w\<rparr>"
  obtain chunk_end where e: "chunk_span chunk chunk_start chunk_end"
    "upload_chunk_with_retry usize_max tr config session_url chunk chunk_start w =
       (case chunk_loop usize_max tr config chunk chunk_start chunk_end ?s of
          (r, s) \<Rightarrow> (r, cs_session_url s, cs_world s))"
    by (rule upload_chunk_loop [of chunk chunk_start usize_max tr config session_url w]) (use assms(4-6) in auto)
  have inv: "upload_inv stored (stored w) chunk chunk_start chunk_end ?s"
    using assms(4) e(1) by (auto simp: upload_inv_def offset_ok_def chunk_span_def intro: exI [of _ 0])
  have "recover_inv config stored faults chunk_end ?s"
    using assms(2,4) by (simp add: recover_inv_def)
  with chunk_loop_recovers [OF assms(1) e(1) assms(4,3) inv]
  obtain s' where s': "chunk_loop usize_max tr config chunk chunk_start chunk_end ?s = (Inr (), s')" by blast
  have "honest_server tr stored" using assms(1) by (simp add: recovering_def)
  from chunk_loop_stored [OF this e(1) assms(4) inv s'] e(2) s' show ?thesis by auto
qed

lemma upload_chunk_recovers_witness:
  "\<exists>url' w'. upload_chunk_with_retry 10 sample_transport default_upload_config ''u'' [7, 8, 9] 2 ([1, 2], 5)
     = (Inr (), url', w') \<and> fst w' = [1, 2, 7, 8, 9]"
  using upload_chunk_recovers [OF sample_recovering, of "([1, 2], 5)" default_upload_config 10 2 "[7, 8, 9]" "''u''"]
  by (simp add: default_upload_config_def)

end
