(* ===== verification/Oci_Push.thy ===== *)
theory Oci_Push
  imports Oci_Client Oci_Upload_Recovery
begin

text \<open>
  Uploading blobs, \<^verbatim>\<open>crates/nixcache-oci/src/client/upload.rs\<close>: uploads from memory, in one or two
  requests, and the streaming upload that sends a large stream in chunks. \<open>resolve\<close> resolves a
  \<open>Location\<close> against the endpoint of the client. Only the header that an upload adds to those of
  every authenticated request is listed. The capacity that is reserved for the buffer is left out.
\<close>

section \<open>Uploads from memory\<close>

abbreviation octet_stream :: request_headers where
  "octet_stream \<equiv> [(''Content-Type'', ''application/octet-stream'')]"

text \<open>A best effort whose outcome is only logged.\<close>

definition abort_upload_session :: "'w oci_requests \<Rightarrow> string \<Rightarrow> 'w \<Rightarrow> 'w" where
  "abort_upload_session rq session_url w = snd (rq_delete rq session_url w)"

text \<open>The start of an upload session, with its URL.\<close>

definition start_session ::
  "'w oci_requests \<Rightarrow> (string \<Rightarrow> registry_endpoint_error + string) \<Rightarrow> oci_client \<Rightarrow> ('w, string) step" where
  "start_session rq resolve client =
     seq (rq_post rq (upload_url (cl_endpoint client) (cl_repo client))) (\<lambda>(status, response_headers).
     if \<not> is_success status then fail (BlobUploadFailed status)
     else
       seq (lift (ok_or UploadLocationMissing (Option.bind (response_headers ''Location'') (\<lambda>value. value)))) (\<lambda>location.
       lift (map_err InvalidEndpoint (resolve location))))"

definition execute_two_step_put ::
  "'w oci_requests \<Rightarrow> (string \<Rightarrow> registry_endpoint_error + string) \<Rightarrow> oci_client \<Rightarrow> content_digest \<Rightarrow> bytes
     \<Rightarrow> ('w, unit) step" where
  "execute_two_step_put rq resolve client digest bs =
     seq (start_session rq resolve client) (\<lambda>session_url w.
     case seq (rq_put_bytes rq (with_digest session_url (content_str digest)) octet_stream bs) (\<lambda>put_status.
            if put_status = 201 \<or> put_status = 202 \<or> put_status = 200 then pure ()
            else fail (BlobUploadFailed put_status)) w of
       (Inl e, w') \<Rightarrow> (Inl e, abort_upload_session rq session_url w')
     | (Inr u, w') \<Rightarrow> (Inr u, w'))"

definition push_bytes_with_digest ::
  "(bytes \<Rightarrow> bytes) \<Rightarrow> 'w oci_requests \<Rightarrow> (string \<Rightarrow> registry_endpoint_error + string) \<Rightarrow> oci_client
     \<Rightarrow> content_digest \<Rightarrow> bytes \<Rightarrow> ('w, unit) step" where
  "push_bytes_with_digest H rq resolve client digest bs =
     (let actual = content_digest_from_bytes H bs in
      if actual \<noteq> digest
      then fail (DigestMismatch ''blob upload body'' (content_str digest) (content_str actual))
      else
        seq (blob_head rq client (content_str digest)) (\<lambda>found.
        if found then pure ()
        else case cap_fixed_upload_strategy (cl_capabilities client) of
            FixedTwoStepPut \<Rightarrow> execute_two_step_put rq resolve client digest bs
          | _ \<Rightarrow> (\<lambda>w.
              case rq_post_bytes rq (with_digest (upload_url (cl_endpoint client) (cl_repo client)) (content_str digest))
                  octet_stream bs w of
                (Inr status, w') \<Rightarrow>
                  if status = 201 \<or> status = 200 then (Inr (), w')
                  else execute_two_step_put rq resolve client digest bs w'
              | (Inl error, w') \<Rightarrow> execute_two_step_put rq resolve client digest bs w')))"

definition push_bytes ::
  "(bytes \<Rightarrow> bytes) \<Rightarrow> 'w oci_requests \<Rightarrow> (string \<Rightarrow> registry_endpoint_error + string) \<Rightarrow> oci_client
     \<Rightarrow> bytes \<Rightarrow> ('w, content_digest) step" where
  "push_bytes H rq resolve client bs =
     (let digest = content_digest_from_bytes H bs in
      seq (push_bytes_with_digest H rq resolve client digest bs) (\<lambda>_. pure digest))"

definition ensure_empty_config ::
  "(bytes \<Rightarrow> bytes) \<Rightarrow> 'w oci_requests \<Rightarrow> (string \<Rightarrow> registry_endpoint_error + string) \<Rightarrow> oci_client
     \<Rightarrow> ('w, unit) step" where
  "ensure_empty_config H rq resolve client =
     seq (push_bytes H rq resolve client (as_bytes ''{}'')) (\<lambda>digest.
     if content_str digest \<noteq> EMPTY_CONFIG_DIGEST
     then fail (DigestMismatch ''empty config'' EMPTY_CONFIG_DIGEST (content_str digest))
     else pure ())"

section \<open>Streaming uploads\<close>

definition upload_requests ::
  "'w oci_requests \<Rightarrow> (string \<Rightarrow> registry_endpoint_error + string) \<Rightarrow> oci_client \<Rightarrow> 'w upload_transport" where
  "upload_requests rq resolve client =
     \<lparr>tr_patch = rq_patch_chunk rq,
      tr_get = (\<lambda>url. seq (rq_get rq url (lim_max_manifest_bytes (cl_limits client))) (\<lambda>(status, headers, _).
        pure \<lparr>probe_status = status, probe_location_header = headers ''Location'',
          probe_range_header = headers ''Range''\<rparr>)),
      tr_sleep = rq_sleep rq, tr_resolve = resolve\<rparr>"

lemma hashing_poll_chunk:
  "hashing_poll H hs = (Some (Inr b), hs') \<Longrightarrow> length (hs_inner hs') < length (hs_inner hs)"
  by (auto simp: hashing_poll_def split: if_splits list.splits sum.splits)

text \<open>The loops that read the stream into the buffer, with \<open>stop\<close> as the condition to break.\<close>

function fill_buffer ::
  "(bytes \<Rightarrow> bytes) \<Rightarrow> (nat \<Rightarrow> bool) \<Rightarrow> hashing_stream \<Rightarrow> bytes \<Rightarrow> (oci_error + bytes) \<times> hashing_stream" where
  "fill_buffer H stop hs buffer =
     (case hashing_poll H hs of
        (None, hs') \<Rightarrow> (Inr buffer, hs')
      | (Some (Inl e), hs') \<Rightarrow> (Inl (from_transport_error e), hs')
      | (Some (Inr bs), hs') \<Rightarrow>
          if stop (length (buffer @ bs)) then (Inr (buffer @ bs), hs')
          else fill_buffer H stop hs' (buffer @ bs))"
  by pat_completeness auto
termination
  by (relation "measure (\<lambda>(_, _, hs, _). length (hs_inner hs))") (auto dest: hashing_poll_chunk [OF sym])

text \<open>The inner loop of the chunked upload: the buffer, and whether the stream has ended.\<close>

function fill_chunk ::
  "(bytes \<Rightarrow> bytes) \<Rightarrow> nat \<Rightarrow> hashing_stream \<Rightarrow> bytes \<Rightarrow> (oci_error + bytes \<times> bool) \<times> hashing_stream" where
  "fill_chunk H chunk_limit hs buffer =
     (if length buffer < chunk_limit
      then (case hashing_poll H hs of
          (None, hs') \<Rightarrow> (Inr (buffer, True), hs')
        | (Some (Inl e), hs') \<Rightarrow> (Inl (from_transport_error e), hs')
        | (Some (Inr bs), hs') \<Rightarrow> fill_chunk H chunk_limit hs' (buffer @ bs))
      else (Inr (buffer, False), hs))"
  by pat_completeness auto
termination
  by (relation "measure (\<lambda>(_, _, hs, _). length (hs_inner hs))") (auto dest: hashing_poll_chunk [OF sym])

declare fill_buffer.simps [simp del] fill_chunk.simps [simp del]

lemma fill_chunk_full:
  "fill_chunk H chunk_limit hs buffer = (Inr (buffer', False), hs') \<Longrightarrow>
   chunk_limit \<le> length buffer' \<and> (hs' = hs \<and> buffer' = buffer \<or> length (hs_inner hs') < length (hs_inner hs))"
proof (induction H chunk_limit hs buffer rule: fill_chunk.induct)
  case (1 H chunk_limit hs buffer)
  show ?case
  proof (cases "length buffer < chunk_limit")
    case False
    then show ?thesis using 1(2) by (simp add: fill_chunk.simps)
  next
    case True
    obtain r t where p: "hashing_poll H hs = (r, t)" by fastforce
    obtain bs where r: "r = Some (Inr bs)" "fill_chunk H chunk_limit t (buffer @ bs) = (Inr (buffer', False), hs')"
      using 1(2) True p by (cases r) (auto simp: fill_chunk.simps [of H chunk_limit hs] split: sum.splits)
    from 1(1) [OF True p [symmetric] r(1) refl r(2)] hashing_poll_chunk [OF p [unfolded r(1)]]
    show ?thesis by auto
  qed
qed

definition chunk_limit :: "upload_config \<Rightarrow> nat" where
  "chunk_limit config = max (cfg_chunk_size_bytes config) (1024 * 1024)"

definition send_length :: "upload_config \<Rightarrow> bool \<Rightarrow> bytes \<Rightarrow> nat" where
  "send_length config stream_ended buffer =
     (if stream_ended then length buffer else min (chunk_limit config) (length buffer))"

text \<open>
  The loop that sends the stream in chunks. The URL of the session is returned in every case,
  since the session is closed or aborted at its last URL.
\<close>

function send_chunks ::
  "(bytes \<Rightarrow> bytes) \<Rightarrow> nat \<Rightarrow> 'w upload_transport \<Rightarrow> upload_config \<Rightarrow> hashing_stream \<Rightarrow> string \<Rightarrow> u64 \<Rightarrow> bytes \<Rightarrow> 'w
     \<Rightarrow> (oci_error + unit) \<times> hashing_stream \<times> string \<times> 'w" where
  "send_chunks H usize_max tr config hs session_url current_offset buffer w =
     (case fill_chunk H (chunk_limit config) hs buffer of
        (Inl e, hs') \<Rightarrow> (Inl e, hs', session_url, w)
      | (Inr (chunk_buf, stream_ended), hs') \<Rightarrow>
          if chunk_buf = [] then (Inr (), hs', session_url, w)
          else
            let send_len = send_length config stream_ended chunk_buf; chunk_bytes = take send_len chunk_buf in
            (case upload_chunk_with_retry usize_max tr config session_url chunk_bytes current_offset w of
               (Inl e, url', w') \<Rightarrow> (Inl e, hs', url', w')
             | (Inr _, url', w') \<Rightarrow>
                 if stream_ended then (Inr (), hs', url', w')
                 else send_chunks H usize_max tr config hs' url'
                   (current_offset + of_nat (length chunk_bytes)) (drop send_len chunk_buf) w'))"
  by pat_completeness auto
termination
proof (relation "measures [\<lambda>(_, _, _, _, hs, _). length (hs_inner hs), \<lambda>(_, _, _, _, _, _, _, b, _). length b]", goal_cases)
  case (2 H usize_max tr config hs session_url current_offset buffer w x hs' y chunk_buf ended send_len chunk_bytes z v url' w' u)
  then have f: "fill_chunk H (chunk_limit config) hs buffer = (Inr (chunk_buf, False), hs')" by simp
  have "0 < chunk_limit config" by (simp add: chunk_limit_def)
  with fill_chunk_full [OF f] 2 show ?case by (auto simp: send_length_def min_def)
qed simp

declare send_chunks.simps [simp del]

definition stream_threshold :: "nat \<Rightarrow> upload_config \<Rightarrow> nat" where
  "stream_threshold usize_max config =
     unat (max (cfg_chunk_threshold_bytes config) (of_nat (chunk_limit config))) mod (usize_max + 1)"

definition push_buffered ::
  "(bytes \<Rightarrow> bytes) \<Rightarrow> 'w oci_requests \<Rightarrow> (string \<Rightarrow> registry_endpoint_error + string) \<Rightarrow> oci_client
     \<Rightarrow> hashing_stream \<Rightarrow> bytes \<Rightarrow> ('w, content_digest \<times> u64) step" where
  "push_buffered H rq resolve client hs buffer =
     (case fill_buffer H (\<lambda>_. False) hs buffer of
        (Inl e, _) \<Rightarrow> fail e
      | (Inr buffer, hs) \<Rightarrow>
          seq (lift (ok_or UploadDigestUnavailable (hashing_digest hs))) (\<lambda>stream_digest.
          seq (push_bytes H rq resolve client buffer) (\<lambda>pushed_digest.
          if pushed_digest \<noteq> stream_digest
          then fail (DigestMismatch ''buffered streaming blob'' (content_str stream_digest) (content_str pushed_digest))
          else pure (stream_digest, hs_bytes_streamed hs))))"

definition finish_upload ::
  "'w oci_requests \<Rightarrow> string \<Rightarrow> hashing_stream \<Rightarrow> ('w, content_digest \<times> u64) step" where
  "finish_upload rq session_url hs =
     seq (lift (ok_or UploadDigestUnavailable (hashing_digest hs))) (\<lambda>final_digest.
     seq (rq_put_chunk_finish rq (with_digest session_url (content_str final_digest))) (\<lambda>finish_status.
     if finish_status = 201 \<or> finish_status = 200 \<or> finish_status = 202
     then pure (final_digest, hs_bytes_streamed hs)
     else fail (BlobUploadFailed finish_status)))"

definition push_chunked ::
  "(bytes \<Rightarrow> bytes) \<Rightarrow> nat \<Rightarrow> 'w oci_requests \<Rightarrow> (string \<Rightarrow> registry_endpoint_error + string) \<Rightarrow> oci_client
     \<Rightarrow> upload_config \<Rightarrow> hashing_stream \<Rightarrow> bytes \<Rightarrow> ('w, content_digest \<times> u64) step" where
  "push_chunked H usize_max rq resolve client config hs buffer =
     seq (start_session rq resolve client) (\<lambda>session_url w.
     case send_chunks H usize_max (upload_requests rq resolve client) config hs session_url 0 buffer w of
       (Inl e, _, url, w') \<Rightarrow> (Inl e, abort_upload_session rq url w')
     | (Inr _, hs', url, w') \<Rightarrow>
         (case finish_upload rq url hs' w' of
            (Inl e, w'') \<Rightarrow> (Inl e, abort_upload_session rq url w'')
          | (Inr r, w'') \<Rightarrow> (Inr r, w'')))"

definition push_resumable ::
  "(bytes \<Rightarrow> bytes) \<Rightarrow> nat \<Rightarrow> 'w oci_requests \<Rightarrow> (string \<Rightarrow> registry_endpoint_error + string) \<Rightarrow> oci_client
     \<Rightarrow> upload_config \<Rightarrow> (transport_error + bytes) list \<Rightarrow> ('w, content_digest \<times> u64) step" where
  "push_resumable H usize_max rq resolve client config stream =
     (let threshold = stream_threshold usize_max config;
          allow_chunked = cap_supports_chunked_patch (cl_capabilities client)
            \<and> cap_fixed_upload_strategy (cl_capabilities client) = ResumableChunkedPatch
      in case fill_buffer H (\<lambda>n. n \<ge> threshold \<and> allow_chunked) (hashing_new stream) [] of
           (Inl e, _) \<Rightarrow> fail e
         | (Inr buffer, hs) \<Rightarrow>
             if length buffer < threshold \<or> \<not> allow_chunked then push_buffered H rq resolve client hs buffer
             else push_chunked H usize_max rq resolve client config hs buffer)"

end
