(* ===== verification/Oci_Codec.thy ===== *)
theory Oci_Codec
  imports Oci_Manifest Core_Index
begin

text \<open>
  Compression and the codec of index blobs: \<^verbatim>\<open>crates/nixcache-utils/src/compression.rs\<close> and
  \<^verbatim>\<open>crates/nixcache-oci/src/codec.rs\<close>. The compressor and the decompressor (\<open>libzstd\<close>, \<open>ruzstd\<close>) and
  JSON (\<open>serde_json\<close>) are arguments. The decompressor is what its reader delivers: the bytes, and
  the error that follows them, if any.
\<close>

section \<open>Zstd\<close>

record zstd_lib =
  zs_compress :: "bytes \<Rightarrow> int \<Rightarrow> compression_error + bytes"
  zs_decoder :: "bytes \<Rightarrow> compression_error + bytes \<times> string option"

definition DEFAULT_ZSTD_COMPRESSION_LEVEL :: int where
  "DEFAULT_ZSTD_COMPRESSION_LEVEL = 3"

definition ZSTD_MAGIC :: bytes where
  "ZSTD_MAGIC = [0x28, 0xB5, 0x2F, 0xFD]"

definition is_valid_magic :: "bytes \<Rightarrow> bool" where
  "is_valid_magic bs \<longleftrightarrow> length bs \<ge> 4 \<and> take 4 bs = ZSTD_MAGIC"

text \<open>\<open>u32::from_le_bytes\<close> of four bytes.\<close>

definition from_le_bytes32 :: "bytes \<Rightarrow> u32" where
  "from_le_bytes32 bs = foldr (\<lambda>b acc. ucast b + 256 * acc) bs 0"

definition found_magic :: "bytes \<Rightarrow> u32" where
  "found_magic raw_bytes =
     (if length raw_bytes \<ge> 4 then from_le_bytes32 (take 4 raw_bytes)
      else from_le_bytes32 (raw_bytes @ replicate (4 - length raw_bytes) 0))"

text \<open>\<open>read_to_end\<close> behind \<open>take\<close>: an error that comes after the limit is not seen.\<close>

definition read_limited :: "nat \<Rightarrow> bytes \<times> string option \<Rightarrow> compression_error + bytes" where
  "read_limited n delivered = (case delivered of (out, err) \<Rightarrow>
     if n \<le> length out then Inr (take n out)
     else case err of Some e \<Rightarrow> Inl (CompressionIo e) | None \<Rightarrow> Inr out)"

definition decompress_limited :: "zstd_lib \<Rightarrow> bytes \<Rightarrow> u64 \<Rightarrow> compression_error + bytes" where
  "decompress_limited zs raw_bytes max_output_bytes =
     (if raw_bytes = [] then Inl EmptyBuffer
      else if \<not> is_valid_magic raw_bytes then Inl (InvalidMagic (found_magic raw_bytes))
      else
        result_bind (zs_decoder zs raw_bytes) (\<lambda>decoder.
        result_bind (read_limited (unat (saturating_add64 max_output_bytes 1)) decoder) (\<lambda>uncompressed.
        if (of_nat (length uncompressed) :: u64) > max_output_bytes
        then Inl (OutputLimitExceeded max_output_bytes (of_nat (length uncompressed)))
        else Inr uncompressed)))"

section \<open>Index blobs\<close>

record 'a decoded_index =
  dec_value :: 'a
  dec_uncompressed_size :: u64

definition encode_zstd ::
  "zstd_lib \<Rightarrow> ('a \<Rightarrow> string + bytes) \<Rightarrow> 'a \<Rightarrow> int \<Rightarrow> oci_error + bytes" where
  "encode_zstd zs to_vec data level =
     result_bind (map_err OciJson (to_vec data)) (\<lambda>json_bytes.
     map_err OciCompression (zs_compress zs json_bytes level))"

definition decode_zstd ::
  "zstd_lib \<Rightarrow> (bytes \<Rightarrow> string + 'a) \<Rightarrow> bytes \<Rightarrow> string \<Rightarrow> u64 \<Rightarrow> oci_error + 'a decoded_index" where
  "decode_zstd zs from_slice raw_bytes media_type_str max_uncompressed =
     result_bind (ok_or (UnsupportedMediaType media_type_str) (media_type_parse media_type_str)) (\<lambda>_.
     result_bind (map_err OciCompression (decompress_limited zs raw_bytes max_uncompressed)) (\<lambda>uncompressed.
     result_bind (map_err OciJson (from_slice uncompressed)) (\<lambda>parsed.
     Inr \<lparr>dec_value = parsed, dec_uncompressed_size = of_nat (length uncompressed)\<rparr>)))"

text \<open>
  The readers of index roots and shard payloads check what they have read; \<open>custom\<close> is the text of
  a failed check in a JSON error.
\<close>

record index_json =
  xj_root_wire :: "bytes \<Rightarrow> string + index_data"
  xj_payload_wire :: "bytes \<Rightarrow> string + shard_payload"
  xj_write_root :: "index_data \<Rightarrow> string + bytes"
  xj_write_payload :: "shard_payload \<Rightarrow> string + bytes"
  xj_custom :: "core_error \<Rightarrow> string"

definition read_root ::
  "(string \<Rightarrow> 't option) \<Rightarrow> (bytes \<Rightarrow> bytes) \<Rightarrow> index_json \<Rightarrow> bytes \<Rightarrow> string + index_data" where
  "read_root rfc3339 H xj bs =
     result_bind (xj_root_wire xj bs) (\<lambda>wire. map_err (xj_custom xj) (index_deserialize rfc3339 H wire))"

definition read_payload ::
  "(string \<Rightarrow> 't option) \<Rightarrow> index_json \<Rightarrow> bytes \<Rightarrow> string + shard_payload" where
  "read_payload rfc3339 xj bs =
     result_bind (xj_payload_wire xj bs) (\<lambda>wire. map_err (xj_custom xj) (payload_deserialize rfc3339 wire))"

section \<open>Facts\<close>

lemma read_limited_Inr:
  "read_limited n (out, err) = Inr bs \<longleftrightarrow> n \<le> length out \<and> bs = take n out \<or> length out < n \<and> err = None \<and> bs = out"
  by (auto simp: read_limited_def split: option.splits)

text \<open>What is returned is all that the decompressor delivers, within the limit.\<close>

lemma decompress_limited_Inr:
  assumes "max_output_bytes \<noteq> 2 ^ 64 - 1"
  shows "decompress_limited zs raw max_output_bytes = Inr bs \<longleftrightarrow>
    is_valid_magic raw \<and> zs_decoder zs raw = Inr (bs, None) \<and> length bs \<le> unat max_output_bytes"
proof -
  let ?n = "unat max_output_bytes"
  have "?n \<noteq> 2 ^ 64 - 1"
  proof
    assume "?n = 2 ^ 64 - 1"
    then have "unat max_output_bytes = unat (2 ^ 64 - 1 :: u64)" by simp
    then show False using assms by (simp add: word_unat_eq_iff)
  qed
  moreover have "?n < 2 ^ LENGTH(64)" by (rule unsigned_less)
  ultimately have n: "?n + 1 < 2 ^ 64" by simp
  then have m: "unat (saturating_add64 max_output_bytes 1) = ?n + 1"
    by (simp add: saturating_add64_def unat_word_ariths)
  have over: "(of_nat (length out) :: u64) > max_output_bytes \<longleftrightarrow> ?n < length out" if "length out \<le> ?n + 1" for out :: bytes
    using that n by (simp add: word_less_nat_alt unat_of_nat64)
  have magic: "is_valid_magic raw \<Longrightarrow> raw \<noteq> []" by (auto simp: is_valid_magic_def)
  show ?thesis
  proof (cases "zs_decoder zs raw")
    case (Inr d)
    obtain out err where d: "d = (out, err)" by fastforce
    have "?n + 1 \<le> length out \<Longrightarrow> (of_nat (length (take (?n + 1) out)) :: u64) > max_output_bytes"
      by (subst over) simp_all
    then show ?thesis
      using magic Inr d over [of out]
      by (auto simp: decompress_limited_def m result_bind_eq_Inr read_limited_Inr split: if_splits)
  qed (auto simp: decompress_limited_def)
qed

end
