(* ===== verification/Oci_Index.thy ===== *)
theory Oci_Index
  imports Oci_Registry Oci_Push Oci_Codec
begin

text \<open>
  The sharded index in the registry: \<^verbatim>\<open>client/index.rs\<close>, the sharded updates of
  \<^verbatim>\<open>client/index/update.rs\<close>, \<open>put\<close>, \<open>put_cas\<close> and \<open>head\<close> of \<^verbatim>\<open>client/manifest.rs\<close> and \<open>push_zstd\<close> of
  \<^verbatim>\<open>client/upload.rs\<close>. What the operations take from outside (time stamps, SHA-256, compression,
  JSON, the resolution of locations and the clock) is gathered in one record.
\<close>

record ('t, 'w) index_env =
  ie_rfc3339 :: "string \<Rightarrow> 't option"
  ie_hash :: "bytes \<Rightarrow> bytes"
  ie_zstd :: zstd_lib
  ie_index_json :: index_json
  ie_json :: json_codec
  ie_resolve :: "string \<Rightarrow> registry_endpoint_error + string"
  ie_utc_now :: "'w \<Rightarrow> string"

section \<open>Manifests by tag\<close>

definition trim_end_quotes :: "string \<Rightarrow> string" where
  "trim_end_quotes s = rev (dropWhile (\<lambda>c. c = CHR 0x22) (rev s))"

fun trim_weak :: "string \<Rightarrow> string" where
  "trim_weak s = (case s of
     a # b # c # t \<Rightarrow> if a = CHR ''W'' \<and> b = CHR ''/'' \<and> c = CHR 0x22 then trim_weak t else s
   | _ \<Rightarrow> s)"

declare trim_weak.simps [simp del]

text \<open>The digest is in the first of two headers that is present, even when it is not text.\<close>

definition manifest_head :: "'w oci_requests \<Rightarrow> oci_client \<Rightarrow> string \<Rightarrow> ('w, string option) step" where
  "manifest_head rq client tag =
     seq (rq_head rq (manifest_url (cl_endpoint client) (cl_repo client) tag)) (\<lambda>(status, response_headers).
     if status = 200
     then pure (map_option (\<lambda>value. trim_end_quotes (trim_weak (dropWhile (\<lambda>c. c = CHR 0x22) (trim_end_quotes value))))
       (Option.bind (option_or (response_headers ''Docker-Content-Digest'') (response_headers ''ETag'')) (\<lambda>value. value)))
     else if status = 404 then pure None
     else fail (ManifestFetchFailed status))"

definition manifest_get ::
  "(bytes \<Rightarrow> bytes) \<Rightarrow> json_codec \<Rightarrow> 'w oci_requests \<Rightarrow> oci_client \<Rightarrow> string \<Rightarrow> ('w, string option) step" where
  "manifest_get H js rq client tag =
     seq (get_with_digest H js rq client tag) (\<lambda>manifest. pure (map_option fst manifest))"

text \<open>A manifest that names the empty configuration has it uploaded first.\<close>

definition ensure_config ::
  "('t, 'w) index_env \<Rightarrow> 'w oci_requests \<Rightarrow> oci_client \<Rightarrow> string \<Rightarrow> ('w, unit) step" where
  "ensure_config env rq client manifest =
     (if contains_str EMPTY_CONFIG_DIGEST manifest
      then ensure_empty_config (ie_hash env) rq (ie_resolve env) client else pure ())"

definition manifest_put ::
  "('t, 'w) index_env \<Rightarrow> 'w oci_requests \<Rightarrow> oci_client \<Rightarrow> string \<Rightarrow> string \<Rightarrow> ('w, unit) step" where
  "manifest_put env rq client tag manifest =
     seq (ensure_config env rq client manifest) (\<lambda>_.
     seq (rq_put_bytes rq (manifest_url (cl_endpoint client) (cl_repo client) tag)
       [(''Content-Type'', OCI_IMAGE_MANIFEST_MEDIA_TYPE)] (as_bytes manifest)) (\<lambda>status.
     if published status then pure () else fail (ManifestPushFailed status)))"

definition manifest_put_cas ::
  "('t, 'w) index_env \<Rightarrow> 'w oci_requests \<Rightarrow> oci_client \<Rightarrow> string \<Rightarrow> string \<Rightarrow> manifest_cas_condition
     \<Rightarrow> ('w, unit) step" where
  "manifest_put_cas env rq client tag manifest condition =
     seq (lift (ensure_cas_supported client tag)) (\<lambda>_.
     seq (ensure_config env rq client manifest) (\<lambda>_.
     seq (lift (insert_cas_condition [(''Content-Type'', OCI_IMAGE_MANIFEST_MEDIA_TYPE)] condition)) (\<lambda>(headers, expected).
     seq (rq_put_bytes rq (manifest_url (cl_endpoint client) (cl_repo client) tag) headers (as_bytes manifest)) (\<lambda>status.
     if status = 412 \<or> status = 409 then fail (CasPreconditionFailed tag expected None)
     else if published status then pure ()
     else fail (ManifestPushFailed status)))))"

section \<open>Reading the root of an index\<close>

definition get_image_manifest ::
  "('t, 'w) index_env \<Rightarrow> 'w oci_requests \<Rightarrow> oci_client \<Rightarrow> string \<Rightarrow> ('w, (oci_image_manifest \<times> string) option) step" where
  "get_image_manifest env rq client tag =
     seq (get_with_digest (ie_hash env) (ie_json env) rq client tag) (\<lambda>found. case found of
       Some (json, digest) \<Rightarrow>
         seq (lift (map_err OciJson (js_image_manifest (ie_json env) json))) (\<lambda>manifest.
         seq (lift (image_manifest_validate_for manifest (cl_limits client) tag)) (\<lambda>_.
         pure (Some (manifest, digest))))
     | None \<Rightarrow> pure None)"

definition get_image_index ::
  "('t, 'w) index_env \<Rightarrow> 'w oci_requests \<Rightarrow> oci_client \<Rightarrow> string \<Rightarrow> ('w, (oci_image_index \<times> string) option) step" where
  "get_image_index env rq client tag =
     seq (get_with_digest (ie_hash env) (ie_json env) rq client tag) (\<lambda>found. case found of
       Some (json, digest) \<Rightarrow>
         seq (lift (map_err OciJson (js_image_index (ie_json env) json))) (\<lambda>ix.
         seq (lift (image_index_validate_for ix (cl_limits client) tag)) (\<lambda>_.
         pure (Some (ix, digest))))
     | None \<Rightarrow> pure None)"

definition check_shard_size :: "oci_client \<Rightarrow> shard_descriptor \<Rightarrow> oci_error + unit" where
  "check_shard_size client shard =
     (if \<not> desc_is_empty shard \<and> desc_compressed_size shard > lim_max_buffered_blob_bytes (cl_limits client)
      then Inl (SizeLimitExceeded (desc_blob_digest shard) (lim_max_buffered_blob_bytes (cl_limits client))
        (desc_compressed_size shard))
      else Inr ())"

definition decode_root_manifest ::
  "('t, 'w) index_env \<Rightarrow> 'w oci_requests \<Rightarrow> oci_client \<Rightarrow> oci_image_manifest \<Rightarrow> system_arch \<Rightarrow> string
     \<Rightarrow> ('w, index_data) step" where
  "decode_root_manifest env rq client manifest system target =
     seq (lift (ok_or (InvalidDescriptor target [Lit ''Schema v8 root manifest merkle_root annotation is missing''])
       (annotation_of ''org.nixos.nixcache.merkle_root'' (im_annotations manifest)))) (\<lambda>merkle_root.
     seq (lift (validate_schema_v8_root manifest system merkle_root (cl_limits client) target)) (\<lambda>layer.
     seq (get_descriptor (ie_hash env) rq client layer) (\<lambda>blob_bytes.
     seq (lift (decode_zstd (ie_zstd env) (read_root (ie_rfc3339 env) (ie_hash env) (ie_index_json env)) blob_bytes
       (od_media_type layer) (lim_max_index_uncompressed_bytes (cl_limits client)))) (\<lambda>decoded.
     let root_data = dec_value decoded in
     seq (lift (map_err OciCore (index_validate_for (ie_rfc3339 env) (ie_hash env) root_data system (cl_repo client)
       (ep_authority (cl_endpoint client)) (index_limits_of (cl_limits client))))) (\<lambda>_.
     seq (lift (try_each (check_shard_size client) (idx_shards root_data))) (\<lambda>_.
     if idx_merkle_root root_data \<noteq> merkle_root
     then fail (DigestMismatch target merkle_root (idx_merkle_root root_data))
     else pure root_data))))))"

definition arch_tag :: "string \<Rightarrow> system_arch \<Rightarrow> string" where
  "arch_tag tag system =
     (if ends_with (system_as_str system) tag then tag else tag @ ''-'' @ system_as_str system)"

definition get_sharded_root ::
  "('t, 'w) index_env \<Rightarrow> 'w oci_requests \<Rightarrow> oci_client \<Rightarrow> string \<Rightarrow> system_arch
     \<Rightarrow> ('w, (index_data \<times> string) option) step" where
  "get_sharded_root env rq client tag system =
     seq (get_image_manifest env rq client (arch_tag tag system)) (\<lambda>found. case found of
       Some (sub_manifest, sub_digest) \<Rightarrow>
         seq (decode_root_manifest env rq client sub_manifest system (arch_tag tag system)) (\<lambda>root_data.
         pure (Some (root_data, sub_digest)))
     | None \<Rightarrow>
         seq (fetch_artifact (ie_hash env) (ie_json env) rq client tag) (\<lambda>fetched. case fetched of
           None \<Rightarrow> pure None
         | Some artifact \<Rightarrow> (case fa_manifest artifact of
             ArtifactIndex ix \<Rightarrow> (case find_manifest_for_system ix system of
               None \<Rightarrow> pure None
             | Some descriptor \<Rightarrow>
                 if option_or (platform_system descriptor) (annotated_system descriptor) \<noteq> Some system
                 then fail (InvalidDescriptor (od_digest descriptor)
                   [Lit ''image index descriptor platform does not match the request''])
                 else
                   seq (get_with_digest_and_size (ie_hash env) (ie_json env) rq client (od_digest descriptor)
                     (od_size descriptor)) (\<lambda>sub.
                   seq (lift (ok_or (SubManifestMissing (od_digest descriptor)) sub)) (\<lambda>(manifest_json, _).
                   seq (lift (map_err OciJson (js_image_manifest (ie_json env) manifest_json))) (\<lambda>sub_manifest.
                   seq (lift (image_manifest_validate_for sub_manifest (cl_limits client) (od_digest descriptor))) (\<lambda>_.
                   seq (decode_root_manifest env rq client sub_manifest system (od_digest descriptor)) (\<lambda>root_data.
                   pure (Some (root_data, fa_digest artifact))))))))
           | ArtifactManifest manifest \<Rightarrow>
               seq (decode_root_manifest env rq client manifest system tag) (\<lambda>root_data.
               pure (Some (root_data, fa_digest artifact))))))"

section \<open>Publishing\<close>

definition push_zstd ::
  "('t, 'w) index_env \<Rightarrow> 'w oci_requests \<Rightarrow> oci_client \<Rightarrow> ('a \<Rightarrow> string + bytes) \<Rightarrow> 'a
     \<Rightarrow> ('w, content_digest \<times> u64 \<times> u64) step" where
  "push_zstd env rq client to_vec data =
     seq (lift (map_err OciJson (to_vec data))) (\<lambda>raw_json.
     seq (lift (encode_zstd (ie_zstd env) to_vec data DEFAULT_ZSTD_COMPRESSION_LEVEL)) (\<lambda>compressed_bytes.
     seq (push_bytes (ie_hash env) rq (ie_resolve env) client compressed_bytes) (\<lambda>pushed_digest.
     pure (pushed_digest, of_nat (length compressed_bytes), of_nat (length raw_json)))))"

text \<open>The part that the two writers share: the root blob and the manifest that names it.\<close>

definition root_manifest_json ::
  "('t, 'w) index_env \<Rightarrow> 'w oci_requests \<Rightarrow> oci_client \<Rightarrow> index_data \<Rightarrow> ('w, string) step" where
  "root_manifest_json env rq client root_data =
     seq (lift (map_err OciCore (index_validate_structure (ie_rfc3339 env) (ie_hash env) root_data))) (\<lambda>_.
     seq (push_zstd env rq client (xj_write_root (ie_index_json env)) root_data) (\<lambda>(root_blob_digest, root_compressed_size, _) w.
     let manifest = build_sharded_arch_index_manifest (ie_utc_now env w)
       \<lparr>mp_root_blob_digest = content_str root_blob_digest, mp_root_blob_size = root_compressed_size,
        mp_config_digest = EMPTY_CONFIG_DIGEST, mp_config_size = EMPTY_CONFIG_SIZE,
        mp_system = idx_system root_data, mp_merkle_root = idx_merkle_root root_data\<rparr>
     in lift (map_err OciJson (js_write_manifest (ie_json env) manifest)) w))"

definition push_sharded_root ::
  "('t, 'w) index_env \<Rightarrow> 'w oci_requests \<Rightarrow> oci_client \<Rightarrow> string \<Rightarrow> index_data \<Rightarrow> ('w, string) step" where
  "push_sharded_root env rq client tag root_data =
     seq (root_manifest_json env rq client root_data) (\<lambda>manifest_json.
     seq (manifest_put env rq client tag manifest_json) (\<lambda>_.
     pure (compute_sha256_digest (ie_hash env) (as_bytes manifest_json))))"

definition push_sharded_root_cas ::
  "('t, 'w) index_env \<Rightarrow> 'w oci_requests \<Rightarrow> oci_client \<Rightarrow> string \<Rightarrow> index_data \<Rightarrow> manifest_cas_condition
     \<Rightarrow> ('w, string) step" where
  "push_sharded_root_cas env rq client tag root_data condition =
     (if cap_manifest_cas_support (cl_capabilities client) \<noteq> IfMatch
      then fail (CasUnsupported tag (cl_kind client))
      else
        seq (root_manifest_json env rq client root_data) (\<lambda>manifest_json.
        seq (manifest_put_cas env rq client tag manifest_json condition) (\<lambda>_.
        pure (compute_sha256_digest (ie_hash env) (as_bytes manifest_json)))))"

definition push_shard_data ::
  "('t, 'w) index_env \<Rightarrow> 'w oci_requests \<Rightarrow> oci_client \<Rightarrow> shard_payload \<Rightarrow> ('w, string \<times> u64 \<times> u64) step" where
  "push_shard_data env rq client payload =
     seq (lift (map_err OciCore (payload_validate_structure (ie_rfc3339 env) payload))) (\<lambda>_.
     seq (push_zstd env rq client (xj_write_payload (ie_index_json env)) payload) (\<lambda>(digest, compressed, uncompressed).
     pure (content_str digest, compressed, uncompressed)))"

section \<open>Reading a shard\<close>

definition empty_shard_data ::
  "('t, 'w) index_env \<Rightarrow> shard_descriptor \<Rightarrow> oci_error + shard_payload" where
  "empty_shard_data env d =
     (let bad = Inl (InvalidDescriptor (show_nat (unat (desc_shard_id d)))
            [Lit ''empty shard descriptor has non-empty metadata''])
      in if \<not> unat (desc_shard_id d) < NUM_SHARDS \<or> desc_blob_digest d \<noteq> []
           \<or> desc_compressed_size d \<noteq> 0 \<or> desc_uncompressed_size d \<noteq> 0
         then bad
         else
           result_bind (map_err OciCore (payload_new (desc_shard_id d))) (\<lambda>empty.
           result_bind (map_err OciCore (payload_compute_merkle_hash (ie_rfc3339 env) (ie_hash env) empty)) (\<lambda>expected.
           if desc_merkle_hash d \<noteq> expected then bad
           else map_err OciCore (payload_new (desc_shard_id d)))))"

definition check_shard_payload ::
  "('t, 'w) index_env \<Rightarrow> oci_client \<Rightarrow> shard_descriptor \<Rightarrow> system_arch \<Rightarrow> shard_payload decoded_index
     \<Rightarrow> oci_error + shard_payload" where
  "check_shard_payload env client d system decoded =
     (if dec_uncompressed_size decoded \<noteq> desc_uncompressed_size d
      then Inl (SizeMismatch (desc_blob_digest d) (desc_uncompressed_size d) (dec_uncompressed_size decoded))
      else
        let payload = dec_value decoded in
        result_bind (map_err OciCore (payload_validate_for (ie_rfc3339 env) payload (desc_shard_id d) system
          (index_limits_of (cl_limits client)))) (\<lambda>_.
        if payload_len payload \<noteq> unat (desc_entry_count d)
        then Inl (SizeMismatch (desc_blob_digest d) (desc_entry_count d) (of_nat (payload_len payload)))
        else
          result_bind (map_err OciCore (payload_validate_merkle_hash (ie_rfc3339 env) (ie_hash env) payload
            (desc_merkle_hash d))) (\<lambda>_. Inr payload)))"

definition get_shard_data ::
  "('t, 'w) index_env \<Rightarrow> 'w oci_requests \<Rightarrow> oci_client \<Rightarrow> shard_descriptor \<Rightarrow> system_arch
     \<Rightarrow> ('w, shard_payload) step" where
  "get_shard_data env rq client d system =
     seq (lift (map_err OciCore (desc_validate_structure (ie_rfc3339 env) (ie_hash env) d))) (\<lambda>_.
     if desc_entry_count d = 0 then lift (empty_shard_data env d)
     else
       seq (get_descriptor (ie_hash env) rq client
         \<lparr>od_media_type = SHARD_DATA_V8_ZSTD, od_digest = desc_blob_digest d, od_size = desc_compressed_size d,
          od_platform = None, od_annotations = None\<rparr>) (\<lambda>blob_bytes.
       seq (lift (decode_zstd (ie_zstd env) (read_payload (ie_rfc3339 env) (ie_index_json env)) blob_bytes
         SHARD_DATA_V8_ZSTD (lim_max_index_uncompressed_bytes (cl_limits client)))) (\<lambda>decoded.
       lift (check_shard_payload env client d system decoded))))"

section \<open>Updating the root\<close>

definition sharded_backoff :: "nat \<Rightarrow> nat \<Rightarrow> nat" where
  "sharded_backoff pid attempt = 100 * 2 ^ min attempt 5 + (pid * 37 + attempt * 53) mod 100"

definition fetch_root_condition ::
  "('t, 'w) index_env \<Rightarrow> 'w oci_requests \<Rightarrow> oci_client \<Rightarrow> string \<Rightarrow> system_arch
     \<Rightarrow> ('w, index_data option \<times> manifest_cas_condition) step" where
  "fetch_root_condition env rq client tag system =
     seq (get_sharded_root env rq client tag system) (\<lambda>found. pure (case found of
       Some (data, digest) \<Rightarrow> (Some data, Match digest)
     | None \<Rightarrow> (None, CreateOnly)))"

definition update_sharded_cas ::
  "('t, 'w) index_env \<Rightarrow> 'w oci_requests \<Rightarrow> nat \<Rightarrow> oci_client \<Rightarrow> string \<Rightarrow> system_arch \<Rightarrow> nat
     \<Rightarrow> (index_data option \<Rightarrow> oci_error + index_data) \<Rightarrow> ('w, string) step" where
  "update_sharded_cas env rq pid client tag system max_retries mutator =
     seq (lift (ensure_cas_supported client tag)) (\<lambda>_.
     cas_loop (fetch_root_condition env rq client (arch_tag tag system) system)
       (push_sharded_root_cas env rq client (arch_tag tag system)) (rq_sleep rq)
       (sharded_backoff pid) max_retries mutator \<lparr>cc_attempt = 0, cc_pc = Fetching\<rparr>)"

definition update_sharded_single_writer ::
  "('t, 'w) index_env \<Rightarrow> 'w oci_requests \<Rightarrow> oci_client \<Rightarrow> string \<Rightarrow> system_arch
     \<Rightarrow> (index_data option \<Rightarrow> oci_error + index_data) \<Rightarrow> ('w, string) step" where
  "update_sharded_single_writer env rq client tag system mutator =
     seq (get_sharded_root env rq client (arch_tag tag system) system) (\<lambda>existing.
     seq (lift (mutator (map_option fst existing))) (\<lambda>updated_root.
     push_sharded_root env rq client (arch_tag tag system) updated_root))"

end
