(* ===== verification/Oci_Index_Auth.thy ===== *)
theory Oci_Index_Auth
  imports Oci_Index
begin

text \<open>
  What a reader of the sharded index may rely on, whatever the registry answers: the Merkle root
  fixes every entry that is read.
\<close>

section \<open>What the readers return\<close>

lemma decode_zstd_Inr:
  "decode_zstd zs read raw media limit = Inr dec \<Longrightarrow>
   \<exists>out. read out = Inr (dec_value dec) \<and> dec_uncompressed_size dec = of_nat (length out)"
  by (auto simp: decode_zstd_def result_bind_eq_Inr map_err_eq_Inr)

lemma decode_root_Inr:
  assumes "decode_root_manifest env rq client manifest system target w = (Inr root, w')"
  shows "index_validate_structure (ie_rfc3339 env) (ie_hash env) root = Inr () \<and> idx_system root = system
    \<and> idx_repo root = cl_repo client \<and> idx_registry root = ep_authority (cl_endpoint client)"
  using assms
  by (auto simp: decode_root_manifest_def step_simps Let_def map_err_eq_Inr index_validate_for_def result_bind_eq_Inr
      if_Inl_eq_Inr split: if_splits)

lemma get_sharded_root_Inr:
  assumes "get_sharded_root env rq client tag system w = (Inr (Some (root, digest)), w')"
  shows "index_validate_structure (ie_rfc3339 env) (ie_hash env) root = Inr () \<and> idx_system root = system
    \<and> idx_repo root = cl_repo client \<and> idx_registry root = ep_authority (cl_endpoint client)"
proof -
  obtain found w1 where found: "get_image_manifest env rq client (arch_tag tag system) w = (Inr found, w1)"
    using assms by (auto simp: get_sharded_root_def seq_Inr)
  have "\<exists>manifest target v v'. decode_root_manifest env rq client manifest system target v = (Inr root, v')"
  proof (cases found)
    case (Some m)
    then show ?thesis
      using assms found by (cases m) (auto simp: get_sharded_root_def step_simps)
  next
    case None
    then obtain fetched w2 where fetched: "fetch_artifact (ie_hash env) (ie_json env) rq client tag w1 = (Inr fetched, w2)"
      using assms found by (auto simp: get_sharded_root_def step_simps)
    obtain a where a: "fetched = Some a"
      using assms found None fetched by (cases fetched) (simp_all add: get_sharded_root_def seq_eq pure_def)
    note rest = assms [unfolded get_sharded_root_def seq_eq, simplified, unfolded found None seq_eq, simplified, unfolded fetched a, simplified]
    show ?thesis
    proof (cases "fa_manifest a")
      case (ArtifactManifest m)
      then show ?thesis using rest by (auto simp: pure_def split: prod.splits sum.splits)
    next
      case (ArtifactIndex ix)
      then obtain d where "find_manifest_for_system ix system = Some d"
        using rest by (cases "find_manifest_for_system ix system") (simp_all add: pure_def)
      then show ?thesis
        using rest ArtifactIndex
        by (simp split: if_splits) (auto simp: pure_def fail_def seq_eq lift_def split: prod.splits sum.splits)
    qed
  qed
  then show ?thesis by (elim exE) (rule decode_root_Inr)
qed

text \<open>
  The maps of JSON objects have each key once, and what was read from memory has sizes that the
  canonical encoding can express.
\<close>

definition reads_maps :: "index_json \<Rightarrow> bool" where
  "reads_maps xj \<longleftrightarrow> (\<forall>bs p. xj_payload_wire xj bs = Inr p \<longrightarrow>
     distinct (map fst (payload_entries p)) \<and> fits (payload_entries p) \<and> list_all entry_fits (payload_entries p))"

lemma empty_shard_data_Inr:
  "empty_shard_data env d = Inr p \<Longrightarrow> payload_entries p = []
     \<and> compute_shard_merkle_hash (ie_rfc3339 env) (ie_hash env) (desc_shard_id d) [] = Inr (desc_merkle_hash d)"
  by (auto simp: empty_shard_data_def Let_def result_bind_eq_Inr map_err_eq_Inr payload_new_def
      payload_compute_merkle_hash_def split: if_splits)

lemma check_shard_payload_Inr:
  "check_shard_payload env client d system dec = Inr p \<Longrightarrow> p = dec_value dec
     \<and> payload_len p = unat (desc_entry_count d)
     \<and> payload_validate_for (ie_rfc3339 env) p (desc_shard_id d) system (index_limits_of (cl_limits client)) = Inr ()
     \<and> compute_shard_merkle_hash (ie_rfc3339 env) (ie_hash env) (desc_shard_id d) (payload_entries p)
         = Inr (desc_merkle_hash d)"
  by (auto simp: check_shard_payload_def Let_def result_bind_eq_Inr map_err_eq_Inr payload_validate_merkle_hash_def
      payload_compute_merkle_hash_def payload_validate_for_def if_Inl_eq_Inr split: if_splits)

lemma get_shard_data_Inr:
  assumes "reads_maps (ie_index_json env)" "get_shard_data env rq client d system w = (Inr p, w')"
  shows "distinct (map fst (payload_entries p)) \<and> fits (payload_entries p) \<and> list_all entry_fits (payload_entries p)
    \<and> compute_shard_merkle_hash (ie_rfc3339 env) (ie_hash env) (desc_shard_id d) (payload_entries p)
        = Inr (desc_merkle_hash d)"
proof (cases "desc_entry_count d = 0")
  case True
  then have "empty_shard_data env d = Inr p"
    using assms(2) by (auto simp: get_shard_data_def step_simps)
  then show ?thesis using empty_shard_data_Inr [of env d p] by (simp add: fits_def)
next
  case False
  then obtain bs dec where "decode_zstd (ie_zstd env) (read_payload (ie_rfc3339 env) (ie_index_json env)) bs
      SHARD_DATA_V8_ZSTD (lim_max_index_uncompressed_bytes (cl_limits client)) = Inr dec"
    and c: "check_shard_payload env client d system dec = Inr p"
    using assms(2) by (auto simp: get_shard_data_def step_simps)
  then obtain out where "read_payload (ie_rfc3339 env) (ie_index_json env) out = Inr p"
    using decode_zstd_Inr check_shard_payload_Inr [OF c] by metis
  then have "xj_payload_wire (ie_index_json env) out = Inr p"
    by (auto simp: read_payload_def result_bind_eq_Inr map_err_eq_Inr payload_deserialize_def)
  then show ?thesis
    using assms(1) check_shard_payload_Inr [OF c] unfolding reads_maps_def by blast
qed

section \<open>Authenticity\<close>

text \<open>
  C6. The Merkle root fixes the whole cache: two readers, of the same or of different registries
  and clients, whose roots have the same Merkle hash get the same entries for every store hash,
  unless SHA-256 collides on the messages that were hashed.
\<close>

theorem cache_lookup_authentic:
  assumes "\<And>m. length (ie_hash env m) = 32" "reads_maps (ie_index_json env)"
    and "get_sharded_root env rq client tag system w = (Inr (Some (root, digest)), w1)"
    and "get_sharded_root env rq' client' tag' system' v = (Inr (Some (root', digest')), v1)"
    and "idx_merkle_root root = idx_merkle_root root'"
    and "find_shard root hash = Some d" "get_shard_data env rq client d system w2 = (Inr p, w3)"
    and "find_shard root' hash = Some d'" "get_shard_data env rq' client' d' system' v2 = (Inr p', v3)"
    and "no_collision (ie_hash env) (root_trace (ie_hash env) (idx_shards root)) (root_trace (ie_hash env) (idx_shards root'))"
    and "no_collision (ie_hash env) (shard_trace (ie_hash env) (desc_shard_id d) (payload_entries p))
      (shard_trace (ie_hash env) (desc_shard_id d') (payload_entries p'))"
  shows "idx_shards root = idx_shards root' \<and> d = d' \<and> map_of (payload_entries p) = map_of (payload_entries p')"
proof -
  let ?H = "ie_hash env" and ?rfc = "ie_rfc3339 env"
  have v: "index_validate_structure ?rfc ?H root = Inr ()" "index_validate_structure ?rfc ?H root' = Inr ()"
    using get_sharded_root_Inr [OF assms(3)] get_sharded_root_Inr [OF assms(4)] by simp_all
  then have "compute_merkle_root ?rfc ?H (idx_shards root) = Inr (idx_merkle_root root)"
    "compute_merkle_root ?rfc ?H (idx_shards root') = Inr (idx_merkle_root root)"
    using assms(5) by (simp_all add: index_validate_Inr [of ?H, OF assms(1)])
  from merkle_root_bound [of ?H, OF assms(1) this index_valid_indexed [of ?H, OF assms(1) v(1)]
      index_valid_indexed [of ?H, OF assms(1) v(2)] assms(10)]
  have same: "idx_shards root = idx_shards root'" by simp
  then have d: "d = d'" using assms(6,8) by (simp add: find_shard_def)
  note p = get_shard_data_Inr [OF assms(2,7)] and p' = get_shard_data_Inr [OF assms(2,9)]
  have "map_of (payload_entries p) = map_of (payload_entries p')"
    using shard_hash_bound [of ?H, OF assms(1), of "payload_entries p" "payload_entries p'" ?rfc
        "desc_shard_id d" "desc_merkle_hash d" "desc_shard_id d'"] p p' d assms(11) by simp
  with same d show ?thesis by blast
qed

section \<open>A sample index\<close>

text \<open>A registry that answers the first request with a manifest and the others with a blob.\<close>

definition sample_root_params :: sharded_manifest_params where
  "sample_root_params =
     \<lparr>mp_root_blob_digest = format_digest (sample_H ZSTD_MAGIC), mp_root_blob_size = 4,
      mp_config_digest = EMPTY_CONFIG_DIGEST, mp_config_size = EMPTY_CONFIG_SIZE, mp_system = X86_64Linux,
      mp_merkle_root = idx_merkle_root sample_index\<rparr>"

definition sample_index_env :: "(nat, nat) index_env" where
  "sample_index_env =
     \<lparr>ie_rfc3339 = sample_rfc3339, ie_hash = sample_H,
      ie_zstd = \<lparr>zs_compress = \<lambda>bs _. Inr (ZSTD_MAGIC @ bs), zs_decoder = \<lambda>bs. Inr (drop 4 bs, None)\<rparr>,
      ie_index_json = \<lparr>xj_root_wire = \<lambda>_. Inr sample_index, xj_payload_wire = \<lambda>_. Inl ''none'',
        xj_write_root = \<lambda>_. Inl ''none'', xj_write_payload = \<lambda>_. Inl ''none'', xj_custom = \<lambda>_. ''invalid''\<rparr>,
      ie_json = \<lparr>js_artifact = \<lambda>_. Inl ''none'', js_image_index = \<lambda>_. Inl ''none'',
        js_image_manifest = \<lambda>_. Inr (build_sharded_arch_index_manifest ''now'' sample_root_params),
        js_write_index = \<lambda>_. Inl ''none'', js_write_manifest = \<lambda>_. Inl ''none'', js_utf8_error = \<lambda>_. ''utf8''\<rparr>,
      ie_resolve = Inr, ie_utc_now = \<lambda>_. ''now''\<rparr>"

definition sample_index_requests :: "nat oci_requests" where
  "sample_index_requests =
     \<lparr>rq_get = \<lambda>_ _ n. (Inr (200, \<lambda>_. None, if n = 0 then [] else ZSTD_MAGIC), n + 1),
      rq_head = \<lambda>_. fail UploadLocationMissing, rq_stream = \<lambda>_ _. fail UploadLocationMissing,
      rq_post = \<lambda>_. fail UploadLocationMissing, rq_post_bytes = \<lambda>_ _ _. fail UploadLocationMissing,
      rq_put_bytes = \<lambda>_ _ _. fail UploadLocationMissing, rq_patch_chunk = \<lambda>_ _ _. fail UploadLocationMissing,
      rq_put_chunk_finish = \<lambda>_. fail UploadLocationMissing, rq_delete = \<lambda>_. fail UploadLocationMissing,
      rq_sleep = \<lambda>_ n. n\<rparr>"

definition sample_index_client :: oci_client where
  "sample_index_client =
     \<lparr>cl_endpoint = \<lparr>ep_scheme = Https, ep_host = ''ghcr.io'', ep_port = None, ep_authority = ''ghcr.io'', ep_base_path = []\<rparr>,
      cl_repo = ''owner/cache'', cl_driver = AzureAcrDriver, cl_limits = default_limits\<rparr>"

lemma empty_config_sha: "is_sha256 EMPTY_CONFIG_DIGEST"
  by (simp add: is_sha256_def EMPTY_CONFIG_DIGEST_def starts_with_def lower_hex_def is_ascii_digit_def
      is_ascii_lower_hex_def between_def)

lemma sample_layer:
  "\<exists>layer. validate_schema_v8_root (build_sharded_arch_index_manifest ''now'' sample_root_params) X86_64Linux
      (idx_merkle_root sample_index) default_limits t = Inr layer
    \<and> od_media_type layer = ROOT_INDEX_V8_ZSTD \<and> od_digest layer = format_digest (sample_H ZSTD_MAGIC) \<and> od_size layer = 4"
  using built_root_accepted [of sample_root_params default_limits "''now''" t]
  by (simp add: sample_root_params_def is_known_def empty_config_sha format_digest_sha256 sample_H_length sample_index_def
      default_limits_def EMPTY_CONFIG_SIZE_def)

lemma sample_get_descriptor:
  assumes "od_digest layer = format_digest (sample_H ZSTD_MAGIC)" "od_size layer = 4" "od_media_type layer = ROOT_INDEX_V8_ZSTD"
  shows "get_descriptor sample_H sample_index_requests sample_index_client layer 1 = (Inr ZSTD_MAGIC, 2)"
proof -
  have "is_sha256 (format_digest (sample_H ZSTD_MAGIC))" by (simp add: format_digest_sha256 sample_H_length)
  then have "od_validate_for layer t (lim_max_buffered_blob_bytes default_limits) = Inr ()"
    "content_digest_parse (od_digest layer) = Inr (ContentDigest (od_digest layer))" for t
    using assms by (simp_all add: od_validate_for_Inr content_digest_parse_Inr default_limits_def)
  moreover have "verify_buffered_body sample_H t (Some (od_digest layer)) None (Some 4) None ZSTD_MAGIC
      = Inr (ContentDigest (format_digest (sample_H ZSTD_MAGIC)))" for t
    using assms(1) by (simp add: verify_buffered_body_Inr [of sample_H, OF sample_H_length] ZSTD_MAGIC_def)
  ultimately show ?thesis
    using assms(2)
    by (simp add: get_descriptor_def get_verified_def seq_eq lift_def pure_def Let_def sample_index_requests_def
        sample_index_client_def is_success_def parse_content_length_def map_err_def)
qed

lemma sample_decode:
  "decode_root_manifest sample_index_env sample_index_requests sample_index_client
     (build_sharded_arch_index_manifest ''now'' sample_root_params) X86_64Linux t 1 = (Inr sample_index, 2)"
proof -
  obtain layer where layer: "validate_schema_v8_root (build_sharded_arch_index_manifest ''now'' sample_root_params) X86_64Linux
      (idx_merkle_root sample_index) default_limits t = Inr layer" "od_media_type layer = ROOT_INDEX_V8_ZSTD"
    "od_digest layer = format_digest (sample_H ZSTD_MAGIC)" "od_size layer = 4"
    using sample_layer by blast
  note blob = sample_get_descriptor [OF layer(3,4,2)]
  have root: "annotation_of ''org.nixos.nixcache.merkle_root'' (im_annotations (build_sharded_arch_index_manifest ''now'' sample_root_params))
      = Some (idx_merkle_root sample_index)"
    by (simp add: annotation_of_def build_sharded_arch_index_manifest_def sample_root_params_def Let_def)
  have dec: "decode_zstd (ie_zstd sample_index_env) (read_root sample_rfc3339 sample_H (ie_index_json sample_index_env))
      ZSTD_MAGIC ROOT_INDEX_V8_ZSTD (lim_max_index_uncompressed_bytes default_limits)
      = Inr \<lparr>dec_value = sample_index, dec_uncompressed_size = 0\<rparr>"
    using sample_index_valid
    by (simp add: decode_zstd_def media_type_parse_def decompress_limited_def is_valid_magic_def read_limited_def ZSTD_MAGIC_def
        sample_index_env_def read_root_def index_deserialize_def map_err_def ok_or_def saturating_add64_def default_limits_def)
  have valid: "index_validate_for sample_rfc3339 sample_H sample_index X86_64Linux ''owner/cache'' ''ghcr.io''
      (index_limits_of default_limits) = Inr ()"
    using sample_index_valid
    by (auto simp: index_validate_for_def sample_index_def try_each_Inr empty_shards_def empty_desc_def desc_is_empty_def
        result_bind_eq_Inr)
  have sizes: "try_each (check_shard_size sample_index_client) (idx_shards sample_index) = Inr ()"
    by (simp add: try_each_Inr sample_index_def empty_shards_def empty_desc_def desc_is_empty_def check_shard_size_def)
  show ?thesis
    using layer blob root dec valid sizes
    by (simp add: decode_root_manifest_def seq_eq lift_def pure_def Let_def sample_index_client_def sample_index_env_def
        ok_or_def map_err_def)
qed

lemma sample_get_manifest:
  "get_image_manifest sample_index_env sample_index_requests sample_index_client tag 0
     = (Inr (Some (build_sharded_arch_index_manifest ''now'' sample_root_params, format_digest (sample_H []))), 1)"
  if "\<not> starts_with ''sha256:'' tag"
proof -
  let ?m = "build_sharded_arch_index_manifest ''now'' sample_root_params"
  have "verify_buffered_body sample_H t None None None None [] = Inr (ContentDigest (format_digest (sample_H [])))" for t
    by (simp add: verify_buffered_body_Inr [of sample_H, OF sample_H_length])
  then have get: "get_with_digest sample_H (ie_json sample_index_env) sample_index_requests sample_index_client tag 0
      = (Inr (Some ([], format_digest (sample_H []))), 1)"
    using that
    by (simp add: get_with_digest_def get_with_expected_size_def is_some_and_def Let_def seq_eq lift_def pure_def
        sample_index_requests_def parse_content_length_def map_err_def from_utf8_def ok_or_def)
  obtain layer where "validate_schema_v8_root ?m X86_64Linux (idx_merkle_root sample_index) default_limits tag = Inr layer"
    using sample_layer by blast
  then have "image_manifest_validate_for ?m default_limits tag = Inr ()"
    by (auto simp: validate_schema_v8_root_def result_bind_eq_Inr)
  then show ?thesis
    using get
    by (simp add: get_image_manifest_def seq_eq lift_def pure_def map_err_def sample_index_env_def sample_index_client_def)
qed

lemma sample_get_root:
  "get_sharded_root sample_index_env sample_index_requests sample_index_client ''t'' X86_64Linux 0
     = (Inr (Some (sample_index, format_digest (sample_H []))), 2)"
proof -
  have "\<not> starts_with ''sha256:'' (arch_tag ''t'' X86_64Linux)"
    by (simp add: arch_tag_def starts_with_def)
  from sample_get_manifest [OF this] show ?thesis
    by (simp add: get_sharded_root_def seq_eq pure_def sample_decode [unfolded One_nat_def])
qed

lemma sample_get_shard:
  assumes "unat sid < NUM_SHARDS"
  shows "get_shard_data sample_index_env sample_index_requests sample_index_client (empty_desc sample_H sid) X86_64Linux w
     = (Inr \<lparr>payload_version = SCHEMA_VERSION_V8, payload_shard_id = sid,
        payload_prefix = shard_id_to_prefix sid, payload_entries = []\<rparr>, w)"
proof -
  have "desc_validate_structure sample_rfc3339 sample_H (empty_desc sample_H sid) = Inr ()"
    using desc_valid_any [THEN iffD2, OF empty_desc_valid] assms by blast
  then show ?thesis
    using assms
    by (simp add: get_shard_data_def seq_eq lift_def map_err_def sample_index_env_def empty_desc_def empty_shard_data_def
        Let_def payload_new_def payload_compute_merkle_hash_def empty_shard_hash empty_merkle_hash_def)
qed

lemma cache_lookup_authentic_witness:
  "\<exists>d p. find_shard sample_index hash_a = Some d
     \<and> get_shard_data sample_index_env sample_index_requests sample_index_client d X86_64Linux 2 = (Inr p, 2)
     \<and> map_of (payload_entries p) = Map.empty"
proof -
  let ?i = "calculate_shard_id hash_a"
  have i: "unat ?i < NUM_SHARDS" using sample_hashes_valid(1) by (rule valid_hash_shard)
  then have d: "find_shard sample_index hash_a = Some (empty_desc sample_H ?i)"
    by (simp add: find_shard_def get_def sample_index_def empty_shards_def)
  note p = sample_get_shard [OF i, of 2]
  have "\<And>m. length (ie_hash sample_index_env m) = 32" "reads_maps (ie_index_json sample_index_env)"
    by (simp_all add: sample_index_env_def sample_H_length reads_maps_def)
  from cache_lookup_authentic [OF this sample_get_root sample_get_root refl d p d p no_collision_same no_collision_same] d p
  show ?thesis by auto
qed

end
