(* ===== verification/Oci_Push_Stores.thy ===== *)
theory Oci_Push_Stores
  imports Oci_Push
begin

text \<open>
  What an upload leaves in the registry: the blob under the digest that is reported is the content
  that was read, whichever way it was sent.
\<close>

section \<open>Reading the stream\<close>





section \<open>A registry that keeps blobs\<close>











section \<open>Sending in chunks\<close>



section \<open>The streaming upload\<close>





section \<open>A sample registry\<close>












section \<open>What an upload stores\<close>




end
