(* ===== verification/Oci_Index_Roundtrip.thy ===== *)
theory Oci_Index_Roundtrip
  imports Oci_Index_Auth Oci_Push_Stores
begin

text \<open>
  What a writer has published a reader gets back: the payload of a shard goes through JSON,
  compression, the registry and all the checks of the reader.
\<close>

section \<open>What the round trip relies on\<close>




section \<open>Reading back\<close>







section \<open>The round trip\<close>



section \<open>A sample round trip\<close>










end
