(* ===== verification/Oci_Tags.thy ===== *)
theory Oci_Tags
  imports Oci_Client
begin

text \<open>
  Listing the tags of a repository, \<open>list_tags\<close> of \<^verbatim>\<open>crates/nixcache-oci/src/client/manifest.rs\<close>.
  \<open>json_tags\<close> is the JSON reader (\<open>serde_json\<close>) for the answer, whose \<open>tags\<close> may be null, and \<open>show_error\<close> the
  text of an error.
\<close>

record tag_list =
  tl_tags :: "string list"
  tl_pages_fetched :: nat

definition PAGE_SIZE :: nat where "PAGE_SIZE = 100"
definition MAX_TAG_PAGES :: nat where "MAX_TAG_PAGES = 10000"
definition MAX_TAGS :: nat where "MAX_TAGS = 2000000"

record tags_state =
  ts_all_tags :: "string list"
  ts_last_tag :: "string option"
  ts_pages_fetched :: nat

text \<open>\<open>Option::<Vec<String>>::deserialize(..)?.unwrap_or_default()\<close>\<close>

definition deserialize_nullable_tags :: "string list option \<Rightarrow> string list" where
  "deserialize_nullable_tags tags = (case tags of Some ts \<Rightarrow> ts | None \<Rightarrow> [])"

definition pagination_failed :: "oci_client \<Rightarrow> tags_state \<Rightarrow> frag list \<Rightarrow> oci_error" where
  "pagination_failed client s details =
     PaginationFailed (cl_repo client) (ts_last_tag s) (ts_pages_fetched s) (length (ts_all_tags s)) details"

definition page_url :: "oci_client \<Rightarrow> string option \<Rightarrow> string" where
  "page_url client last_tag =
     (let base_url = tags_url (cl_endpoint client) (cl_repo client) in
      case last_tag of
        Some cursor \<Rightarrow> with_last_cursor base_url cursor
      | None \<Rightarrow> base_url @ ''?n=100'')"

text \<open>
  What a page does to the state: \<open>Inr (True, s)\<close> returns with \<open>s\<close>, \<open>Inr (False, s)\<close> goes on.
  \<open>sort\<close> followed by \<open>dedup\<close> is \<open>sort\<close> followed by \<open>remdups_adj\<close>.
\<close>

definition add_page :: "oci_client \<Rightarrow> string list \<Rightarrow> tags_state \<Rightarrow> oci_error + bool \<times> tags_state" where
  "add_page client tags s0 =
     (let s = s0\<lparr>ts_pages_fetched := ts_pages_fetched s0 + 1\<rparr> in
      if tags = []
      then (if ts_last_tag s = None then Inr (True, s)
            else Inl (pagination_failed client s [Lit ''registry returned an empty page after a full page'']))
      else
        let count = length tags; new_last = Some (last tags) in
        if length (ts_all_tags s) + count > MAX_TAGS
        then Inl (pagination_failed client s
          [Lit ''tag pagination exceeded the '', Num MAX_TAGS, Lit ''-tag limit''])
        else
          let previous_count = length (ts_all_tags s);
              s = s\<lparr>ts_all_tags := remdups_adj (sort (ts_all_tags s @ tags))\<rparr> in
          if ts_last_tag s \<noteq> None \<and> length (ts_all_tags s) = previous_count
          then Inl (pagination_failed client s [Lit ''registry returned a duplicate page with no new tags''])
          else if count < PAGE_SIZE then Inr (True, s)
          else if new_last = ts_last_tag s
          then Inl (pagination_failed client s [Lit ''registry returned a non-advancing pagination cursor''])
          else Inr (False, s\<lparr>ts_last_tag := new_last\<rparr>))"

definition fetch_page ::
  "(oci_error \<Rightarrow> string) \<Rightarrow> (bytes \<Rightarrow> string + string list option) \<Rightarrow> 'w oci_requests \<Rightarrow> oci_client
     \<Rightarrow> tags_state \<Rightarrow> ('w, string list) step" where
  "fetch_page show_error json_tags rq client s =
     (let url = page_url client (ts_last_tag s) in
     seq (\<lambda>w. case rq_get rq url (lim_max_manifest_bytes (cl_limits client)) w of
            (r, w') \<Rightarrow> (map_err (\<lambda>error. pagination_failed client s [Str (show_error error)]) r, w')) (\<lambda>(status, _, body).
     if \<not> is_success status
     then fail (pagination_failed client s [Lit ''HTTP '', Num status, Lit '' while requesting '', Str url])
     else lift (map_ok deserialize_nullable_tags
       (map_err (\<lambda>error. pagination_failed client s [Str error]) (json_tags body)))))"

lemma add_page_pages: "add_page client tags s = Inr (b, s') \<Longrightarrow> ts_pages_fetched s' = ts_pages_fetched s + 1"
  by (auto simp: add_page_def Let_def split: if_splits)

function list_tags_loop ::
  "(oci_error \<Rightarrow> string) \<Rightarrow> (bytes \<Rightarrow> string + string list option) \<Rightarrow> 'w oci_requests \<Rightarrow> oci_client
     \<Rightarrow> tags_state \<Rightarrow> ('w, tag_list) step" where
  "list_tags_loop show_error json_tags rq client s w =
     (if ts_pages_fetched s \<ge> MAX_TAG_PAGES
      then (Inl (pagination_failed client s
        [Lit ''tag pagination exceeded the '', Num MAX_TAG_PAGES, Lit ''-page limit'']), w)
      else (case fetch_page show_error json_tags rq client s w of
          (Inl e, w') \<Rightarrow> (Inl e, w')
        | (Inr tags, w') \<Rightarrow> (case add_page client tags s of
              Inl e \<Rightarrow> (Inl e, w')
            | Inr (finished, s') \<Rightarrow>
                if finished then (Inr \<lparr>tl_tags = ts_all_tags s', tl_pages_fetched = ts_pages_fetched s'\<rparr>, w')
                else list_tags_loop show_error json_tags rq client s' w')))"
  by pat_completeness auto
termination
  by (relation "measure (\<lambda>(_, _, _, _, s, _). MAX_TAG_PAGES - ts_pages_fetched s)")
    (auto dest!: add_page_pages)

declare list_tags_loop.simps [simp del]

definition list_tags ::
  "(oci_error \<Rightarrow> string) \<Rightarrow> (bytes \<Rightarrow> string + string list option) \<Rightarrow> 'w oci_requests \<Rightarrow> oci_client
     \<Rightarrow> ('w, tag_list) step" where
  "list_tags show_error json_tags rq client =
     list_tags_loop show_error json_tags rq client \<lparr>ts_all_tags = [], ts_last_tag = None, ts_pages_fetched = 0\<rparr>"

section \<open>A registry with a fixed set of tags\<close>

text \<open>
  The OCI distribution specification: the tags are listed in lexical order; \<open>n\<close> bounds the number
  in an answer and \<open>last\<close> asks for those that follow a tag.
\<close>

definition page_after :: "string list \<Rightarrow> string option \<Rightarrow> string list" where
  "page_after ts last_tag = take PAGE_SIZE
     (case last_tag of None \<Rightarrow> ts | Some cursor \<Rightarrow> dropWhile (\<lambda>t. t \<le> cursor) ts)"

definition serves_tags ::
  "(bytes \<Rightarrow> string + string list option) \<Rightarrow> 'w oci_requests \<Rightarrow> oci_client \<Rightarrow> string list \<Rightarrow> 'w set \<Rightarrow> bool" where
  "serves_tags json_tags rq client ts W \<longleftrightarrow> (\<forall>w\<in>W. \<forall>cursor. \<exists>status headers body w' answer.
     rq_get rq (page_url client cursor) (lim_max_manifest_bytes (cl_limits client)) w
       = (Inr (status, headers, body), w') \<and> w' \<in> W \<and> is_success status
     \<and> json_tags body = Inr answer \<and> deserialize_nullable_tags answer = page_after ts cursor)"

lemma fetch_page_serves:
  assumes "serves_tags json_tags rq client ts W" "w \<in> W"
  shows "\<exists>w'\<in>W. fetch_page show_error json_tags rq client s w = (Inr (page_after ts (ts_last_tag s)), w')"
proof -
  obtain status headers body w' answer where
    "rq_get rq (page_url client (ts_last_tag s)) (lim_max_manifest_bytes (cl_limits client)) w
       = (Inr (status, headers, body), w')" "w' \<in> W" "is_success status"
    "json_tags body = Inr answer" "deserialize_nullable_tags answer = page_after ts (ts_last_tag s)"
    using assms unfolding serves_tags_def by blast
  then show ?thesis by (auto simp: fetch_page_def Let_def seq_eq lift_def map_err_def map_ok_def)
qed

text \<open>After \<open>k\<close> full pages the client has the first \<open>100 k\<close> tags and the last of them as cursor.\<close>

definition tags_after :: "string list \<Rightarrow> nat \<Rightarrow> tags_state" where
  "tags_after ts k = \<lparr>ts_all_tags = take (PAGE_SIZE * k) ts,
     ts_last_tag = (if k = 0 then None else Some (ts ! (PAGE_SIZE * k - 1))), ts_pages_fetched = k\<rparr>"

lemma dropWhile_le_nth:
  assumes "sorted ts" "distinct ts" "n < length (ts :: 'a :: linorder list)"
  shows "dropWhile (\<lambda>t. t \<le> ts ! n) ts = drop (Suc n) ts"
proof -
  have lt: "ts ! i < ts ! j" if "i < j" "j < length ts" for i j
    using assms(1,2) that by (metis less_le_trans nat_less_le not_less nth_eq_iff_index_eq order.not_eq_order_implies_strict sorted_nth_mono)
  have "takeWhile (\<lambda>t. t \<le> ts ! n) ts = take (Suc n) ts"
  proof (rule takeWhile_eq_take_P_nth)
    show "ts ! i \<le> ts ! n" if "i < Suc n" "i < length ts" for i
      using assms that by (simp add: sorted_nth_mono)
    show "\<not> ts ! Suc n \<le> ts ! n" if "Suc n < length ts" using lt [of n "Suc n"] that by simp
  qed
  then show ?thesis using assms(3) by (simp add: dropWhile_eq_drop)
qed

lemma page_after_tags:
  assumes "sorted ts" "distinct ts" "PAGE_SIZE * k \<le> length ts"
  shows "page_after ts (ts_last_tag (tags_after ts k)) = take PAGE_SIZE (drop (PAGE_SIZE * k) ts)"
proof (cases "k = 0")
  case False
  then have "PAGE_SIZE * k - 1 < length ts" "Suc (PAGE_SIZE * k - 1) = PAGE_SIZE * k"
    using assms(3) by (cases k; simp add: PAGE_SIZE_def)+
  then show ?thesis using dropWhile_le_nth [OF assms(1,2)] False
    by (simp add: page_after_def tags_after_def)
qed (simp add: page_after_def tags_after_def)

lemma sort_append_page:
  assumes "sorted ts" "distinct ts"
  shows "remdups_adj (sort (take n ts @ take m (drop n ts))) = take (n + m) ts"
proof -
  have "take n ts @ take m (drop n ts) = take (n + m) ts" by (simp add: take_add)
  moreover have "sorted (take (n + m) ts)" "distinct (take (n + m) ts)"
    using assms by (simp_all add: sorted_wrt_take)
  ultimately show ?thesis by (simp add: sorted_sort_id remdups_adj_distinct)
qed


text \<open>The three things that a page can be.\<close>

lemma add_page_empty:
  "length ts = PAGE_SIZE * k \<Longrightarrow>
   add_page client (take PAGE_SIZE (drop (PAGE_SIZE * k) ts)) (tags_after ts k) =
     (if k = 0 then Inr (True, (tags_after ts k)\<lparr>ts_pages_fetched := 1\<rparr>)
      else Inl (PaginationFailed (cl_repo client) (Some (ts ! (PAGE_SIZE * k - 1))) (k + 1) (length ts)
        [Lit ''registry returned an empty page after a full page'']))"
  by (auto simp: add_page_def Let_def tags_after_def pagination_failed_def)

lemma add_page_last:
  assumes "sorted ts" "distinct ts" "PAGE_SIZE * k < length ts" "length ts < PAGE_SIZE * (k + 1)" "length ts \<le> MAX_TAGS"
  shows "\<exists>s'. add_page client (take PAGE_SIZE (drop (PAGE_SIZE * k) ts)) (tags_after ts k) = Inr (True, s')
    \<and> ts_all_tags s' = ts \<and> ts_pages_fetched s' = k + 1"
  using assms sort_append_page [OF assms(1,2), of "PAGE_SIZE * k" PAGE_SIZE]
  by (auto simp: add_page_def Let_def tags_after_def)

lemma add_page_full:
  assumes "sorted ts" "distinct ts" "PAGE_SIZE * (k + 1) \<le> length ts" "length ts \<le> MAX_TAGS"
  shows "add_page client (take PAGE_SIZE (drop (PAGE_SIZE * k) ts)) (tags_after ts k) = Inr (False, tags_after ts (k + 1))"
proof -
  let ?page = "take PAGE_SIZE (drop (PAGE_SIZE * k) ts)"
  have page: "?page \<noteq> []" "length ?page = PAGE_SIZE" using assms(3) by (auto simp: PAGE_SIZE_def)
  have last: "last ?page = ts ! (PAGE_SIZE * (k + 1) - 1)"
    using page assms(3) by (simp add: last_conv_nth PAGE_SIZE_def nth_drop add.commute)
  have new: "ts ! (PAGE_SIZE * (k + 1) - 1) \<noteq> ts ! (PAGE_SIZE * k - 1)"
    using assms(2,3) by (subst nth_eq_iff_index_eq) (auto simp: PAGE_SIZE_def)
  have "remdups_adj (sort (take (PAGE_SIZE * k) ts @ ?page)) = take (PAGE_SIZE * (k + 1)) ts"
    using sort_append_page [OF assms(1,2)] by (simp add: algebra_simps)
  with page last new assms(3,4) show ?thesis
    by (auto simp: add_page_def Let_def tags_after_def PAGE_SIZE_def)
qed

lemma list_tags_loop_exact:
  assumes "serves_tags json_tags rq client ts W" "sorted ts" "distinct ts" "length ts < PAGE_SIZE * MAX_TAG_PAGES"
  shows "w \<in> W \<Longrightarrow> PAGE_SIZE * k \<le> length ts \<Longrightarrow>
    fst (list_tags_loop show_error json_tags rq client (tags_after ts k) w) =
      (if ts \<noteq> [] \<and> length ts mod PAGE_SIZE = 0
       then Inl (PaginationFailed (cl_repo client) (Some (last ts)) (length ts div PAGE_SIZE + 1) (length ts)
         [Lit ''registry returned an empty page after a full page''])
       else Inr \<lparr>tl_tags = ts, tl_pages_fetched = length ts div PAGE_SIZE + 1\<rparr>)"
proof (induction "length ts - PAGE_SIZE * k" arbitrary: k w rule: less_induct)
  case less
  have k: "\<not> MAX_TAG_PAGES \<le> ts_pages_fetched (tags_after ts k)"
    using less.prems(2) assms(4) by (auto simp: tags_after_def PAGE_SIZE_def MAX_TAG_PAGES_def)
  have small: "length ts \<le> MAX_TAGS" using assms(4) by (simp add: PAGE_SIZE_def MAX_TAG_PAGES_def MAX_TAGS_def)
  obtain w' where w': "w' \<in> W" "fetch_page show_error json_tags rq client (tags_after ts k) w
      = (Inr (take PAGE_SIZE (drop (PAGE_SIZE * k) ts)), w')"
    using fetch_page_serves [OF assms(1) less.prems(1)] page_after_tags [OF assms(2,3) less.prems(2)] by metis
  have loop: "list_tags_loop show_error json_tags rq client (tags_after ts k) w =
      (case add_page client (take PAGE_SIZE (drop (PAGE_SIZE * k) ts)) (tags_after ts k) of
         Inl e \<Rightarrow> (Inl e, w')
       | Inr (finished, s') \<Rightarrow>
           if finished then (Inr \<lparr>tl_tags = ts_all_tags s', tl_pages_fetched = ts_pages_fetched s'\<rparr>, w')
           else list_tags_loop show_error json_tags rq client s' w')"
    using k w' by (simp add: list_tags_loop.simps [of show_error json_tags rq client "tags_after ts k" w])
  consider "length ts = PAGE_SIZE * k" | "PAGE_SIZE * k < length ts" "length ts < PAGE_SIZE * (k + 1)"
    | "PAGE_SIZE * (k + 1) \<le> length ts" using less.prems(2) by linarith
  then show ?case
  proof cases
    case 1
    then show ?thesis unfolding loop add_page_empty [OF 1]
      by (cases "k = 0") (auto simp: tags_after_def last_conv_nth PAGE_SIZE_def)
  next
    case 2
    define r where "r = length ts - PAGE_SIZE * k"
    have "length ts = PAGE_SIZE * k + r" "0 < r" "r < PAGE_SIZE" using 2 by (simp_all add: r_def)
    then have "length ts div PAGE_SIZE = k" "length ts mod PAGE_SIZE \<noteq> 0" by (simp_all add: PAGE_SIZE_def)
    then show ?thesis using k w' add_page_last [OF assms(2,3) 2 small, of client] by (auto simp: loop)
  next
    case 3
    then have "length ts - PAGE_SIZE * (k + 1) < length ts - PAGE_SIZE * k" by (simp add: PAGE_SIZE_def)
    from less.hyps [OF this w'(1) 3] k w' add_page_full [OF assms(2,3) 3 small, of client] show ?thesis
      by (simp add: loop)
  qed
qed

section \<open>Properties\<close>

text \<open>
  C18. Against a registry that pages its tags as the distribution specification says, the listing
  returns every tag, in order, when the number of tags is not a positive multiple of the page size;
  when it is, the listing fails, because the empty page that ends it is taken for an error.
\<close>

theorem list_tags_exact:
  assumes "serves_tags json_tags rq client ts W" "w \<in> W" "sorted ts" "distinct ts"
    and "length ts < PAGE_SIZE * MAX_TAG_PAGES"
  shows "fst (list_tags show_error json_tags rq client w) =
      (if ts \<noteq> [] \<and> length ts mod PAGE_SIZE = 0
       then Inl (PaginationFailed (cl_repo client) (Some (last ts)) (length ts div PAGE_SIZE + 1) (length ts)
         [Lit ''registry returned an empty page after a full page''])
       else Inr \<lparr>tl_tags = ts, tl_pages_fetched = length ts div PAGE_SIZE + 1\<rparr>)"
  using list_tags_loop_exact [OF assms(1,3-5,2), of 0 show_error]
  by (simp add: list_tags_def tags_after_def)


text \<open>
  A registry with no state: the answer says how many tags come before the page, and the reader of
  answers knows the tags.
\<close>

definition sample_endpoint :: registry_endpoint where
  "sample_endpoint = \<lparr>ep_scheme = Https, ep_host = ''r.io'', ep_port = None, ep_authority = ''r.io'', ep_base_path = []\<rparr>"

definition sample_client :: oci_client where
  "sample_client = \<lparr>cl_endpoint = sample_endpoint, cl_repo = ''me'', cl_driver = GenericOciDriver, cl_limits = default_limits\<rparr>"

abbreviation sample_query :: "string \<Rightarrow> string" where
  "sample_query url \<equiv> drop (length (tags_url sample_endpoint ''me'')) url"

definition sample_tags_get :: "string list \<Rightarrow> string \<Rightarrow> u64 \<Rightarrow> (unit, status_code \<times> header_map \<times> bytes) step" where
  "sample_tags_get ts url max_bytes w =
     (Inr (200, \<lambda>_. None,
        if length (sample_query url) = 6 then []
        else replicate (length (takeWhile (\<lambda>t. t \<le> decode_query_value (drop 12 (sample_query url))) ts)) 0), w)"

definition sample_json_tags :: "string list \<Rightarrow> bytes \<Rightarrow> string + string list option" where
  "sample_json_tags ts body = Inr (Some (take PAGE_SIZE (drop (length body) ts)))"

definition sample_tags_requests :: "string list \<Rightarrow> unit oci_requests" where
  "sample_tags_requests ts =
     \<lparr>rq_get = sample_tags_get ts, rq_head = \<lambda>_. fail UploadLocationMissing, rq_stream = \<lambda>_ _. fail UploadLocationMissing,
      rq_post = \<lambda>_. fail UploadLocationMissing, rq_post_bytes = \<lambda>_ _ _. fail UploadLocationMissing,
      rq_put_bytes = \<lambda>_ _ _. fail UploadLocationMissing, rq_patch_chunk = \<lambda>_ _ _. fail UploadLocationMissing, rq_put_chunk_finish = \<lambda>_. fail UploadLocationMissing,
      rq_delete = \<lambda>_. fail UploadLocationMissing, rq_sleep = \<lambda>_ w. w\<rparr>"

lemma sample_query_url:
  "sample_query (page_url sample_client cursor) =
     (case cursor of None \<Rightarrow> ''?n=100'' | Some c \<Rightarrow> ''?n=100&last='' @ encode_query_value c)"
  by (simp add: page_url_def Let_def sample_client_def with_last_cursor_def split: option.split)

lemma sample_serves: "serves_tags (sample_json_tags ts) (sample_tags_requests ts) sample_client ts UNIV"
  unfolding serves_tags_def
proof (intro ballI allI)
  fix w :: unit and cursor
  show "\<exists>status headers body w' answer.
      rq_get (sample_tags_requests ts) (page_url sample_client cursor) (lim_max_manifest_bytes (cl_limits sample_client)) w
        = (Inr (status, headers, body), w') \<and> w' \<in> UNIV \<and> is_success status
      \<and> sample_json_tags ts body = Inr answer \<and> deserialize_nullable_tags answer = page_after ts cursor"
    by (cases cursor)
      (simp_all add: sample_tags_requests_def sample_tags_get_def sample_query_url is_success_def
        sample_json_tags_def deserialize_nullable_tags_def page_after_def dropWhile_eq_drop decode_encode_query)
qed

theorem list_tags_exact_witness:
  "fst (list_tags (\<lambda>_. ''e'') (sample_json_tags [''a'', ''b'']) (sample_tags_requests [''a'', ''b'']) sample_client ())
     = Inr \<lparr>tl_tags = [''a'', ''b''], tl_pages_fetched = 1\<rparr>"
  using list_tags_exact [OF sample_serves [of "[''a'', ''b'']"], of "()" "\<lambda>_. ''e''"]
  by (simp add: PAGE_SIZE_def MAX_TAG_PAGES_def)

end
