(* ===== verification/Oci_Cas.thy ===== *)
theory Oci_Cas
  imports Oci_Registry
begin

text \<open>
  Several clients that update the same image index with \<open>update_cas\<close>, interleaved at their requests.
  The system refines a machine whose only step is the atomic application of one client's update.
\<close>

section \<open>The abstract machine\<close>

text \<open>What a client sees in the content of a tag, and the content after its update.\<close>

definition index_view :: "json_codec \<Rightarrow> bytes option \<Rightarrow> oci_image_index option" where
  "index_view js c = Option.bind c (\<lambda>b. Option.bind (from_utf8 b) (\<lambda>body.
     Option.bind (result_ok (js_artifact js body)) as_index))"

definition atomic_update ::
  "json_codec \<Rightarrow> (oci_image_index option \<Rightarrow> oci_error + oci_image_index) \<Rightarrow> bytes option \<Rightarrow> bytes option" where
  "atomic_update js mutator c = Option.bind (result_ok (mutator (index_view js c))) (\<lambda>updated.
     map_option as_bytes (result_ok (js_write_index js updated)))"

fun run_updates ::
  "json_codec \<Rightarrow> (nat \<Rightarrow> oci_image_index option \<Rightarrow> oci_error + oci_image_index) \<Rightarrow> bytes option \<Rightarrow> nat list
     \<Rightarrow> bytes option option" where
  "run_updates js mutators c [] = Some c"
| "run_updates js mutators c (i # is) =
     Option.bind (atomic_update js (mutators i) c) (\<lambda>b. run_updates js mutators (Some b) is)"

lemma run_updates_append:
  "run_updates js mutators c (is @ ks) = Option.bind (run_updates js mutators c is) (\<lambda>c'. run_updates js mutators c' ks)"
  by (induction "is" arbitrary: c) (auto split: bind_splits)

section \<open>The system\<close>

record cas_setup =
  su_json :: json_codec
  su_client :: oci_client
  su_tag :: string
  su_clients :: nat
  su_max_retries :: "nat \<Rightarrow> nat"
  su_pid :: "nat \<Rightarrow> nat"
  su_mutators :: "nat \<Rightarrow> oci_image_index option \<Rightarrow> oci_error + oci_image_index"

type_synonym index_client = "(oci_image_index, unit) cas_client"

definition update_step ::
  "(bytes \<Rightarrow> bytes) \<Rightarrow> 'w oci_requests \<Rightarrow> cas_setup \<Rightarrow> nat \<Rightarrow> index_client \<Rightarrow> 'w \<Rightarrow> index_client \<times> 'w" where
  "update_step H rq su i = cas_client_step
     (fetch_index_condition H (su_json su) rq (su_client su) (su_tag su))
     (index_put_cas (su_json su) rq (su_client su) (su_tag su))
     (rq_sleep rq) (update_backoff (su_pid su i)) (su_max_retries su i) (su_mutators su i)"

inductive cas_step ::
  "(bytes \<Rightarrow> bytes) \<Rightarrow> 'w oci_requests \<Rightarrow> cas_setup \<Rightarrow> 'w \<times> (nat \<Rightarrow> index_client)
     \<Rightarrow> 'w \<times> (nat \<Rightarrow> index_client) \<Rightarrow> bool" for H rq su where
  client: "i < su_clients su \<Longrightarrow> update_step H rq su i (cls i) w = (c', w')
    \<Longrightarrow> cas_step H rq su (w, cls) (w', cls(i := c'))"

inductive_cases cas_stepE: "cas_step H rq su s s'"

abbreviation initial_clients :: "nat \<Rightarrow> index_client" where
  "initial_clients \<equiv> \<lambda>_. \<lparr>cc_attempt = 0, cc_pc = Fetching\<rparr>"

section \<open>A registry with conditional requests\<close>

text \<open>
  What the clients rely on (RFC 9110, conditional requests): \<open>content\<close> is what the tag refers to. A read
  returns it and changes nothing. A write is atomic: it takes place only if its condition holds at
  that moment, does take place when it is answered with success, and does not when the answer says
  that the condition failed. An answer may be lost in either case.
\<close>

definition condition_holds :: "(bytes \<Rightarrow> bytes) \<Rightarrow> request_headers \<Rightarrow> bytes option \<Rightarrow> bool" where
  "condition_holds H headers c \<longleftrightarrow>
     (\<forall>d. (''If-Match'', d) \<in> set headers \<longrightarrow> (\<exists>b. c = Some b \<and> d = format_digest (H b)))
     \<and> ((''If-None-Match'', ''*'') \<in> set headers \<longrightarrow> c = None)"

definition cas_registry ::
  "(bytes \<Rightarrow> bytes) \<Rightarrow> 'w oci_requests \<Rightarrow> string \<Rightarrow> ('w \<Rightarrow> bytes option) \<Rightarrow> bool" where
  "cas_registry H rq url content \<longleftrightarrow>
     (\<forall>n w r w'. rq_get rq url n w = (r, w') \<longrightarrow> content w' = content w
        \<and> (\<forall>h b. r = Inr (200, h, b) \<longrightarrow> content w = Some b) \<and> (\<forall>h b. r = Inr (404, h, b) \<longrightarrow> content w = None))
     \<and> (\<forall>headers body w r w'. rq_put_bytes rq url headers body w = (r, w') \<longrightarrow>
          (content w' = content w \<or> condition_holds H headers (content w) \<and> content w' = Some body)
          \<and> (\<forall>st. r = Inr st \<and> published st \<longrightarrow> condition_holds H headers (content w) \<and> content w' = Some body)
          \<and> (\<forall>st. r = Inr st \<and> st \<in> {409, 412} \<longrightarrow> content w' = content w)
          \<and> (\<forall>e. r = Inl e \<longrightarrow> \<not> is_precondition_failed e))
     \<and> (\<forall>ms w. content (rq_sleep rq ms w) = content w)"

text \<open>The answers that say that the condition failed are given only when it did.\<close>

definition precise_conflicts ::
  "(bytes \<Rightarrow> bytes) \<Rightarrow> 'w oci_requests \<Rightarrow> string \<Rightarrow> ('w \<Rightarrow> bytes option) \<Rightarrow> bool" where
  "precise_conflicts H rq url content \<longleftrightarrow>
     (\<forall>headers body w w' st. rq_put_bytes rq url headers body w = (Inr st, w') \<and> st \<in> {409, 412}
        \<longrightarrow> \<not> condition_holds H headers (content w))"

definition condition_of :: "(bytes \<Rightarrow> bytes) \<Rightarrow> bytes option \<Rightarrow> manifest_cas_condition" where
  "condition_of H c = (case c of None \<Rightarrow> CreateOnly | Some b \<Rightarrow> Match (format_digest (H b)))"

definition su_url :: "cas_setup \<Rightarrow> string" where
  "su_url su = manifest_url (cl_endpoint (su_client su)) (cl_repo (su_client su)) (su_tag su)"

section \<open>Reads and writes\<close>

lemma cas_registry_get:
  assumes "cas_registry H rq url content" "rq_get rq url n w = (r, w')"
  shows "content w' = content w" "r = Inr (200, h, b) \<Longrightarrow> content w = Some b" "r = Inr (404, h, b) \<Longrightarrow> content w = None"
  using assms(1) [unfolded cas_registry_def, THEN conjunct1, rule_format, OF assms(2)] by simp_all

lemma cas_registry_put:
  assumes "cas_registry H rq url content" "rq_put_bytes rq url headers body w = (r, w')"
  shows "content w' = content w \<or> condition_holds H headers (content w) \<and> content w' = Some body"
    "r = Inr st \<Longrightarrow> published st \<Longrightarrow> condition_holds H headers (content w) \<and> content w' = Some body"
    "r = Inr st \<Longrightarrow> st = 412 \<or> st = 409 \<Longrightarrow> content w' = content w"
    "r = Inl e \<Longrightarrow> \<not> is_precondition_failed e"
  using assms(1) [unfolded cas_registry_def, THEN conjunct2, THEN conjunct1, rule_format, OF assms(2)] by auto

lemma cas_registry_sleep: "cas_registry H rq url content \<Longrightarrow> content (rq_sleep rq ms w) = content w"
  by (simp add: cas_registry_def)

lemma get_with_expected_size_Inr:
  assumes "\<And>m. length (H m) = 32" "get_with_expected_size H js rq client tag n w = (Inr r, w')"
  shows "\<exists>st h b. rq_get rq (manifest_url (cl_endpoint client) (cl_repo client) tag)
      (lim_max_manifest_bytes (cl_limits client)) w = (Inr (st, h, b), w')
    \<and> (case r of None \<Rightarrow> st = 404 | Some (body, digest) \<Rightarrow> st = 200 \<and> from_utf8 b = Some body \<and> digest = format_digest (H b))"
proof -
  let ?url = "manifest_url (cl_endpoint client) (cl_repo client) tag"
  obtain q w1 where q: "rq_get rq ?url (lim_max_manifest_bytes (cl_limits client)) w = (q, w1)" by fastforce
  have n: "\<not> is_some_and (\<lambda>n. n > lim_max_manifest_bytes (cl_limits client)) n"
    using assms(2) by (auto simp: get_with_expected_size_def fail_def)
  note get = assms(2) [unfolded get_with_expected_size_def if_not_P [OF n] Let_def seq_eq [of "rq_get _ _ _"] q]
  obtain st h b where r: "q = Inr (st, h, b)" using get by (cases q) auto
  consider "st = 200" | "st = 404" "r = None" "w' = w1"
    using get r by (auto simp: pure_def fail_def split: if_splits)
  then show ?thesis
  proof cases
    case 1
    obtain rd len d body where
      v: "verify_buffered_body H ?url rd (h ''Docker-Content-Digest'') n len b = Inr d"
      and rest: "from_utf8 b = Some body" "r = Some (body, content_str d)" "w' = w1"
      using get r 1 by (auto simp: step_simps ok_or_eq_Inr)
    have "d = ContentDigest (format_digest (H b))"
      using v verify_buffered_body_Inr [of H, OF assms(1)] by blast
    then show ?thesis using q [unfolded r 1] rest by (intro exI [of _ st] exI [of _ h] exI [of _ b]) (simp add: 1)
  next
    case 2
    then show ?thesis using q r by simp
  qed
qed

lemma fetch_index_Inr:
  assumes "\<And>m. length (H m) = 32" "cas_registry H rq (manifest_url (cl_endpoint client) (cl_repo client) tag) content"
    "fetch_index_condition H js rq client tag w = (Inr (existing, cond), w')"
  shows "existing = index_view js (content w) \<and> cond = condition_of H (content w)"
proof -
  obtain found w1 where f: "fetch_artifact H js rq client tag w = (Inr found, w1)"
    "(existing, cond) = (case found of Some artifact \<Rightarrow> (as_index (fa_manifest artifact), Match (fa_digest artifact))
       | None \<Rightarrow> (None, CreateOnly))"
    using assms(3) by (auto simp: fetch_index_condition_def step_simps)
  obtain r w2 where g: "get_with_expected_size H js rq client tag None w = (Inr r, w2)"
    using f(1) by (auto simp: fetch_artifact_def get_with_digest_def step_simps)
  obtain st h b where b: "rq_get rq (manifest_url (cl_endpoint client) (cl_repo client) tag)
      (lim_max_manifest_bytes (cl_limits client)) w = (Inr (st, h, b), w2)"
    "case r of None \<Rightarrow> st = 404 | Some (body, digest) \<Rightarrow> st = 200 \<and> from_utf8 b = Some body \<and> digest = format_digest (H b)"
    using get_with_expected_size_Inr [of H, OF assms(1) g] by blast
  have c: "st = 200 \<Longrightarrow> content w = Some b" "st = 404 \<Longrightarrow> content w = None"
    using cas_registry_get [OF assms(2) b(1)] by simp_all
  show ?thesis
  proof (cases r)
    case None
    then have "found = None" using f(1) g by (auto simp: fetch_artifact_def get_with_digest_def step_simps)
    then show ?thesis using None b(2) c f(2) by (simp add: index_view_def condition_of_def)
  next
    case (Some p)
    obtain body digest where p: "p = (body, digest)" by fastforce
    then obtain m where m: "js_artifact js body = Inr m" "found = Some \<lparr>fa_manifest = m, fa_digest = digest\<rparr>"
      using f(1) g Some by (auto simp: fetch_artifact_def get_with_digest_def step_simps map_err_eq_Inr)
    then show ?thesis using Some p b(2) c f(2)
      by (simp add: index_view_def condition_of_def result_ok_def)
  qed
qed


text \<open>Lifted computations and the continuation of a read leave the world alone.\<close>

definition keeps :: "('w \<Rightarrow> 'c) \<Rightarrow> ('w, 'a) step \<Rightarrow> bool" where
  "keeps content m \<longleftrightarrow> (\<forall>w r w'. m w = (r, w') \<longrightarrow> content w' = content w)"

lemma keeps_intros:
  "keeps content (pure x)" "keeps content (fail e)" "keeps content (lift r)"
  "keeps content m \<Longrightarrow> (\<And>x. keeps content (f x)) \<Longrightarrow> keeps content (seq m f)"
proof -
  show "keeps content (pure x)" "keeps content (fail e)" "keeps content (lift r)"
    by (simp_all add: keeps_def pure_def fail_def lift_def)
  assume a: "keeps content m" "\<And>x. keeps content (f x)"
  show "keeps content (seq m f)"
    unfolding keeps_def
  proof (intro allI impI)
    fix w r w' assume s: "seq m f w = (r, w')"
    obtain q w1 where q: "m w = (q, w1)" by fastforce
    then have w1: "content w1 = content w" using a(1) by (auto simp: keeps_def)
    show "content w' = content w"
    proof (cases q)
      case (Inl e)
      then show ?thesis using s q w1 by (simp add: seq_eq)
    next
      case (Inr x)
      then have "f x w1 = (r, w')" using s q by (simp add: seq_eq)
      then show ?thesis using a(2) [of x] w1 by (auto simp: keeps_def)
    qed
  qed
qed

lemma fetch_index_keeps:
  assumes "cas_registry H rq (manifest_url (cl_endpoint client) (cl_repo client) tag) content"
  shows "keeps content (fetch_index_condition H js rq client tag)"
proof -
  have get: "keeps content (rq_get rq (manifest_url (cl_endpoint client) (cl_repo client) tag) n)" for n
    using cas_registry_get(1) [OF assms] by (auto simp: keeps_def)
  have "keeps content (get_with_expected_size H js rq client tag None)"
    unfolding get_with_expected_size_def Let_def
    by (auto intro!: keeps_intros get split: prod.split)
  then show ?thesis
    unfolding fetch_index_condition_def fetch_artifact_def get_with_digest_def
    by (auto intro!: keeps_intros split: option.split prod.split)
qed

definition holds_for :: "(bytes \<Rightarrow> bytes) \<Rightarrow> manifest_cas_condition \<Rightarrow> bytes option \<Rightarrow> bool" where
  "holds_for H cond c \<longleftrightarrow> (case cond of CreateOnly \<Rightarrow> c = None
     | Match d \<Rightarrow> \<exists>b. c = Some b \<and> d = format_digest (H b))"

lemma insert_cas_condition_Inr:
  assumes "insert_cas_condition [(''Content-Type'', t)] cond = Inr (headers, expected)"
  shows "condition_holds H headers c \<longleftrightarrow> holds_for H cond c"
  using assms
  by (cases cond) (auto simp: insert_cas_condition_def condition_holds_def holds_for_def split: if_splits)

lemma index_put_cas_cases:
  assumes reg: "cas_registry H rq (manifest_url (cl_endpoint client) (cl_repo client) tag) content"
    and put: "index_put_cas js rq client tag ix cond w = (r, w')"
  obtains (unsent) e where "r = Inl e" "w' = w" "\<not> is_precondition_failed e"
  | (sent) j where "js_write_index js ix = Inr j"
      "content w' = content w \<or> holds_for H cond (content w) \<and> content w' = Some (as_bytes j)"
      "r = Inr () \<Longrightarrow> holds_for H cond (content w) \<and> content w' = Some (as_bytes j)"
      "\<And>e. r = Inl e \<Longrightarrow> is_precondition_failed e \<Longrightarrow> content w' = content w
         \<and> (precise_conflicts H rq (manifest_url (cl_endpoint client) (cl_repo client) tag) content
            \<longrightarrow> \<not> holds_for H cond (content w))"
proof (cases "cap_manifest_cas_support (cl_capabilities client) = IfMatch")
  case False
  then have "r = Inl (CasUnsupported tag (cl_kind client))" "w' = w"
    using put by (simp_all add: index_put_cas_def fail_def)
  then show thesis by (rule unsent) simp
next
  case True
  let ?url = "manifest_url (cl_endpoint client) (cl_repo client) tag"
  let ?ct = "[(''Content-Type'', OCI_IMAGE_INDEX_MEDIA_TYPE)]"
  show thesis
  proof (cases "insert_cas_condition ?ct cond")
    case (Inl e)
    then have "r = Inl e" "w' = w" using put True by (simp_all add: index_put_cas_def seq_eq lift_def)
    moreover have "\<not> is_precondition_failed e"
      using Inl by (auto simp: insert_cas_condition_def split: manifest_cas_condition.splits if_splits)
    ultimately show thesis by (rule unsent)
  next
    case (Inr p)
    then obtain headers expected where p: "insert_cas_condition ?ct cond = Inr (headers, expected)" by (cases p) auto
    note holds = insert_cas_condition_Inr [OF p]
    show thesis
    proof (cases "js_write_index js ix")
      case (Inl e)
      then have "r = Inl (OciJson e)" "w' = w"
        using put True p by (simp_all add: index_put_cas_def seq_eq lift_def map_err_def)
      then show thesis by (rule unsent) simp
    next
      case (Inr j)
      obtain q w1 where q: "rq_put_bytes rq ?url headers (as_bytes j) w = (q, w1)" by fastforce
      have w1: "w' = w1"
        and r: "r = (case q of Inl e \<Rightarrow> Inl e
          | Inr st \<Rightarrow> if st = 412 \<or> st = 409 then Inl (CasPreconditionFailed tag expected None)
              else if published st then Inr () else Inl (ManifestPushFailed st))"
        using put True p Inr q
        by (auto simp: index_put_cas_def seq_eq lift_def map_err_def fail_def pure_def split: sum.splits if_splits)
      note facts = cas_registry_put [OF reg q, unfolded holds]
      show thesis
      proof (rule sent [OF Inr])
        show "content w' = content w \<or> holds_for H cond (content w) \<and> content w' = Some (as_bytes j)"
          using facts(1) w1 by simp
        show "holds_for H cond (content w) \<and> content w' = Some (as_bytes j)" if "r = Inr ()"
          using that r w1 facts(2) by (auto split: sum.splits if_splits)
        fix e assume e: "r = Inl e" "is_precondition_failed e"
        then obtain st where st: "q = Inr st" "st = 412 \<or> st = 409"
          using r facts(4) by (auto split: sum.splits if_splits)
        have "\<not> holds_for H cond (content w)" if "precise_conflicts H rq ?url content"
          using that [unfolded precise_conflicts_def, rule_format, of headers "as_bytes j" w st w1] q st holds by auto
        with facts(3) [OF st] w1 show "content w' = content w \<and> (precise_conflicts H rq ?url content
            \<longrightarrow> \<not> holds_for H cond (content w))" by blast
      qed
    qed
  qed
qed


section \<open>The invariant\<close>

text \<open>
  The contents that the clients can produce from \<open>c0\<close>, each applying its update at most once, have
  different digests.
\<close>

definition updates_of :: "cas_setup \<Rightarrow> bytes option \<Rightarrow> nat list \<Rightarrow> bytes option \<Rightarrow> bool" where
  "updates_of su c0 hist c \<longleftrightarrow> distinct hist \<and> set hist \<subseteq> {..<su_clients su}
     \<and> run_updates (su_json su) (su_mutators su) c0 hist = Some c"

definition digests_distinct :: "(bytes \<Rightarrow> bytes) \<Rightarrow> cas_setup \<Rightarrow> bytes option \<Rightarrow> bool" where
  "digests_distinct H su c0 \<longleftrightarrow> (\<forall>p q b b'. updates_of su c0 p (Some b) \<and> updates_of su c0 q (Some b')
     \<and> H b = H b' \<longrightarrow> b = b')"

text \<open>
  What is known of a client after the updates \<open>hist\<close>: an update that is about to be written was
  computed from the content at some earlier moment, after \<open>n\<close> of them. When conflicts are reported precisely,
  every failed attempt is due to an update of another client.
\<close>

definition client_inv ::
  "(bytes \<Rightarrow> bytes) \<Rightarrow> bool \<Rightarrow> cas_setup \<Rightarrow> bytes option \<Rightarrow> nat list \<Rightarrow> nat \<Rightarrow> index_client \<Rightarrow> bool" where
  "client_inv H precise su c0 hist i c \<longleftrightarrow> (case cc_pc c of
     Putting u cond \<Rightarrow> i \<notin> set hist \<and> (\<exists>n c1. n \<le> length hist \<and> updates_of su c0 (take n hist) c1 \<and> cond = condition_of H c1
       \<and> su_mutators su i (index_view (su_json su) c1) = Inr u \<and> (precise \<longrightarrow> cc_attempt c \<le> n + 1))
   | Finished (Inr _) \<Rightarrow> i \<in> set hist \<and> (precise \<longrightarrow> cc_attempt c \<le> su_clients su)
   | Finished (Inl e) \<Rightarrow> (is_precondition_failed e \<longrightarrow> i \<notin> set hist) \<and> (precise \<longrightarrow> cc_attempt c \<le> su_clients su)
   | _ \<Rightarrow> i \<notin> set hist \<and> (precise \<longrightarrow> cc_attempt c \<le> length hist))"

definition cas_inv ::
  "(bytes \<Rightarrow> bytes) \<Rightarrow> bool \<Rightarrow> cas_setup \<Rightarrow> ('w \<Rightarrow> bytes option) \<Rightarrow> bytes option \<Rightarrow> nat list
     \<Rightarrow> 'w \<times> (nat \<Rightarrow> index_client) \<Rightarrow> bool" where
  "cas_inv H precise su content c0 hist s \<longleftrightarrow> updates_of su c0 hist (content (fst s))
     \<and> (\<forall>i < su_clients su. client_inv H precise su c0 hist i (snd s i))"

lemma history_length: "updates_of su c0 hist c \<Longrightarrow> i \<notin> set hist \<Longrightarrow> i < su_clients su \<Longrightarrow> length hist < su_clients su"
proof -
  assume a: "updates_of su c0 hist c" "i \<notin> set hist" "i < su_clients su"
  then have "set hist \<subset> {..<su_clients su}" by (auto simp: updates_of_def)
  then have "card (set hist) < card {..<su_clients su}" by (rule psubset_card_mono [rotated]) simp
  then show ?thesis using a(1) by (simp add: updates_of_def distinct_card)
qed

lemma client_inv_snoc: "client_inv H precise su c0 hist j c \<Longrightarrow> j \<noteq> i \<Longrightarrow> client_inv H precise su c0 (hist @ [i]) j c"
proof (cases "cc_pc c")
  case (Putting u cond)
  assume a: "client_inv H precise su c0 hist j c" "j \<noteq> i"
  then obtain n c1 where "n \<le> length hist" "updates_of su c0 (take n hist) c1" "cond = condition_of H c1"
    "su_mutators su j (index_view (su_json su) c1) = Inr u" "precise \<longrightarrow> cc_attempt c \<le> n + 1" "j \<notin> set hist"
    using Putting by (auto simp: client_inv_def)
  then show ?thesis using Putting a(2) by (auto simp: client_inv_def intro!: exI [of _ n] exI [of _ c1])
qed (auto simp: client_inv_def split: sum.splits)

lemma condition_of_holds:
  assumes "digests_distinct H su c0" "updates_of su c0 p c1" "updates_of su c0 hist c" "holds_for H (condition_of H c1) c"
  shows "c = c1"
  using assms by (cases c1)
    (auto simp: condition_of_def holds_for_def digests_distinct_def dest!: format_digest_inj)

text \<open>A write that took place is the atomic update of its client.\<close>

lemma put_applied:
  assumes "digests_distinct H su c0" "updates_of su c0 hist c" "client_inv H precise su c0 hist i cl"
    "cc_pc cl = Putting u cond" "holds_for H cond c" "js_write_index (su_json su) u = Inr j" "i < su_clients su"
  shows "updates_of su c0 (hist @ [i]) (Some (as_bytes j))"
proof -
  obtain n c1 where p: "updates_of su c0 (take n hist) c1" "cond = condition_of H c1"
    "su_mutators su i (index_view (su_json su) c1) = Inr u" "i \<notin> set hist"
    using assms(3,4) by (auto simp: client_inv_def)
  have "c = c1" using condition_of_holds [OF assms(1) p(1) assms(2)] assms(5) p(2) by simp
  then have "atomic_update (su_json su) (su_mutators su i) c = Some (as_bytes j)"
    using p(3) assms(6) by (simp add: atomic_update_def result_ok_def)
  then show ?thesis using assms(2,7) p(4) by (auto simp: updates_of_def run_updates_append)
qed

lemma put_conflict:
  assumes "updates_of su c0 hist c" "client_inv H True su c0 hist i cl"
    "cc_pc cl = Putting u cond" "\<not> holds_for H cond c"
  shows "cc_attempt cl \<le> length hist"
proof -
  obtain n c1 where p: "n \<le> length hist" "updates_of su c0 (take n hist) c1" "cond = condition_of H c1"
    "cc_attempt cl \<le> n + 1"
    using assms(2,3) by (auto simp: client_inv_def)
  have "holds_for H (condition_of H c1) c1" by (simp add: holds_for_def condition_of_def split: option.split)
  then have "c1 \<noteq> c" using assms(4) p(3) by auto
  then have "n \<noteq> length hist" using p(2) assms(1) by (auto simp: updates_of_def)
  then show ?thesis using p(1,4) by simp
qed


lemma client_step_inv:
  assumes reg: "\<And>m. length (H m) = 32" "cas_registry H rq (su_url su) content" "digests_distinct H su c0"
    "precise \<longrightarrow> precise_conflicts H rq (su_url su) content"
    and inv: "updates_of su c0 hist (content w)" "client_inv H precise su c0 hist i cl" "i < su_clients su"
    and step: "update_step H rq su i cl w = (cl', w')"
  shows "\<exists>hist'. (hist' = hist \<or> hist' = hist @ [i]) \<and> updates_of su c0 hist' (content w')
    \<and> client_inv H precise su c0 hist' i cl'"
proof (cases "cc_pc cl")
  case Fetching
  have out: "i \<notin> set hist" "precise \<longrightarrow> cc_attempt cl \<le> length hist" "length hist < su_clients su"
    using inv(2) Fetching history_length [OF inv(1) _ inv(3)] by (auto simp: client_inv_def)
  obtain r where f: "fetch_index_condition H (su_json su) rq (su_client su) (su_tag su) w = (r, w')"
    and cl': "cl' = cas_fetched (su_mutators su i) r cl"
    using step Fetching by (auto simp: update_step_def cas_client_step_def split: prod.splits)
  have same: "content w' = content w"
    using fetch_index_keeps [OF reg(2) [unfolded su_url_def]] f by (auto simp: keeps_def)
  have "client_inv H precise su c0 hist i cl'"
  proof (cases "result_bind r (\<lambda>(existing, condition).
             map_ok (\<lambda>updated. (updated, condition)) (su_mutators su i existing))")
    case (Inl e)
    then show ?thesis using out by (auto simp: cl' cas_fetched_def Let_def client_inv_def)
  next
    case (Inr q)
    then obtain existing cond u where q: "r = Inr (existing, cond)" "su_mutators su i existing = Inr u" "q = (u, cond)"
      by (auto simp: result_bind_eq_Inr map_ok_eq_Inr)
    then have "existing = index_view (su_json su) (content w)" "cond = condition_of H (content w)"
      using fetch_index_Inr [of H, OF reg(1) reg(2) [unfolded su_url_def]] f by blast+
    then show ?thesis using out q Inr inv(1)
      by (auto simp: cl' cas_fetched_def Let_def client_inv_def intro!: exI [of _ "length hist"])
  qed
  then show ?thesis using inv(1) same by auto
next
  case (Putting u cond)
  obtain r where p: "index_put_cas (su_json su) rq (su_client su) (su_tag su) u cond w = (r, w')"
    and cl': "cl' = cas_answered (update_backoff (su_pid su i)) (su_max_retries su i) r cl"
    using step Putting by (auto simp: update_step_def cas_client_step_def split: prod.splits)
  have out: "i \<notin> set hist" "length hist < su_clients su" "precise \<longrightarrow> cc_attempt cl \<le> su_clients su"
  proof -
    show "i \<notin> set hist" using inv(2) Putting by (auto simp: client_inv_def)
    then show "length hist < su_clients su" using history_length [OF inv(1) _ inv(3)] by simp
    then show "precise \<longrightarrow> cc_attempt cl \<le> su_clients su" using inv(2) Putting by (auto simp: client_inv_def)
  qed
  from reg(2) [unfolded su_url_def] p show ?thesis
  proof (cases rule: index_put_cas_cases)
    case (unsent e)
    then show ?thesis using out inv(1) by (auto simp: cl' cas_answered_def client_inv_def)
  next
    case (sent j)
    note applied = put_applied [OF reg(3) inv(1,2) Putting _ sent(1) inv(3)]
    show ?thesis
    proof (cases r)
      case (Inr x)
      then have "updates_of su c0 (hist @ [i]) (content w')" using sent(3) applied by simp
      then show ?thesis using Inr out(3) by (auto simp: cl' cas_answered_def client_inv_def)
    next
      case (Inl e)
      show ?thesis
      proof (cases "is_precondition_failed e")
        case True
        have "precise \<longrightarrow> cc_attempt cl \<le> length hist"
          using put_conflict [OF inv(1) _ Putting] inv(2) sent(4) [OF Inl True] reg(4) by (auto simp: su_url_def)
        then show ?thesis using sent(4) [OF Inl True] inv(1) out Inl True
          by (auto simp: cl' cas_answered_def client_inv_def)
      next
        case False
        have "updates_of su c0 hist (content w') \<or> updates_of su c0 (hist @ [i]) (content w')"
          using sent(2) inv(1) applied by auto
        then show ?thesis using out(3) Inl False by (auto simp: cl' cas_answered_def client_inv_def)
      qed
    qed
  qed
next
  case (Waiting ms)
  then show ?thesis using step inv(1,2) cas_registry_sleep [OF reg(2)]
    by (auto simp: update_step_def cas_client_step_def client_inv_def)
next
  case (Finished r)
  then show ?thesis using step inv(1,2) by (auto simp: update_step_def cas_client_step_def)
qed

lemma cas_step_inv:
  assumes reg: "\<And>m. length (H m) = 32" "cas_registry H rq (su_url su) content" "digests_distinct H su c0"
    "precise \<longrightarrow> precise_conflicts H rq (su_url su) content"
    and "cas_step H rq su s s'" "cas_inv H precise su content c0 hist s"
  shows "\<exists>hist'. cas_inv H precise su content c0 hist' s'"
  using assms(5)
proof (cases rule: cas_step.cases)
  case (client i cls w c' w')
  have inv: "updates_of su c0 hist (content w)" "client_inv H precise su c0 hist i (cls i)"
    "\<And>j. j < su_clients su \<Longrightarrow> client_inv H precise su c0 hist j (cls j)"
    using assms(6) client by (auto simp: cas_inv_def)
  obtain hist' where h: "hist' = hist \<or> hist' = hist @ [i]" "updates_of su c0 hist' (content w')"
    "client_inv H precise su c0 hist' i c'"
    using client_step_inv [of H, OF reg inv(1,2) client(3,4)] by blast
  have "client_inv H precise su c0 hist' j ((cls(i := c')) j)" if "j < su_clients su" for j
    using h inv(3) [OF that] client_inv_snoc by (cases "j = i") auto
  then have "cas_inv H precise su content c0 hist' s'" using h(2) client(2) unfolding cas_inv_def by simp
  then show ?thesis by blast
qed

lemma cas_inv_reachable:
  assumes "\<And>m. length (H m) = 32" "cas_registry H rq (su_url su) content" "digests_distinct H su (content w0)"
    "precise \<longrightarrow> precise_conflicts H rq (su_url su) content"
    and "(cas_step H rq su)\<^sup>*\<^sup>* (w0, initial_clients) s"
  shows "\<exists>hist. cas_inv H precise su content (content w0) hist s"
  using assms(5)
proof (induction rule: rtranclp_induct)
  case base
  have "cas_inv H precise su content (content w0) [] (w0, initial_clients)"
    by (simp add: cas_inv_def updates_of_def client_inv_def)
  then show ?case by blast
next
  case (step s s')
  then show ?case using cas_step_inv [of H, OF assms(1-4)] by blast
qed


section \<open>A sample registry\<close>

definition sample_index_put :: "request_headers \<Rightarrow> bytes \<Rightarrow> (bytes option, status_code) step" where
  "sample_index_put headers body c =
     (if condition_holds (\<lambda>bs. take 32 (bs @ replicate 32 0)) headers c then (Inr 201, Some body) else (Inr 412, c))"

definition sample_cas_requests :: "bytes option oci_requests" where
  "sample_cas_requests =
     \<lparr>rq_get = \<lambda>_ _ c. (case c of None \<Rightarrow> (Inr (404, \<lambda>_. None, []), c) | Some b \<Rightarrow> (Inr (200, \<lambda>_. None, b), c)),
      rq_head = \<lambda>_. fail UploadLocationMissing, rq_stream = \<lambda>_ _. fail UploadLocationMissing,
      rq_post = \<lambda>_. fail UploadLocationMissing, rq_post_bytes = \<lambda>_ _ _. fail UploadLocationMissing,
      rq_put_bytes = \<lambda>_. sample_index_put, rq_patch_chunk = \<lambda>_ _ _. fail UploadLocationMissing, rq_put_chunk_finish = \<lambda>_. fail UploadLocationMissing,
      rq_delete = \<lambda>_. fail UploadLocationMissing, rq_sleep = \<lambda>_ c. c\<rparr>"

definition sample_cas_client :: oci_client where
  "sample_cas_client =
     \<lparr>cl_endpoint = \<lparr>ep_scheme = Https, ep_host = ''r.io'', ep_port = None, ep_authority = ''r.io'', ep_base_path = []\<rparr>,
      cl_repo = ''me'', cl_driver = AzureAcrDriver, cl_limits = default_limits\<rparr>"

definition sample_setup :: cas_setup where
  "sample_setup =
     \<lparr>su_json = \<lparr>js_artifact = \<lambda>_. Inr (ArtifactIndex image_index_new), js_image_index = \<lambda>_. Inr image_index_new,
        js_image_manifest = \<lambda>_. Inl ''none'', js_write_index = \<lambda>_. Inr ''{}'', js_write_manifest = \<lambda>_. Inl ''none'',
        js_utf8_error = \<lambda>_. ''utf8''\<rparr>,
      su_client = sample_cas_client, su_tag = ''t'', su_clients = 2, su_max_retries = \<lambda>_. 3, su_pid = \<lambda>i. i,
      su_mutators = \<lambda>_ _. Inr image_index_new\<rparr>"

lemma sample_cas_registry:
  "cas_registry sample_sha sample_cas_requests url id" "precise_conflicts sample_sha sample_cas_requests url id"
  by (auto simp: cas_registry_def precise_conflicts_def sample_cas_requests_def sample_index_put_def published_def
      split: option.splits if_splits)

lemma sample_contents: "run_updates (su_json sample_setup) (su_mutators sample_setup) c p = Some (Some b) \<Longrightarrow>
    c = None \<or> c = Some (as_bytes ''{}'') \<Longrightarrow> b = as_bytes ''{}''"
  by (induction p arbitrary: c) (auto simp: sample_setup_def atomic_update_def result_ok_def split: bind_splits)

lemma sample_digests: "digests_distinct sample_sha sample_setup (id None)"
  unfolding digests_distinct_def updates_of_def
proof (intro allI impI)
  fix p q b b' assume a: "(distinct p \<and> set p \<subseteq> {..<su_clients sample_setup}
      \<and> run_updates (su_json sample_setup) (su_mutators sample_setup) (id None) p = Some (Some b))
    \<and> (distinct q \<and> set q \<subseteq> {..<su_clients sample_setup}
      \<and> run_updates (su_json sample_setup) (su_mutators sample_setup) (id None) q = Some (Some b'))
    \<and> sample_sha b = sample_sha b'"
  then have "run_updates (su_json sample_setup) (su_mutators sample_setup) None p = Some (Some b)"
    "run_updates (su_json sample_setup) (su_mutators sample_setup) None q = Some (Some b')" by simp_all
  then show "b = b'" using sample_contents by blast
qed

lemma sample_run:
  "(cas_step sample_sha sample_cas_requests sample_setup)\<^sup>*\<^sup>* (None, initial_clients)
     (Some (as_bytes ''{}''), initial_clients(0 := \<lparr>cc_attempt = 1, cc_pc = Finished (Inr ())\<rparr>))"
proof -
  let ?c1 = "\<lparr>cc_attempt = 1, cc_pc = Putting image_index_new CreateOnly\<rparr> :: index_client"
  let ?c2 = "\<lparr>cc_attempt = 1, cc_pc = Finished (Inr ())\<rparr> :: index_client"
  let ?step = "cas_step sample_sha sample_cas_requests sample_setup"
  have "update_step sample_sha sample_cas_requests sample_setup 0 (initial_clients 0) None = (?c1, None)"
    by (simp add: update_step_def cas_client_step_def sample_setup_def fetch_index_condition_def fetch_artifact_def
        get_with_digest_def get_with_expected_size_def is_some_and_def seq_eq Let_def sample_cas_requests_def
        pure_def cas_fetched_def result_bind_def map_ok_def)
  then have 1: "?step (None, initial_clients) (None, initial_clients(0 := ?c1))"
    by (intro cas_step.client) (simp_all add: sample_setup_def)
  have "update_step sample_sha sample_cas_requests sample_setup 0 ((initial_clients(0 := ?c1)) 0) None
      = (?c2, Some (as_bytes ''{}''))"
    by (simp add: update_step_def cas_client_step_def sample_setup_def index_put_cas_def sample_cas_client_def cl_capabilities_def AZURE_ACR_CAPABILITIES_def
        seq_eq Let_def lift_def insert_cas_condition_def map_err_def sample_cas_requests_def sample_index_put_def
        condition_holds_def published_def pure_def cas_answered_def)
  then have "?step (None, initial_clients(0 := ?c1)) (Some (as_bytes ''{}''), (initial_clients(0 := ?c1))(0 := ?c2))"
    by (intro cas_step.client) (simp_all add: sample_setup_def)
  with 1 show ?thesis by (auto intro: rtranclp.rtrancl_into_rtrancl)
qed

section \<open>Properties\<close>

text \<open>
  C2. No update is lost: whatever way the requests of the clients interleave, the content of the tag
  is at every moment the result of applying some of the clients' updates one after the other,
  each to the outcome of the one before and none twice. Every client that reported success is
  among them; a client that has not finished, or that gave up because of conflicts, is not.
\<close>

theorem cas_no_lost_update:
  assumes "\<And>m. length (H m) = 32" "cas_registry H rq (su_url su) content" "digests_distinct H su (content w0)"
    and "(cas_step H rq su)\<^sup>*\<^sup>* (w0, initial_clients) (w, cls)"
  shows "\<exists>hist. distinct hist \<and> set hist \<subseteq> {..<su_clients su}
    \<and> run_updates (su_json su) (su_mutators su) (content w0) hist = Some (content w)
    \<and> (\<forall>i < su_clients su. cc_pc (cls i) = Finished (Inr ()) \<longrightarrow> i \<in> set hist)
    \<and> (\<forall>i < su_clients su. i \<in> set hist \<longrightarrow>
         (\<exists>r. cc_pc (cls i) = Finished r \<and> (\<forall>e. r = Inl e \<longrightarrow> \<not> is_precondition_failed e)))"
proof -
  obtain hist where inv: "cas_inv H False su content (content w0) hist (w, cls)"
    using cas_inv_reachable [of H, OF assms(1-3) _ assms(4), of False] by blast
  have "updates_of su (content w0) hist (content w)" using inv by (simp add: cas_inv_def)
  moreover have "i \<in> set hist" if "i < su_clients su" "cc_pc (cls i) = Finished (Inr ())" for i
    using inv that by (auto simp: cas_inv_def client_inv_def)
  moreover have "\<exists>r. cc_pc (cls i) = Finished r \<and> (\<forall>e. r = Inl e \<longrightarrow> \<not> is_precondition_failed e)"
    if "i < su_clients su" "i \<in> set hist" for i
  proof -
    have "client_inv H False su (content w0) hist i (cls i)" using inv that by (simp add: cas_inv_def)
    then show ?thesis using that by (cases "cc_pc (cls i)") (auto simp: client_inv_def)
  qed
  ultimately show ?thesis by (intro exI [of _ hist]) (auto simp: updates_of_def)
qed

theorem cas_no_lost_update_witness:
  "\<exists>hist. distinct hist \<and> 0 \<in> set hist
     \<and> run_updates (su_json sample_setup) (su_mutators sample_setup) None hist = Some (Some (as_bytes ''{}''))"
proof -
  have len: "\<And>m. length (sample_sha m) = 32" by simp
  from cas_no_lost_update [of sample_sha, OF len sample_cas_registry(1) sample_digests, unfolded id_apply, OF sample_run]
  show ?thesis by (auto simp: sample_setup_def)
qed

text \<open>
  C20. Contention is bounded: when the registry reports a conflict only when there is one, a client makes
  at most as many attempts as there are clients, because every failed attempt is caused by the
  update of another one. A retry limit of the number of other clients is therefore never the
  reason for a failure.
\<close>

theorem cas_attempts_bounded:
  assumes "\<And>m. length (H m) = 32" "cas_registry H rq (su_url su) content" "digests_distinct H su (content w0)"
    and "precise_conflicts H rq (su_url su) content"
    and "(cas_step H rq su)\<^sup>*\<^sup>* (w0, initial_clients) (w, cls)" "i < su_clients su"
  shows "cc_attempt (cls i) \<le> su_clients su"
proof -
  obtain hist where inv: "cas_inv H True su content (content w0) hist (w, cls)"
    using cas_inv_reachable [of H, OF assms(1-3) _ assms(5), of True] assms(4) by blast
  then have "updates_of su (content w0) hist (content w)" "client_inv H True su (content w0) hist i (cls i)"
    using assms(6) by (simp_all add: cas_inv_def)
  with history_length [OF this(1) _ assms(6)] show ?thesis
    by (cases "cc_pc (cls i)") (auto simp: client_inv_def split: sum.splits)
qed

theorem cas_attempts_bounded_witness:
  "cc_attempt ((initial_clients(0 := \<lparr>cc_attempt = 1, cc_pc = Finished (Inr ())\<rparr>)) 0) \<le> 2"
proof -
  have len: "\<And>m. length (sample_sha m) = 32" by simp
  from cas_attempts_bounded [of sample_sha, OF len sample_cas_registry(1) sample_digests sample_cas_registry(2),
      unfolded id_apply, OF sample_run, of 0]
  show ?thesis by (simp add: sample_setup_def)
qed

end
