(* ===== verification/Token_Flight.thy ===== *)
theory Token_Flight
  imports Oci_Error
begin

text \<open>
  One token request at a time: \<^verbatim>\<open>token/sync.rs\<close> and the loop \<open>get_token_for_key\<close> of \<^verbatim>\<open>token.rs\<close>. The
  registry of flights is the state behind a mutex, so each of its operations is one step; a flight
  is a number in the list of the flights created so far, which stands for its address. The clock
  counts in seconds. Where an operation completes a flight after it has released the mutex, that is
  a step of its own.
\<close>

section \<open>The registry of flights\<close>

record challenge_key =
  key_realm :: string
  key_service :: string
  key_scope :: string

datatype flight_outcome = Succeeded | FailedFlight | Cancelled

record cached_token =
  ct_token :: string
  ct_generation :: u64
  ct_expires_at :: nat

record flight_registry =
  fr_cache :: "challenge_key \<Rightarrow> cached_token option"
  fr_flights :: "challenge_key \<Rightarrow> nat option"
  fr_generations :: "challenge_key \<Rightarrow> u64 option"
  fr_last_key :: "challenge_key option"
  fr_outcomes :: "flight_outcome option list"

datatype acquired = Leader u64 nat | Waiter nat

definition registry_new :: flight_registry where
  "registry_new = \<lparr>fr_cache = Map.empty, fr_flights = Map.empty, fr_generations = Map.empty,
     fr_last_key = None, fr_outcomes = []\<rparr>"

definition generation_of :: "flight_registry \<Rightarrow> challenge_key \<Rightarrow> u64" where
  "generation_of st key = (case fr_generations st key of Some g \<Rightarrow> g | None \<Rightarrow> 0)"

definition token_valid :: "flight_registry \<Rightarrow> challenge_key \<Rightarrow> nat \<Rightarrow> bool" where
  "token_valid st key now =
     (case fr_cache st key of
        Some entry \<Rightarrow> ct_generation entry = generation_of st key \<and> ct_expires_at entry > now
      | None \<Rightarrow> False)"

definition load :: "challenge_key \<Rightarrow> nat \<Rightarrow> flight_registry \<Rightarrow> string option \<times> flight_registry" where
  "load key now st =
     (if token_valid st key now then (map_option ct_token (fr_cache st key), st)
      else (None, st\<lparr>fr_cache := (fr_cache st)(key := None)\<rparr>))"

definition load_last :: "nat \<Rightarrow> flight_registry \<Rightarrow> string option \<times> flight_registry" where
  "load_last now st =
     (case fr_last_key st of
        None \<Rightarrow> (None, st)
      | Some key \<Rightarrow>
          if token_valid st key now then (map_option ct_token (fr_cache st key), st)
          else (None, st\<lparr>fr_cache := (fr_cache st)(key := None)\<rparr>))"

definition acquire :: "challenge_key \<Rightarrow> flight_registry \<Rightarrow> acquired \<times> flight_registry" where
  "acquire key st0 =
     (let generation = generation_of st0 key;
          st = st0\<lparr>fr_generations := (fr_generations st0)(key \<mapsto> generation)\<rparr> in
      case fr_flights st key of
        Some flight \<Rightarrow> (Waiter flight, st)
      | None \<Rightarrow>
          let flight = length (fr_outcomes st) in
          (Leader generation flight,
           st\<lparr>fr_outcomes := fr_outcomes st @ [None], fr_flights := (fr_flights st)(key \<mapsto> flight)\<rparr>))"

definition store_if_current ::
  "challenge_key \<Rightarrow> u64 \<Rightarrow> string \<Rightarrow> nat \<Rightarrow> flight_registry \<Rightarrow> bool \<times> flight_registry" where
  "store_if_current key generation token expires_at st =
     (if generation_of st key \<noteq> generation then (False, st)
      else (True, st\<lparr>fr_cache := (fr_cache st)(key \<mapsto>
          \<lparr>ct_token = token, ct_generation = generation, ct_expires_at = expires_at\<rparr>), fr_last_key := Some key\<rparr>))"

text \<open>The part of \<open>invalidate\<close> under the mutex, with the flight that is to be cancelled.\<close>

definition next_generation :: "u64 \<Rightarrow> u64" where
  "next_generation g = (if g = 2 ^ 64 - 1 then g else g + 1)"

definition invalidate_locked :: "challenge_key \<Rightarrow> flight_registry \<Rightarrow> nat option \<times> flight_registry" where
  "invalidate_locked key st =
     (fr_flights st key,
      st\<lparr>fr_generations := (fr_generations st)(key \<mapsto> next_generation (generation_of st key)),
         fr_cache := (fr_cache st)(key := None), fr_flights := (fr_flights st)(key := None)\<rparr>)"

definition flight_complete :: "nat \<Rightarrow> flight_outcome \<Rightarrow> flight_registry \<Rightarrow> flight_registry" where
  "flight_complete flight outcome st =
     (if fr_outcomes st ! flight = None
      then st\<lparr>fr_outcomes := (fr_outcomes st)[flight := Some outcome]\<rparr> else st)"

text \<open>
  The part of \<open>finish\<close> under the mutex. The flight is completed afterwards; the test before that
  call leaves out only calls that would change nothing.
\<close>

definition finish_locked :: "challenge_key \<Rightarrow> u64 \<Rightarrow> nat \<Rightarrow> flight_registry \<Rightarrow> flight_registry" where
  "finish_locked key generation flight st =
     (if fr_flights st key = Some flight \<and> generation_of st key = generation
      then st\<lparr>fr_flights := (fr_flights st)(key := None)\<rparr> else st)"

section \<open>Getting a token\<close>

text \<open>
  The control points of \<open>refresh_token\<close> and \<open>get_token_for_key\<close>. A leader that is dropped before it
  finishes does what its guard does: it finishes as cancelled. \<open>sent\<close> is the moment at which the
  network request left.
\<close>

datatype after_finish = Return "oci_error + string" | Again | Drop

datatype token_pc =
    Invalidating
  | Cancelling nat
  | Loading
  | Acquiring
  | Rechecking u64 nat
  | Sending u64 nat
  | Fetching u64 nat nat
  | Storing u64 nat string nat nat
  | Finishing u64 nat flight_outcome after_finish
  | Completing nat flight_outcome after_finish
  | WaitingFor nat
  | Returned "oci_error + string"
  | Dropped

definition after_pc :: "after_finish \<Rightarrow> token_pc" where
  "after_pc after = (case after of Return r \<Rightarrow> Returned r | Again \<Rightarrow> Loading | Drop \<Rightarrow> Dropped)"

definition token_step ::
  "nat \<Rightarrow> nat \<Rightarrow> oci_error + string \<times> nat \<Rightarrow> challenge_key \<Rightarrow> token_pc \<Rightarrow> flight_registry
     \<Rightarrow> token_pc \<times> flight_registry" where
  "token_step now tick answer key pc st = (case pc of
     Invalidating \<Rightarrow> (case invalidate_locked key st of
         (Some flight, st') \<Rightarrow> (Cancelling flight, st')
       | (None, st') \<Rightarrow> (Loading, st'))
   | Cancelling flight \<Rightarrow> (Loading, flight_complete flight Cancelled st)
   | Loading \<Rightarrow> (case load key now st of
         (Some token, st') \<Rightarrow> (Returned (Inr token), st')
       | (None, st') \<Rightarrow> (Acquiring, st'))
   | Acquiring \<Rightarrow> (case acquire key st of
         (Leader generation flight, st') \<Rightarrow> (Rechecking generation flight, st')
       | (Waiter flight, st') \<Rightarrow> (WaitingFor flight, st'))
   | Rechecking generation flight \<Rightarrow> (case load key now st of
         (Some token, st') \<Rightarrow> (Finishing generation flight Succeeded (Return (Inr token)), st')
       | (None, st') \<Rightarrow> (Sending generation flight, st'))
   | Sending generation flight \<Rightarrow> (Fetching generation flight tick, st)
   | Fetching generation flight sent \<Rightarrow> (case answer of
         Inr (token, ttl) \<Rightarrow> (Storing generation flight token ttl sent, st)
       | Inl e \<Rightarrow> (Finishing generation flight FailedFlight (Return (Inl e)), st))
   | Storing generation flight token ttl sent \<Rightarrow> (case store_if_current key generation token (now + ttl) st of
         (True, st') \<Rightarrow> (Finishing generation flight Succeeded (Return (Inr token)), st')
       | (False, st') \<Rightarrow> (Finishing generation flight Cancelled Again, st'))
   | Finishing generation flight outcome after \<Rightarrow>
       (Completing flight outcome after, finish_locked key generation flight st)
   | Completing flight outcome after \<Rightarrow> (after_pc after, flight_complete flight outcome st)
   | WaitingFor flight \<Rightarrow> (case fr_outcomes st ! flight of
         None \<Rightarrow> (pc, st)
       | Some FailedFlight \<Rightarrow> (Returned (Inl (OciToken FlightFailed)), st)
       | Some _ \<Rightarrow> (Loading, st))
   | Returned r \<Rightarrow> (pc, st)
   | Dropped \<Rightarrow> (pc, st))"

text \<open>
  The future of a task is dropped at one of its points of suspension. A leader is also dropped when it
  panics, which the sum of the current time and a very long lifetime of a token makes it do before
  the token is stored.
\<close>

definition token_drop :: "token_pc \<Rightarrow> token_pc" where
  "token_drop pc = (case pc of
     Fetching generation flight _ \<Rightarrow> Finishing generation flight Cancelled Drop
   | Storing generation flight _ _ _ \<Rightarrow> Finishing generation flight Cancelled Drop
   | WaitingFor _ \<Rightarrow> Dropped
   | _ \<Rightarrow> pc)"

section \<open>Several tasks\<close>

text \<open>
  The tasks share the registry and the clock. The world also records what no part of the program
  reads: the number of steps, the moment of the last invalidation of each key, and the tokens
  that were received with the moment at which they were requested.
\<close>

record token_world =
  tw_registry :: flight_registry
  tw_now :: nat
  tw_tick :: nat
  tw_invalidated :: "challenge_key \<Rightarrow> nat"
  tw_received :: "(challenge_key \<times> string \<times> nat) set"
  tw_key :: "nat \<Rightarrow> challenge_key"
  tw_pc :: "nat \<Rightarrow> token_pc"
  tw_since :: "nat \<Rightarrow> nat"

definition received :: "challenge_key \<Rightarrow> token_pc \<Rightarrow> (challenge_key \<times> string \<times> nat) set" where
  "received key pc = (case pc of Storing _ _ token _ sent \<Rightarrow> {(key, token, sent)} | _ \<Rightarrow> {})"

inductive token_world_step :: "token_world \<Rightarrow> token_world \<Rightarrow> bool" where
  invalidate: "tw_pc w i = Invalidating \<Longrightarrow>
    token_step (tw_now w) (tw_tick w) answer (tw_key w i) Invalidating (tw_registry w) = (pc, st) \<Longrightarrow>
    token_world_step w (w\<lparr>tw_registry := st, tw_tick := tw_tick w + 1, tw_pc := (tw_pc w)(i := pc),
      tw_invalidated := (tw_invalidated w)(tw_key w i := tw_tick w), tw_since := (tw_since w)(i := tw_tick w)\<rparr>)"
| task: "tw_pc w i \<noteq> Invalidating \<Longrightarrow>
    token_step (tw_now w) (tw_tick w) answer (tw_key w i) (tw_pc w i) (tw_registry w) = (pc, st) \<Longrightarrow>
    token_world_step w (w\<lparr>tw_registry := st, tw_tick := tw_tick w + 1, tw_pc := (tw_pc w)(i := pc),
      tw_received := tw_received w \<union> received (tw_key w i) pc\<rparr>)"
| dropped: "token_world_step w (w\<lparr>tw_tick := tw_tick w + 1, tw_pc := (tw_pc w)(i := token_drop (tw_pc w i))\<rparr>)"
| cached: "load_last (tw_now w) (tw_registry w) = (r, st) \<Longrightarrow>
    token_world_step w (w\<lparr>tw_registry := st, tw_tick := tw_tick w + 1\<rparr>)"
| clock: "now \<ge> tw_now w \<Longrightarrow> token_world_step w (w\<lparr>tw_tick := tw_tick w + 1, tw_now := now\<rparr>)"

text \<open>At the start no token is cached and each task is about to refresh a token or to get one.\<close>

definition token_initial :: "token_world \<Rightarrow> bool" where
  "token_initial w \<longleftrightarrow> tw_registry w = registry_new \<and> (\<forall>i. tw_pc w i \<in> {Invalidating, Loading})
     \<and> tw_received w = {} \<and> (\<forall>k. tw_invalidated w k = 0) \<and> (\<forall>i. tw_since w i = 0)"

end
