(* ===== verification/Token_Flight_Inv.thy ===== *)
theory Token_Flight_Inv
  imports Token_Flight
begin

text \<open>
  What the registry of flights guarantees to the tasks that share it: at most one of them asks the
  network, a task that refreshes never gets a token from before, and no waiter is forgotten.
\<close>

section \<open>Leaders and the flights they hold\<close>

abbreviation last_generation :: u64 where
  "last_generation \<equiv> 2 ^ 64 - 1"

text \<open>The generation and the flight of a leader that has not given up its place.\<close>

fun leads :: "token_pc \<Rightarrow> (u64 \<times> nat) option" where
  "leads (Rechecking g f) = Some (g, f)"
| "leads (Sending g f) = Some (g, f)"
| "leads (Fetching g f _) = Some (g, f)"
| "leads (Storing g f _ _ _) = Some (g, f)"
| "leads (Finishing g f _ _) = Some (g, f)"
| "leads _ = None"

text \<open>The flight that a task is going to complete.\<close>

fun holds :: "token_pc \<Rightarrow> nat option" where
  "holds (Cancelling f) = Some f"
| "holds (Completing f _ _) = Some f"
| "holds pc = map_option snd (leads pc)"

text \<open>The request that a leader has under way, and the token that a task is going to return.\<close>

fun request_sent :: "token_pc \<Rightarrow> nat option" where
  "request_sent (Fetching _ _ sent) = Some sent"
| "request_sent (Storing _ _ _ _ sent) = Some sent"
| "request_sent _ = None"

fun to_return :: "token_pc \<Rightarrow> string option" where
  "to_return (Returned (Inr token)) = Some token"
| "to_return (Finishing _ _ _ (Return (Inr token))) = Some token"
| "to_return (Completing _ _ (Return (Inr token))) = Some token"
| "to_return _ = None"

section \<open>The invariant\<close>

definition fresh :: "token_world \<Rightarrow> challenge_key \<Rightarrow> nat \<Rightarrow> string \<Rightarrow> bool" where
  "fresh w key since token \<longleftrightarrow> (\<exists>sent \<ge> since. (key, token, sent) \<in> tw_received w)"

definition registry_ok :: "token_world \<Rightarrow> bool" where
  "registry_ok w \<longleftrightarrow>
     (\<forall>key f. fr_flights (tw_registry w) key = Some f \<longrightarrow> f < length (fr_outcomes (tw_registry w)))
     \<and> (\<forall>key e. fr_cache (tw_registry w) key = Some e \<longrightarrow>
          ct_generation e \<le> generation_of (tw_registry w) key
          \<and> (generation_of (tw_registry w) key < last_generation \<and> ct_generation e = generation_of (tw_registry w) key
             \<longrightarrow> fresh w key (tw_invalidated w key) (ct_token e)))
     \<and> (\<forall>key. tw_invalidated w key \<le> tw_tick w)"

definition task_ok :: "token_world \<Rightarrow> nat \<Rightarrow> bool" where
  "task_ok w i \<longleftrightarrow> (let st = tw_registry w; key = tw_key w i; pc = tw_pc w i; g = generation_of st key in
     tw_since w i \<le> tw_invalidated w key
     \<and> (\<forall>f. holds pc = Some f \<longrightarrow> f < length (fr_outcomes st))
     \<and> (\<forall>f. pc = WaitingFor f \<longrightarrow> f < length (fr_outcomes st))
     \<and> (\<forall>h f. leads pc = Some (h, f) \<longrightarrow> h \<le> g \<and> (h = g \<and> g < last_generation \<longrightarrow> fr_flights st key = Some f))
     \<and> (\<forall>h f sent. leads pc = Some (h, f) \<and> request_sent pc = Some sent \<and> h = g \<and> g < last_generation
          \<longrightarrow> tw_invalidated w key \<le> sent)
     \<and> (\<forall>h f token ttl sent. pc = Storing h f token ttl sent \<longrightarrow> (key, token, sent) \<in> tw_received w)
     \<and> (\<forall>token. to_return pc = Some token \<and> g < last_generation \<longrightarrow> fresh w key (tw_since w i) token))"

definition leaders_ok :: "token_world \<Rightarrow> bool" where
  "leaders_ok w \<longleftrightarrow>
     (\<forall>i j h h' f. leads (tw_pc w i) = Some (h, f) \<and> leads (tw_pc w j) = Some (h', f) \<longrightarrow> i = j)
     \<and> (\<forall>i j h f f'. tw_key w i = tw_key w j \<and> leads (tw_pc w i) = Some (h, f) \<and> leads (tw_pc w j) = Some (h, f')
          \<and> h < last_generation \<longrightarrow> i = j)"

definition flights_held :: "token_world \<Rightarrow> bool" where
  "flights_held w \<longleftrightarrow> (\<forall>f < length (fr_outcomes (tw_registry w)). fr_outcomes (tw_registry w) ! f = None
     \<longrightarrow> (\<exists>i. holds (tw_pc w i) = Some f))"

definition token_inv :: "token_world \<Rightarrow> bool" where
  "token_inv w \<longleftrightarrow> registry_ok w \<and> (\<forall>i. task_ok w i) \<and> leaders_ok w \<and> flights_held w"

lemma initial_inv: "token_initial w \<Longrightarrow> token_inv w"
proof -
  assume w: "token_initial w"
  then have "tw_pc w i = Invalidating \<or> tw_pc w i = Loading" for i by (auto simp: token_initial_def)
  then have pc: "leads (tw_pc w i) = None" "holds (tw_pc w i) = None" "to_return (tw_pc w i) = None"
    "tw_pc w i \<noteq> WaitingFor f" "tw_pc w i \<noteq> Storing h f token ttl sent" for i h f token ttl sent
    by (metis holds.simps leads.simps option.simps(8) to_return.simps token_pc.distinct)+
  show ?thesis
    using w by (auto simp: token_inv_def registry_ok_def task_ok_def leaders_ok_def flights_held_def token_initial_def
        registry_new_def Let_def pc)
qed

section \<open>What the operations of the registry change\<close>

lemma generation_upd [simp]:
  "generation_of (st\<lparr>fr_cache := c\<rparr>) key = generation_of st key"
  "generation_of (st\<lparr>fr_flights := l\<rparr>) key = generation_of st key"
  "generation_of (st\<lparr>fr_outcomes := q\<rparr>) key = generation_of st key"
  "generation_of (st\<lparr>fr_last_key := k\<rparr>) key = generation_of st key"
  "generation_of (st\<lparr>fr_generations := (fr_generations st)(key' \<mapsto> g)\<rparr>) key = (if key = key' then g else generation_of st key)"
  by (simp_all add: generation_of_def)

lemma next_generation_less:
  "g < last_generation \<Longrightarrow> g < next_generation g" "g \<le> next_generation g"
  "next_generation g < last_generation \<Longrightarrow> g < last_generation"
proof -
  have max: "unat (2 ^ 64 - 1 :: u64) = 2 ^ 64 - 1" by simp
  have "unat g < 2 ^ LENGTH(64)" by (rule unsigned_less)
  then have "g \<noteq> 2 ^ 64 - 1 \<Longrightarrow> unat (g + 1) = unat g + 1"
    using max by (auto simp: unat_word_ariths word_unat_eq_iff)
  then show "g < last_generation \<Longrightarrow> g < next_generation g" "g \<le> next_generation g"
    "next_generation g < last_generation \<Longrightarrow> g < last_generation"
    by (auto simp: next_generation_def word_less_nat_alt word_le_nat_alt split: if_splits)
qed

lemma fresh_mono: "fresh w key since token \<Longrightarrow> tw_received w \<subseteq> tw_received w' \<Longrightarrow> since' \<le> since \<Longrightarrow> fresh w' key since' token"
  unfolding fresh_def by (meson order_trans subsetD)

section \<open>A step of one task\<close>

text \<open>
  What a step of task \<open>i\<close> that does not invalidate keeps: the other tasks, the registry, the leaders
  and the flights, each under what it needs of the step.
\<close>

definition moved :: "token_world \<Rightarrow> nat \<Rightarrow> token_pc \<Rightarrow> flight_registry \<Rightarrow> (challenge_key \<times> string \<times> nat) set \<Rightarrow> token_world" where
  "moved w i pc' st' R = w\<lparr>tw_registry := st', tw_tick := tw_tick w + 1, tw_pc := (tw_pc w)(i := pc'),
     tw_received := tw_received w \<union> R\<rparr>"

lemma moved_simps [simp]:
  "tw_registry (moved w i pc' st' R) = st'" "tw_tick (moved w i pc' st' R) = tw_tick w + 1"
  "tw_pc (moved w i pc' st' R) = (tw_pc w)(i := pc')" "tw_received (moved w i pc' st' R) = tw_received w \<union> R"
  "tw_key (moved w i pc' st' R) = tw_key w" "tw_since (moved w i pc' st' R) = tw_since w"
  "tw_invalidated (moved w i pc' st' R) = tw_invalidated w" "tw_now (moved w i pc' st' R) = tw_now w"
  by (simp_all add: moved_def)

lemma fresh_moved: "fresh w key since token \<Longrightarrow> fresh (moved w i pc' st' R) key since token"
  by (auto simp: fresh_def)

lemma other_tasks:
  assumes "task_ok w j" "j \<noteq> i" "generation_of st' = generation_of (tw_registry w)"
    and "length (fr_outcomes (tw_registry w)) \<le> length (fr_outcomes st')"
    and "\<And>h f. leads (tw_pc w j) = Some (h, f) \<Longrightarrow> h = generation_of st' (tw_key w j) \<Longrightarrow> h < last_generation \<Longrightarrow>
      fr_flights (tw_registry w) (tw_key w j) = Some f \<Longrightarrow> fr_flights st' (tw_key w j) = Some f"
  shows "task_ok (moved w i pc' st' R) j"
  unfolding task_ok_def Let_def
proof (intro conjI allI impI, goal_cases)
  case (4 h f)
  then show ?case using assms by (auto simp: task_ok_def Let_def)
next
  case (5 h f)
  then show ?case using assms by (auto simp: task_ok_def Let_def)
next
  case (8 token)
  then show ?case using assms fresh_moved by (auto simp: task_ok_def Let_def)
qed (use assms in \<open>fastforce simp: task_ok_def Let_def\<close>)+

lemma registry_moved:
  assumes "registry_ok w" "generation_of st' = generation_of (tw_registry w)"
    and "\<And>key f. fr_flights st' key = Some f \<Longrightarrow> f < length (fr_outcomes st')"
    and "\<And>key e. fr_cache st' key = Some e \<Longrightarrow> fr_cache (tw_registry w) key = Some e
      \<or> ct_generation e \<le> generation_of st' key
        \<and> (generation_of st' key < last_generation \<and> ct_generation e = generation_of st' key
            \<longrightarrow> fresh (moved w i pc' st' R) key (tw_invalidated w key) (ct_token e))"
  shows "registry_ok (moved w i pc' st' R)"
proof -
  have "ct_generation e \<le> generation_of st' key
      \<and> (generation_of st' key < last_generation \<and> ct_generation e = generation_of st' key
         \<longrightarrow> fresh (moved w i pc' st' R) key (tw_invalidated w key) (ct_token e))" if "fr_cache st' key = Some e" for key e
  proof (cases "fr_cache (tw_registry w) key = Some e")
    case True
    then show ?thesis using assms(1,2) fresh_moved unfolding registry_ok_def by metis
  next
    case False
    then show ?thesis using assms(4) [OF that] by simp
  qed
  moreover have "tw_invalidated w key \<le> Suc (tw_tick w)" for key
    using assms(1) by (auto simp: registry_ok_def intro: le_SucI)
  ultimately show ?thesis using assms(3) by (auto simp: registry_ok_def)
qed

lemma leaders_moved:
  assumes "leaders_ok w" "\<And>j. task_ok w j" "generation_of st' = generation_of (tw_registry w)"
    and "leads pc' = None \<or> leads pc' = leads (tw_pc w i)
      \<or> (\<exists>f. leads pc' = Some (generation_of st' (tw_key w i), f) \<and> length (fr_outcomes (tw_registry w)) \<le> f
          \<and> fr_flights (tw_registry w) (tw_key w i) = None)"
  shows "leaders_ok (moved w i pc' st' R)"
proof -
  let ?l = "\<lambda>j. leads (((tw_pc w)(i := pc')) j)"
  consider (less) "\<And>j. ?l j = None \<or> ?l j = leads (tw_pc w j)"
    | (new) f where "leads pc' = Some (generation_of st' (tw_key w i), f)" "length (fr_outcomes (tw_registry w)) \<le> f"
        "fr_flights (tw_registry w) (tw_key w i) = None"
    using assms(4) by (metis fun_upd_apply)
  then show ?thesis
  proof cases
    case less
    then have "?l j = Some x \<Longrightarrow> leads (tw_pc w j) = Some x" for j x by (metis option.distinct(1))
    then show ?thesis using assms(1) unfolding leaders_ok_def moved_simps by blast
  next
    case new
    have a: "g \<noteq> f" if "leads (tw_pc w j) = Some (h, g)" for j h g
    proof -
      have "holds (tw_pc w j) = Some g" using that by (cases "tw_pc w j") auto
      then show ?thesis using assms(2) [of j] new(2) by (auto simp: task_ok_def Let_def)
    qed
    have b: "tw_key w j \<noteq> tw_key w i" if "leads (tw_pc w j) = Some (generation_of st' (tw_key w i), g)"
      "generation_of st' (tw_key w i) < last_generation" for j g
      using assms(2) [of j] that new(3) by (auto simp: task_ok_def Let_def assms(3))
    have l: "?l j = Some x \<Longrightarrow> j = i \<and> x = (generation_of st' (tw_key w i), f) \<or> j \<noteq> i \<and> leads (tw_pc w j) = Some x" for j x
      using new(1) by (auto split: if_splits)
    show ?thesis
      unfolding leaders_ok_def moved_simps
    proof (intro conjI allI impI, goal_cases)
      case (1 j k h h' g)
      then show ?case using l [of j "(h, g)"] l [of k "(h', g)"] a assms(1) unfolding leaders_ok_def by fast
    next
      case (2 j k h g g')
      then show ?case using l [of j "(h, g)"] l [of k "(h, g')"] b assms(1) unfolding leaders_ok_def
        by (metis Pair_inject)
    qed
  qed
qed

lemma held_moved:
  assumes "flights_held w"
    and "\<And>f. f < length (fr_outcomes st') \<Longrightarrow> fr_outcomes st' ! f = None \<Longrightarrow> holds pc' = Some f
      \<or> f < length (fr_outcomes (tw_registry w)) \<and> fr_outcomes (tw_registry w) ! f = None \<and> holds (tw_pc w i) \<noteq> Some f"
  shows "flights_held (moved w i pc' st' R)"
  unfolding flights_held_def moved_simps
proof (intro allI impI)
  fix f assume f: "f < length (fr_outcomes st')" "fr_outcomes st' ! f = None"
  show "\<exists>j. holds (((tw_pc w)(i := pc')) j) = Some f"
  proof (cases "holds pc' = Some f")
    case True
    then show ?thesis by (auto intro: exI [of _ i])
  next
    case False
    then obtain j where "holds (tw_pc w j) = Some f" "j \<noteq> i"
      using assms(2) [OF f] assms(1) by (auto simp: flights_held_def)
    then show ?thesis by (auto intro: exI [of _ j])
  qed
qed

lemma move_inv:
  assumes "token_inv w" "generation_of st' = generation_of (tw_registry w)"
    and "length (fr_outcomes (tw_registry w)) \<le> length (fr_outcomes st')"
    and "\<And>key f. fr_flights st' key = Some f \<Longrightarrow> f < length (fr_outcomes st')"
    and "\<And>j h f. j \<noteq> i \<Longrightarrow> leads (tw_pc w j) = Some (h, f) \<Longrightarrow> h = generation_of st' (tw_key w j) \<Longrightarrow> h < last_generation \<Longrightarrow>
      fr_flights (tw_registry w) (tw_key w j) = Some f \<Longrightarrow> fr_flights st' (tw_key w j) = Some f"
    and "\<And>key e. fr_cache st' key = Some e \<Longrightarrow> fr_cache (tw_registry w) key = Some e
      \<or> ct_generation e \<le> generation_of st' key
        \<and> (generation_of st' key < last_generation \<and> ct_generation e = generation_of st' key
            \<longrightarrow> fresh (moved w i pc' st' R) key (tw_invalidated w key) (ct_token e))"
    and "task_ok (moved w i pc' st' R) i"
    and "leads pc' = None \<or> leads pc' = leads (tw_pc w i)
      \<or> (\<exists>f. leads pc' = Some (generation_of st' (tw_key w i), f) \<and> length (fr_outcomes (tw_registry w)) \<le> f
          \<and> fr_flights (tw_registry w) (tw_key w i) = None)"
    and "\<And>f. f < length (fr_outcomes st') \<Longrightarrow> fr_outcomes st' ! f = None \<Longrightarrow> holds pc' = Some f
      \<or> f < length (fr_outcomes (tw_registry w)) \<and> fr_outcomes (tw_registry w) ! f = None \<and> holds (tw_pc w i) \<noteq> Some f"
  shows "token_inv (moved w i pc' st' R)"
proof -
  note inv = assms(1) [unfolded token_inv_def]
  have "task_ok (moved w i pc' st' R) j" for j
    using other_tasks [of w j i st' pc' R] assms(2,3,5,7) inv by (cases "j = i") blast+
  moreover have "registry_ok (moved w i pc' st' R)" using registry_moved assms(2,4,6) inv by blast
  moreover have "leaders_ok (moved w i pc' st' R)" using leaders_moved assms(2,8) inv by blast
  moreover have "flights_held (moved w i pc' st' R)" using held_moved assms(9) inv by blast
  ultimately show ?thesis by (simp add: token_inv_def)
qed

text \<open>A step that leaves the registry as it is, or only drops tokens from the cache.\<close>

lemma move_quiet:
  assumes "token_inv w" "task_ok (moved w i pc' (tw_registry w\<lparr>fr_cache := c\<rparr>) R) i"
    and "\<And>key e. c key = Some e \<Longrightarrow> fr_cache (tw_registry w) key = Some e"
    and "leads pc' = None \<or> leads pc' = leads (tw_pc w i)"
    and "holds (tw_pc w i) = None \<or> holds pc' = holds (tw_pc w i)"
  shows "token_inv (moved w i pc' (tw_registry w\<lparr>fr_cache := c\<rparr>) R)"
proof (rule move_inv [OF assms(1)])
  show "\<And>key f. fr_flights (tw_registry w\<lparr>fr_cache := c\<rparr>) key = Some f \<Longrightarrow> f < length (fr_outcomes (tw_registry w\<lparr>fr_cache := c\<rparr>))"
    using assms(1) by (simp add: token_inv_def registry_ok_def)
qed (use assms in auto)

lemma move_keep:
  assumes "token_inv w" "task_ok (moved w i pc' (tw_registry w) R) i" "leads pc' = None \<or> leads pc' = leads (tw_pc w i)"
    and "holds (tw_pc w i) = None \<or> holds pc' = holds (tw_pc w i)"
  shows "token_inv (moved w i pc' (tw_registry w) R)"
  using move_quiet [of w i pc' "fr_cache (tw_registry w)" R] assms by simp

lemma move_forget:
  assumes "token_inv w" "task_ok (moved w i pc' (tw_registry w\<lparr>fr_cache := (fr_cache (tw_registry w))(key := None)\<rparr>) R) i"
    and "leads pc' = None \<or> leads pc' = leads (tw_pc w i)" "holds (tw_pc w i) = None \<or> holds pc' = holds (tw_pc w i)"
  shows "token_inv (moved w i pc' (tw_registry w\<lparr>fr_cache := (fr_cache (tw_registry w))(key := None)\<rparr>) R)"
  by (rule move_quiet [OF assms(1,2) _ assms(3,4)]) (simp split: if_splits)

lemma load_cases:
  obtains token e where "load key now st = (Some token, st)" "fr_cache st key = Some e" "ct_token e = token"
    "ct_generation e = generation_of st key"
  | "load key now st = (None, st\<lparr>fr_cache := (fr_cache st)(key := None)\<rparr>)"
proof (cases "token_valid st key now")
  case True
  then obtain e where "fr_cache st key = Some e" "ct_generation e = generation_of st key"
    by (auto simp: token_valid_def split: option.splits)
  with True show ?thesis by (intro that(1) [of "ct_token e" e]) (simp_all add: load_def)
next
  case False
  then show ?thesis by (intro that(2)) (simp add: load_def)
qed

lemma cached_fresh:
  assumes "token_inv w" "fr_cache (tw_registry w) (tw_key w i) = Some e"
    and "ct_generation e = generation_of (tw_registry w) (tw_key w i)" "generation_of (tw_registry w) (tw_key w i) < last_generation"
  shows "fresh w (tw_key w i) (tw_since w i) (ct_token e)"
proof -
  have "fresh w (tw_key w i) (tw_invalidated w (tw_key w i)) (ct_token e)"
    using assms by (auto simp: token_inv_def registry_ok_def)
  moreover have "tw_since w i \<le> tw_invalidated w (tw_key w i)"
    using assms(1) by (simp add: token_inv_def task_ok_def Let_def)
  ultimately show ?thesis by (meson fresh_mono order_refl subset_refl)
qed

lemma inv_task: "token_inv w \<Longrightarrow> task_ok w i"
  by (simp add: token_inv_def)

lemma step_loading:
  assumes "token_inv w" "tw_pc w i = Loading"
    and "token_step (tw_now w) (tw_tick w) answer (tw_key w i) Loading (tw_registry w) = (pc', st')"
  shows "token_inv (moved w i pc' st' R)"
proof (rule load_cases [of "tw_key w i" "tw_now w" "tw_registry w"])
  fix token e assume l: "load (tw_key w i) (tw_now w) (tw_registry w) = (Some token, tw_registry w)"
    "fr_cache (tw_registry w) (tw_key w i) = Some e" "ct_token e = token"
    "ct_generation e = generation_of (tw_registry w) (tw_key w i)"
  then have "pc' = Returned (Inr token)" "st' = tw_registry w" using assms(3) by (simp_all add: token_step_def)
  moreover have "task_ok (moved w i (Returned (Inr token)) (tw_registry w) R) i"
    using inv_task [OF assms(1), of i] cached_fresh [OF assms(1) l(2,4)] l(3)
    by (auto simp: task_ok_def Let_def intro!: fresh_moved)
  ultimately show ?thesis using move_keep [OF assms(1)] assms(2) by simp
next
  assume l: "load (tw_key w i) (tw_now w) (tw_registry w) = (None, tw_registry w\<lparr>fr_cache := (fr_cache (tw_registry w))(tw_key w i := None)\<rparr>)"
  then have "pc' = Acquiring" "st' = tw_registry w\<lparr>fr_cache := (fr_cache (tw_registry w))(tw_key w i := None)\<rparr>"
    using assms(3) by (simp_all add: token_step_def)
  moreover have "task_ok (moved w i Acquiring st'' R) i" for st''
    using inv_task [OF assms(1), of i] by (auto simp: task_ok_def Let_def)
  ultimately show ?thesis using move_forget [OF assms(1)] assms(2) by simp
qed

lemma step_rechecking:
  assumes "token_inv w" "tw_pc w i = Rechecking g f"
    and "token_step (tw_now w) (tw_tick w) answer (tw_key w i) (Rechecking g f) (tw_registry w) = (pc', st')"
  shows "token_inv (moved w i pc' st' R)"
proof (rule load_cases [of "tw_key w i" "tw_now w" "tw_registry w"])
  fix token e assume l: "load (tw_key w i) (tw_now w) (tw_registry w) = (Some token, tw_registry w)"
    "fr_cache (tw_registry w) (tw_key w i) = Some e" "ct_token e = token"
    "ct_generation e = generation_of (tw_registry w) (tw_key w i)"
  then have "pc' = Finishing g f Succeeded (Return (Inr token))" "st' = tw_registry w"
    using assms(3) by (simp_all add: token_step_def)
  moreover have "task_ok (moved w i (Finishing g f Succeeded (Return (Inr token))) (tw_registry w) R) i"
    using inv_task [OF assms(1), of i] cached_fresh [OF assms(1) l(2,4)] l(3) assms(2)
    by (auto simp: task_ok_def Let_def intro!: fresh_moved)
  ultimately show ?thesis using move_keep [OF assms(1)] assms(2) by simp
next
  assume l: "load (tw_key w i) (tw_now w) (tw_registry w) = (None, tw_registry w\<lparr>fr_cache := (fr_cache (tw_registry w))(tw_key w i := None)\<rparr>)"
  then have "pc' = Sending g f" "st' = tw_registry w\<lparr>fr_cache := (fr_cache (tw_registry w))(tw_key w i := None)\<rparr>"
    using assms(3) by (simp_all add: token_step_def)
  moreover have "task_ok (moved w i (Sending g f) (tw_registry w\<lparr>fr_cache := c\<rparr>) R) i" for c
    using inv_task [OF assms(1), of i] assms(2) by (auto simp: task_ok_def Let_def)
  ultimately show ?thesis using move_forget [OF assms(1)] assms(2) by simp
qed

lemma step_acquiring:
  assumes "token_inv w" "tw_pc w i = Acquiring"
    and "token_step (tw_now w) (tw_tick w) answer (tw_key w i) Acquiring (tw_registry w) = (pc', st')"
  shows "token_inv (moved w i pc' st' R)"
proof -
  let ?st = "tw_registry w" and ?k = "tw_key w i"
  let ?st1 = "?st\<lparr>fr_generations := (fr_generations ?st)(?k \<mapsto> generation_of ?st ?k)\<rparr>"
  have g: "generation_of (?st1\<lparr>fr_outcomes := q, fr_flights := l\<rparr>) = generation_of ?st" "generation_of ?st1 = generation_of ?st" for q l
    by (auto simp: fun_eq_iff)
  have r: "fr_flights ?st key = Some f \<Longrightarrow> f < length (fr_outcomes ?st)" for key f
    using assms(1) by (simp add: token_inv_def registry_ok_def)
  show ?thesis
  proof (cases "fr_flights ?st ?k")
    case (Some f)
    then have p: "pc' = WaitingFor f" "st' = ?st1" using assms(3) by (simp_all add: token_step_def acquire_def Let_def)
    show ?thesis
    proof (rule move_inv [OF assms(1)])
      show "task_ok (moved w i pc' st' R) i"
        using inv_task [OF assms(1), of i] r [OF Some] assms(2) by (auto simp: task_ok_def Let_def p)
    qed (use p g r assms(2) in auto)
  next
    case None
    let ?f = "length (fr_outcomes ?st)"
    have p: "pc' = Rechecking (generation_of ?st ?k) ?f"
      "st' = ?st1\<lparr>fr_outcomes := fr_outcomes ?st @ [None], fr_flights := (fr_flights ?st)(?k \<mapsto> ?f)\<rparr>"
      using assms(3) None by (simp_all add: token_step_def acquire_def Let_def)
    show ?thesis
    proof (rule move_inv [OF assms(1)])
      show "task_ok (moved w i pc' st' R) i"
        using inv_task [OF assms(1), of i] assms(2) g by (auto simp: task_ok_def Let_def p)
      show "leads pc' = None \<or> leads pc' = leads (tw_pc w i)
          \<or> (\<exists>f. leads pc' = Some (generation_of st' ?k, f) \<and> length (fr_outcomes ?st) \<le> f \<and> fr_flights ?st ?k = None)"
        using None g p by simp
      show "holds pc' = Some f \<or> f < length (fr_outcomes ?st) \<and> fr_outcomes ?st ! f = None \<and> holds (tw_pc w i) \<noteq> Some f"
        if "f < length (fr_outcomes st')" "fr_outcomes st' ! f = None" for f
        using that assms(2) by (auto simp: p nth_append less_Suc_eq split: if_splits)
    qed (use p g r None assms(2) in \<open>auto simp: less_Suc_eq split: if_splits\<close>)
  qed
qed

lemma step_network:
  assumes "token_inv w" "tw_pc w i = Sending g f \<or> tw_pc w i = Fetching g f sent"
    and "token_step (tw_now w) (tw_tick w) answer (tw_key w i) (tw_pc w i) (tw_registry w) = (pc', st')"
  shows "token_inv (moved w i pc' st' (received (tw_key w i) pc'))"
proof -
  have "tw_invalidated w (tw_key w i) \<le> tw_tick w" using assms(1) by (simp add: token_inv_def registry_ok_def)
  then have "task_ok (moved w i pc' (tw_registry w) (received (tw_key w i) pc')) i \<and> st' = tw_registry w
      \<and> leads pc' = leads (tw_pc w i) \<and> holds pc' = holds (tw_pc w i)"
    using inv_task [OF assms(1), of i] assms(2,3)
    by (auto simp: token_step_def task_ok_def Let_def received_def split: sum.splits prod.splits)
  then show ?thesis using move_keep [OF assms(1)] by simp
qed

lemma step_storing:
  assumes "token_inv w" "tw_pc w i = Storing g f token ttl sent"
    and "token_step (tw_now w) (tw_tick w) answer (tw_key w i) (tw_pc w i) (tw_registry w) = (pc', st')"
  shows "token_inv (moved w i pc' st' R)"
proof -
  let ?st = "tw_registry w" and ?k = "tw_key w i"
  have t: "task_ok w i" using inv_task [OF assms(1)] .
  show ?thesis
  proof (cases "generation_of ?st ?k = g")
    case False
    then have p: "pc' = Finishing g f Cancelled Again" "st' = ?st"
      using assms(2,3) by (simp_all add: token_step_def store_if_current_def)
    have "task_ok (moved w i pc' ?st R) i" using t assms(2) by (auto simp: task_ok_def Let_def p)
    then show ?thesis using move_keep [OF assms(1)] assms(2) p by simp
  next
    case True
    let ?e = "\<lparr>ct_token = token, ct_generation = g, ct_expires_at = tw_now w + ttl\<rparr>"
    have p: "pc' = Finishing g f Succeeded (Return (Inr token))"
      "st' = ?st\<lparr>fr_cache := (fr_cache ?st)(?k \<mapsto> ?e), fr_last_key := Some ?k\<rparr>"
      using assms(2,3) True by (simp_all add: token_step_def store_if_current_def)
    have gen: "generation_of st' = generation_of ?st" by (auto simp: p fun_eq_iff)
    have new: "fresh (moved w i pc' st' R) ?k (tw_invalidated w ?k) token" if "g < last_generation"
      using t assms(2) True that by (auto simp: task_ok_def Let_def fresh_def)
    show ?thesis
    proof (rule move_inv [OF assms(1) gen])
      show "task_ok (moved w i pc' st' R) i"
        using t assms(2) True new fresh_mono [OF new] by (auto simp: task_ok_def Let_def p gen)
      show "fr_cache ?st key = Some e \<or> ct_generation e \<le> generation_of st' key
          \<and> (generation_of st' key < last_generation \<and> ct_generation e = generation_of st' key
            \<longrightarrow> fresh (moved w i pc' st' R) key (tw_invalidated w key) (ct_token e))" if "fr_cache st' key = Some e" for key e
        using that new True gen by (cases "key = ?k") (auto simp: p)
      show "\<And>key f. fr_flights st' key = Some f \<Longrightarrow> f < length (fr_outcomes st')"
        using assms(1) by (simp add: p token_inv_def registry_ok_def)
    qed (use assms(2) in \<open>simp_all add: p\<close>)
  qed
qed

lemma to_return_after:
  "to_return (Finishing g f oc after) = to_return (after_pc after)
   \<and> to_return (Completing f oc after) = to_return (after_pc after)"
proof -
  consider x where "after = Return (Inl x)" | x where "after = Return (Inr x)" | "after = Again" | "after = Drop"
    by (metis after_finish.exhaust old.sum.exhaust)
  then show ?thesis by cases (simp_all add: after_pc_def)
qed

lemma after_pc_simps [simp]: "leads (after_pc a) = None" "holds (after_pc a) = None" "after_pc a \<noteq> WaitingFor f"
  "after_pc a \<noteq> Storing g f token ttl sent" "request_sent (after_pc a) = None"
  by (cases a; simp add: after_pc_def)+

lemma step_finishing:
  assumes "token_inv w" "tw_pc w i = Finishing g f oc after"
    and "token_step (tw_now w) (tw_tick w) answer (tw_key w i) (tw_pc w i) (tw_registry w) = (pc', st')"
  shows "token_inv (moved w i pc' st' R)"
proof -
  let ?st = "tw_registry w" and ?k = "tw_key w i"
  have p: "pc' = Completing f oc after" "st' = finish_locked ?k g f ?st"
    using assms(2,3) by (simp_all add: token_step_def)
  have same: "generation_of st' = generation_of ?st" "fr_outcomes st' = fr_outcomes ?st" "fr_cache st' = fr_cache ?st"
    by (auto simp: p finish_locked_def fun_eq_iff)
  have fl: "fr_flights st' key = fr_flights ?st key \<or> key = ?k \<and> fr_flights ?st key = Some f" for key
    by (auto simp: p finish_locked_def)
  show ?thesis
  proof (rule move_inv [OF assms(1) same(1)])
    show "\<And>key f. fr_flights st' key = Some f \<Longrightarrow> f < length (fr_outcomes st')"
      using assms(1) by (auto simp: p finish_locked_def token_inv_def registry_ok_def split: if_splits)
    show "fr_flights st' (tw_key w j) = Some f'"
      if "j \<noteq> i" "leads (tw_pc w j) = Some (h, f')" "fr_flights ?st (tw_key w j) = Some f'" for j h f'
    proof -
      have "leaders_ok w" using assms(1) by (simp add: token_inv_def)
      then have "f' \<noteq> f" using that(1,2) assms(2) by (auto simp: leaders_ok_def)
      then show ?thesis using fl [of "tw_key w j"] that(3) by auto
    qed
    show "task_ok (moved w i pc' st' R) i"
      using inv_task [OF assms(1), of i] assms(2)
      by (auto simp: task_ok_def Let_def p(1) same to_return_after intro!: fresh_moved)
  qed (use assms(2) in \<open>auto simp: p(1) same\<close>)
qed

lemma step_completing:
  assumes "token_inv w" "tw_pc w i = Completing f oc after \<or> tw_pc w i = Cancelling f"
    and "token_step (tw_now w) (tw_tick w) answer (tw_key w i) (tw_pc w i) (tw_registry w) = (pc', st')"
  shows "token_inv (moved w i pc' st' R)"
proof -
  let ?st = "tw_registry w"
  obtain oc' where st': "st' = flight_complete f oc' ?st" and pc': "tw_pc w i = Completing f oc after \<and> pc' = after_pc after \<or> pc' = Loading"
    using assms(2,3) by (auto simp: token_step_def)
  have same: "generation_of st' = generation_of ?st" "fr_flights st' = fr_flights ?st" "fr_cache st' = fr_cache ?st"
    "length (fr_outcomes st') = length (fr_outcomes ?st)"
    by (auto simp: st' flight_complete_def fun_eq_iff)
  have f: "f < length (fr_outcomes ?st)" "holds (tw_pc w i) = Some f"
    using inv_task [OF assms(1), of i] assms(2) by (auto simp: task_ok_def Let_def)
  have no: "leads pc' = None" using pc' by auto
  show ?thesis
  proof (rule move_inv [OF assms(1) same(1)])
    show "\<And>key f. fr_flights st' key = Some f \<Longrightarrow> f < length (fr_outcomes st')"
      using assms(1) by (simp add: same token_inv_def registry_ok_def)
    show "task_ok (moved w i pc' st' R) i"
      using inv_task [OF assms(1), of i] pc'
      by (auto simp: task_ok_def Let_def same to_return_after intro!: fresh_moved)
    show "holds pc' = Some f' \<or> f' < length (fr_outcomes ?st) \<and> fr_outcomes ?st ! f' = None \<and> holds (tw_pc w i) \<noteq> Some f'"
      if "f' < length (fr_outcomes st')" "fr_outcomes st' ! f' = None" for f'
      using that f same(4) by (auto simp: st' flight_complete_def nth_list_update split: if_splits)
  qed (use no in \<open>auto simp: same\<close>)
qed

lemma step_ended:
  assumes "token_inv w" "tw_pc w i = WaitingFor f \<or> tw_pc w i = Returned r \<or> tw_pc w i = Dropped"
    and "token_step (tw_now w) (tw_tick w) answer (tw_key w i) (tw_pc w i) (tw_registry w) = (pc', st')"
  shows "token_inv (moved w i pc' st' R)"
proof -
  have "st' = tw_registry w \<and> (pc' = tw_pc w i \<or> pc' = Loading \<or> pc' = Returned (Inl (OciToken FlightFailed)))"
  proof (cases "tw_pc w i")
    case (WaitingFor f')
    then show ?thesis
      using assms(3) by (cases "fr_outcomes (tw_registry w) ! f'" rule: option.exhaust)
        (simp_all add: token_step_def split: flight_outcome.splits)
  qed (use assms(2,3) in \<open>simp_all add: token_step_def\<close>)
  moreover have "task_ok (moved w i (tw_pc w i) (tw_registry w) R) i" "task_ok (moved w i Loading (tw_registry w) R) i"
    "task_ok (moved w i (Returned (Inl e)) (tw_registry w) R) i" for e
    using inv_task [OF assms(1), of i] by (auto simp: task_ok_def Let_def intro!: fresh_moved)
  moreover have "leads (tw_pc w i) = None" "holds (tw_pc w i) = None" using assms(2) by auto
  ultimately show ?thesis using move_keep [OF assms(1)] by (elim conjE disjE) simp_all
qed

lemma step_inv:
  assumes "token_inv w" "tw_pc w i \<noteq> Invalidating"
    and "token_step (tw_now w) (tw_tick w) answer (tw_key w i) (tw_pc w i) (tw_registry w) = (pc', st')"
  shows "token_inv (moved w i pc' st' (received (tw_key w i) pc'))"
proof (cases "tw_pc w i")
  case Loading
  then show ?thesis using step_loading assms by metis
next
  case Acquiring
  then show ?thesis using step_acquiring assms by metis
next
  case Rechecking
  then show ?thesis using step_rechecking assms by metis
next
  case Storing
  then show ?thesis using step_storing assms by metis
next
  case Finishing
  then show ?thesis using step_finishing assms by metis
qed (use assms step_network step_completing step_ended in metis)+

lemma drop_inv:
  assumes "token_inv w"
  shows "token_inv (moved w i (token_drop (tw_pc w i)) (tw_registry w) {})"
proof -
  have "task_ok (moved w i (token_drop (tw_pc w i)) (tw_registry w) {}) i"
    using inv_task [OF assms, of i]
    by (auto simp: token_drop_def task_ok_def Let_def intro!: fresh_moved split: token_pc.splits)
  moreover have "leads (token_drop (tw_pc w i)) = leads (tw_pc w i) \<and> holds (token_drop (tw_pc w i)) = holds (tw_pc w i)"
    by (cases "tw_pc w i") (simp_all add: token_drop_def)
  ultimately show ?thesis using move_keep [OF assms] by simp
qed

lemma cached_inv:
  assumes "token_inv w" "load_last (tw_now w) (tw_registry w) = (r, st)"
  shows "token_inv (moved w 0 (tw_pc w 0) st {})"
proof -
  have t: "task_ok (moved w 0 (tw_pc w 0) (tw_registry w\<lparr>fr_cache := c\<rparr>) {}) 0" for c
    using inv_task [OF assms(1), of 0] by (auto simp: task_ok_def Let_def intro!: fresh_moved)
  consider "st = tw_registry w" | key where "st = tw_registry w\<lparr>fr_cache := (fr_cache (tw_registry w))(key := None)\<rparr>"
    using assms(2) by (auto simp: load_last_def split: option.splits if_splits)
  then show ?thesis
    using move_keep [OF assms(1), of 0 "tw_pc w 0" "{}"] move_forget [OF assms(1) t] t [of "fr_cache (tw_registry w)"]
    by cases auto
qed

section \<open>Invalidation\<close>

definition invalidated :: "token_world \<Rightarrow> nat \<Rightarrow> token_pc \<Rightarrow> token_world" where
  "invalidated w i pc' = w\<lparr>tw_registry := snd (invalidate_locked (tw_key w i) (tw_registry w)), tw_tick := tw_tick w + 1,
     tw_pc := (tw_pc w)(i := pc'), tw_invalidated := (tw_invalidated w)(tw_key w i := tw_tick w),
     tw_since := (tw_since w)(i := tw_tick w)\<rparr>"

lemma invalidated_registry:
  "generation_of (snd (invalidate_locked key st)) key' = (if key' = key then next_generation (generation_of st key) else generation_of st key')"
  "fr_flights (snd (invalidate_locked key st)) = (fr_flights st)(key := None)"
  "fr_cache (snd (invalidate_locked key st)) = (fr_cache st)(key := None)"
  "fr_outcomes (snd (invalidate_locked key st)) = fr_outcomes st"
  by (simp_all add: invalidate_locked_def generation_of_def)

lemma stale_leader:
  assumes "h \<le> generation_of st key" "next_generation (generation_of st key) < last_generation"
  shows "h \<noteq> next_generation (generation_of st key)"
  using assms next_generation_less(1) [OF next_generation_less(3) [OF assms(2)]] by (metis leD)

lemma invalidated_other:
  assumes "token_inv w" "j \<noteq> i"
  shows "task_ok (invalidated w i pc') j"
proof -
  let ?st = "tw_registry w" and ?g = "generation_of (tw_registry w) (tw_key w j)"
  note t = inv_task [OF assms(1), of j, unfolded task_ok_def Let_def]
  have tick: "tw_invalidated w key \<le> tw_tick w" for key using assms(1) by (simp add: token_inv_def registry_ok_def)
  show ?thesis
  proof (cases "tw_key w j = tw_key w i")
    case True
    have f: "fresh w key since token \<Longrightarrow> fresh (invalidated w i pc') key since token" for key since token
      by (simp add: fresh_def invalidated_def)
    have le: "h \<le> ?g \<Longrightarrow> h \<le> next_generation ?g" for h using next_generation_less(2) order_trans by blast
    have lt: "next_generation ?g < last_generation \<Longrightarrow> ?g < last_generation" using next_generation_less(3) by blast
    have st: "h \<le> ?g \<Longrightarrow> next_generation ?g < last_generation \<Longrightarrow> h \<noteq> next_generation ?g" for h
      using stale_leader by blast
    show ?thesis
      unfolding task_ok_def Let_def
    proof (intro conjI allI impI, goal_cases)
      case 1
      then show ?case using t tick [of "tw_key w j"] assms(2) True by (simp add: invalidated_def)
    next
      case (4 h f)
      then show ?case using t le assms(2) True by (simp add: invalidated_def invalidated_registry)
    next
      case (5 h f)
      then show ?case using t st assms(2) True by (auto simp: invalidated_def invalidated_registry)
    next
      case (6 h f sent)
      then show ?case using t st assms(2) True by (auto simp: invalidated_def invalidated_registry)
    next
      case (8 token)
      then show ?case using t lt f assms(2) True by (simp add: invalidated_def invalidated_registry)
    qed (use t assms(2) True in \<open>auto simp: invalidated_def invalidated_registry\<close>)
  next
    case False
    then show ?thesis using t assms(2) by (auto simp: task_ok_def Let_def invalidated_def invalidated_registry fresh_def)
  qed
qed

lemma invalidate_inv:
  assumes "token_inv w" "tw_pc w i = Invalidating"
    and "token_step (tw_now w) (tw_tick w) answer (tw_key w i) Invalidating (tw_registry w) = (pc', st')"
  shows "token_inv (invalidated w i pc') \<and> st' = snd (invalidate_locked (tw_key w i) (tw_registry w))"
proof -
  let ?st = "tw_registry w" and ?k = "tw_key w i"
  have r: "registry_ok w" "leaders_ok w" "flights_held w" using assms(1) by (simp_all add: token_inv_def)
  have p: "pc' = (case fr_flights ?st ?k of Some f \<Rightarrow> Cancelling f | None \<Rightarrow> Loading)"
    "st' = snd (invalidate_locked ?k ?st)"
    using assms(3) by (auto simp: token_step_def invalidate_locked_def split: option.splits)
  have l: "leads pc' = None" "leads (tw_pc w i) = None" "holds (tw_pc w i) = None" "to_return pc' = None"
    "pc' \<noteq> WaitingFor f" "pc' \<noteq> Storing h f token ttl sent" for f h token ttl sent
    using assms(2) by (auto simp: p(1) split: option.splits)
  have "task_ok (invalidated w i pc') i"
    using r(1) by (auto simp: task_ok_def Let_def invalidated_def invalidated_registry l registry_ok_def p(1) split: option.splits)
  moreover have "registry_ok (invalidated w i pc')"
    using r(1) by (auto simp: registry_ok_def invalidated_def invalidated_registry fresh_def le_SucI split: if_splits)
  moreover have "leaders_ok (invalidated w i pc')"
    using r(2) l by (auto simp: leaders_ok_def invalidated_def split: if_splits)
  moreover have "flights_held (invalidated w i pc')"
    unfolding flights_held_def
  proof (intro allI impI)
    fix f assume f: "f < length (fr_outcomes (tw_registry (invalidated w i pc')))" "fr_outcomes (tw_registry (invalidated w i pc')) ! f = None"
    then obtain j where "holds (tw_pc w j) = Some f" using r(3) by (auto simp: flights_held_def invalidated_def invalidated_registry)
    then show "\<exists>j. holds (tw_pc (invalidated w i pc') j) = Some f"
      using l(3) by (intro exI [of _ j]) (auto simp: invalidated_def)
  qed
  ultimately show ?thesis using invalidated_other [OF assms(1)] p(2) unfolding token_inv_def by metis
qed

section \<open>Reachable worlds\<close>

lemma world_step_inv:
  assumes "token_world_step w w'" "token_inv w"
  shows "token_inv w'"
  using assms(1)
proof cases
  case (invalidate i answer pc st)
  then show ?thesis using invalidate_inv [OF assms(2) invalidate(2,3)] by (simp add: invalidated_def)
next
  case (task i answer pc st)
  then show ?thesis using step_inv [OF assms(2)] by (simp add: moved_def)
next
  case (dropped i)
  then show ?thesis using drop_inv [OF assms(2), of i] by (simp add: moved_def)
next
  case (cached r st)
  then show ?thesis using cached_inv [OF assms(2)] by (simp add: moved_def)
next
  case (clock now)
  then show ?thesis
    using assms(2)
    by (simp add: token_inv_def registry_ok_def task_ok_def leaders_ok_def flights_held_def fresh_def Let_def le_SucI)
qed

lemma reachable_inv:
  assumes "token_initial w0" "token_world_step\<^sup>*\<^sup>* w0 w"
  shows "token_inv w"
  using assms(2) by (induction rule: rtranclp_induct) (use initial_inv [OF assms(1)] world_step_inv in blast)+

section \<open>Completion of a flight\<close>

text \<open>A task that runs alone, with the answers that the network gives to it.\<close>

fun run_task ::
  "nat \<Rightarrow> (nat \<Rightarrow> oci_error + string \<times> nat) \<Rightarrow> nat \<Rightarrow> nat \<Rightarrow> challenge_key \<Rightarrow> token_pc \<times> flight_registry
     \<Rightarrow> token_pc \<times> flight_registry" where
  "run_task 0 answers now tick key s = s"
| "run_task (Suc n) answers now tick key s =
     run_task n answers now (tick + 1) key (token_step now tick (answers n) key (fst s) (snd s))"

fun steps_left :: "token_pc \<Rightarrow> nat" where
  "steps_left (Rechecking _ _) = 6"
| "steps_left (Sending _ _) = 5"
| "steps_left (Fetching _ _ _) = 4"
| "steps_left (Storing _ _ _ _ _) = 3"
| "steps_left (Finishing _ _ _ _) = 2"
| "steps_left _ = 1"

lemma flight_completed:
  "f < length (fr_outcomes st) \<Longrightarrow> fr_outcomes (flight_complete f oc st) ! f \<noteq> None"
  "fr_outcomes st ! f \<noteq> None \<Longrightarrow> fr_outcomes (flight_complete f' oc st) ! f \<noteq> None"
  "length (fr_outcomes (flight_complete f' oc st)) = length (fr_outcomes st)"
  by (auto simp: flight_complete_def nth_list_update, cases "f = f'", auto)

lemma step_outcomes:
  assumes "token_step now tick answer key pc st = (pc', st')"
  shows "length (fr_outcomes st) \<le> length (fr_outcomes st')"
    "f < length (fr_outcomes st) \<Longrightarrow> fr_outcomes st ! f \<noteq> None \<Longrightarrow> fr_outcomes st' ! f \<noteq> None"
proof -
  have "length (fr_outcomes st) \<le> length (fr_outcomes st')
      \<and> (f < length (fr_outcomes st) \<longrightarrow> fr_outcomes st ! f \<noteq> None \<longrightarrow> fr_outcomes st' ! f \<noteq> None)" for f
    using assms flight_completed
    by (cases pc) (auto simp: token_step_def invalidate_locked_def load_def acquire_def Let_def store_if_current_def finish_locked_def
        nth_append split: option.splits if_splits sum.splits prod.splits flight_outcome.splits)
  then show "length (fr_outcomes st) \<le> length (fr_outcomes st')"
    "f < length (fr_outcomes st) \<Longrightarrow> fr_outcomes st ! f \<noteq> None \<Longrightarrow> fr_outcomes st' ! f \<noteq> None" by blast+
qed

lemma holder_step:
  assumes "token_step now tick answer key pc st = (pc', st')" "holds pc = Some f" "f < length (fr_outcomes st)"
  shows "fr_outcomes st' ! f \<noteq> None \<or> holds pc' = Some f \<and> steps_left pc' < steps_left pc"
  using assms flight_completed(1)
  by (cases pc) (auto simp: token_step_def split: option.splits sum.splits prod.splits bool.splits)

lemma run_completed:
  "f < length (fr_outcomes st) \<Longrightarrow> fr_outcomes st ! f \<noteq> None \<Longrightarrow>
   fr_outcomes (snd (run_task n answers now tick key (pc, st))) ! f \<noteq> None"
proof (induction n arbitrary: tick pc st)
  case (Suc n)
  obtain pc' st' where "token_step now tick (answers n) key pc st = (pc', st')" by fastforce
  with Suc.IH [of st' "tick + 1" pc'] step_outcomes [OF this] Suc.prems show ?case by (auto intro: less_le_trans)
qed simp

lemma holder_completes:
  "holds pc = Some f \<Longrightarrow> f < length (fr_outcomes st) \<Longrightarrow> steps_left pc \<le> n \<Longrightarrow>
   fr_outcomes (snd (run_task n answers now tick key (pc, st))) ! f \<noteq> None"
proof (induction n arbitrary: tick pc st)
  case 0
  then show ?case by (cases pc) auto
next
  case (Suc n)
  obtain pc' st' where s: "token_step now tick (answers n) key pc st = (pc', st')" by fastforce
  have len: "f < length (fr_outcomes st')" using step_outcomes(1) [OF s] Suc.prems(2) by simp
  from holder_step [OF s Suc.prems(1,2)] show ?case
  proof
    assume "fr_outcomes st' ! f \<noteq> None"
    then show ?thesis using run_completed [OF len] s by simp
  next
    assume "holds pc' = Some f \<and> steps_left pc' < steps_left pc"
    then show ?thesis using Suc.IH [of pc' st'] len Suc.prems(3) s by simp
  qed
qed

section \<open>A sample run\<close>

definition sample_key :: challenge_key where
  "sample_key = \<lparr>key_realm = ''https://a'', key_service = ''s'', key_scope = ''p''\<rparr>"

text \<open>Task 0 refreshes the token, every other task wants one.\<close>

definition sample_world :: token_world where
  "sample_world = \<lparr>tw_registry = registry_new, tw_now = 0, tw_tick = 0, tw_invalidated = \<lambda>_. 0, tw_received = {},
     tw_key = \<lambda>_. sample_key, tw_pc = \<lambda>i. if i = 0 then Invalidating else Loading, tw_since = \<lambda>_. 0\<rparr>"

definition advance :: "nat \<Rightarrow> token_world \<Rightarrow> token_world" where
  "advance i w = (case token_step (tw_now w) (tw_tick w) (Inr (''t'', 300)) (tw_key w i) (tw_pc w i) (tw_registry w) of
     (pc, st) \<Rightarrow>
       if tw_pc w i = Invalidating
       then w\<lparr>tw_registry := st, tw_tick := tw_tick w + 1, tw_pc := (tw_pc w)(i := pc),
         tw_invalidated := (tw_invalidated w)(tw_key w i := tw_tick w), tw_since := (tw_since w)(i := tw_tick w)\<rparr>
       else w\<lparr>tw_registry := st, tw_tick := tw_tick w + 1, tw_pc := (tw_pc w)(i := pc),
         tw_received := tw_received w \<union> received (tw_key w i) pc\<rparr>)"

lemma advance_step: "token_world_step w (advance i w)"
proof -
  obtain pc st where s: "token_step (tw_now w) (tw_tick w) (Inr (''t'', 300)) (tw_key w i) (tw_pc w i) (tw_registry w) = (pc, st)"
    by fastforce
  show ?thesis
  proof (cases "tw_pc w i = Invalidating")
    case True
    then show ?thesis using token_world_step.invalidate [OF True] s by (simp add: advance_def)
  next
    case False
    then show ?thesis using token_world_step.task [OF False s] s by (simp add: advance_def)
  qed
qed

lemma advance_run: "token_world_step\<^sup>*\<^sup>* w (fold advance is w)"
  by (induction "is" arbitrary: w) (auto intro: advance_step converse_rtranclp_into_rtranclp)

lemma sample_initial: "token_initial sample_world"
  by (simp add: token_initial_def sample_world_def)

definition sample_waiting :: token_world where
  "sample_waiting = fold advance [0, 0, 0, 0, 0, 1, 1] sample_world"

definition sample_refreshed :: token_world where
  "sample_refreshed = fold advance [0, 0, 0, 0, 0, 0, 0, 0, 0] sample_world"

lemmas sample_eval = sample_world_def advance_def token_step_def invalidate_locked_def registry_new_def generation_of_def
  load_def token_valid_def acquire_def store_if_current_def finish_locked_def flight_complete_def after_pc_def received_def
  next_generation_def

lemma sample_waiting_state:
  "tw_pc sample_waiting 0 = Fetching 1 0 4" "tw_pc sample_waiting 1 = WaitingFor 0"
  "tw_key sample_waiting i = sample_key" "fr_outcomes (tw_registry sample_waiting) = [None]"
  by (simp_all add: sample_waiting_def sample_eval)

lemma sample_refreshed_state:
  "tw_pc sample_refreshed 0 = Returned (Inr ''t'')" "generation_of (tw_registry sample_refreshed) sample_key = 1"
  "tw_key sample_refreshed i = sample_key"
  by (simp_all add: sample_refreshed_def sample_eval)

section \<open>Guarantees\<close>

text \<open>
  C3. A refreshed token is new: the token that a task returns was requested from the network no
  earlier than the moment at which the task invalidated the old one, however the tasks that share
  the registry interleave, as long as the generation counter has not reached its end.
\<close>

theorem token_refresh_fresh:
  assumes "token_initial w0" "token_world_step\<^sup>*\<^sup>* w0 w"
    and "tw_pc w i = Returned (Inr token)" "generation_of (tw_registry w) (tw_key w i) < last_generation"
  shows "\<exists>sent \<ge> tw_since w i. (tw_key w i, token, sent) \<in> tw_received w"
  using inv_task [OF reachable_inv [OF assms(1,2)], of i] assms(3,4) by (simp add: task_ok_def Let_def fresh_def)

lemma token_refresh_fresh_witness:
  "\<exists>sent \<ge> tw_since sample_refreshed 0. (sample_key, ''t'', sent) \<in> tw_received sample_refreshed"
  using token_refresh_fresh [OF sample_initial advance_run [of sample_world "[0, 0, 0, 0, 0, 0, 0, 0, 0]", folded sample_refreshed_def]
      sample_refreshed_state(1)]
  by (simp add: sample_refreshed_state)

text \<open>
  C31. Requests for a token are not duplicated: at any moment at most one task is the leader for a
  key and a generation, so at most one asks the network.
\<close>

theorem token_single_flight:
  assumes "token_initial w0" "token_world_step\<^sup>*\<^sup>* w0 w"
    and "leads (tw_pc w i) = Some (generation, flight)" "leads (tw_pc w j) = Some (generation, flight')"
    and "tw_key w i = tw_key w j" "generation < last_generation"
  shows "i = j"
  using reachable_inv [OF assms(1,2)] assms(3-6) by (auto simp: token_inv_def leaders_ok_def)

lemma token_single_flight_witness: "{j. leads (tw_pc sample_waiting j) = Some (1, 0)} = {0}"
proof -
  have zero: "leads (tw_pc sample_waiting 0) = Some (1, 0)" by (simp add: sample_waiting_state)
  have "0 = j" if "leads (tw_pc sample_waiting j) = Some (1, 0)" for j
    by (rule token_single_flight [OF sample_initial advance_run [of sample_world "[0, 0, 0, 0, 0, 1, 1]", folded sample_waiting_def]
          zero that]) (simp_all add: sample_waiting_state)
  with zero show ?thesis by blast
qed

text \<open>
  C32. No waiter is forgotten: when a task waits for a flight that has no outcome, some task holds
  the flight, and six steps of that task alone, whatever the network answers, give the flight its
  outcome. This holds also when leaders are dropped or their flight is cancelled.
\<close>

theorem token_waiter_served:
  assumes "token_initial w0" "token_world_step\<^sup>*\<^sup>* w0 w"
    and "tw_pc w i = WaitingFor flight"
  shows "fr_outcomes (tw_registry w) ! flight \<noteq> None
    \<or> (\<exists>j. j \<noteq> i \<and> holds (tw_pc w j) = Some flight \<and> (\<forall>answers now.
        fr_outcomes (snd (run_task 6 answers now (tw_tick w) (tw_key w j) (tw_pc w j, tw_registry w))) ! flight \<noteq> None))"
proof (cases "fr_outcomes (tw_registry w) ! flight = None")
  case True
  have inv: "token_inv w" using reachable_inv [OF assms(1,2)] .
  have len: "flight < length (fr_outcomes (tw_registry w))"
    using inv_task [OF inv, of i] assms(3) by (simp add: task_ok_def Let_def)
  then obtain j where j: "holds (tw_pc w j) = Some flight" using inv True by (auto simp: token_inv_def flights_held_def)
  have "steps_left (tw_pc w j) \<le> 6" by (cases "tw_pc w j") auto
  then have "\<forall>answers now.
      fr_outcomes (snd (run_task 6 answers now (tw_tick w) (tw_key w j) (tw_pc w j, tw_registry w))) ! flight \<noteq> None"
    using holder_completes [OF j len] by blast
  moreover have "j \<noteq> i" using j assms(3) by auto
  ultimately show ?thesis using j by blast
qed simp

lemma token_waiter_served_witness:
  "\<exists>j. j \<noteq> 1 \<and> holds (tw_pc sample_waiting j) = Some 0"
  using token_waiter_served [OF sample_initial advance_run [of sample_world "[0, 0, 0, 0, 0, 1, 1]", folded sample_waiting_def]
      sample_waiting_state(2)]
  by (auto simp: sample_waiting_state(4))

end
