(* ===== verification/Auth_Challenge.thy ===== *)
theory Auth_Challenge
  imports Oci_Endpoint_Parse
begin

text \<open>
  Credentials and the \<open>WWW-Authenticate\<close> header: \<^verbatim>\<open>crates/nixcache-oci/src/auth.rs\<close>. The parser of
  URIs (\<open>http::Uri\<close>) is an argument. The state of the challenge parser is the rest of the header.
  All characters that it looks for are ASCII, so reading bytes is reading characters.
\<close>

section \<open>Credentials\<close>

record registry_credentials =
  cred_username :: "string option"
  cred_secret :: "string option"

definition credentials_anonymous :: registry_credentials where
  "credentials_anonymous = \<lparr>cred_username = None, cred_secret = None\<rparr>"

definition credentials_new :: "string \<Rightarrow> registry_credentials" where
  "credentials_new secret =
     (if secret = [] then credentials_anonymous else \<lparr>cred_username = None, cred_secret = Some secret\<rparr>)"

definition credentials_with_username :: "string \<Rightarrow> string \<Rightarrow> registry_credentials" where
  "credentials_with_username username secret =
     (let credentials = credentials_new secret in
      if username \<noteq> [] then credentials\<lparr>cred_username := Some username\<rparr> else credentials)"

definition has_secret :: "registry_credentials \<Rightarrow> bool" where
  "has_secret c \<longleftrightarrow> is_some_and (\<lambda>secret. secret \<noteq> []) (cred_secret c)"

definition secret_of :: "registry_credentials \<Rightarrow> string option" where
  "secret_of c = (case cred_secret c of Some secret \<Rightarrow> if secret \<noteq> [] then Some secret else None | None \<Rightarrow> None)"

section \<open>Challenges\<close>

record bearer_challenge =
  bc_realm :: string
  bc_service :: "string option"
  bc_scope :: "string option"

definition option_unwrap_or :: "'a option \<Rightarrow> 'a \<Rightarrow> 'a" where
  "option_unwrap_or a d = (case a of Some x \<Rightarrow> x | None \<Rightarrow> d)"

definition challenge_validate :: "uri_parser \<Rightarrow> bearer_challenge \<Rightarrow> oci_error + unit" where
  "challenge_validate parse_uri c =
     result_bind (map_err (\<lambda>_. AuthChallengeInvalid [Lit ''Bearer realm must be an absolute HTTP(S) URL'']) (parse_uri (bc_realm c))) (\<lambda>uri.
     let scheme = option_unwrap_or (uri_scheme uri) []; authority = option_unwrap_or (uri_authority uri) [] in
     if \<not> (scheme = ''http'' \<or> scheme = ''https'') \<or> authority = []
     then Inl (AuthChallengeInvalid [Lit ''Bearer realm must be an absolute HTTP(S) URL''])
     else Inr ())"

definition challenge_new ::
  "uri_parser \<Rightarrow> string \<Rightarrow> string option \<Rightarrow> string option \<Rightarrow> oci_error + bearer_challenge" where
  "challenge_new parse_uri realm service scope =
     (let challenge = \<lparr>bc_realm = realm, bc_service = service, bc_scope = scope\<rparr> in
      result_bind (challenge_validate parse_uri challenge) (\<lambda>_. Inr challenge))"

definition cache_key :: "bearer_challenge \<Rightarrow> string \<Rightarrow> string \<Rightarrow> string \<times> string \<times> string" where
  "cache_key c default_service default_scope =
     (bc_realm c, option_unwrap_or (bc_service c) default_service, option_unwrap_or (bc_scope c) default_scope)"

definition is_insecure_non_localhost :: "uri_parser \<Rightarrow> bearer_challenge \<Rightarrow> bool" where
  "is_insecure_non_localhost parse_uri c =
     (case parse_uri (bc_realm c) of
        Inl _ \<Rightarrow> True
      | Inr uri \<Rightarrow>
          if uri_scheme uri \<noteq> Some ''http'' then False
          else
            let host = (case uri_authority uri of Some _ \<Rightarrow> uri_host uri | None \<Rightarrow> []) in
            \<not> (host = ''localhost'' \<or> host = ''127.0.0.1'' \<or> host = ''[::1]''))"

definition encode_query_component :: "string \<Rightarrow> string" where
  "encode_query_component value = concat (map (\<lambda>b.
     if is_ascii_alphanumeric b \<or> b = CHR ''-'' \<or> b = CHR ''.'' \<or> b = CHR ''_'' \<or> b = CHR ''~'' then [b]
     else [CHR ''%'', url_hex_digit (code b div 16), url_hex_digit (code b mod 16)]) value)"

definition token_url :: "bearer_challenge \<Rightarrow> string \<Rightarrow> string \<Rightarrow> string" where
  "token_url c default_service default_scope =
     (let service = option_unwrap_or (bc_service c) default_service;
          scope = option_unwrap_or (bc_scope c) default_scope;
          separator = (if contains_char (CHR ''?'') (bc_realm c) then CHR ''&'' else CHR ''?'')
      in bc_realm c @ [separator] @ ''service='' @ encode_query_component service
         @ ''&scope='' @ encode_query_component scope)"

section \<open>The challenge parser\<close>

definition invalid_challenge :: "string \<Rightarrow> oci_error" where
  "invalid_challenge details = AuthChallengeInvalid [Lit details]"

definition is_token_char :: "char \<Rightarrow> bool" where
  "is_token_char c \<longleftrightarrow> is_ascii_alphanumeric c \<or> c \<in> set ''!#$%&'' \<or> c = CHR 0x27 \<or> c \<in> set ''*+-.^_'' \<or> c = CHR 0x60 \<or> c \<in> set ''|~''"

definition skip_spaces :: "string \<Rightarrow> string" where
  "skip_spaces s = dropWhile (\<lambda>c. c = CHR '' '' \<or> c = CHR 0x09) s"

text \<open>The blanks and commas at the front; the result of the function is whether anything is left.\<close>

definition skip_separators :: "string \<Rightarrow> string" where
  "skip_separators s = dropWhile (\<lambda>c. c = CHR '' '' \<or> c = CHR 0x09 \<or> c = CHR '','') s"

definition parser_token :: "string \<Rightarrow> string option \<times> string" where
  "parser_token s =
     (let token = takeWhile is_token_char s
      in (if token = [] then None else Some token, dropWhile is_token_char s))"

definition peek :: "string \<Rightarrow> char option" where
  "peek s = (case s of [] \<Rightarrow> None | c # _ \<Rightarrow> Some c)"

definition next_is_token68 :: "string \<Rightarrow> bool" where
  "next_is_token68 s = (case parser_token s of
     (None, _) \<Rightarrow> False
   | (Some _, rest) \<Rightarrow> peek (skip_spaces rest) \<noteq> Some (CHR ''=''))"

fun consume_until_comma :: "bool \<Rightarrow> bool \<Rightarrow> string \<Rightarrow> string" where
  "consume_until_comma quoted escaped [] = []"
| "consume_until_comma quoted escaped (value # s) =
     (if escaped then consume_until_comma quoted False s
      else if value = CHR 0x5C \<and> quoted then consume_until_comma quoted True s
      else if value = CHR 0x22 then consume_until_comma (\<not> quoted) False s
      else if value = CHR '','' \<and> \<not> quoted then value # s
      else consume_until_comma quoted False s)"

fun quoted_value :: "bool \<Rightarrow> string \<Rightarrow> string \<Rightarrow> oci_error + string \<times> string" where
  "quoted_value escaped value [] = Inl (invalid_challenge ''unterminated quoted auth parameter'')"
| "quoted_value escaped value (current # s) =
     (if escaped then quoted_value False (value @ [current]) s
      else if current = CHR 0x5C then quoted_value True value s
      else if current = CHR 0x22 then Inr (value, s)
      else quoted_value False (value @ [current]) s)"

definition parser_value :: "string \<Rightarrow> oci_error + string \<times> string" where
  "parser_value s = (case s of
     c # t \<Rightarrow>
       if c = CHR 0x22 then quoted_value False [] t
       else (case parser_token s of
           (Some value, rest) \<Rightarrow> Inr (value, rest)
         | (None, _) \<Rightarrow> Inl (invalid_challenge ''empty auth parameter''))
   | [] \<Rightarrow> Inl (invalid_challenge ''empty auth parameter''))"

definition eq_ignore_ascii_case :: "string \<Rightarrow> string \<Rightarrow> bool" where
  "eq_ignore_ascii_case a b \<longleftrightarrow> to_ascii_lowercase a = to_ascii_lowercase b"

abbreviation missing_equals :: oci_error where
  "missing_equals \<equiv> invalid_challenge (''auth parameter is missing '' @ [CHR 0x27, CHR ''='', CHR 0x27])"

text \<open>One parameter: its name, \<open>=\<close> and its value, with the rest of the header.\<close>

definition auth_param :: "string \<Rightarrow> oci_error + (string \<times> string) \<times> string" where
  "auth_param s = (case parser_token (skip_spaces s) of
     (None, _) \<Rightarrow> Inl (invalid_challenge ''invalid auth parameter name'')
   | (Some key, rest) \<Rightarrow> (case skip_spaces rest of
         c # t \<Rightarrow>
           if c \<noteq> CHR ''='' then Inl missing_equals
           else result_bind (parser_value (skip_spaces t)) (\<lambda>(value, rest'). Inr ((key, value), rest'))
       | [] \<Rightarrow> Inl missing_equals))"

definition add_param :: "(string \<times> string) list \<Rightarrow> string \<times> string \<Rightarrow> oci_error + (string \<times> string) list" where
  "add_param params kv = (case kv of (key, value) \<Rightarrow>
     (case List.find (\<lambda>(old_key, _). eq_ignore_ascii_case old_key key) params of
        Some (_, old) \<Rightarrow>
          if old \<noteq> value then Inl (invalid_challenge ''conflicting duplicate auth parameter'') else Inr params
      | None \<Rightarrow> Inr (params @ [(key, value)])))"

text \<open>Whether another parameter follows the comma at the front of \<open>s\<close>.\<close>

definition another_param :: "string \<Rightarrow> oci_error + bool" where
  "another_param s = (case parser_token (skip_spaces (tl s)) of
     (None, _) \<Rightarrow> Inl (invalid_challenge ''trailing comma in challenge'')
   | (Some _, rest) \<Rightarrow> Inr (peek (skip_spaces rest) = Some (CHR ''='')))"

lemma length_skips: "length (skip_spaces s) \<le> length s" "length (skip_separators s) \<le> length s"
  by (simp_all add: skip_spaces_def skip_separators_def length_dropWhile_le)

lemma parser_token_shorter: "parser_token s = (Some token, rest) \<Longrightarrow> length rest < length s"
proof -
  assume "parser_token s = (Some token, rest)"
  then have "takeWhile is_token_char s \<noteq> []" "rest = dropWhile is_token_char s"
    by (auto simp: parser_token_def Let_def split: if_splits)
  moreover have "length s = length (takeWhile is_token_char s) + length (dropWhile is_token_char s)"
    by (metis length_append takeWhile_dropWhile_id)
  ultimately show ?thesis by simp
qed

lemma quoted_value_shorter: "quoted_value escaped acc s = Inr (v, rest) \<Longrightarrow> length rest < length s"
  by (induction escaped acc s rule: quoted_value.induct) (auto split: if_splits)

lemma parser_value_shorter: "parser_value s = Inr (v, rest) \<Longrightarrow> length rest < length s"
  by (auto simp: parser_value_def dest: quoted_value_shorter parser_token_shorter split: list.splits if_splits prod.splits option.splits)

lemma auth_param_shorter: "auth_param s = Inr (kv, rest) \<Longrightarrow> length rest < length s"
proof -
  assume "auth_param s = Inr (kv, rest)"
  then obtain key r t where "parser_token (skip_spaces s) = (Some key, r)" "skip_spaces r = CHR ''='' # t"
    "\<exists>v. parser_value (skip_spaces t) = Inr (v, rest)"
    by (auto simp: auth_param_def result_bind_eq_Inr split: prod.splits option.splits list.splits if_splits)
  then have "length rest < length (skip_spaces t)" "length t < length (skip_spaces r)" "length r < length (skip_spaces s)"
    by (auto dest: parser_value_shorter parser_token_shorter)
  with length_skips(1) [of t] length_skips(1) [of r] length_skips(1) [of s] show ?thesis by linarith
qed

function auth_params :: "(string \<times> string) list \<Rightarrow> string \<Rightarrow> oci_error + (string \<times> string) list \<times> string" where
  "auth_params params s =
     (case auth_param s of
        Inl e \<Rightarrow> Inl e
      | Inr (kv, rest) \<Rightarrow>
          (case add_param params kv of
             Inl e \<Rightarrow> Inl e
           | Inr params' \<Rightarrow>
               let rest' = skip_spaces rest in
               if peek rest' \<noteq> Some (CHR '','') then Inr (params', rest')
               else (case another_param rest' of
                   Inl e \<Rightarrow> Inl e
                 | Inr again \<Rightarrow> if again then auth_params params' (tl rest') else Inr (params', rest'))))"
  by pat_completeness auto
termination
proof (relation "measure (\<lambda>(_, s). length s)", goal_cases)
  case (2 params s kvr kv rest params' rest' again)
  then have "length rest < length s" using auth_param_shorter by blast
  moreover have "length (tl rest') \<le> length rest" using length_skips(1) [of rest] 2 by simp
  ultimately show ?case by simp
qed simp

declare auth_params.simps [simp del]

definition find_param :: "(string \<times> string) list \<Rightarrow> string \<Rightarrow> string option" where
  "find_param params name = map_option snd (List.find (\<lambda>(key, _). eq_ignore_ascii_case key name) params)"

text \<open>The parameters of a challenge, after its scheme and blanks.\<close>

definition challenge_params :: "string \<Rightarrow> oci_error + (string \<times> string) list \<times> string" where
  "challenge_params s =
     (if peek s = Some (CHR '','') \<or> peek s = None then Inr ([], s)
      else if next_is_token68 s then Inr ([], consume_until_comma False False s)
      else auth_params [] s)"

definition bearer_from_params ::
  "uri_parser \<Rightarrow> (string \<times> string) list \<Rightarrow> oci_error + bearer_challenge" where
  "bearer_from_params parse_uri params =
     result_bind (ok_or (invalid_challenge ''Bearer challenge is missing realm'') (find_param params ''realm'')) (\<lambda>realm.
     challenge_new parse_uri realm (find_param params ''service'') (find_param params ''scope''))"

definition keep_bearer ::
  "string \<Rightarrow> bearer_challenge option \<Rightarrow> bearer_challenge \<Rightarrow> oci_error + bearer_challenge option" where
  "keep_bearer conflict bearer challenge =
     (if is_some_and (\<lambda>existing. existing \<noteq> challenge) bearer then Inl (invalid_challenge conflict)
      else Inr (Some challenge))"

lemma length_consume: "length (consume_until_comma quoted escaped s) \<le> length s"
  by (induction s arbitrary: quoted escaped) (auto intro: le_SucI)

lemma auth_params_shorter: "auth_params params s = Inr (ps, rest) \<Longrightarrow> length rest < length s"
proof (induction params s rule: auth_params.induct)
  case (1 params s)
  obtain kv r params' where a: "auth_param s = Inr (kv, r)" "add_param params kv = Inr params'"
    using 1(2) by (auto simp: auth_params.simps [of params s] split: sum.splits)
  have short: "length (skip_spaces r) < length s" using auth_param_shorter [OF a(1)] length_skips(1) [of r] by simp
  consider "rest = skip_spaces r" | "another_param (skip_spaces r) = Inr True" "peek (skip_spaces r) = Some (CHR '','')"
      "auth_params params' (tl (skip_spaces r)) = Inr (ps, rest)"
    using 1(2) a by (auto simp: auth_params.simps [of params s] Let_def split: sum.splits if_splits)
  then show ?case
  proof cases
    case 1
    then show ?thesis using short by simp
  next
    case 2
    from "1.IH" [OF a(1) refl a(2) refl _ 2(1) _ 2(3)] 2(2) short show ?thesis by simp
  qed
qed

lemma challenge_params_shorter: "challenge_params s = Inr (ps, rest) \<Longrightarrow> length rest \<le> length s"
  using length_consume [of False False s] auth_params_shorter [of "[]" s ps rest]
  by (auto simp: challenge_params_def split: if_splits)

function challenge_loop ::
  "uri_parser \<Rightarrow> bearer_challenge option \<Rightarrow> string \<Rightarrow> oci_error + bearer_challenge option" where
  "challenge_loop parse_uri bearer s =
     (let s1 = skip_separators s in
      if s1 = [] then Inr bearer
      else (case parser_token s1 of
          (None, _) \<Rightarrow> Inl (invalid_challenge ''missing auth scheme'')
        | (Some scheme, s2) \<Rightarrow>
            (case challenge_params (skip_spaces s2) of
               Inl e \<Rightarrow> Inl e
             | Inr (params, s3) \<Rightarrow>
                 if eq_ignore_ascii_case scheme ''bearer''
                 then (case result_bind (bearer_from_params parse_uri params) (keep_bearer ''conflicting Bearer parameters'' bearer) of
                     Inl e \<Rightarrow> Inl e
                   | Inr bearer' \<Rightarrow> challenge_loop parse_uri bearer' s3)
                 else challenge_loop parse_uri bearer s3)))"
  by pat_completeness auto
termination
proof (relation "measure (\<lambda>(_, _, s). length s)", goal_cases)
  case (2 parse_uri bearer s s1 o1 s2 scheme r params s3 bearer')
  then show ?case
    using parser_token_shorter [of s1 scheme s2] challenge_params_shorter [of "skip_spaces s2" params s3]
      length_skips(1) [of s2] length_skips(2) [of s] by simp
next
  case (3 parse_uri bearer s s1 o1 s2 scheme r params s3)
  then show ?case
    using parser_token_shorter [of s1 scheme s2] challenge_params_shorter [of "skip_spaces s2" params s3]
      length_skips(1) [of s2] length_skips(2) [of s] by simp
qed simp

declare challenge_loop.simps [simp del]

definition parse_www_authenticate_value ::
  "uri_parser \<Rightarrow> string \<Rightarrow> oci_error + bearer_challenge option" where
  "parse_www_authenticate_value parse_uri value = challenge_loop parse_uri None value"

text \<open>The values of all the headers of that name; one that is not text is \<open>None\<close>.\<close>

fun parse_headers ::
  "uri_parser \<Rightarrow> bearer_challenge option \<Rightarrow> string option list \<Rightarrow> oci_error + bearer_challenge option" where
  "parse_headers parse_uri bearer [] = Inr bearer"
| "parse_headers parse_uri bearer (v # vs) =
     result_bind (ok_or (AuthChallengeInvalid [Lit ''WWW-Authenticate contains invalid UTF-8'']) v) (\<lambda>value.
     result_bind (parse_www_authenticate_value parse_uri value) (\<lambda>found. case found of
       None \<Rightarrow> parse_headers parse_uri bearer vs
     | Some candidate \<Rightarrow>
         result_bind (keep_bearer ''conflicting Bearer challenges'' bearer candidate) (\<lambda>bearer'.
         parse_headers parse_uri bearer' vs)))"

definition parse_www_authenticate ::
  "uri_parser \<Rightarrow> string option list \<Rightarrow> oci_error + bearer_challenge option" where
  "parse_www_authenticate parse_uri headers = parse_headers parse_uri None headers"

section \<open>Rendered challenges\<close>

text \<open>
  How a server writes a challenge (RFC 7235): the values are quoted, with a backslash before each
  quote and backslash, and the parameters are separated by commas.
\<close>

definition quote_value :: "string \<Rightarrow> string" where
  "quote_value v = CHR 0x22 # concat (map (\<lambda>c. if c = CHR 0x22 \<or> c = CHR 0x5C then [CHR 0x5C, c] else [c]) v) @ [CHR 0x22]"

fun render_params :: "(string \<times> string) list \<Rightarrow> string" where
  "render_params [] = []"
| "render_params [(k, v)] = k @ CHR ''='' # quote_value v"
| "render_params ((k, v) # kvs) = k @ CHR ''='' # quote_value v @ CHR '','' # render_params kvs"

definition challenge_pairs :: "bearer_challenge \<Rightarrow> (string \<times> string) list" where
  "challenge_pairs c =
     (''realm'', bc_realm c)
     # (case bc_service c of Some v \<Rightarrow> [(''service'', v)] | None \<Rightarrow> [])
     @ (case bc_scope c of Some v \<Rightarrow> [(''scope'', v)] | None \<Rightarrow> [])"

definition render_challenge :: "bearer_challenge \<Rightarrow> string" where
  "render_challenge c = ''Bearer '' @ render_params (challenge_pairs c)"

definition param_name :: "string \<Rightarrow> bool" where
  "param_name k \<longleftrightarrow> k \<noteq> [] \<and> list_all is_token_char k"

lemma token_char_not: "is_token_char c \<Longrightarrow> c \<noteq> CHR '' '' \<and> c \<noteq> CHR 0x09 \<and> c \<noteq> CHR '','' \<and> c \<noteq> CHR ''='' \<and> c \<noteq> CHR 0x22"
  by (auto simp: is_token_char_def is_ascii_alphanumeric_def between_def)

lemma quoted_value_back:
  "quoted_value False acc (concat (map (\<lambda>c. if c = CHR 0x22 \<or> c = CHR 0x5C then [CHR 0x5C, c] else [c]) v) @ CHR 0x22 # rest)
   = Inr (acc @ v, rest)"
  by (induction v arbitrary: acc) auto

lemma parser_value_back: "parser_value (quote_value v @ rest) = Inr (v, rest)"
  using quoted_value_back [of "[]" v rest] by (simp add: parser_value_def quote_value_def)

lemma skip_spaces_name: "param_name k \<Longrightarrow> skip_spaces (k @ s) = k @ s"
  using token_char_not by (cases k) (auto simp: skip_spaces_def param_name_def)

lemma skip_spaces_head: "c \<noteq> CHR '' '' \<Longrightarrow> c \<noteq> CHR 0x09 \<Longrightarrow> skip_spaces (c # s) = c # s"
  by (simp add: skip_spaces_def)

lemma parser_token_back:
  assumes "param_name k" "\<not> is_token_char c"
  shows "parser_token (k @ c # s) = (Some k, c # s)"
proof -
  have "list_all is_token_char k" "k \<noteq> []" using assms(1) by (simp_all add: param_name_def)
  then have "takeWhile is_token_char (k @ c # s) = k" "dropWhile is_token_char (k @ c # s) = c # s"
    using assms(2) by (simp_all add: list_all_iff takeWhile_append2 dropWhile_append2)
  then show ?thesis using \<open>k \<noteq> []\<close> by (simp add: parser_token_def)
qed

lemma equals_no_token: "\<not> is_token_char (CHR ''='')" "\<not> is_token_char (CHR '' '')"
  using token_char_not by blast+

lemma auth_param_back: "param_name k \<Longrightarrow> auth_param (k @ CHR ''='' # quote_value v @ rest) = Inr ((k, v), rest)"
proof -
  assume k: "param_name k"
  have q: "skip_spaces (quote_value v @ rest) = quote_value v @ rest" by (simp add: quote_value_def skip_spaces_head)
  show ?thesis
    using parser_value_back [of v rest]
    by (simp add: auth_param_def skip_spaces_name [OF k] parser_token_back [OF k equals_no_token(1)] skip_spaces_head q)
qed

lemma another_param_back: "param_name k \<Longrightarrow> another_param (CHR '','' # k @ CHR ''='' # s) = Inr True"
  by (simp add: another_param_def skip_spaces_name parser_token_back equals_no_token skip_spaces_head peek_def)

lemma add_param_new: "\<forall>(k', v') \<in> set params. \<not> eq_ignore_ascii_case k' k \<Longrightarrow> add_param params (k, v) = Inr (params @ [(k, v)])"
proof -
  assume "\<forall>(k', v') \<in> set params. \<not> eq_ignore_ascii_case k' k"
  then have "List.find (\<lambda>(old_key, _). eq_ignore_ascii_case old_key k) params = None" by (auto simp: find_None_iff)
  then show ?thesis by (simp add: add_param_def)
qed

lemma render_head: "kvs \<noteq> [] \<Longrightarrow> \<exists>k s. fst (hd kvs) = k \<and> render_params kvs = k @ CHR ''='' # s"
  by (induction kvs rule: render_params.induct) auto

lemma auth_params_back:
  assumes "list_all (\<lambda>(k, _). param_name k) kvs" "kvs \<noteq> []"
    and "distinct (map (\<lambda>p. to_ascii_lowercase (fst p)) (params @ kvs))"
  shows "auth_params params (render_params kvs) = Inr (params @ kvs, [])"
  using assms
proof (induction kvs arbitrary: params rule: render_params.induct)
  case (2 k v)
  then have "add_param params (k, v) = Inr (params @ [(k, v)])"
    by (intro add_param_new) (force simp: eq_ignore_ascii_case_def)
  then show ?case
    using auth_param_back [of k v "[]"] 2(1) by (simp add: auth_params.simps [of params] skip_spaces_def peek_def)
next
  case (3 k v kv kvs)
  let ?rest = "CHR '','' # render_params (kv # kvs)"
  have a: "add_param params (k, v) = Inr (params @ [(k, v)])"
    using 3(4) by (intro add_param_new) (force simp: eq_ignore_ascii_case_def)
  have p: "auth_param (render_params ((k, v) # kv # kvs)) = Inr ((k, v), ?rest)"
    using auth_param_back [of k v ?rest] 3(2) by simp
  obtain k' s where r: "param_name k'" "render_params (kv # kvs) = k' @ CHR ''='' # s"
    using render_head [of "kv # kvs"] 3(2) by (auto split: prod.splits)
  have "another_param ?rest = Inr True" using another_param_back [OF r(1)] r(2) by simp
  moreover have "auth_params (params @ [(k, v)]) (render_params (kv # kvs)) = Inr ((params @ [(k, v)]) @ kv # kvs, [])"
    by (rule 3(1)) (use 3 in auto)
  ultimately show ?case
    using p a by (simp add: auth_params.simps [of params] skip_spaces_head peek_def del: render_params.simps)
qed simp

lemma challenge_pairs_ok:
  "list_all (\<lambda>(k, _). param_name k) (challenge_pairs c)" "challenge_pairs c \<noteq> []"
  "distinct (map (\<lambda>p. to_ascii_lowercase (fst p)) (challenge_pairs c))"
  by (auto simp: challenge_pairs_def param_name_def is_token_char_def is_ascii_alphanumeric_def between_def
      to_ascii_lowercase_def char_to_ascii_lowercase_def split: option.splits)

lemma challenge_pairs_find:
  "find_param (challenge_pairs c) ''realm'' = Some (bc_realm c)" "find_param (challenge_pairs c) ''service'' = bc_service c"
  "find_param (challenge_pairs c) ''scope'' = bc_scope c"
  by (auto simp: challenge_pairs_def find_param_def eq_ignore_ascii_case_def to_ascii_lowercase_def char_to_ascii_lowercase_def
      between_def split: option.splits)

lemma challenge_read_back:
  assumes "challenge_validate parse_uri c = Inr ()"
  shows "parse_www_authenticate_value parse_uri (render_challenge c) = Inr (Some c)"
proof -
  let ?r = "render_params (challenge_pairs c)"
  obtain s where r: "?r = ''realm'' @ CHR ''='' # s"
    using render_head [of "challenge_pairs c"] challenge_pairs_ok(2) by (auto simp: challenge_pairs_def)
  have name: "param_name ''realm''" "param_name ''Bearer''"
    by (simp_all add: param_name_def is_token_char_def is_ascii_alphanumeric_def between_def)
  have scheme: "parser_token (render_challenge c) = (Some ''Bearer'', CHR '' '' # ?r)"
    using parser_token_back [OF name(2) equals_no_token(2), of ?r] by (simp add: render_challenge_def)
  have skip: "skip_separators (render_challenge c) = render_challenge c" "render_challenge c \<noteq> []"
    by (simp_all add: render_challenge_def skip_separators_def)
  have spaces: "skip_spaces (CHR '' '' # ?r) = ?r"
    using skip_spaces_name [OF name(1)] r by (simp add: skip_spaces_def)
  have "\<not> next_is_token68 ?r"
    using parser_token_back [OF name(1) equals_no_token(1), of s] r by (simp add: next_is_token68_def skip_spaces_def peek_def)
  moreover have "peek ?r = Some (CHR ''r'')" by (simp add: r peek_def)
  moreover have "auth_params [] ?r = Inr (challenge_pairs c, [])"
    using auth_params_back [OF challenge_pairs_ok(1,2), of "[]" c] challenge_pairs_ok(3) by simp
  ultimately have params: "challenge_params ?r = Inr (challenge_pairs c, [])" by (simp add: challenge_params_def)
  have "bearer_from_params parse_uri (challenge_pairs c) = Inr c"
    using assms by (cases c) (simp add: bearer_from_params_def challenge_pairs_find challenge_new_def Let_def ok_or_def)
  moreover have "eq_ignore_ascii_case ''Bearer'' ''bearer''"
    by code_simp
  moreover have "challenge_loop parse_uri b [] = Inr b" for b by (simp add: challenge_loop.simps skip_separators_def)
  ultimately show ?thesis
    using scheme skip spaces params
    by (simp add: parse_www_authenticate_value_def challenge_loop.simps [of parse_uri None "render_challenge c"] keep_bearer_def is_some_and_def)
qed

text \<open>
  C33. A challenge is read as it was written: for every challenge with a valid realm, the parser
  returns exactly that challenge from its rendering with quoted values, whatever characters the
  values hold.
\<close>

theorem challenge_roundtrip:
  assumes "challenge_validate parse_uri c = Inr ()"
  shows "parse_www_authenticate_value parse_uri (render_challenge c) = Inr (Some c)"
  by (rule challenge_read_back [OF assms])

lemma challenge_roundtrip_witness:
  "parse_www_authenticate_value sample_uri_parser
     (render_challenge \<lparr>bc_realm = ''https://a/token'', bc_service = None, bc_scope = Some ''repository:x:pull,push''\<rparr>)
   = Inr (Some \<lparr>bc_realm = ''https://a/token'', bc_service = None, bc_scope = Some ''repository:x:pull,push''\<rparr>)"
  by (rule challenge_roundtrip) (simp add: challenge_validate_def sample_uri_parser_def option_unwrap_or_def ok_or_def)

end
