(* ===== verification/Token_Manager.thy ===== *)
theory Token_Manager
  imports Token_Flight Auth_Challenge Oci_Client
begin

text \<open>
  The token manager of \<^verbatim>\<open>crates/nixcache-oci/src/token.rs\<close>: how a challenge becomes a request to the
  token server, how long the answer is kept, and \<open>get_token\<close> and \<open>refresh_token\<close> for one task that
  no other task disturbs (\<^verbatim>\<open>Token_Flight\<close> has the interleavings). The network is a world \<open>'w\<close>; base64,
  the JSON reader, the reader of dates, the URI parser and the Unicode tables are arguments.
\<close>

section \<open>Responses\<close>

text \<open>The headers of a response: names in lower case, several values for a name in their order.\<close>

type_synonym header_list = "(string \<times> header_value) list"

definition header_get :: "header_list \<Rightarrow> string \<Rightarrow> header_value option" where
  "header_get headers name = map_of headers (to_ascii_lowercase name)"

definition header_get_all :: "header_list \<Rightarrow> string \<Rightarrow> header_value list" where
  "header_get_all headers name = map snd (filter (\<lambda>(k, _). k = to_ascii_lowercase name) headers)"

record token_response =
  tok_token :: "string option"
  tok_access_token :: "string option"
  tok_expires_in :: "u64 option"
  tok_issued_at :: "string option"

definition MAX_TOKEN_RESPONSE_BYTES :: u64 where
  "MAX_TOKEN_RESPONSE_BYTES = 1024 * 1024"

text \<open>
  \<open>te_elapsed\<close> is the number of whole seconds from the date in a text to the current time, if the text
  is a date.
\<close>

record 'w token_env =
  te_get :: "string \<Rightarrow> request_headers \<Rightarrow> u64 \<Rightarrow> 'w \<Rightarrow> (transport_error + status_code \<times> header_list \<times> bytes) \<times> 'w"
  te_now :: "'w \<Rightarrow> nat"
  te_json :: "bytes \<Rightarrow> token_response option"
  te_elapsed :: "string \<Rightarrow> 'w \<Rightarrow> int option"
  te_base64 :: "string \<Rightarrow> string"
  te_parse_uri :: uri_parser
  te_lower :: "string \<Rightarrow> string"

section \<open>The manager\<close>

record token_manager =
  tm_endpoint :: registry_endpoint
  tm_repo :: string
  tm_credentials :: registry_credentials
  tm_write_access :: bool
  tm_driver :: oci_driver

definition token_manager_new ::
  "(string \<Rightarrow> string) \<Rightarrow> registry_endpoint \<Rightarrow> string \<Rightarrow> registry_credentials \<Rightarrow> bool \<Rightarrow> oci_driver \<Rightarrow> token_manager" where
  "token_manager_new lower endpoint repo credentials write_access driver =
     \<lparr>tm_endpoint = endpoint, tm_repo = canonicalize_repository lower driver repo, tm_credentials = credentials,
      tm_write_access = write_access, tm_driver = driver\<rparr>"

definition auth_token :: "token_manager \<Rightarrow> string" where
  "auth_token tm = option_unwrap_or (secret_of (tm_credentials tm)) []"

definition default_scope :: "(string \<Rightarrow> string) \<Rightarrow> token_manager \<Rightarrow> string" where
  "default_scope lower tm = format_auth_scope lower (tm_driver tm) (tm_repo tm) (tm_write_access tm)"

definition default_service :: "token_manager \<Rightarrow> string" where
  "default_service tm = service_name (tm_endpoint tm)"

definition validate_challenge :: "uri_parser \<Rightarrow> token_manager \<Rightarrow> bearer_challenge \<Rightarrow> oci_error + unit" where
  "validate_challenge parse_uri tm challenge =
     result_bind (challenge_validate parse_uri challenge) (\<lambda>_.
     if is_insecure_non_localhost parse_uri challenge \<and> has_secret (tm_credentials tm)
     then Inl (AuthChallengeInvalid [Lit ''refusing to send long-lived credentials to an insecure token realm''])
     else Inr ())"

definition challenge_key_of :: "(string \<Rightarrow> string) \<Rightarrow> token_manager \<Rightarrow> bearer_challenge \<Rightarrow> challenge_key" where
  "challenge_key_of lower tm challenge =
     (case cache_key challenge (default_service tm) (default_scope lower tm) of (realm, service, scope) \<Rightarrow>
        \<lparr>key_realm = realm, key_service = service, key_scope = scope\<rparr>)"

text \<open>The headers of the request to the token server.\<close>

definition token_request_headers :: "(string \<Rightarrow> string) \<Rightarrow> token_manager \<Rightarrow> oci_error + request_headers" where
  "token_request_headers base64 tm =
     (case secret_of (tm_credentials tm) of
        None \<Rightarrow> Inr []
      | Some secret \<Rightarrow>
          (case option_or (cred_username (tm_credentials tm)) (default_basic_username (tm_driver tm)) of
             None \<Rightarrow> Inr []
           | Some username \<Rightarrow>
               let auth = ''Basic '' @ base64 (username @ '':'' @ secret) in
               if header_text auth then Inr [(''Authorization'', auth)]
               else Inl (AuthChallengeInvalid [Lit ''invalid Basic authentication header''])))"

text \<open>For how many seconds a token is kept, from \<open>expires_in\<close> and the seconds since it was issued.\<close>

definition token_ttl :: "u64 option \<Rightarrow> int option \<Rightarrow> u64" where
  "token_ttl expires_in issued =
     (let lifetime_secs = max (option_unwrap_or expires_in 300) 1;
          elapsed_secs = (case issued of Some s \<Rightarrow> of_int (max s 0) | None \<Rightarrow> 0) :: u64;
          lifetime = max (if lifetime_secs \<ge> elapsed_secs then lifetime_secs - elapsed_secs else 0) 1;
          skew = min lifetime 30
      in max (lifetime - skew) 1)"

definition read_token_response ::
  "'w token_env \<Rightarrow> bearer_challenge \<Rightarrow> bytes \<Rightarrow> ('w, string \<times> u64) step" where
  "read_token_response env challenge bs =
     seq (lift (ok_or (OciToken (InvalidResponse (bc_realm challenge) ''invalid JSON token response'')) (te_json env bs))) (\<lambda>response.
     seq (lift (ok_or (OciToken (InvalidResponse (bc_realm challenge) ''response does not contain token or access_token''))
           (option_filter (\<lambda>token. token \<noteq> []) (option_or (tok_token response) (tok_access_token response))))) (\<lambda>token w.
     (Inr (token, token_ttl (tok_expires_in response)
        (case tok_issued_at response of None \<Rightarrow> None | Some issued_at \<Rightarrow> te_elapsed env issued_at w)), w)))"

definition fetch_token_network :: "'w token_env \<Rightarrow> token_manager \<Rightarrow> bearer_challenge \<Rightarrow> ('w, string \<times> u64) step" where
  "fetch_token_network env tm challenge =
     seq (lift (token_request_headers (te_base64 env) tm)) (\<lambda>headers w.
     case te_get env (token_url challenge (default_service tm) (default_scope (te_lower env) tm)) headers MAX_TOKEN_RESPONSE_BYTES w of
       (Inl e, w') \<Rightarrow> (Inl (OciTransport e), w')
     | (Inr (status, _, bs), w') \<Rightarrow>
         if \<not> is_success status then (Inl (OciToken (ExchangeFailed (bc_realm challenge) status)), w')
         else read_token_response env challenge bs w')"

section \<open>One task alone\<close>

text \<open>
  A task that runs without others: the steps of \<^verbatim>\<open>Token_Flight\<close>, with the network request in the place of
  the answer. A task that waits for a flight makes no progress by itself.
\<close>

definition alone_step ::
  "'w token_env \<Rightarrow> token_manager \<Rightarrow> bearer_challenge \<Rightarrow> challenge_key \<Rightarrow> token_pc \<times> flight_registry \<times> 'w
     \<Rightarrow> token_pc \<times> flight_registry \<times> 'w" where
  "alone_step env tm challenge key = (\<lambda>(pc, st, w). case pc of
     Fetching _ _ _ \<Rightarrow>
       (case fetch_token_network env tm challenge w of (answer, w') \<Rightarrow>
        case token_step (te_now env w') 0 (map_ok (\<lambda>(token, ttl). (token, unat ttl)) answer) key pc st of
          (pc', st') \<Rightarrow> (pc', st', w'))
   | _ \<Rightarrow>
       (case token_step (te_now env w) 0 (Inl (OciToken FlightFailed)) key pc st of (pc', st') \<Rightarrow> (pc', st', w)))"

text \<open>
  \<open>None\<close> is a task that still waits. Ten steps are enough for one that does not: from the
  invalidation over the request to the completion of the flight.
\<close>

definition get_token_from ::
  "token_pc \<Rightarrow> 'w token_env \<Rightarrow> token_manager \<Rightarrow> bearer_challenge \<Rightarrow> flight_registry \<times> 'w
     \<Rightarrow> (oci_error + string) option \<times> flight_registry \<times> 'w" where
  "get_token_from start env tm challenge = (\<lambda>(st, w).
     case (alone_step env tm challenge (challenge_key_of (te_lower env) tm challenge) ^^ 10) (start, st, w) of
       (Returned r, st', w') \<Rightarrow> (Some r, st', w')
     | (_, st', w') \<Rightarrow> (None, st', w'))"

definition get_token_for_challenge ::
  "'w token_env \<Rightarrow> token_manager \<Rightarrow> bearer_challenge \<Rightarrow> flight_registry \<times> 'w
     \<Rightarrow> (oci_error + string) option \<times> flight_registry \<times> 'w" where
  "get_token_for_challenge env tm challenge s =
     (case validate_challenge (te_parse_uri env) tm challenge of
        Inl e \<Rightarrow> (Some (Inl e), s)
      | Inr _ \<Rightarrow> get_token_from Loading env tm challenge s)"

definition refresh_token ::
  "'w token_env \<Rightarrow> token_manager \<Rightarrow> bearer_challenge \<Rightarrow> flight_registry \<times> 'w
     \<Rightarrow> (oci_error + string) option \<times> flight_registry \<times> 'w" where
  "refresh_token env tm challenge s =
     (case validate_challenge (te_parse_uri env) tm challenge of
        Inl e \<Rightarrow> (Some (Inl e), s)
      | Inr _ \<Rightarrow> get_token_from Invalidating env tm challenge s)"

definition manager_cached_token :: "'w token_env \<Rightarrow> flight_registry \<times> 'w \<Rightarrow> string option \<times> flight_registry \<times> 'w" where
  "manager_cached_token env = (\<lambda>(st, w). case load_last (te_now env w) st of (token, st') \<Rightarrow> (token, st', w))"

section \<open>Clients\<close>

text \<open>The construction of a client with its token manager; \<open>None\<close> is the panic on limits that do not hold.\<close>

definition client_new ::
  "nat \<Rightarrow> uri_parser \<Rightarrow> (string \<Rightarrow> string) \<Rightarrow> string \<Rightarrow> string \<Rightarrow> registry_credentials \<Rightarrow> bool \<Rightarrow> oci_driver \<Rightarrow> oci_read_limits
     \<Rightarrow> (oci_error + oci_client \<times> token_manager) option" where
  "client_new usize_max parse_uri lower registry repo credentials write_access driver limits =
     (case limits_validate usize_max limits of
        Inl _ \<Rightarrow> None
      | Inr _ \<Rightarrow> Some (
          result_bind (map_err InvalidEndpoint (canonicalize_endpoint parse_uri driver registry)) (\<lambda>endpoint.
          let canonical_repo = canonicalize_repository lower driver repo in
          Inr (\<lparr>cl_endpoint = endpoint, cl_repo = canonical_repo, cl_driver = driver, cl_limits = limits\<rparr>,
               token_manager_new lower endpoint canonical_repo credentials write_access driver))))"

definition client_from_kind ::
  "nat \<Rightarrow> uri_parser \<Rightarrow> (string \<Rightarrow> string) \<Rightarrow> registry_kind \<Rightarrow> string \<Rightarrow> string \<Rightarrow> registry_credentials \<Rightarrow> bool \<Rightarrow> oci_read_limits
     \<Rightarrow> (oci_error + oci_client \<times> token_manager) option" where
  "client_from_kind usize_max parse_uri lower kind registry repo credentials write_access limits =
     client_new usize_max parse_uri lower registry repo credentials write_access (driver_for_kind kind) limits"

definition client_with_transport ::
  "nat \<Rightarrow> uri_parser \<Rightarrow> (string \<Rightarrow> string) \<Rightarrow> string \<Rightarrow> string \<Rightarrow> registry_credentials \<Rightarrow> bool \<Rightarrow> oci_read_limits
     \<Rightarrow> (oci_error + oci_client \<times> token_manager) option" where
  "client_with_transport usize_max parse_uri lower registry repo credentials write_access limits =
     client_new usize_max parse_uri lower registry repo credentials write_access (detect_driver parse_uri registry) limits"

end
