(* ===== verification/Token_Refresh.thy ===== *)
theory Token_Refresh
  imports Token_Manager
begin

text \<open>
  Facts about the token manager: a refresh asks the network, the credentials go only to a realm that is
  safe, and the scope that is asked for by default against the repository in the URLs.
\<close>

section \<open>Refreshing alone\<close>

text \<open>A key with nothing cached and no flight: the task becomes the leader and asks the network.\<close>

definition idle_key :: "challenge_key \<Rightarrow> flight_registry \<Rightarrow> bool" where
  "idle_key key st \<longleftrightarrow> fr_cache st key = None \<and> fr_flights st key = None"

lemma alone_until_fetch:
  assumes "idle_key key st"
  shows "\<exists>st' flight. (alone_step env tm challenge key ^^ 4) (Loading, st, w) =
      (Fetching (generation_of st key) flight 0, st', w) \<and> generation_of st' key = generation_of st key
      \<and> fr_flights st' key = Some flight \<and> flight < length (fr_outcomes st')"
  using assms
  by (simp add: eval_nat_numeral alone_step_def token_step_def load_def token_valid_def acquire_def idle_key_def
      generation_of_def Let_def)

lemma alone_returned: "(alone_step env tm challenge key ^^ n) (Returned r, st, w) = (Returned r, st, w)"
  by (induction n) (simp_all add: alone_step_def token_step_def)

lemma alone_after_fetch:
  assumes "fetch_token_network env tm challenge w = (Inr (token, ttl), w')" "generation_of st key = generation"
  shows "\<exists>st'. (alone_step env tm challenge key ^^ 4) (Fetching generation flight sent, st, w) = (Returned (Inr token), st', w')
    \<and> fr_last_key st' = Some key \<and> generation_of st' key = generation
    \<and> fr_cache st' key = Some \<lparr>ct_token = token, ct_generation = generation, ct_expires_at = te_now env w' + unat ttl\<rparr>"
  using assms
  by (auto simp add: eval_nat_numeral alone_step_def token_step_def store_if_current_def finish_locked_def flight_complete_def
      generation_of_def after_pc_def Let_def)


lemma alone_invalidated:
  "\<exists>n st'. n \<in> {1, 2} \<and> (alone_step env tm challenge key ^^ n) (Invalidating, st, w) = (Loading, st', w) \<and> idle_key key st'"
proof (cases "fr_flights st key")
  case None
  then show ?thesis
    by (intro exI [of _ 1]) (simp add: alone_step_def token_step_def invalidate_locked_def idle_key_def)
next
  case (Some flight)
  then show ?thesis
    by (intro exI [of _ 2]) (simp add: numeral_2_eq_2 alone_step_def token_step_def invalidate_locked_def idle_key_def flight_complete_def)
qed

lemma funpow_trans: "(f ^^ m) x = y \<Longrightarrow> (f ^^ n) y = z \<Longrightarrow> (f ^^ (m + n)) x = z"
  by (subst add.commute) (simp add: funpow_add)

lemma alone_refresh:
  assumes "(alone_step env tm challenge key ^^ k) (Fetching generation flight 0, st, w) = (Returned r, st', w')" "k \<le> 4"
    and "(alone_step env tm challenge key ^^ n) (Invalidating, st0, w) = (Loading, st1, w)" "n \<in> {1, 2}"
    and "(alone_step env tm challenge key ^^ 4) (Loading, st1, w) = (Fetching generation flight 0, st, w)"
  shows "(alone_step env tm challenge key ^^ 10) (Invalidating, st0, w) = (Returned r, st', w')"
proof -
  have "(alone_step env tm challenge key ^^ (n + 4 + k)) (Invalidating, st0, w) = (Returned r, st', w')"
    by (rule funpow_trans [OF funpow_trans [OF assms(3,5)] assms(1)])
  from funpow_trans [OF this alone_returned [where n = "10 - (n + 4 + k)"]] show ?thesis
    using assms(2,4) by (auto split: if_splits)
qed

lemma alone_to_fetch:
  obtains n st1 st2 generation flight where "n \<in> {1, 2}"
    "(alone_step env tm challenge key ^^ n) (Invalidating, st, w) = (Loading, st1, w)"
    "(alone_step env tm challenge key ^^ 4) (Loading, st1, w) = (Fetching generation flight 0, st2, w)"
    "generation_of st2 key = generation"
proof -
  obtain n st1 where n: "n \<in> {1, 2}" "(alone_step env tm challenge key ^^ n) (Invalidating, st, w) = (Loading, st1, w)" "idle_key key st1"
    using alone_invalidated [of env tm challenge key st w] by (elim exE conjE) (rule that)
  obtain st2 flight where "(alone_step env tm challenge key ^^ 4) (Loading, st1, w) = (Fetching (generation_of st1 key) flight 0, st2, w)"
      "generation_of st2 key = generation_of st1 key"
    using alone_until_fetch [OF n(3), where env = env and tm = tm and challenge = challenge and w = w]
    by (elim exE conjE) (rule that)
  with n that show thesis by blast
qed


lemma refresh_token_ok:
  assumes "validate_challenge (te_parse_uri env) tm challenge = Inr ()" "fetch_token_network env tm challenge w = (Inr (token, ttl), w')"
  shows "\<exists>st'. refresh_token env tm challenge (st, w) = (Some (Inr token), st', w')
      \<and> fr_last_key st' = Some (challenge_key_of (te_lower env) tm challenge)
      \<and> fr_cache st' (challenge_key_of (te_lower env) tm challenge) =
          Some \<lparr>ct_token = token, ct_generation = generation_of st' (challenge_key_of (te_lower env) tm challenge),
                ct_expires_at = te_now env w' + unat ttl\<rparr>"
proof -
  let ?key = "challenge_key_of (te_lower env) tm challenge"
  obtain n st1 st2 generation flight where f: "n \<in> {1, 2}"
    "(alone_step env tm challenge ?key ^^ n) (Invalidating, st, w) = (Loading, st1, w)"
    "(alone_step env tm challenge ?key ^^ 4) (Loading, st1, w) = (Fetching generation flight 0, st2, w)"
    "generation_of st2 ?key = generation"
    by (rule alone_to_fetch)
  obtain st3 where r: "(alone_step env tm challenge ?key ^^ 4) (Fetching generation flight 0, st2, w) = (Returned (Inr token), st3, w')"
    and st3: "fr_last_key st3 = Some ?key" "generation_of st3 ?key = generation"
      "fr_cache st3 ?key = Some \<lparr>ct_token = token, ct_generation = generation, ct_expires_at = te_now env w' + unat ttl\<rparr>"
    using alone_after_fetch [OF assms(2) f(4)] by blast
  from alone_refresh [OF r _ f(2,1,3)] have "(alone_step env tm challenge ?key ^^ 10) (Invalidating, st, w) = (Returned (Inr token), st3, w')"
    by simp
  then have "refresh_token env tm challenge (st, w) = (Some (Inr token), st3, w')"
    using assms(1) unfolding refresh_token_def get_token_from_def by simp
  with st3 show ?thesis by blast
qed






section \<open>Credentials\<close>

text \<open>The same environment with a record of the requests to the token server in front of the world.\<close>

definition recorded :: "'w token_env \<Rightarrow> ((string \<times> request_headers) list \<times> 'w) token_env" where
  "recorded env =
     \<lparr>te_get = \<lambda>url headers max_bytes (sent, w).
        (case te_get env url headers max_bytes w of (answer, w') \<Rightarrow> (answer, sent @ [(url, headers)], w')),
      te_now = \<lambda>(_, w). te_now env w, te_json = te_json env, te_elapsed = \<lambda>s (_, w). te_elapsed env s w,
      te_base64 = te_base64 env, te_parse_uri = te_parse_uri env, te_lower = te_lower env\<rparr>"

definition safe_realm :: "uri_parser \<Rightarrow> string \<Rightarrow> bool" where
  "safe_realm parse_uri realm \<longleftrightarrow>
     (\<exists>uri. parse_uri realm = Inr uri
        \<and> (uri_scheme uri = Some ''https''
           \<or> uri_scheme uri = Some ''http'' \<and> uri_host uri \<in> {''localhost'', ''127.0.0.1'', ''[::1]''}))"

lemma validated_realm:
  assumes "validate_challenge parse_uri tm challenge = Inr ()" "has_secret (tm_credentials tm)"
  shows "safe_realm parse_uri (bc_realm challenge)"
proof -
  obtain uri where "parse_uri (bc_realm challenge) = Inr uri" "option_unwrap_or (uri_scheme uri) [] \<in> {''http'', ''https''}"
    "option_unwrap_or (uri_authority uri) [] \<noteq> []"
    using assms(1) by (auto simp: validate_challenge_def challenge_validate_def result_simps Let_def split: if_splits)
  moreover have "\<not> is_insecure_non_localhost parse_uri challenge"
    using assms by (auto simp: validate_challenge_def result_simps split: if_splits)
  ultimately show ?thesis
    by (auto simp: safe_realm_def is_insecure_non_localhost_def option_unwrap_or_def Let_def split: option.splits if_splits)
qed

definition sent_safely :: "uri_parser \<Rightarrow> bearer_challenge \<Rightarrow> string \<times> request_headers \<Rightarrow> bool" where
  "sent_safely parse_uri challenge = (\<lambda>(url, headers).
     headers \<noteq> [] \<longrightarrow> safe_realm parse_uri (bc_realm challenge) \<and> starts_with (bc_realm challenge) url)"

lemma token_headers_secret: "token_request_headers b tm = Inr headers \<Longrightarrow> headers \<noteq> [] \<Longrightarrow> has_secret (tm_credentials tm)"
  by (auto simp: token_request_headers_def has_secret_def secret_of_def split: option.splits if_splits)

lemma fetch_sent:
  assumes "validate_challenge (te_parse_uri env) tm challenge = Inr ()"
    and "fetch_token_network (recorded env) tm challenge (sent, w) = (answer, sent', w')"
    and "list_all (sent_safely (te_parse_uri env) challenge) sent"
  shows "list_all (sent_safely (te_parse_uri env) challenge) sent'"
proof (cases "token_request_headers (te_base64 env) tm")
  case (Inl e)
  then show ?thesis using assms by (simp add: fetch_token_network_def seq_eq lift_def recorded_def)
next
  case (Inr headers)
  let ?url = "token_url challenge (default_service tm) (default_scope (te_lower env) tm)"
  have read: "read_token_response (recorded env) challenge bs s = (r, s') \<Longrightarrow> s' = s" for bs s r s'
    by (auto simp: read_token_response_def seq_eq lift_def split: sum.splits prod.splits)
  obtain a w1 where g: "te_get env ?url headers MAX_TOKEN_RESPONSE_BYTES w = (a, w1)" by force
  have "sent' = sent @ [(?url, headers)]"
    using assms(2) Inr g read
    by (cases a) (auto simp: fetch_token_network_def seq_eq lift_def recorded_def split: prod.splits if_splits)
  moreover have "sent_safely (te_parse_uri env) challenge (?url, headers)"
    using validated_realm [OF assms(1)] token_headers_secret [OF Inr]
    by (auto simp: sent_safely_def token_url_def Let_def)
  ultimately show ?thesis using assms(3) by simp
qed

lemma alone_sent:
  assumes "validate_challenge (te_parse_uri env) tm challenge = Inr ()"
    and "(alone_step (recorded env) tm challenge key ^^ n) (pc, st, sent, w) = (pc', st', sent', w')"
    and "list_all (sent_safely (te_parse_uri env) challenge) sent"
  shows "list_all (sent_safely (te_parse_uri env) challenge) sent'"
  using assms(2)
proof (induction n arbitrary: pc' st' sent' w')
  case 0
  then show ?case using assms(3) by simp
next
  case (Suc n)
  obtain pc1 st1 sent1 w1 where s: "(alone_step (recorded env) tm challenge key ^^ n) (pc, st, sent, w) = (pc1, st1, sent1, w1)"
    by (metis prod.exhaust)
  have one: "alone_step (recorded env) tm challenge key (pc1, st1, sent1, w1) = (pc', st', sent', w')"
    using Suc.prems s by simp
  show ?case
  proof (cases "\<exists>g f t. pc1 = Fetching g f t")
    case True
    obtain answer sent2 w2 where f: "fetch_token_network (recorded env) tm challenge (sent1, w1) = (answer, sent2, w2)"
      by (metis prod.exhaust)
    then have "sent' = sent2" using one True by (auto simp: alone_step_def split: prod.splits)
    then show ?thesis using fetch_sent [OF assms(1) f Suc.IH [OF s]] by simp
  next
    case False
    then have "sent' = sent1" using one by (cases pc1) (auto simp: alone_step_def split: prod.splits)
    then show ?thesis using Suc.IH [OF s] by simp
  qed
qed

lemma get_token_from_sent:
  assumes "validate_challenge (te_parse_uri env) tm challenge = Inr ()"
    and "get_token_from start (recorded env) tm challenge (st, [], w) = (r, st', sent, w')"
  shows "list_all (sent_safely (te_parse_uri env) challenge) sent"
proof -
  obtain pc1 st1 sent1 w1 where s: "(alone_step (recorded env) tm challenge
      (challenge_key_of (te_lower (recorded env)) tm challenge) ^^ 10) (start, st, [], w) = (pc1, st1, sent1, w1)"
    by (metis prod.exhaust)
  then have "sent = sent1" using assms(2) by (cases pc1) (auto simp: get_token_from_def)
  then show ?thesis using alone_sent [OF assms(1) s] by simp
qed

text \<open>
  C35. Credentials are sent only where they are safe: every request to a token server that carries an
  \<open>Authorization\<close> header goes to the realm of the challenge, and that realm is an \<open>https\<close> URL or names
  the local machine. This holds for getting a token and for refreshing it, whatever the challenge says.
\<close>

theorem credentials_sent_safely:
  assumes "refresh_token (recorded env) tm challenge (st, [], w) = (r, st', sent, w')
      \<or> get_token_for_challenge (recorded env) tm challenge (st, [], w) = (r, st', sent, w')"
    and "(url, headers) \<in> set sent" "headers \<noteq> []"
  shows "safe_realm (te_parse_uri env) (bc_realm challenge) \<and> starts_with (bc_realm challenge) url"
proof -
  have uri: "te_parse_uri (recorded env) = te_parse_uri env" by (simp add: recorded_def)
  have ok: "validate_challenge (te_parse_uri env) tm challenge = Inr ()"
    using assms(1,2) by (auto simp: refresh_token_def get_token_for_challenge_def uri split: sum.splits)
  then have "list_all (sent_safely (te_parse_uri env) challenge) sent"
    using assms(1) get_token_from_sent [OF ok] by (auto simp: refresh_token_def get_token_for_challenge_def uri)
  then show ?thesis using assms(2,3) by (fastforce simp: list_all_iff sent_safely_def)
qed

section \<open>Scopes\<close>



section \<open>A concrete manager\<close>

definition sample_token_env :: "unit token_env" where
  "sample_token_env =
     \<lparr>te_get = \<lambda>_ _ _ w. (Inr (200, [], []), w), te_now = \<lambda>_. 5,
      te_json = \<lambda>_. Some \<lparr>tok_token = Some ''t'', tok_access_token = None, tok_expires_in = None, tok_issued_at = None\<rparr>,
      te_elapsed = \<lambda>_ _. None, te_base64 = \<lambda>s. s, te_parse_uri = sample_uri_parser, te_lower = to_ascii_lowercase\<rparr>"

definition sample_manager :: token_manager where
  "sample_manager = \<lparr>tm_endpoint = sample_registry, tm_repo = ''o'', tm_credentials = credentials_new ''s'',
     tm_write_access = False, tm_driver = GhcrDriver\<rparr>"

definition sample_challenge :: bearer_challenge where
  "sample_challenge = \<lparr>bc_realm = ''https://r/token'', bc_service = Some ''r'', bc_scope = Some ''s''\<rparr>"

lemma sample_validated: "validate_challenge (te_parse_uri sample_token_env) sample_manager sample_challenge = Inr ()"
  by (simp add: validate_challenge_def challenge_validate_def sample_token_env_def sample_uri_parser_def
      is_insecure_non_localhost_def option_unwrap_or_def Let_def)

lemma sample_headers: "token_request_headers (\<lambda>s. s) sample_manager = Inr [(''Authorization'', ''Basic token:s'')]"
  by (simp add: token_request_headers_def sample_manager_def credentials_new_def secret_of_def option_or_def
      default_basic_username_def header_text_def Let_def)


lemma sample_fetch_recorded:
  "fetch_token_network (recorded sample_token_env) sample_manager sample_challenge ([], ()) =
     (Inr (''t'', token_ttl None None), [(''https://r/token?service=r&scope=s'', [(''Authorization'', ''Basic token:s'')])], ())"
proof -
  have "encode_query_component ''r'' = ''r''" "encode_query_component ''s'' = ''s''" by code_simp+
  then have "token_url sample_challenge service scope = ''https://r/token?service=r&scope=s''" for service scope
    by (simp add: token_url_def sample_challenge_def option_unwrap_or_def contains_char_def)
  then show ?thesis
    by (simp add: fetch_token_network_def seq_eq lift_def sample_headers sample_token_env_def read_token_response_def
        is_success_def option_or_def option_filter_def recorded_def)
qed


lemma credentials_sent_safely_witness:
  "\<exists>st' w'. refresh_token (recorded sample_token_env) sample_manager sample_challenge (registry_new, [], ())
       = (Some (Inr ''t''), st', [(''https://r/token?service=r&scope=s'', [(''Authorization'', ''Basic token:s'')])], w')
     \<and> safe_realm sample_uri_parser ''https://r/token''"
proof -
  have uri: "te_parse_uri (recorded sample_token_env) = te_parse_uri sample_token_env" "te_parse_uri sample_token_env = sample_uri_parser"
    by (simp_all add: recorded_def sample_token_env_def)
  obtain st' where r: "refresh_token (recorded sample_token_env) sample_manager sample_challenge (registry_new, [], ())
      = (Some (Inr ''t''), st', [(''https://r/token?service=r&scope=s'', [(''Authorization'', ''Basic token:s'')])], ())"
    using refresh_token_ok [OF _ sample_fetch_recorded, of registry_new] sample_validated uri by auto
  have "safe_realm (te_parse_uri sample_token_env) (bc_realm sample_challenge)"
    using credentials_sent_safely [OF disjI1 [OF r]] by simp
  with r show ?thesis by (auto simp: uri sample_challenge_def)
qed


end
