(* ===== verification/Auth_Request.thy ===== *)
theory Auth_Request
  imports Token_Refresh
begin

text \<open>
  Requests with authentication: \<^verbatim>\<open>crates/nixcache-oci/src/client/request.rs\<close>. A request is sent with the
  token that is cached; after a 401 the token is refreshed and the request is sent once more. The
  fields of \<open>oci_transport\<close> are the network; those of \<open>auth_ops\<close> are \<open>cached_token\<close> and \<open>refresh_token\<close>
  of the token manager, with whatever other tasks do meanwhile. The name of a header is kept in lower
  case.
\<close>

record upload_chunk_response =
  ucr_status :: status_code
  ucr_headers :: header_list
  ucr_location :: "string option"
  ucr_range :: "(u64 \<times> u64) option"

type_synonym ('w, 'a) sent = "'w \<Rightarrow> (transport_error + 'a) \<times> 'w"

record 'w oci_transport =
  tx_get :: "string \<Rightarrow> request_headers \<Rightarrow> u64 \<Rightarrow> ('w, status_code \<times> header_list \<times> bytes) sent"
  tx_head :: "string \<Rightarrow> request_headers \<Rightarrow> ('w, status_code \<times> header_list) sent"
  tx_stream :: "string \<Rightarrow> request_headers \<Rightarrow> u64 \<Rightarrow> ('w, status_code \<times> header_list \<times> (transport_error + bytes) list) sent"
  tx_post :: "string \<Rightarrow> request_headers \<Rightarrow> ('w, status_code \<times> header_list) sent"
  tx_post_bytes :: "string \<Rightarrow> request_headers \<Rightarrow> bytes \<Rightarrow> ('w, status_code \<times> header_list) sent"
  tx_put_bytes :: "string \<Rightarrow> request_headers \<Rightarrow> bytes \<Rightarrow> ('w, status_code \<times> header_list) sent"
  tx_patch_chunk :: "string \<Rightarrow> request_headers \<Rightarrow> bytes \<Rightarrow> u64 \<times> u64 \<Rightarrow> ('w, upload_chunk_response) sent"
  tx_put_chunk_finish :: "string \<Rightarrow> request_headers \<Rightarrow> (bytes \<times> u64 \<times> u64) option \<Rightarrow> ('w, status_code \<times> header_list) sent"
  tx_delete :: "string \<Rightarrow> request_headers \<Rightarrow> ('w, status_code \<times> header_list) sent"

record 'w auth_ops =
  au_cached :: "'w \<Rightarrow> string option \<times> 'w"
  au_refresh :: "bearer_challenge \<Rightarrow> ('w, string) step"

section \<open>Headers\<close>

definition header_insert :: "request_headers \<Rightarrow> string \<Rightarrow> string \<Rightarrow> request_headers" where
  "header_insert headers name value = filter (\<lambda>(k, _). k \<noteq> name) headers @ [(name, value)]"

definition ACCEPT_MANIFESTS :: string where
  "ACCEPT_MANIFESTS = ''application/vnd.oci.image.index.v1+json, application/vnd.oci.image.manifest.v1+json, '' @
     ''application/vnd.docker.distribution.manifest.list.v2+json, application/vnd.docker.distribution.manifest.v2+json''"

definition request_with_bearer :: "request_headers \<Rightarrow> string \<Rightarrow> request_headers" where
  "request_with_bearer headers token =
     (if header_text (''Bearer '' @ token) then header_insert headers ''authorization'' (''Bearer '' @ token) else headers)"

definition get_auth_headers :: "'w auth_ops \<Rightarrow> ('w, request_headers) step" where
  "get_auth_headers au w =
     (case au_cached au w of
        (None, w') \<Rightarrow> (Inr (header_insert [] ''accept'' ACCEPT_MANIFESTS), w')
      | (Some token, w') \<Rightarrow> (Inr (request_with_bearer (header_insert [] ''accept'' ACCEPT_MANIFESTS) token), w'))"

text \<open>The headers of the first attempt are put over those of the second, except the token.\<close>

definition merge_headers :: "request_headers \<Rightarrow> request_headers \<Rightarrow> request_headers" where
  "merge_headers headers retry_headers =
     foldl (\<lambda>hs (name, value). if name \<noteq> ''authorization'' then header_insert hs name value else hs) retry_headers headers"

section \<open>The retry\<close>

definition request_auth_error :: "string \<Rightarrow> status_code \<Rightarrow> string \<Rightarrow> oci_error" where
  "request_auth_error operation status details = AuthenticationFailed operation status details"

definition request_challenge_for_response ::
  "'w auth_ops \<Rightarrow> uri_parser \<Rightarrow> string \<Rightarrow> status_code \<Rightarrow> header_list \<Rightarrow> ('w, bearer_challenge \<times> request_headers) step" where
  "request_challenge_for_response au parse_uri operation status headers =
     (if status \<noteq> 401 then fail (request_auth_error operation status ''unexpected authentication response'')
      else
        seq (lift (parse_www_authenticate parse_uri (header_get_all headers ''WWW-Authenticate''))) (\<lambda>found.
        seq (lift (ok_or (request_auth_error operation status ''registry returned 401 without a Bearer challenge'') found)) (\<lambda>challenge.
        seq (au_refresh au challenge) (\<lambda>token.
        seq (get_auth_headers au) (\<lambda>fresh.
        pure (challenge, request_with_bearer fresh token))))))"

definition transported :: "('w, 'a) sent \<Rightarrow> ('w, 'a) step" where
  "transported send w = (case send w of (answer, w') \<Rightarrow> (map_err from_transport_error answer, w'))"

definition auth_retry ::
  "'w auth_ops \<Rightarrow> uri_parser \<Rightarrow> string \<Rightarrow> (request_headers \<Rightarrow> ('w, 'r) sent) \<Rightarrow> ('r \<Rightarrow> status_code) \<Rightarrow> ('r \<Rightarrow> header_list)
     \<Rightarrow> (request_headers \<Rightarrow> request_headers) \<Rightarrow> request_headers \<Rightarrow> ('w, 'r) step" where
  "auth_retry au parse_uri operation send status_of headers_of merge headers =
     seq (transported (send headers)) (\<lambda>first.
     if status_of first \<noteq> 401 then pure first
     else
       seq (request_challenge_for_response au parse_uri operation (status_of first) (headers_of first)) (\<lambda>(_, retry_headers).
       seq (transported (send (merge retry_headers))) (\<lambda>second.
       if status_of second = 401
       then fail (request_auth_error operation (status_of second) ''Bearer challenge retry was rejected'')
       else pure second)))"

section \<open>The requests\<close>

definition request_get_with_auth_retry ::
  "'w oci_transport \<Rightarrow> 'w auth_ops \<Rightarrow> uri_parser \<Rightarrow> string \<Rightarrow> string \<Rightarrow> u64 \<Rightarrow> ('w, status_code \<times> header_list \<times> bytes) step" where
  "request_get_with_auth_retry tx au parse_uri url operation max_bytes =
     seq (get_auth_headers au)
       (auth_retry au parse_uri operation (\<lambda>headers. tx_get tx url headers max_bytes) fst (fst \<circ> snd) (\<lambda>h. h))"

definition request_head_with_auth_retry ::
  "'w oci_transport \<Rightarrow> 'w auth_ops \<Rightarrow> uri_parser \<Rightarrow> string \<Rightarrow> string \<Rightarrow> ('w, status_code \<times> header_list) step" where
  "request_head_with_auth_retry tx au parse_uri url operation =
     seq (get_auth_headers au) (auth_retry au parse_uri operation (tx_head tx url) fst snd (\<lambda>h. h))"

definition request_post_with_auth_retry ::
  "'w oci_transport \<Rightarrow> 'w auth_ops \<Rightarrow> uri_parser \<Rightarrow> string \<Rightarrow> string \<Rightarrow> ('w, status_code \<times> header_list) step" where
  "request_post_with_auth_retry tx au parse_uri url operation =
     seq (get_auth_headers au) (auth_retry au parse_uri operation (tx_post tx url) fst snd (\<lambda>h. h))"

definition request_post_bytes_with_auth_retry ::
  "'w oci_transport \<Rightarrow> 'w auth_ops \<Rightarrow> uri_parser \<Rightarrow> string \<Rightarrow> request_headers \<Rightarrow> bytes \<Rightarrow> string \<Rightarrow> ('w, status_code) step" where
  "request_post_bytes_with_auth_retry tx au parse_uri url headers body operation =
     seq (auth_retry au parse_uri operation (\<lambda>h. tx_post_bytes tx url h body) fst snd (merge_headers headers) headers)
       (\<lambda>response. pure (fst response))"

definition request_put_bytes_with_auth_retry ::
  "'w oci_transport \<Rightarrow> 'w auth_ops \<Rightarrow> uri_parser \<Rightarrow> string \<Rightarrow> request_headers \<Rightarrow> bytes \<Rightarrow> string \<Rightarrow> ('w, status_code) step" where
  "request_put_bytes_with_auth_retry tx au parse_uri url headers body operation =
     seq (auth_retry au parse_uri operation (\<lambda>h. tx_put_bytes tx url h body) fst snd (merge_headers headers) headers)
       (\<lambda>response. pure (fst response))"

definition request_patch_chunk_with_auth_retry ::
  "'w oci_transport \<Rightarrow> 'w auth_ops \<Rightarrow> uri_parser \<Rightarrow> string \<Rightarrow> request_headers \<Rightarrow> bytes \<Rightarrow> u64 \<times> u64 \<Rightarrow> string
     \<Rightarrow> ('w, upload_chunk_response) step" where
  "request_patch_chunk_with_auth_retry tx au parse_uri url headers chunk byte_range operation =
     auth_retry au parse_uri operation (\<lambda>h. tx_patch_chunk tx url h chunk byte_range) ucr_status ucr_headers (merge_headers headers) headers"

definition request_put_chunk_finish_with_auth_retry ::
  "'w oci_transport \<Rightarrow> 'w auth_ops \<Rightarrow> uri_parser \<Rightarrow> string \<Rightarrow> request_headers \<Rightarrow> (bytes \<times> u64 \<times> u64) option \<Rightarrow> string
     \<Rightarrow> ('w, status_code) step" where
  "request_put_chunk_finish_with_auth_retry tx au parse_uri url headers final_chunk operation =
     seq (auth_retry au parse_uri operation (\<lambda>h. tx_put_chunk_finish tx url h final_chunk) fst snd (merge_headers headers) headers)
       (\<lambda>response. pure (fst response))"

definition request_delete_with_auth_retry ::
  "'w oci_transport \<Rightarrow> 'w auth_ops \<Rightarrow> uri_parser \<Rightarrow> string \<Rightarrow> string \<Rightarrow> ('w, status_code) step" where
  "request_delete_with_auth_retry tx au parse_uri url operation =
     seq (get_auth_headers au) (\<lambda>headers.
     seq (auth_retry au parse_uri operation (tx_delete tx url) fst snd (\<lambda>h. h) headers)
       (\<lambda>response. pure (fst response)))"

definition request_stream_with_auth_retry ::
  "'w oci_transport \<Rightarrow> 'w auth_ops \<Rightarrow> uri_parser \<Rightarrow> string \<Rightarrow> string \<Rightarrow> u64
     \<Rightarrow> ('w, status_code \<times> header_list \<times> (transport_error + bytes) list) step" where
  "request_stream_with_auth_retry tx au parse_uri url operation max_bytes =
     seq (get_auth_headers au)
       (auth_retry au parse_uri operation (\<lambda>headers. tx_stream tx url headers max_bytes) fst (fst \<circ> snd) (\<lambda>h. h))"

section \<open>Attempts\<close>













end
