(* ===== verification/Ghcr_Packages.thy ===== *)
theory Ghcr_Packages
  imports Auth_Request Oci_Registry
begin

text \<open>
  The client of the GitHub Packages API, which deletes package versions on GHCR:
  \<^verbatim>\<open>crates/nixcache-oci/src/backend/ghcr.rs\<close>. The state of an operation is the cached type of the owner
  (0 unknown, 1 organisation, 2 user) and the world. JSON is an argument. The page number of the code
  is an \<open>i32\<close>; here it has no bound.
\<close>

record github_container_metadata =
  gcm_tags :: "string list"

record github_version_metadata =
  gvm_container :: "github_container_metadata option"

record github_package_version =
  gpv_id :: u64
  gpv_name :: string
  gpv_metadata :: "github_version_metadata option"

record 'w github_api =
  gh_get :: "string \<Rightarrow> request_headers \<Rightarrow> u64 \<Rightarrow> ('w, status_code \<times> header_list \<times> bytes) sent"
  gh_delete :: "string \<Rightarrow> request_headers \<Rightarrow> ('w, status_code) sent"
  gh_json :: "bytes \<Rightarrow> string + github_package_version list"

record github_packages_client =
  gpc_token :: string
  gpc_owner :: string
  gpc_package_name :: string

type_synonym 'w ghcr_state = "nat \<times> 'w"

definition MAX_GITHUB_API_RESPONSE_BYTES :: u64 where
  "MAX_GITHUB_API_RESPONSE_BYTES = 4 * 1024 * 1024"

section \<open>Names and URLs\<close>

definition escape_slashes :: "string \<Rightarrow> string" where
  "escape_slashes s = concat (map (\<lambda>c. if c = CHR ''/'' then ''%2F'' else [c]) s)"

definition packages_client_new :: "string \<Rightarrow> string \<Rightarrow> github_packages_client" where
  "packages_client_new token repo_path =
     (let clean = trim_slashes repo_path;
          (owner, pkg) = (case split_once (CHR ''/'') clean of
              Some (o1, rest) \<Rightarrow>
                let pkg_target = (if ends_with ''/nix-cache'' rest \<or> rest = ''nix-cache'' then rest else rest @ ''/nix-cache'')
                in (o1, escape_slashes pkg_target)
            | None \<Rightarrow> (clean, ''nix-cache''))
      in \<lparr>gpc_token = token, gpc_owner = owner, gpc_package_name = pkg\<rparr>)"

definition get_headers :: "github_packages_client \<Rightarrow> request_headers" where
  "get_headers gc =
     (let headers = header_insert (header_insert (header_insert [] ''accept'' ''application/vnd.github+json'')
            ''x-github-api-version'' ''2022-11-28'') ''user-agent'' ''nixcache-oci''
      in if gpc_token gc \<noteq> [] \<and> header_text (''Bearer '' @ gpc_token gc)
         then header_insert headers ''authorization'' (''Bearer '' @ gpc_token gc) else headers)"

definition format_url :: "github_packages_client \<Rightarrow> bool \<Rightarrow> string \<Rightarrow> string" where
  "format_url gc is_org endpoint_suffix =
     (let prefix = (if is_org then ''orgs'' else ''users'');
          suffix = (if endpoint_suffix = [] then []
            else if starts_with ''/'' endpoint_suffix \<or> starts_with ''?'' endpoint_suffix then endpoint_suffix
            else ''/'' @ endpoint_suffix)
      in ''https://api.github.com/'' @ prefix @ ''/'' @ gpc_owner gc @ ''/packages/container/'' @ gpc_package_name gc @ suffix)"

definition handle_status_error :: "github_packages_client \<Rightarrow> string \<Rightarrow> status_code \<Rightarrow> bytes \<Rightarrow> oci_error" where
  "handle_status_error gc action status body =
     (let details = trim (case from_utf8 body of Some s \<Rightarrow> s | None \<Rightarrow> ''<invalid utf-8>'');
          target = gpc_owner gc @ ''/'' @ gpc_package_name gc in
      if status = 403 \<or> status = 401
      then InsufficientPermission target ''delete:packages''
        [Lit ''HTTP '', Num status, Lit '' when performing '', Str action, Lit '' on GHCR: '', Str details,
         Lit ''. Remedy: Ensure your token has 'delete:packages' (PAT) or 'packages: write' (GitHub Actions) permissions.'']
      else DeletionFailed target status [Lit ''HTTP '', Num status, Lit '' during '', Str action, Lit '': '', Str details])"

section \<open>Listing versions\<close>

definition partial_listing :: "github_packages_client \<Rightarrow> oci_error" where
  "partial_listing gc =
     DeletionDiscoveryFailed ''ghcr_versions'' (gpc_package_name gc) [Lit ''GHCR returned 404 after a partial version listing'']"

text \<open>
  What a page gives: \<open>(True, vs)\<close> ends the listing with the versions \<open>vs\<close>, \<open>(False, vs)\<close> goes on.
\<close>

definition add_versions ::
  "'w github_api \<Rightarrow> github_package_version list \<Rightarrow> bytes \<Rightarrow> oci_error + bool \<times> github_package_version list" where
  "add_versions api all_versions body =
     result_bind (map_err OciJson (gh_json api body)) (\<lambda>versions.
     Inr (length versions < 100, all_versions @ versions))"

definition missing_versions ::
  "github_packages_client \<Rightarrow> github_package_version list \<Rightarrow> oci_error + bool \<times> github_package_version list" where
  "missing_versions gc all_versions = (if all_versions = [] then Inr (True, []) else Inl (partial_listing gc))"

definition versions_page ::
  "'w github_api \<Rightarrow> github_packages_client \<Rightarrow> nat \<Rightarrow> nat \<Rightarrow> github_package_version list
     \<Rightarrow> ('w ghcr_state, bool \<times> github_package_version list) step" where
  "versions_page api gc cached_type page all_versions = (\<lambda>(owner_type, w).
     let url_suffix = ''/versions?per_page=100&page='' @ show_nat page;
         try_orgs_first = (cached_type \<noteq> 2);
         is_org = (if cached_type = 0 then try_orgs_first else cached_type = 1) in
     case gh_get api (format_url gc is_org url_suffix) (get_headers gc) MAX_GITHUB_API_RESPONSE_BYTES w of
       (Inl e, w') \<Rightarrow> (Inl (from_transport_error e), owner_type, w')
     | (Inr (status, _, body), w') \<Rightarrow>
         if is_success status
         then (add_versions api all_versions body,
           if cached_type = 0 then (if is_org then 1 else 2) else owner_type, w')
         else if status = 404 \<and> cached_type = 0 \<and> is_org
         then (case gh_get api (format_url gc False url_suffix) (get_headers gc) MAX_GITHUB_API_RESPONSE_BYTES w' of
             (Inl e, w'') \<Rightarrow> (Inl (from_transport_error e), owner_type, w'')
           | (Inr (user_status, _, user_body), w'') \<Rightarrow>
               if is_success user_status then (add_versions api all_versions user_body, 2, w'')
               else if user_status = 404 then (missing_versions gc all_versions, owner_type, w'')
               else (Inl (handle_status_error gc ''list package versions'' user_status user_body), owner_type, w''))
         else if status = 404 then (missing_versions gc all_versions, owner_type, w')
         else (Inl (handle_status_error gc ''list package versions'' status body), owner_type, w'))"

text \<open>A server could answer with full pages for ever, so the loop may not end: then it is \<open>None\<close>.\<close>

partial_function (option) list_versions_loop ::
  "'w github_api \<Rightarrow> github_packages_client \<Rightarrow> nat \<Rightarrow> nat \<Rightarrow> github_package_version list \<Rightarrow> 'w ghcr_state
     \<Rightarrow> ((oci_error + github_package_version list) \<times> 'w ghcr_state) option" where
  "list_versions_loop api gc cached_type page all_versions s =
     (case versions_page api gc cached_type page all_versions s of
        (Inl e, s') \<Rightarrow> Some (Inl e, s')
      | (Inr (finished, versions), s') \<Rightarrow>
          if finished then Some (Inr versions, s')
          else list_versions_loop api gc cached_type (page + 1) versions s')"

definition list_package_versions ::
  "'w github_api \<Rightarrow> github_packages_client \<Rightarrow> 'w ghcr_state
     \<Rightarrow> ((oci_error + github_package_version list) \<times> 'w ghcr_state) option" where
  "list_package_versions api gc s = list_versions_loop api gc (fst s) 1 [] s"

section \<open>Deletion\<close>

definition version_has_tag :: "string \<Rightarrow> github_package_version \<Rightarrow> bool" where
  "version_has_tag tag v = (case gpv_metadata v of
     None \<Rightarrow> False
   | Some meta \<Rightarrow> (case gvm_container meta of None \<Rightarrow> False | Some container \<Rightarrow> tag \<in> set (gcm_tags container)))"

definition find_version_id_by_tag ::
  "'w github_api \<Rightarrow> github_packages_client \<Rightarrow> string \<Rightarrow> 'w ghcr_state \<Rightarrow> ((oci_error + u64 option) \<times> 'w ghcr_state) option" where
  "find_version_id_by_tag api gc tag s =
     map_option (\<lambda>(r, s'). (map_ok (\<lambda>versions. map_option gpv_id (List.find (version_has_tag tag) versions)) r, s'))
       (list_package_versions api gc s)"

definition deleted_status :: "status_code \<Rightarrow> bool" where
  "deleted_status status \<longleftrightarrow> status = 204 \<or> status = 200 \<or> status = 202"

text \<open>The body that the two deletions share.\<close>

definition delete_routed ::
  "'w github_api \<Rightarrow> github_packages_client \<Rightarrow> string \<Rightarrow> string \<Rightarrow> ('w ghcr_state, unit) step" where
  "delete_routed api gc action url_suffix = (\<lambda>(cached_type, w).
     let is_org = (cached_type \<noteq> 2) in
     case gh_delete api (format_url gc is_org url_suffix) (get_headers gc) w of
       (Inl e, w') \<Rightarrow> (Inl (from_transport_error e), cached_type, w')
     | (Inr status, w') \<Rightarrow>
         if deleted_status status
         then (Inr (), if cached_type = 0 then (if is_org then 1 else 2) else cached_type, w')
         else if status = 404 \<and> cached_type = 0 \<and> is_org
         then (case gh_delete api (format_url gc False url_suffix) (get_headers gc) w' of
             (Inl e, w'') \<Rightarrow> (Inl (from_transport_error e), cached_type, w'')
           | (Inr user_status, w'') \<Rightarrow>
               if deleted_status user_status \<or> user_status = 404 then (Inr (), 2, w'')
               else (Inl (handle_status_error gc action user_status []), cached_type, w''))
         else if status = 404 then (Inr (), cached_type, w')
         else (Inl (handle_status_error gc action status []), cached_type, w'))"

definition delete_package_version ::
  "'w github_api \<Rightarrow> github_packages_client \<Rightarrow> u64 \<Rightarrow> ('w ghcr_state, unit) step" where
  "delete_package_version api gc version_id =
     delete_routed api gc ''delete package version'' (''/versions/'' @ show_u64 version_id)"

definition ghcr_delete_entire_package :: "'w github_api \<Rightarrow> github_packages_client \<Rightarrow> ('w ghcr_state, unit) step" where
  "ghcr_delete_entire_package api gc = delete_routed api gc ''delete package'' []"

definition delete_by_tag ::
  "'w github_api \<Rightarrow> github_packages_client \<Rightarrow> string \<Rightarrow> 'w ghcr_state \<Rightarrow> ((oci_error + unit) \<times> 'w ghcr_state) option" where
  "delete_by_tag api gc tag s =
     (case find_version_id_by_tag api gc tag s of
        None \<Rightarrow> None
      | Some (Inl e, s') \<Rightarrow> Some (Inl e, s')
      | Some (Inr (Some version_id), s') \<Rightarrow> Some (delete_package_version api gc version_id s')
      | Some (Inr None, s') \<Rightarrow> Some (Inr (), s'))"

section \<open>Listings are complete\<close>

text \<open>
  The API of GitHub: a package belongs to an organisation or to a user, and is found under that
  route only; its versions are served in pages of a hundred.
\<close>

definition version_page :: "github_package_version list \<Rightarrow> nat \<Rightarrow> github_package_version list" where
  "version_page vs page = take 100 (drop (100 * (page - 1)) vs)"

definition answers ::
  "'w github_api \<Rightarrow> github_packages_client \<Rightarrow> 'w set \<Rightarrow> bool \<Rightarrow> nat \<Rightarrow> (status_code \<Rightarrow> bytes \<Rightarrow> bool) \<Rightarrow> bool" where
  "answers api gc W is_org page P \<longleftrightarrow> (\<forall>w\<in>W. \<exists>status headers body w'.
     gh_get api (format_url gc is_org (''/versions?per_page=100&page='' @ show_nat page)) (get_headers gc)
       MAX_GITHUB_API_RESPONSE_BYTES w = (Inr (status, headers, body), w') \<and> w' \<in> W \<and> P status body)"

definition serves_versions ::
  "'w github_api \<Rightarrow> github_packages_client \<Rightarrow> bool \<Rightarrow> github_package_version list \<Rightarrow> 'w set \<Rightarrow> bool" where
  "serves_versions api gc org vs W \<longleftrightarrow> (\<forall>page \<ge> 1.
     answers api gc W org page (\<lambda>status body. is_success status \<and> gh_json api body = Inr (version_page vs page))
     \<and> (\<not> org \<longrightarrow> answers api gc W True page (\<lambda>status body. status = 404)))"

lemma versions_page_served:
  assumes "serves_versions api gc org vs W" "w \<in> W" "page \<ge> 1"
  shows "\<exists>w'\<in>W. versions_page api gc 0 page all_versions (t, w) =
      (Inr (length (version_page vs page) < 100, all_versions @ version_page vs page), if org then 1 else 2, w')"
proof (cases org)
  case True
  then have "answers api gc W True page (\<lambda>status body. is_success status \<and> gh_json api body = Inr (version_page vs page))"
    using assms(1,3) by (simp add: serves_versions_def)
  then show ?thesis using assms(2) True
    by (force simp: answers_def versions_page_def add_versions_def)
next
  case False
  then have a: "answers api gc W True page (\<lambda>status body. status = 404)"
    "answers api gc W False page (\<lambda>status body. is_success status \<and> gh_json api body = Inr (version_page vs page))"
    using assms(1,3) by (auto simp: serves_versions_def)
  obtain headers body w1 where 1: "gh_get api (format_url gc True (''/versions?per_page=100&page='' @ show_nat page)) (get_headers gc)
      MAX_GITHUB_API_RESPONSE_BYTES w = (Inr (404, headers, body), w1)" "w1 \<in> W"
    using a(1) assms(2) by (auto simp: answers_def)
  obtain status headers2 body2 w2 where 2: "gh_get api (format_url gc False (''/versions?per_page=100&page='' @ show_nat page)) (get_headers gc)
      MAX_GITHUB_API_RESPONSE_BYTES w1 = (Inr (status, headers2, body2), w2)" "w2 \<in> W" "is_success status"
      "gh_json api body2 = Inr (version_page vs page)"
    using a(2) 1(2) by (auto simp: answers_def)
  have "\<not> is_success 404" by (simp add: is_success_def)
  then show ?thesis using 1 2 False by (intro bexI [of _ w2]) (simp_all add: versions_page_def add_versions_def)
qed

lemma list_versions_loop_served:
  assumes "serves_versions api gc org vs W" "w \<in> W"
  shows "\<exists>w'\<in>W. list_versions_loop api gc 0 (k + 1) (take (100 * k) vs) (t, w) = Some (Inr vs, if org then 1 else 2, w')"
  using assms(2)
proof (induction "length vs - 100 * k" arbitrary: k t w rule: less_induct)
  case less
  obtain w1 where w1: "w1 \<in> W" "versions_page api gc 0 (k + 1) (take (100 * k) vs) (t, w) =
      (Inr (length (version_page vs (k + 1)) < 100, take (100 * k) vs @ version_page vs (k + 1)), if org then 1 else 2, w1)"
    using versions_page_served [OF assms(1) less.prems, of "k + 1"] by auto
  have app: "take (100 * k) vs @ version_page vs (k + 1) = take (100 * (k + 1)) vs"
    by (simp add: version_page_def take_add [symmetric] add.commute)
  show ?case
  proof (cases "length (version_page vs (k + 1)) < 100")
    case True
    then have "length vs \<le> 100 * (k + 1)" by (auto simp: version_page_def)
    then show ?thesis using w1 True app by (intro bexI [of _ w1]) (subst list_versions_loop.simps, simp_all)
  next
    case False
    then have "100 * (k + 1) \<le> length vs" by (auto simp: version_page_def)
    then have "length vs - 100 * (k + 1) < length vs - 100 * k" by simp
    from less.hyps [OF this w1(1)] show ?thesis
      using w1(2) False app by (subst list_versions_loop.simps) (simp add: add.commute)
  qed
qed

lemma list_package_versions_served:
  assumes "serves_versions api gc org vs W" "w \<in> W"
  shows "\<exists>w'\<in>W. list_package_versions api gc (0, w) = Some (Inr vs, if org then 1 else 2, w')"
  using list_versions_loop_served [OF assms, of 0] by (simp add: list_package_versions_def)

text \<open>
  C39. The listing of package versions ends and is complete: for a package of an organisation or of a
  user it returns all versions in order, however many there are, and remembers the kind of owner; the
  version that a tag is looked up for is the first one that carries it.
\<close>

theorem ghcr_versions_complete:
  assumes "serves_versions api gc org vs W" "w \<in> W"
  shows "(\<exists>w'\<in>W. list_package_versions api gc (0, w) = Some (Inr vs, if org then 1 else 2, w'))
    \<and> (\<exists>w'\<in>W. find_version_id_by_tag api gc tag (0, w) =
          Some (Inr (map_option gpv_id (List.find (version_has_tag tag) vs)), if org then 1 else 2, w'))"
  using list_package_versions_served [OF assms] by (auto simp: find_version_id_by_tag_def)

definition sample_packages :: github_packages_client where
  "sample_packages = packages_client_new [] ''o/x''"

definition sample_version :: github_package_version where
  "sample_version = \<lparr>gpv_id = 7, gpv_name = [], gpv_metadata = None\<rparr>"

definition sample_github :: "unit github_api" where
  "sample_github =
     \<lparr>gh_get = \<lambda>url _ _ w. (Inr (if starts_with ''https://api.github.com/users'' url then 200 else 404, [], as_bytes url), w),
      gh_delete = \<lambda>_ _ w. (Inr 204, w),
      gh_json = \<lambda>body. Inr (if body = as_bytes (format_url sample_packages False ''/versions?per_page=100&page=1'')
        then [sample_version] else [])\<rparr>"

lemma show_nat_one: "show_nat n = ''1'' \<longleftrightarrow> n = 1"
proof (cases "n < 10")
  case True
  then have "char_of (48 + n) = CHR ''1'' \<longleftrightarrow> 48 + n = 49" using char_of_eq_iff [of "48 + n" "CHR ''1''"]
    by (auto simp: take_bit_eq_mod)
  with True show ?thesis by (simp add: show_nat.simps [of n])
next
  case False
  then show ?thesis using show_nat_nonempty [of "n div 10"] by (cases "show_nat (n div 10)") (auto simp: show_nat.simps [of n])
qed

lemma sample_serves_versions: "serves_versions sample_github sample_packages False [sample_version] {()}"
proof -
  have "length (version_page [sample_version] page) = (if page = 1 then 1 else 0)" if "page \<ge> 1" for page
    using that by (simp add: version_page_def)
  then have "version_page [sample_version] page = (if page = 1 then [sample_version] else [])" if "page \<ge> 1" for page
    using that by (auto simp: version_page_def)
  then show ?thesis
    by (simp add: serves_versions_def answers_def sample_github_def as_bytes_inj format_url_def starts_with_def is_success_def show_nat_one)
qed

lemma ghcr_versions_complete_witness:
  "\<exists>w'. list_package_versions sample_github sample_packages (0, ()) = Some (Inr [sample_version], 2, w')"
  using ghcr_versions_complete [OF sample_serves_versions, of "()" "[]"] by auto

section \<open>The package of a repository\<close>





end
