(* ===== verification/Oci_Deletion.thy ===== *)
theory Oci_Deletion
  imports Ghcr_Packages Oci_Index Oci_Tags
begin

text \<open>
  Deleting registry objects: \<^verbatim>\<open>client/deletion.rs\<close>, \<^verbatim>\<open>client/deletion/discovery.rs\<close> and
  \<^verbatim>\<open>client/deletion/operations.rs\<close>. The hash maps of a plan are association lists in the order of
  insertion, which stands for the order in which the code goes through them. Operations that list the
  versions of a GitHub package may not end; they return an option. The text of an error is an
  argument.
\<close>

record ('t, 'w) deletion_env =
  de_index :: "('t, 'w) index_env"
  de_show :: "oci_error \<Rightarrow> string"
  de_json_tags :: "bytes \<Rightarrow> string + string list option"
  de_json_value :: "string \<Rightarrow> string + u64 option \<times> string option \<times> (string + oci_artifact_manifest)"
  de_github :: "'w github_api"
  de_token :: string

section \<open>Results\<close>

record blob_deletion_target =
  bdt_digest :: nar_digest
  bdt_size :: u64

datatype manifest_deletion_outcome = ManifestDeleted | ManifestAlreadyAbsent

datatype blob_deletion_outcome = BlobDeleted u64 | BlobAlreadyAbsent

datatype deletion_object_type = ManifestObject | BlobObject | TagObject

datatype deletion_failure_kind =
    PermissionDenied
  | NotSupportedFailure
  | HttpStatusFailure
  | TransportFailure
  | VerificationFailure
  | OtherFailure

record deletion_failure =
  df_digest :: string
  df_object_type :: deletion_object_type
  df_kind :: deletion_failure_kind
  df_details :: "frag list"

record deletion_summary =
  ds_requested_count :: nat
  ds_deleted_count :: nat
  ds_already_absent_count :: nat
  ds_failed_count :: nat
  ds_deleted_bytes :: u64
  ds_failures :: "deletion_failure list"

definition summary_is_complete :: "deletion_summary \<Rightarrow> bool" where
  "summary_is_complete s \<longleftrightarrow> ds_failed_count s = 0 \<and> ds_failed_count s = length (ds_failures s)
     \<and> ds_requested_count s = ds_deleted_count s + ds_already_absent_count s"

datatype deletion_batch_result = CompleteBatch deletion_summary | PartialBatch deletion_summary

datatype package_deletion_scope = TagReachableGraph | NativePackageApi

record package_deletion_summary =
  ps_scope :: package_deletion_scope
  ps_counts_known :: bool
  ps_tags_discovered :: nat
  ps_manifests_discovered :: nat
  ps_blobs_discovered :: nat
  ps_manifests_deleted :: nat
  ps_blobs_deleted :: nat
  ps_manifests_already_absent :: nat
  ps_blobs_already_absent :: nat
  ps_deleted_blob_bytes :: u64
  ps_failures :: "deletion_failure list"
  ps_complete :: bool

definition default_package_summary :: package_deletion_summary where
  "default_package_summary = \<lparr>ps_scope = TagReachableGraph, ps_counts_known = True, ps_tags_discovered = 0,
     ps_manifests_discovered = 0, ps_blobs_discovered = 0, ps_manifests_deleted = 0, ps_blobs_deleted = 0,
     ps_manifests_already_absent = 0, ps_blobs_already_absent = 0, ps_deleted_blob_bytes = 0, ps_failures = [],
     ps_complete = True\<rparr>"

definition failed_count :: "package_deletion_summary \<Rightarrow> nat" where
  "failed_count s = length (ps_failures s)"

definition deletion_failure_of :: "(oci_error \<Rightarrow> string) \<Rightarrow> string \<Rightarrow> deletion_object_type \<Rightarrow> oci_error \<Rightarrow> deletion_failure" where
  "deletion_failure_of show_error digest object_type err =
     \<lparr>df_digest = digest, df_object_type = object_type,
      df_kind = (case err of
          InsufficientPermission _ _ _ \<Rightarrow> PermissionDenied
        | OperationNotSupported _ _ _ \<Rightarrow> NotSupportedFailure
        | DeletionFailed _ _ _ \<Rightarrow> HttpStatusFailure
        | BlobCheckFailed _ \<Rightarrow> HttpStatusFailure
        | BlobUploadFailed _ \<Rightarrow> HttpStatusFailure
        | ManifestFetchFailed _ \<Rightarrow> HttpStatusFailure
        | ManifestPushFailed _ \<Rightarrow> HttpStatusFailure
        | OciTransport _ \<Rightarrow> TransportFailure
        | OciIo _ \<Rightarrow> TransportFailure
        | DeletionVerificationFailed _ _ \<Rightarrow> VerificationFailure
        | _ \<Rightarrow> OtherFailure),
      df_details = [Str (show_error err)]\<rparr>"

section \<open>Single objects\<close>

abbreviation quoted_text :: "string \<Rightarrow> frag" where
  "quoted_text s \<equiv> Str ([CHR 0x27] @ s @ [CHR 0x27])"

fun deletion_strategy_debug :: "registry_deletion_strategy \<Rightarrow> string" where
  "deletion_strategy_debug GitHubPackagesRestApi = ''GitHubPackagesRestApi''"
| "deletion_strategy_debug DockerHubRestApi = ''DockerHubRestApi''"
| "deletion_strategy_debug AwsEcrApi = ''AwsEcrApi''"
| "deletion_strategy_debug StandardOciDelete = ''StandardOciDelete''"
| "deletion_strategy_debug DeletionUnsupported = ''Unsupported''"

definition deleted_answer :: "status_code \<Rightarrow> bool" where
  "deleted_answer status \<longleftrightarrow> is_success status \<or> status = 202 \<or> status = 204"

definition delete_manifest_strict :: "'w oci_requests \<Rightarrow> oci_client \<Rightarrow> string \<Rightarrow> ('w, manifest_deletion_outcome) step" where
  "delete_manifest_strict rq client digest =
     seq (rq_delete rq (manifest_url (cl_endpoint client) (cl_repo client) digest)) (\<lambda>status.
     if deleted_answer status then pure ManifestDeleted
     else if status = 404 then pure ManifestAlreadyAbsent
     else if status = 401 \<or> status = 403
     then fail (InsufficientPermission digest ''delete:manifest''
       [Lit ''HTTP '', Num status, Lit '' from registry when deleting manifest '', Str digest])
     else if status = 405
     then fail (OperationNotSupported ''delete_manifest'' (cl_kind client)
       [Lit ''Registry returned 405 Method Not Allowed for manifest deletion on '', Str digest,
        Lit ''. Backend deletion strategy: '', Str (deletion_strategy_debug (cap_deletion_strategy (cl_capabilities client)))])
     else fail (DeletionFailed digest status [Lit ''HTTP '', Num status, Lit '' when deleting manifest '', Str digest]))"

definition no_blob_deletion :: "oci_client \<Rightarrow> string \<Rightarrow> oci_error" where
  "no_blob_deletion client operation = OperationNotSupported operation (cl_kind client)
     [Lit ''Backend '', quoted_text (kind_display (cl_kind client)),
      Lit '' does not support standalone physical OCI blob deletion. Blobs are automatically reclaimed with package/version removal.'']"

definition delete_blob_strict :: "'w oci_requests \<Rightarrow> oci_client \<Rightarrow> blob_deletion_target \<Rightarrow> ('w, blob_deletion_outcome) step" where
  "delete_blob_strict rq client target =
     (if \<not> cap_supports_blob_physical_deletion (cl_capabilities client)
      then fail (no_blob_deletion client ''delete_blob'')
      else
        let digest = digest_str (bdt_digest target) in
        seq (rq_delete rq (blob_url (cl_endpoint client) (cl_repo client) digest)) (\<lambda>status.
        if deleted_answer status then pure (BlobDeleted (bdt_size target))
        else if status = 404 then pure BlobAlreadyAbsent
        else if status = 401 \<or> status = 403
        then fail (InsufficientPermission digest ''delete:blob''
          [Lit ''HTTP '', Num status, Lit '' from registry when deleting blob '', Str digest])
        else if status = 405
        then fail (OperationNotSupported ''delete_blob'' (cl_kind client)
          [Lit ''Registry returned 405 Method Not Allowed for blob deletion '', Str digest])
        else fail (DeletionFailed digest status [Lit ''HTTP '', Num status, Lit '' when deleting blob '', Str digest])))"

definition standard_delete_tag ::
  "('t, 'w) deletion_env \<Rightarrow> 'w oci_requests \<Rightarrow> oci_client \<Rightarrow> string \<Rightarrow> ('w, unit) step" where
  "standard_delete_tag env rq client tag =
     (let url = manifest_url (cl_endpoint client) (cl_repo client) tag in
      seq (rq_get rq url (lim_max_manifest_bytes (cl_limits client))) (\<lambda>(status, headers, body).
      if status = 404 then pure ()
      else if status = 401 \<or> status = 403
      then fail (InsufficientPermission tag ''pull,delete:manifest''
        [Lit ''HTTP '', Num status, Lit '' when checking manifest tag '', Str tag])
      else if \<not> is_success status
      then fail (DeletionFailed tag status [Lit ''HTTP '', Num status, Lit '' when retrieving tag manifest '', Str tag])
      else
        seq (lift (map_err OciTransport (parse_content_length (headers ''Content-Length'')))) (\<lambda>content_length.
        seq (lift (verify_buffered_body (ie_hash (de_index env)) url None (headers ''Docker-Content-Digest'') None content_length body)) (\<lambda>digest.
        seq (delete_manifest_strict rq client (content_str digest)) (\<lambda>_.
        seq (rq_delete rq url) (\<lambda>tag_status.
        if tag_status \<noteq> 404 \<and> \<not> is_success tag_status \<and> tag_status \<noteq> 202
        then fail (DeletionFailed tag tag_status [Lit ''registry rejected tag deletion''])
        else pure ()))))))"

definition ghcr_client :: "('t, 'w) deletion_env \<Rightarrow> oci_client \<Rightarrow> github_packages_client" where
  "ghcr_client env client = packages_client_new (de_token env) (cl_repo client)"

definition delete_tag_strict ::
  "('t, 'w) deletion_env \<Rightarrow> 'w oci_requests \<Rightarrow> oci_client \<Rightarrow> string \<Rightarrow> 'w \<Rightarrow> ((oci_error + unit) \<times> 'w) option" where
  "delete_tag_strict env rq client tag w = (case cap_deletion_strategy (cl_capabilities client) of
     GitHubPackagesRestApi \<Rightarrow>
       map_option (\<lambda>(r, _, w'). (r, w')) (delete_by_tag (de_github env) (ghcr_client env client) tag (0, w))
   | DeletionUnsupported \<Rightarrow>
       Some (Inl (OperationNotSupported ''delete_tag'' (cl_kind client)
         [Lit ''Registry backend '', quoted_text (kind_display (cl_kind client)), Lit '' does not support tag deletion'']), w)
   | _ \<Rightarrow> Some (standard_delete_tag env rq client tag w))"

section \<open>Batches\<close>

definition add_result ::
  "(oci_error \<Rightarrow> string) \<Rightarrow> string \<Rightarrow> oci_error + blob_deletion_outcome \<Rightarrow> deletion_summary \<Rightarrow> deletion_summary" where
  "add_result show_error digest result s = (case result of
     Inr (BlobDeleted n) \<Rightarrow>
       s\<lparr>ds_deleted_count := ds_deleted_count s + 1, ds_deleted_bytes := saturating_add64 (ds_deleted_bytes s) n\<rparr>
   | Inr BlobAlreadyAbsent \<Rightarrow> s\<lparr>ds_already_absent_count := ds_already_absent_count s + 1\<rparr>
   | Inl e \<Rightarrow>
       s\<lparr>ds_failed_count := ds_failed_count s + 1,
         ds_failures := ds_failures s @ [deletion_failure_of show_error digest BlobObject e]\<rparr>)"

fun delete_blobs ::
  "(oci_error \<Rightarrow> string) \<Rightarrow> 'w oci_requests \<Rightarrow> oci_client \<Rightarrow> deletion_summary \<Rightarrow> blob_deletion_target list \<Rightarrow> 'w \<Rightarrow> deletion_summary \<times> 'w" where
  "delete_blobs show_error rq client s [] w = (s, w)"
| "delete_blobs show_error rq client s (target # targets) w =
     (case delete_blob_strict rq client target w of (result, w') \<Rightarrow>
        delete_blobs show_error rq client (add_result show_error (digest_str (bdt_digest target)) result s) targets w')"

text \<open>
  The requests of a batch run side by side; \<open>completed\<close> lists the targets in the order in which they
  end. The degree of parallelism has no other effect.
\<close>

definition batch_delete_blobs_strict ::
  "(oci_error \<Rightarrow> string) \<Rightarrow> 'w oci_requests \<Rightarrow> oci_client \<Rightarrow> blob_deletion_target list \<Rightarrow> blob_deletion_target list
     \<Rightarrow> ('w, deletion_batch_result) step" where
  "batch_delete_blobs_strict show_error rq client targets completed w =
     (let empty = \<lparr>ds_requested_count = 0, ds_deleted_count = 0, ds_already_absent_count = 0, ds_failed_count = 0,
          ds_deleted_bytes = 0, ds_failures = []\<rparr> in
      if targets = [] then (Inr (CompleteBatch empty), w)
      else if \<not> cap_supports_blob_physical_deletion (cl_capabilities client)
      then (Inl (no_blob_deletion client ''batch_delete_blobs''), w)
      else case delete_blobs show_error rq client (empty\<lparr>ds_requested_count := length targets\<rparr>) completed w of
        (s, w') \<Rightarrow> (Inr (if summary_is_complete s then CompleteBatch s else PartialBatch s), w'))"

section \<open>Discovery\<close>

definition MAX_DELETION_MANIFESTS :: nat where "MAX_DELETION_MANIFESTS = 100000"
definition MAX_DELETION_BLOBS :: nat where "MAX_DELETION_BLOBS = 2000000"

record deletion_plan =
  dp_tags :: "string list"
  dp_manifests :: "(string \<times> string) list"
  dp_blobs :: "(string \<times> u64) list"

definition plan_summary :: "deletion_plan \<Rightarrow> package_deletion_summary" where
  "plan_summary plan = default_package_summary\<lparr>ps_tags_discovered := length (dp_tags plan),
     ps_manifests_discovered := length (dp_manifests plan), ps_blobs_discovered := length (dp_blobs plan)\<rparr>"

definition discovery_error :: "string \<Rightarrow> string \<Rightarrow> frag list \<Rightarrow> oci_error" where
  "discovery_error stage target details = DeletionDiscoveryFailed stage target details"

definition valid_digest :: "string \<Rightarrow> bool" where
  "valid_digest digest \<longleftrightarrow> is_ok (content_digest_parse digest)"

definition insert_blob :: "string \<Rightarrow> u64 \<Rightarrow> (string \<times> u64) list \<Rightarrow> (string \<times> u64) list" where
  "insert_blob digest n blobs = (if map_of blobs digest = None then blobs @ [(digest, n)] else blobs)"

definition plan_add_blob ::
  "oci_client \<Rightarrow> string \<Rightarrow> u64 \<Rightarrow> string \<Rightarrow> string \<Rightarrow> (string \<times> u64) list \<Rightarrow> oci_error + (string \<times> u64) list" where
  "plan_add_blob client digest n target kind blobs =
     (if \<not> valid_digest digest
      then Inl (discovery_error ''blob_descriptor'' target [Lit ''manifest contains an invalid '', Str kind, Lit '' digest''])
      else if length blobs \<ge> MAX_DELETION_BLOBS \<and> map_of blobs digest = None
      then Inl (DeletionObjectLimitExceeded (cl_repo client))
      else Inr (insert_blob digest n blobs))"

definition add_nar_blob ::
  "oci_client \<Rightarrow> string \<Rightarrow> (string \<times> u64) list \<Rightarrow> index_entry \<Rightarrow> oci_error + (string \<times> u64) list" where
  "add_nar_blob client target blobs entry =
     (let digest = digest_str (entry_nar_digest entry) in
      if \<not> valid_digest digest
      then Inl (discovery_error ''shard_decode'' target [Lit ''shard contains an invalid NAR digest''])
      else if length blobs \<ge> MAX_DELETION_BLOBS \<and> map_of blobs digest = None
      then Inl (DeletionObjectLimitExceeded (cl_repo client))
      else Inr (insert_blob digest (entry_nar_size entry) blobs))"

definition add_nar_blobs ::
  "oci_client \<Rightarrow> shard_payload \<Rightarrow> string \<Rightarrow> (string \<times> u64) list \<Rightarrow> oci_error + (string \<times> u64) list" where
  "add_nar_blobs client shard target blobs = try_fold (add_nar_blob client target) blobs (map snd (payload_entries shard))"

text \<open>The systems that a manifest and its layer name, with the source of each.\<close>

definition shard_system_candidates :: "oci_image_manifest \<Rightarrow> oci_descriptor \<Rightarrow> (string \<times> system_arch) list" where
  "shard_system_candidates manifest layer =
     (case od_platform (im_config manifest) of None \<Rightarrow> [] | Some platform \<Rightarrow> [(''manifest config platform'', platform_to_system platform)])
     @ (case od_platform layer of None \<Rightarrow> [] | Some platform \<Rightarrow> [(''shard layer platform'', platform_to_system platform)])
     @ (case annotation_of ''org.nixos.nixcache.system'' (im_annotations manifest) of
          None \<Rightarrow> [] | Some system \<Rightarrow> [(''manifest system annotation'', system_from system)])
     @ (case annotation_of ''org.nixos.nixcache.system'' (od_annotations layer) of
          None \<Rightarrow> [] | Some system \<Rightarrow> [(''shard layer system annotation'', system_from system)])"

definition agree_on_system ::
  "string \<Rightarrow> system_arch option \<Rightarrow> string \<times> system_arch \<Rightarrow> oci_error + system_arch option" where
  "agree_on_system target resolved candidate = (case candidate of (source, system) \<Rightarrow>
     if \<not> is_known system then Inl (discovery_error ''shard_context'' target [Str source, Lit '' is unknown''])
     else if is_some_and (\<lambda>previous. previous \<noteq> system) resolved
     then Inl (discovery_error ''shard_context'' target [Lit ''manifest and shard layer systems do not match''])
     else Inr (Some system))"

definition resolve_shard_system :: "oci_image_manifest \<Rightarrow> oci_descriptor \<Rightarrow> string \<Rightarrow> oci_error + system_arch" where
  "resolve_shard_system manifest layer target =
     result_bind (try_fold (agree_on_system target) None (shard_system_candidates manifest layer)) (\<lambda>resolved.
     ok_or (discovery_error ''shard_context'' target [Lit ''direct shard payload has no manifest or layer system'']) resolved)"

definition parse_discovered_manifest ::
  "('t, 'w) deletion_env \<Rightarrow> string \<Rightarrow> string \<Rightarrow> oci_error + oci_artifact_manifest" where
  "parse_discovered_manifest env body target =
     result_bind (map_err (\<lambda>e. discovery_error ''manifest_json'' target [Str e]) (de_json_value env body)) (\<lambda>(version, media, artifact).
     result_bind (ok_or (discovery_error ''manifest_json'' target [Lit ''missing schemaVersion'']) version) (\<lambda>schema_version.
     if schema_version \<noteq> 2 then Inl (discovery_error ''manifest_json'' target [Lit ''unsupported OCI schemaVersion''])
     else
       result_bind (ok_or (discovery_error ''manifest_json'' target [Lit ''missing mediaType'']) media) (\<lambda>media_type.
       if media_type \<noteq> OCI_IMAGE_INDEX_MEDIA_TYPE \<and> media_type \<noteq> OCI_IMAGE_MANIFEST_MEDIA_TYPE
       then Inl (discovery_error ''manifest_json'' target [Lit ''unsupported OCI manifest media type '', quoted_text media_type])
       else map_err (\<lambda>e. discovery_error ''manifest_json'' target [Str e]) artifact)))"

end
