(* ===== verification/Oci_Discovery.thy ===== *)
theory Oci_Discovery
  imports Oci_Deletion
begin

text \<open>
  What a deletion finds: \<open>discover_tag_reachable_graph\<close> of \<^verbatim>\<open>client/deletion/discovery.rs\<close>. A work list
  holds manifests that were read and not yet visited; the loop ends because each visit records one
  more manifest and their number is limited.
\<close>

text \<open>A \<open>for\<close> loop with \<open>?\<close> and requests in its body.\<close>

fun step_fold :: "('a \<Rightarrow> 's \<Rightarrow> ('w, 's) step) \<Rightarrow> 'a list \<Rightarrow> 's \<Rightarrow> ('w, 's) step" where
  "step_fold f [] s = pure s"
| "step_fold f (x # xs) s = seq (f x s) (step_fold f xs)"

definition at_stage :: "('t, 'w) deletion_env \<Rightarrow> string \<Rightarrow> string \<Rightarrow> ('w, 'a) step \<Rightarrow> ('w, 'a) step" where
  "at_stage env stage target m w =
     (case m w of (r, w') \<Rightarrow> (map_err (\<lambda>e. discovery_error stage target [Str (de_show env e)]) r, w'))"

text \<open>The local variables of the search besides the manifests that were visited.\<close>

record discovery_state =
  di_blobs :: "(string \<times> u64) list"
  di_queued :: "string set"
  di_decoded :: "string set"
  di_pending :: "(string \<times> string \<times> string) list"

section \<open>Reading one manifest\<close>

definition discover_tag ::
  "('t, 'w) deletion_env \<Rightarrow> 'w oci_requests \<Rightarrow> oci_client \<Rightarrow> string \<Rightarrow> discovery_state \<Rightarrow> ('w, discovery_state) step" where
  "discover_tag env rq client tag s =
     seq (at_stage env ''manifest_get'' tag (get_with_digest (ie_hash (de_index env)) (ie_json (de_index env)) rq client tag)) (\<lambda>found.
     case found of
       None \<Rightarrow> pure s
     | Some (body, digest) \<Rightarrow>
         if digest \<in> di_queued s then pure s
         else if card (di_queued s) \<ge> MAX_DELETION_MANIFESTS then fail (DeletionObjectLimitExceeded (cl_repo client))
         else pure (s\<lparr>di_queued := insert digest (di_queued s), di_pending := di_pending s @ [(digest, body, tag)]\<rparr>))"

definition discover_child ::
  "('t, 'w) deletion_env \<Rightarrow> 'w oci_requests \<Rightarrow> oci_client \<Rightarrow> string \<Rightarrow> string \<Rightarrow> oci_descriptor \<Rightarrow> discovery_state
     \<Rightarrow> ('w, discovery_state) step" where
  "discover_child env rq client digest source descriptor s =
     seq (at_stage env ''manifest_descriptor'' digest (lift (od_validate_for descriptor digest (lim_max_manifest_bytes (cl_limits client))))) (\<lambda>_.
     if od_media_type descriptor \<noteq> OCI_IMAGE_INDEX_MEDIA_TYPE \<and> od_media_type descriptor \<noteq> OCI_IMAGE_MANIFEST_MEDIA_TYPE
     then fail (discovery_error ''manifest_descriptor'' digest
       [Lit ''unsupported child manifest media type '', quoted_text (od_media_type descriptor)])
     else if od_digest descriptor \<in> di_queued s then pure s
     else if card (di_queued s) \<ge> MAX_DELETION_MANIFESTS then fail (DeletionObjectLimitExceeded (od_digest descriptor))
     else
       seq (at_stage env ''manifest_get'' (od_digest descriptor)
         (get_with_digest_and_size (ie_hash (de_index env)) (ie_json (de_index env)) rq client (od_digest descriptor) (od_size descriptor))) (\<lambda>found.
       case found of
         None \<Rightarrow> fail (discovery_error ''manifest_get'' (od_digest descriptor) [Lit ''child manifest disappeared during discovery''])
       | Some (child_body, _) \<Rightarrow>
           pure (s\<lparr>di_queued := insert (od_digest descriptor) (di_queued s),
                   di_pending := di_pending s @ [(od_digest descriptor, child_body, source)]\<rparr>)))"

definition discover_shard ::
  "('t, 'w) deletion_env \<Rightarrow> 'w oci_requests \<Rightarrow> oci_client \<Rightarrow> string \<Rightarrow> system_arch \<Rightarrow> shard_descriptor \<Rightarrow> discovery_state
     \<Rightarrow> ('w, discovery_state) step" where
  "discover_shard env rq client layer_digest system shard s =
     (if desc_entry_count shard = 0 then pure s
      else
        let shard_digest = desc_blob_digest shard in
        seq (lift (plan_add_blob client shard_digest (desc_compressed_size shard) layer_digest ''shard'' (di_blobs s))) (\<lambda>blobs.
        if shard_digest \<in> di_decoded s then pure (s\<lparr>di_blobs := blobs\<rparr>)
        else
          seq (at_stage env ''shard_get'' shard_digest (get_shard_data (de_index env) rq client shard system)) (\<lambda>shard_data.
          seq (lift (add_nar_blobs client shard_data shard_digest blobs)) (\<lambda>blobs'.
          pure (s\<lparr>di_blobs := blobs', di_decoded := insert shard_digest (di_decoded s)\<rparr>)))))"

definition discover_root ::
  "('t, 'w) deletion_env \<Rightarrow> 'w oci_requests \<Rightarrow> oci_client \<Rightarrow> oci_descriptor \<Rightarrow> bytes \<Rightarrow> discovery_state \<Rightarrow> ('w, discovery_state) step" where
  "discover_root env rq client layer layer_bytes s =
     (let ie = de_index env in
      seq (at_stage env ''root_index_decode'' (od_digest layer) (lift (decode_zstd (ie_zstd ie)
        (read_root (ie_rfc3339 ie) (ie_hash ie) (ie_index_json ie)) layer_bytes (od_media_type layer)
        (lim_max_index_uncompressed_bytes (cl_limits client))))) (\<lambda>decoded.
      let root = dec_value decoded in
      seq (at_stage env ''root_index_validate'' (od_digest layer) (lift (map_err OciCore (index_validate_for (ie_rfc3339 ie) (ie_hash ie) root
        (idx_system root) (cl_repo client) (ep_authority (cl_endpoint client)) (index_limits_of (cl_limits client)))))) (\<lambda>_.
      step_fold (discover_shard env rq client (od_digest layer) (idx_system root)) (idx_shards root) s)))"

definition discover_direct_shard ::
  "('t, 'w) deletion_env \<Rightarrow> oci_client \<Rightarrow> oci_image_manifest \<Rightarrow> oci_descriptor \<Rightarrow> bytes \<Rightarrow> discovery_state \<Rightarrow> ('w, discovery_state) step" where
  "discover_direct_shard env client manifest layer layer_bytes s =
     (let ie = de_index env in
      seq (at_stage env ''shard_decode'' (od_digest layer) (lift (decode_zstd (ie_zstd ie)
        (read_payload (ie_rfc3339 ie) (ie_index_json ie)) layer_bytes (od_media_type layer)
        (lim_max_index_uncompressed_bytes (cl_limits client))))) (\<lambda>decoded.
      let shard = dec_value decoded in
      seq (lift (resolve_shard_system manifest layer (od_digest layer))) (\<lambda>system.
      seq (at_stage env ''shard_validate'' (od_digest layer) (lift (map_err OciCore (payload_validate_for (ie_rfc3339 ie) shard
        (payload_shard_id shard) system (index_limits_of (cl_limits client)))))) (\<lambda>_.
      seq (lift (add_nar_blobs client shard (od_digest layer) (di_blobs s))) (\<lambda>blobs.
      pure (s\<lparr>di_blobs := blobs\<rparr>))))))"

definition discover_layer ::
  "('t, 'w) deletion_env \<Rightarrow> 'w oci_requests \<Rightarrow> oci_client \<Rightarrow> string \<Rightarrow> oci_image_manifest \<Rightarrow> oci_descriptor \<Rightarrow> discovery_state
     \<Rightarrow> ('w, discovery_state) step" where
  "discover_layer env rq client digest manifest layer s =
     seq (lift (plan_add_blob client (od_digest layer) (od_size layer) digest ''layer'' (di_blobs s))) (\<lambda>blobs.
     case media_type_parse (od_media_type layer) of
       None \<Rightarrow> pure (s\<lparr>di_blobs := blobs\<rparr>)
     | Some layer_type \<Rightarrow>
         seq (at_stage env ''cache_layer_get'' (od_digest layer) (get_descriptor (ie_hash (de_index env)) rq client layer)) (\<lambda>layer_bytes.
         if layer_type = RootIndexV8Zstd then discover_root env rq client layer layer_bytes (s\<lparr>di_blobs := blobs\<rparr>)
         else discover_direct_shard env client manifest layer layer_bytes (s\<lparr>di_blobs := blobs\<rparr>)))"

definition discover_artifact ::
  "('t, 'w) deletion_env \<Rightarrow> 'w oci_requests \<Rightarrow> oci_client \<Rightarrow> string \<Rightarrow> string \<Rightarrow> oci_artifact_manifest \<Rightarrow> discovery_state
     \<Rightarrow> ('w, discovery_state) step" where
  "discover_artifact env rq client digest source artifact s = (case artifact of
     ArtifactIndex ix \<Rightarrow> step_fold (discover_child env rq client digest source) (ix_manifests ix) s
   | ArtifactManifest manifest \<Rightarrow>
       seq (lift (plan_add_blob client (od_digest (im_config manifest)) (od_size (im_config manifest)) digest ''config'' (di_blobs s))) (\<lambda>blobs.
       step_fold (discover_layer env rq client digest manifest) (im_layers manifest) (s\<lparr>di_blobs := blobs\<rparr>)))"

section \<open>The search\<close>

function discover_loop ::
  "('t, 'w) deletion_env \<Rightarrow> 'w oci_requests \<Rightarrow> oci_client \<Rightarrow> (string \<times> string) list \<Rightarrow> discovery_state
     \<Rightarrow> ('w, (string \<times> string) list \<times> (string \<times> u64) list) step" where
  "discover_loop env rq client manifests s w =
     (case di_pending s of
        [] \<Rightarrow> (Inr (manifests, di_blobs s), w)
      | (digest, body, source) # rest \<Rightarrow>
          if map_of manifests digest \<noteq> None then discover_loop env rq client manifests (s\<lparr>di_pending := rest\<rparr>) w
          else if length manifests \<ge> MAX_DELETION_MANIFESTS then (Inl (DeletionObjectLimitExceeded (cl_repo client)), w)
          else (case parse_discovered_manifest env body digest of
              Inl e \<Rightarrow> (Inl e, w)
            | Inr artifact \<Rightarrow>
                (case discover_artifact env rq client digest source artifact (s\<lparr>di_pending := rest\<rparr>) w of
                   (Inl e, w') \<Rightarrow> (Inl e, w')
                 | (Inr s', w') \<Rightarrow> discover_loop env rq client (manifests @ [(digest, body)]) s' w')))"
  by pat_completeness auto
termination
  by (relation "inv_image (less_than <*lex*> less_than)
    (\<lambda>(_, _, _, manifests, s, _). (MAX_DELETION_MANIFESTS - length manifests, length (di_pending s)))") auto

declare discover_loop.simps [simp del]

definition sort_dedup :: "string list \<Rightarrow> string list" where
  "sort_dedup ts = remdups_adj (sort ts)"

definition version_tags :: "github_package_version \<Rightarrow> string list" where
  "version_tags v = (case gpv_metadata v of
     None \<Rightarrow> [] | Some meta \<Rightarrow> (case gvm_container meta of None \<Rightarrow> [] | Some container \<Rightarrow> gcm_tags container))"

definition list_tags_for_deletion ::
  "('t, 'w) deletion_env \<Rightarrow> 'w oci_requests \<Rightarrow> oci_client \<Rightarrow> 'w \<Rightarrow> ((oci_error + string list) \<times> 'w) option" where
  "list_tags_for_deletion env rq client w =
     (case list_tags (de_show env) (de_json_tags env) rq client w of
        (Inl e, w') \<Rightarrow> Some (Inl e, w')
      | (Inr listed, w') \<Rightarrow>
          if tl_tags listed = [] \<and> cap_deletion_strategy (cl_capabilities client) = GitHubPackagesRestApi
          then map_option (\<lambda>(r, _, w''). (map_ok (\<lambda>versions. sort_dedup (concat (map version_tags versions))) r, w''))
            (list_package_versions (de_github env) (ghcr_client env client) (0, w'))
          else Some (Inr (sort_dedup (tl_tags listed)), w'))"

definition discover_from_tags ::
  "('t, 'w) deletion_env \<Rightarrow> 'w oci_requests \<Rightarrow> oci_client \<Rightarrow> string list \<Rightarrow> ('w, deletion_plan) step" where
  "discover_from_tags env rq client tags0 =
     (let tags = sort_dedup tags0 in
      seq (step_fold (discover_tag env rq client) tags
        \<lparr>di_blobs = [], di_queued = {}, di_decoded = {}, di_pending = []\<rparr>) (\<lambda>s.
      seq (discover_loop env rq client [] s) (\<lambda>(manifests, blobs).
      pure \<lparr>dp_tags = tags, dp_manifests = manifests, dp_blobs = blobs\<rparr>)))"

definition discover_tag_reachable_graph ::
  "('t, 'w) deletion_env \<Rightarrow> 'w oci_requests \<Rightarrow> oci_client \<Rightarrow> 'w \<Rightarrow> ((oci_error + deletion_plan) \<times> 'w) option" where
  "discover_tag_reachable_graph env rq client w =
     (case list_tags_for_deletion env rq client w of
        None \<Rightarrow> None
      | Some (Inl e, w') \<Rightarrow> Some (Inl e, w')
      | Some (Inr tags, w') \<Rightarrow> Some (discover_from_tags env rq client tags w'))"

definition preview_package ::
  "('t, 'w) deletion_env \<Rightarrow> 'w oci_requests \<Rightarrow> oci_client \<Rightarrow> 'w \<Rightarrow> ((oci_error + package_deletion_summary) \<times> 'w) option" where
  "preview_package env rq client w =
     map_option (\<lambda>(r, w'). (map_ok plan_summary r, w')) (discover_tag_reachable_graph env rq client w)"

end
