(* ===== verification/Discovery_Exact.thy ===== *)
theory Discovery_Exact
  imports Oci_Discovery Oci_Index_Auth
begin

text \<open>
  Discovery finds exactly the objects that the tags reach. The registry does not change while it is
  read: its world is the type \<open>unit\<close>, so that a read is a function of the request.
\<close>

section \<open>The object graph\<close>

text \<open>The NARs that a shard blob lists, read without regard to the descriptor that names it.\<close>

definition shard_payload_at :: "('t, unit) deletion_env \<Rightarrow> unit oci_requests \<Rightarrow> oci_client \<Rightarrow> string \<Rightarrow> shard_payload \<Rightarrow> bool" where
  "shard_payload_at env rq client digest p \<longleftrightarrow> (\<exists>expected bs decoded.
     fst (get_verified (ie_hash (de_index env)) rq client digest expected ()) = Inr bs
     \<and> decode_zstd (ie_zstd (de_index env)) (read_payload (ie_rfc3339 (de_index env)) (ie_index_json (de_index env))) bs
         SHARD_DATA_V8_ZSTD (lim_max_index_uncompressed_bytes (cl_limits client)) = Inr decoded
     \<and> p = dec_value decoded)"

definition nars :: "shard_payload \<Rightarrow> string set" where
  "nars p = (digest_str \<circ> entry_nar_digest \<circ> snd) ` set (payload_entries p)"

definition shard_refs :: "('t, unit) deletion_env \<Rightarrow> unit oci_requests \<Rightarrow> oci_client \<Rightarrow> string \<Rightarrow> string set" where
  "shard_refs env rq client digest = insert digest (\<Union>p\<in>Collect (shard_payload_at env rq client digest). nars p)"

definition root_at :: "('t, unit) deletion_env \<Rightarrow> oci_client \<Rightarrow> oci_descriptor \<Rightarrow> bytes \<Rightarrow> index_data \<Rightarrow> bool" where
  "root_at env client layer bs root \<longleftrightarrow> (\<exists>decoded.
     decode_zstd (ie_zstd (de_index env)) (read_root (ie_rfc3339 (de_index env)) (ie_hash (de_index env)) (ie_index_json (de_index env)))
       bs (od_media_type layer) (lim_max_index_uncompressed_bytes (cl_limits client)) = Inr decoded \<and> root = dec_value decoded)"

definition direct_payload_at :: "('t, unit) deletion_env \<Rightarrow> oci_client \<Rightarrow> oci_descriptor \<Rightarrow> bytes \<Rightarrow> shard_payload \<Rightarrow> bool" where
  "direct_payload_at env client layer bs p \<longleftrightarrow> (\<exists>decoded.
     decode_zstd (ie_zstd (de_index env)) (read_payload (ie_rfc3339 (de_index env)) (ie_index_json (de_index env)))
       bs (od_media_type layer) (lim_max_index_uncompressed_bytes (cl_limits client)) = Inr decoded \<and> p = dec_value decoded)"

definition layer_at :: "('t, unit) deletion_env \<Rightarrow> unit oci_requests \<Rightarrow> oci_client \<Rightarrow> oci_descriptor \<Rightarrow> bytes \<Rightarrow> bool" where
  "layer_at env rq client layer bs \<longleftrightarrow> fst (get_descriptor (ie_hash (de_index env)) rq client layer ()) = Inr bs"

definition shard_blobs :: "('t, unit) deletion_env \<Rightarrow> unit oci_requests \<Rightarrow> oci_client \<Rightarrow> shard_descriptor \<Rightarrow> string set" where
  "shard_blobs env rq client shard =
     (if desc_entry_count shard = 0 then {} else shard_refs env rq client (desc_blob_digest shard))"

definition layer_refs :: "('t, unit) deletion_env \<Rightarrow> unit oci_requests \<Rightarrow> oci_client \<Rightarrow> oci_descriptor \<Rightarrow> string set" where
  "layer_refs env rq client layer = insert (od_digest layer) (case media_type_parse (od_media_type layer) of
     None \<Rightarrow> {}
   | Some RootIndexV8Zstd \<Rightarrow> (\<Union>root\<in>{root. \<exists>bs. layer_at env rq client layer bs \<and> root_at env client layer bs root}.
        \<Union>shard\<in>set (idx_shards root). shard_blobs env rq client shard)
   | Some ShardDataV8Zstd \<Rightarrow> (\<Union>p\<in>{p. \<exists>bs. layer_at env rq client layer bs \<and> direct_payload_at env client layer bs p}. nars p))"

definition manifest_refs :: "('t, unit) deletion_env \<Rightarrow> unit oci_requests \<Rightarrow> oci_client \<Rightarrow> oci_image_manifest \<Rightarrow> string set" where
  "manifest_refs env rq client m = insert (od_digest (im_config m)) (\<Union>l\<in>set (im_layers m). layer_refs env rq client l)"

text \<open>The answer of the registry for a tag, and for a descriptor in an image index: digest and body.\<close>

definition tag_bodies :: "('t, unit) deletion_env \<Rightarrow> unit oci_requests \<Rightarrow> oci_client \<Rightarrow> string \<Rightarrow> (string \<times> string) set" where
  "tag_bodies env rq client tag = {(digest, body).
     fst (get_with_digest (ie_hash (de_index env)) (ie_json (de_index env)) rq client tag ()) = Inr (Some (body, digest))}"

definition child_bodies :: "('t, unit) deletion_env \<Rightarrow> unit oci_requests \<Rightarrow> oci_client \<Rightarrow> oci_descriptor \<Rightarrow> (string \<times> string) set" where
  "child_bodies env rq client d = {(digest, body). digest = od_digest d \<and> (\<exists>answered.
     fst (get_with_digest_and_size (ie_hash (de_index env)) (ie_json (de_index env)) rq client (od_digest d) (od_size d) ())
       = Inr (Some (body, answered)))}"

inductive reaches ::
  "('t, unit) deletion_env \<Rightarrow> unit oci_requests \<Rightarrow> oci_client \<Rightarrow> string set \<Rightarrow> string \<Rightarrow> string \<Rightarrow> bool"
  for env rq client tags where
  tagged: "tag \<in> tags \<Longrightarrow> (digest, body) \<in> tag_bodies env rq client tag \<Longrightarrow> reaches env rq client tags digest body"
| child: "reaches env rq client tags digest body \<Longrightarrow>
    parse_discovered_manifest env body digest = Inr (ArtifactIndex ix) \<Longrightarrow> d \<in> set (ix_manifests ix) \<Longrightarrow>
    (child_digest, child_body) \<in> child_bodies env rq client d \<Longrightarrow> reaches env rq client tags child_digest child_body"

text \<open>The blobs that the manifests refer to.\<close>

definition blob_reached ::
  "('t, unit) deletion_env \<Rightarrow> unit oci_requests \<Rightarrow> oci_client \<Rightarrow> string set \<Rightarrow> string \<Rightarrow> bool" where
  "blob_reached env rq client tags b \<longleftrightarrow> (\<exists>digest body m. reaches env rq client tags digest body
     \<and> parse_discovered_manifest env body digest = Inr (ArtifactManifest m) \<and> b \<in> manifest_refs env rq client m)"

section \<open>Blobs of a shard\<close>

definition keys :: "('a \<times> 'b) list \<Rightarrow> 'a set" where
  "keys xs = fst ` set xs"

lemma keys_mono: "set xs \<subseteq> set ys \<Longrightarrow> keys xs \<subseteq> keys ys"
  by (auto simp: keys_def)

lemma keys_insert_blob: "keys (insert_blob d n blobs) = insert d (keys blobs)"
  by (auto simp: insert_blob_def map_of_eq_None_iff keys_def)

lemma keys_add_blob: "plan_add_blob client d n target kind blobs = Inr blobs' \<Longrightarrow> keys blobs' = insert d (keys blobs)"
  by (simp add: plan_add_blob_def keys_insert_blob [of d n, symmetric] split: if_splits)

lemma keys_add_nar_blobs: "add_nar_blobs client p target blobs = Inr blobs' \<Longrightarrow> keys blobs' = keys blobs \<union> nars p"
proof -
  have one: "add_nar_blob client target blobs e = Inr blobs' \<Longrightarrow> keys blobs' = insert (digest_str (entry_nar_digest e)) (keys blobs)"
    for blobs blobs' e
    by (simp add: add_nar_blob_def keys_insert_blob [of "digest_str (entry_nar_digest e)" "entry_nar_size e", symmetric] Let_def split: if_splits)
  have "try_fold (add_nar_blob client target) blobs es = Inr blobs' \<Longrightarrow> keys blobs' = keys blobs \<union> (digest_str \<circ> entry_nar_digest) ` set es" for es
  proof (induction es arbitrary: blobs)
    case (Cons e es)
    then obtain b1 where "add_nar_blob client target blobs e = Inr b1" "try_fold (add_nar_blob client target) b1 es = Inr blobs'"
      by (auto simp: result_simps)
    with one Cons.IH show ?case by simp
  qed simp
  then show "add_nar_blobs client p target blobs = Inr blobs' \<Longrightarrow> keys blobs' = keys blobs \<union> nars p"
    by (auto simp: add_nar_blobs_def nars_def image_comp)
qed

text \<open>In a world that does not change, the content of a blob does not depend on the expected size.\<close>

lemma get_verified_content:
  assumes "fst (get_verified H rq client digest e1 ()) = Inr a" "fst (get_verified H rq client digest e2 ()) = Inr b"
  shows "a = b"
  using assms by (auto simp: get_verified_def seq_eq lift_def pure_def fail_def Let_def split: prod.splits sum.splits if_splits)

lemma get_descriptor_content:
  "fst (get_descriptor H rq client d ()) = Inr bs \<Longrightarrow> fst (get_verified H rq client (od_digest d) (Some (od_size d)) ()) = Inr bs"
  by (auto simp: get_descriptor_def seq_eq lift_def split: sum.splits)

lemma shard_payload_unique:
  assumes "shard_payload_at env rq client digest p" "shard_payload_at env rq client digest q"
  shows "p = q"
  using assms get_verified_content [of "ie_hash (de_index env)" rq client digest]
  unfolding shard_payload_at_def by (metis sum.inject(2))

lemma shard_refs_payload: "shard_payload_at env rq client digest p \<Longrightarrow> shard_refs env rq client digest = insert digest (nars p)"
  using shard_payload_unique by (force simp: shard_refs_def)

lemma get_shard_data_payload:
  assumes "fst (get_shard_data (de_index env) rq client shard system ()) = Inr p" "desc_entry_count shard \<noteq> 0"
  shows "shard_payload_at env rq client (desc_blob_digest shard) p"
proof -
  let ?d = "\<lparr>od_media_type = SHARD_DATA_V8_ZSTD, od_digest = desc_blob_digest shard, od_size = desc_compressed_size shard,
      od_platform = None, od_annotations = None\<rparr>"
  have "get_shard_data (de_index env) rq client shard system () = (Inr p, ())"
    using assms(1) by (cases "get_shard_data (de_index env) rq client shard system ()") simp
  then obtain bs decoded where bs: "get_descriptor (ie_hash (de_index env)) rq client ?d () = (Inr bs, ())"
    and d: "decode_zstd (ie_zstd (de_index env)) (read_payload (ie_rfc3339 (de_index env)) (ie_index_json (de_index env))) bs
         SHARD_DATA_V8_ZSTD (lim_max_index_uncompressed_bytes (cl_limits client)) = Inr decoded"
    and c: "check_shard_payload (de_index env) client shard system decoded = Inr p"
    using assms(2) by (auto simp: get_shard_data_def step_simps split: if_splits)
  have "p = dec_value decoded" using c by (auto simp: check_shard_payload_def Let_def result_simps split: if_splits)
  with get_descriptor_content [of "ie_hash (de_index env)" rq client ?d bs] bs d show ?thesis
    unfolding shard_payload_at_def by auto
qed

section \<open>What a step of the search adds\<close>

definition decoded_ok :: "('t, unit) deletion_env \<Rightarrow> unit oci_requests \<Rightarrow> oci_client \<Rightarrow> discovery_state \<Rightarrow> bool" where
  "decoded_ok env rq client s \<longleftrightarrow>
     (\<forall>d\<in>di_decoded s. \<exists>p. shard_payload_at env rq client d p \<and> nars p \<subseteq> keys (di_blobs s))"

text \<open>
  A step adds exactly the blobs \<open>B\<close> and the queued digests \<open>D\<close>; each newly queued digest is pending, and
  what becomes pending is in \<open>P\<close>.
\<close>

definition step_ok ::
  "('t, unit) deletion_env \<Rightarrow> unit oci_requests \<Rightarrow> oci_client \<Rightarrow> string set \<Rightarrow> (string \<times> string) set \<Rightarrow> string set
     \<Rightarrow> discovery_state \<Rightarrow> discovery_state \<Rightarrow> bool" where
  "step_ok env rq client B P D s s' \<longleftrightarrow>
     decoded_ok env rq client s' \<and> keys (di_blobs s') = keys (di_blobs s) \<union> B \<and> di_queued s' = di_queued s \<union> D
     \<and> set (di_pending s) \<subseteq> set (di_pending s') \<and> di_queued s' - di_queued s \<subseteq> keys (di_pending s')
     \<and> (\<forall>d b src. (d, b, src) \<in> set (di_pending s') \<longrightarrow> (d, b, src) \<in> set (di_pending s) \<or> (d, b) \<in> P)"

lemma step_ok_refl: "decoded_ok env rq client s \<Longrightarrow> step_ok env rq client {} {} {} s s"
  by (simp add: step_ok_def)

lemma step_okI:
  assumes "decoded_ok env rq client s'" "keys (di_blobs s') = keys (di_blobs s) \<union> B" "di_queued s' = di_queued s \<union> D"
    and "set (di_pending s) \<subseteq> set (di_pending s')" "di_queued s' - di_queued s \<subseteq> keys (di_pending s')"
    and "\<And>d b src. (d, b, src) \<in> set (di_pending s') \<Longrightarrow> (d, b, src) \<in> set (di_pending s) \<or> (d, b) \<in> P"
  shows "step_ok env rq client B P D s s'"
  using assms by (simp add: step_ok_def)

lemma step_okD:
  assumes "step_ok env rq client B P D s s'"
  shows "decoded_ok env rq client s'" "keys (di_blobs s') = keys (di_blobs s) \<union> B" "di_queued s' = di_queued s \<union> D"
    and "set (di_pending s) \<subseteq> set (di_pending s')" "di_queued s' - di_queued s \<subseteq> keys (di_pending s')"
    and "(d, b, src) \<in> set (di_pending s') \<Longrightarrow> (d, b, src) \<in> set (di_pending s) \<or> (d, b) \<in> P"
  using assms unfolding step_ok_def by blast+

lemma step_ok_trans:
  assumes st: "step_ok env rq client B P D s t" and tu: "step_ok env rq client B' P' D' t u"
  shows "step_ok env rq client (B \<union> B') (P \<union> P') (D \<union> D') s u"
proof (rule step_okI)
  show "decoded_ok env rq client u" by (rule step_okD(1) [OF tu])
  show "keys (di_blobs u) = keys (di_blobs s) \<union> (B \<union> B')"
    by (simp only: step_okD(2) [OF tu] step_okD(2) [OF st] Un_assoc)
  show "di_queued u = di_queued s \<union> (D \<union> D')"
    by (simp only: step_okD(3) [OF tu] step_okD(3) [OF st] Un_assoc)
  show "set (di_pending s) \<subseteq> set (di_pending u)" by (rule subset_trans [OF step_okD(4) [OF st] step_okD(4) [OF tu]])
  have "keys (di_pending t) \<subseteq> keys (di_pending u)" by (rule keys_mono [OF step_okD(4) [OF tu]])
  then show "di_queued u - di_queued s \<subseteq> keys (di_pending u)"
    using step_okD(5) [OF st] step_okD(5) [OF tu] by (rule_tac subsetI) blast
  show "(d, b, src) \<in> set (di_pending s) \<or> (d, b) \<in> P \<union> P'" if "(d, b, src) \<in> set (di_pending u)" for d b src
    using step_okD(6) [OF tu that] step_okD(6) [OF st, of d b src] by blast
qed

lemma step_fold_ok:
  assumes "\<And>x s s'. x \<in> set xs \<Longrightarrow> decoded_ok env rq client s \<Longrightarrow> f x s () = (Inr s', ()) \<Longrightarrow> step_ok env rq client (B x) (P x) (D x) s s'"
    and "decoded_ok env rq client s" "step_fold f xs s () = (Inr s', ())"
  shows "step_ok env rq client (\<Union>x\<in>set xs. B x) (\<Union>x\<in>set xs. P x) (\<Union>x\<in>set xs. D x) s s'"
  using assms
proof (induction xs arbitrary: s)
  case Nil
  then show ?case by (simp add: pure_def step_ok_refl)
next
  case (Cons x xs)
  obtain t where t: "f x s () = (Inr t, ())" "step_fold f xs t () = (Inr s', ())"
    using Cons.prems(3) by (auto simp: seq_Inr)
  have 1: "step_ok env rq client (B x) (P x) (D x) s t" using Cons.prems(1) [OF _ Cons.prems(2) t(1)] by simp
  have "step_ok env rq client (\<Union>x\<in>set xs. B x) (\<Union>x\<in>set xs. P x) (\<Union>x\<in>set xs. D x) t s'"
  proof (rule Cons.IH)
    show "step_ok env rq client (B y) (P y) (D y) v v'" if "y \<in> set xs" "decoded_ok env rq client v" "f y v () = (Inr v', ())" for y v v'
      by (rule Cons.prems(1) [OF _ that(2,3)]) (simp add: that(1))
  qed (rule step_okD(1) [OF 1], rule t(2))
  from step_ok_trans [OF 1 this] show ?case by simp
qed

lemma decoded_okI:
  "(\<And>d. d \<in> di_decoded s \<Longrightarrow> \<exists>p. shard_payload_at env rq client d p \<and> nars p \<subseteq> keys (di_blobs s)) \<Longrightarrow> decoded_ok env rq client s"
  by (simp add: decoded_ok_def)

lemma decoded_ok_grow:
  assumes "decoded_ok env rq client s" "di_decoded t = di_decoded s" "keys (di_blobs s) \<subseteq> keys (di_blobs t)"
  shows "decoded_ok env rq client t"
proof (rule decoded_okI)
  fix d assume "d \<in> di_decoded t"
  then obtain p where "shard_payload_at env rq client d p" "nars p \<subseteq> keys (di_blobs s)"
    using assms(1,2) by (auto simp: decoded_ok_def)
  with assms(3) show "\<exists>p. shard_payload_at env rq client d p \<and> nars p \<subseteq> keys (di_blobs t)" by (blast intro: subset_trans)
qed

lemma blobs_step:
  assumes "decoded_ok env rq client s" "keys blobs = keys (di_blobs s) \<union> B"
  shows "step_ok env rq client B {} {} s (s\<lparr>di_blobs := blobs\<rparr>)"
proof (rule step_okI)
  show "decoded_ok env rq client (s\<lparr>di_blobs := blobs\<rparr>)" by (rule decoded_ok_grow [OF assms(1)]) (simp_all add: assms(2))
qed (simp_all add: assms(2))

lemma at_stage_Inr: "at_stage env stage target m () = (Inr x, ()) \<longleftrightarrow> m () = (Inr x, ())"
  by (auto simp: at_stage_def map_err_eq_Inr split: prod.splits)

lemma discover_shard_ok:
  assumes "decoded_ok env rq client s" "discover_shard env rq client layer_digest system shard s () = (Inr s', ())"
  shows "step_ok env rq client (shard_blobs env rq client shard) {} {} s s'"
proof (cases "desc_entry_count shard = 0")
  case True
  then show ?thesis using assms by (simp add: discover_shard_def shard_blobs_def pure_def step_ok_refl)
next
  case False
  let ?d = "desc_blob_digest shard"
  obtain blobs where add: "plan_add_blob client ?d (desc_compressed_size shard) layer_digest ''shard'' (di_blobs s) = Inr blobs"
    using assms(2) False by (auto simp: discover_shard_def step_simps Let_def)
  note k = keys_add_blob [OF add]
  show ?thesis
  proof (cases "?d \<in> di_decoded s")
    case True
    then obtain p where p: "shard_payload_at env rq client ?d p" "nars p \<subseteq> keys (di_blobs s)" using assms(1) by (auto simp: decoded_ok_def)
    have "s' = s\<lparr>di_blobs := blobs\<rparr>" using assms(2) False True add by (auto simp: discover_shard_def step_simps Let_def)
    moreover have "keys blobs = keys (di_blobs s) \<union> shard_blobs env rq client shard"
      using k p False by (auto simp: shard_blobs_def shard_refs_payload [OF p(1)])
    ultimately show ?thesis using blobs_step [OF assms(1)] by simp
  next
    case new: False
    obtain p blobs' where p: "get_shard_data (de_index env) rq client shard system () = (Inr p, ())"
      "add_nar_blobs client p ?d blobs = Inr blobs'" "s' = s\<lparr>di_blobs := blobs', di_decoded := insert ?d (di_decoded s)\<rparr>"
      using assms(2) False new add by (auto simp: discover_shard_def step_simps Let_def at_stage_Inr)
    have at: "shard_payload_at env rq client ?d p" using get_shard_data_payload [OF _ False, of env rq client system p] p(1) by simp
    have k': "keys blobs' = insert ?d (keys (di_blobs s)) \<union> nars p" using keys_add_nar_blobs [OF p(2)] k by simp
    have "decoded_ok env rq client s'"
    proof (rule decoded_okI)
      fix d assume "d \<in> di_decoded s'"
      then consider "d = ?d" | "d \<in> di_decoded s" using p(3) by auto
      then show "\<exists>q. shard_payload_at env rq client d q \<and> nars q \<subseteq> keys (di_blobs s')"
      proof cases
        case 1
        then show ?thesis using at k' p(3) by auto
      next
        case 2
        then obtain q where "shard_payload_at env rq client d q" "nars q \<subseteq> keys (di_blobs s)" using assms(1) by (auto simp: decoded_ok_def)
        then show ?thesis using k' p(3) by (intro exI [of _ q]) auto
      qed
    qed
    then show ?thesis using k' p(3) False by (auto simp: step_ok_def shard_blobs_def shard_refs_payload [OF at])
  qed
qed

lemma discover_root_ok:
  assumes "decoded_ok env rq client s" "discover_root env rq client layer bs s () = (Inr s', ())"
  obtains root where "root_at env client layer bs root"
    "step_ok env rq client (\<Union>shard\<in>set (idx_shards root). shard_blobs env rq client shard) {} {} s s'"
proof -
  obtain decoded where d: "decode_zstd (ie_zstd (de_index env)) (read_root (ie_rfc3339 (de_index env)) (ie_hash (de_index env))
        (ie_index_json (de_index env))) bs (od_media_type layer) (lim_max_index_uncompressed_bytes (cl_limits client)) = Inr decoded"
    and fold: "step_fold (discover_shard env rq client (od_digest layer) (idx_system (dec_value decoded)))
        (idx_shards (dec_value decoded)) s () = (Inr s', ())"
    using assms(2) by (auto simp: discover_root_def Let_def seq_Inr at_stage_Inr lift_def)
  have "root_at env client layer bs (dec_value decoded)" using d by (auto simp: root_at_def)
  moreover have "step_ok env rq client (\<Union>shard\<in>set (idx_shards (dec_value decoded)). shard_blobs env rq client shard) {} {} s s'"
    using step_fold_ok [OF discover_shard_ok assms(1) fold] by simp
  ultimately show thesis by (rule that)
qed

lemma discover_direct_shard_ok:
  assumes "decoded_ok env rq client s" "discover_direct_shard env client manifest layer bs s () = (Inr s', ())"
  obtains p where "direct_payload_at env client layer bs p" "step_ok env rq client (nars p) {} {} s s'"
proof -
  obtain decoded blobs where d: "decode_zstd (ie_zstd (de_index env)) (read_payload (ie_rfc3339 (de_index env)) (ie_index_json (de_index env)))
        bs (od_media_type layer) (lim_max_index_uncompressed_bytes (cl_limits client)) = Inr decoded"
    and b: "add_nar_blobs client (dec_value decoded) (od_digest layer) (di_blobs s) = Inr blobs" "s' = s\<lparr>di_blobs := blobs\<rparr>"
    using assms(2) by (auto simp: discover_direct_shard_def Let_def seq_Inr at_stage_Inr lift_def pure_def)
  have "direct_payload_at env client layer bs (dec_value decoded)" using d by (auto simp: direct_payload_at_def)
  moreover have "step_ok env rq client (nars (dec_value decoded)) {} {} s s'"
    using blobs_step [OF assms(1) keys_add_nar_blobs [OF b(1)]] b(2) by simp
  ultimately show thesis by (rule that)
qed

lemma layer_refs_root:
  assumes "media_type_parse (od_media_type layer) = Some RootIndexV8Zstd" "layer_at env rq client layer bs" "root_at env client layer bs root"
  shows "layer_refs env rq client layer = insert (od_digest layer) (\<Union>shard\<in>set (idx_shards root). shard_blobs env rq client shard)"
proof -
  have "{root. \<exists>bs. layer_at env rq client layer bs \<and> root_at env client layer bs root} = {root}"
    using assms(2,3) by (auto simp: layer_at_def root_at_def)
  then show ?thesis using assms(1) by (simp add: layer_refs_def)
qed

lemma layer_refs_direct:
  assumes "media_type_parse (od_media_type layer) = Some ShardDataV8Zstd" "layer_at env rq client layer bs" "direct_payload_at env client layer bs p"
  shows "layer_refs env rq client layer = insert (od_digest layer) (nars p)"
proof -
  have "{p. \<exists>bs. layer_at env rq client layer bs \<and> direct_payload_at env client layer bs p} = {p}"
    using assms(2,3) by (auto simp: layer_at_def direct_payload_at_def)
  then show ?thesis using assms(1) by (simp add: layer_refs_def)
qed

lemma discover_layer_ok:
  assumes "decoded_ok env rq client s" "discover_layer env rq client digest manifest layer s () = (Inr s', ())"
  shows "step_ok env rq client (layer_refs env rq client layer) {} {} s s'"
proof -
  obtain blobs where add: "plan_add_blob client (od_digest layer) (od_size layer) digest ''layer'' (di_blobs s) = Inr blobs"
    using assms(2) by (auto simp: discover_layer_def seq_Inr lift_def)
  let ?t = "s\<lparr>di_blobs := blobs\<rparr>"
  have t: "step_ok env rq client {od_digest layer} {} {} s ?t"
    using blobs_step [OF assms(1), of blobs "{od_digest layer}"] keys_add_blob [OF add] by simp
  show ?thesis
  proof (cases "media_type_parse (od_media_type layer)")
    case None
    then show ?thesis using assms(2) add t by (auto simp: discover_layer_def seq_Inr lift_def pure_def layer_refs_def)
  next
    case (Some layer_type)
    obtain bs where bs: "layer_at env rq client layer bs"
      and r: "(if layer_type = RootIndexV8Zstd then discover_root env rq client layer bs ?t
          else discover_direct_shard env client manifest layer bs ?t) () = (Inr s', ())"
      using assms(2) add Some by (auto simp: discover_layer_def seq_Inr lift_def at_stage_Inr layer_at_def)
    show ?thesis
    proof (cases layer_type)
      case RootIndexV8Zstd
      then have "discover_root env rq client layer bs ?t () = (Inr s', ())" using r by simp
      from discover_root_ok [OF step_okD(1) [OF t] this] obtain root where root: "root_at env client layer bs root"
        "step_ok env rq client (\<Union>shard\<in>set (idx_shards root). shard_blobs env rq client shard) {} {} ?t s'" .
      show ?thesis using step_ok_trans [OF t root(2)] layer_refs_root [OF _ bs root(1)] Some RootIndexV8Zstd by simp
    next
      case ShardDataV8Zstd
      then have "discover_direct_shard env client manifest layer bs ?t () = (Inr s', ())" using r by simp
      from discover_direct_shard_ok [OF step_okD(1) [OF t] this] obtain p where p: "direct_payload_at env client layer bs p"
        "step_ok env rq client (nars p) {} {} ?t s'" .
      show ?thesis using step_ok_trans [OF t p(2)] layer_refs_direct [OF _ bs p(1)] Some ShardDataV8Zstd by simp
    qed
  qed
qed

lemma queue_step:
  assumes "decoded_ok env rq client s" "(d, body) \<in> P"
  shows "step_ok env rq client {} P {d} s (s\<lparr>di_queued := insert d (di_queued s), di_pending := di_pending s @ [(d, body, source)]\<rparr>)"
proof (rule step_okI)
  show "decoded_ok env rq client (s\<lparr>di_queued := insert d (di_queued s), di_pending := di_pending s @ [(d, body, source)]\<rparr>)"
    by (rule decoded_ok_grow [OF assms(1)]) simp_all
qed (use assms(2) in \<open>auto simp: keys_def\<close>)

lemma queued_step: "decoded_ok env rq client s \<Longrightarrow> D \<subseteq> di_queued s \<Longrightarrow> step_ok env rq client {} P D s s"
  by (auto simp: step_ok_def)

lemma discover_child_ok:
  assumes "decoded_ok env rq client s" "discover_child env rq client digest source d s () = (Inr s', ())"
  shows "step_ok env rq client {} (child_bodies env rq client d) {od_digest d} s s'"
proof (cases "od_digest d \<in> di_queued s")
  case True
  then have "s' = s" using assms(2) by (auto simp: discover_child_def seq_Inr pure_def fail_def split: if_splits)
  then show ?thesis using queued_step [OF assms(1)] True by simp
next
  case False
  obtain body answered where
    "get_with_digest_and_size (ie_hash (de_index env)) (ie_json (de_index env)) rq client (od_digest d) (od_size d) () = (Inr (Some (body, answered)), ())"
    and s': "s' = s\<lparr>di_queued := insert (od_digest d) (di_queued s), di_pending := di_pending s @ [(od_digest d, body, source)]\<rparr>"
    using assms(2) False
    by (auto simp: discover_child_def seq_Inr at_stage_Inr pure_def fail_def split: if_splits option.splits)
  then have "(od_digest d, body) \<in> child_bodies env rq client d" by (auto simp: child_bodies_def)
  from queue_step [OF assms(1) this] s' show ?thesis by simp
qed

lemma discover_tag_ok:
  assumes "decoded_ok env rq client s" "discover_tag env rq client tag s () = (Inr s', ())"
  shows "step_ok env rq client {} (tag_bodies env rq client tag) (fst ` tag_bodies env rq client tag) s s'"
proof -
  obtain found where found: "get_with_digest (ie_hash (de_index env)) (ie_json (de_index env)) rq client tag () = (Inr found, ())"
    using assms(2) by (auto simp: discover_tag_def seq_Inr at_stage_Inr)
  show ?thesis
  proof (cases found)
    case None
    then have "tag_bodies env rq client tag = {}" "s' = s"
      using assms(2) found by (auto simp: tag_bodies_def discover_tag_def seq_Inr at_stage_Inr pure_def)
    then show ?thesis using step_ok_refl [OF assms(1)] by simp
  next
    case (Some answer)
    obtain body digest where answer: "answer = (body, digest)" by (cases answer)
    have t: "tag_bodies env rq client tag = {(digest, body)}" using found Some answer by (auto simp: tag_bodies_def)
    show ?thesis
    proof (cases "digest \<in> di_queued s")
      case True
      then have "s' = s" using assms(2) found Some answer by (auto simp: discover_tag_def seq_Inr at_stage_Inr pure_def)
      then show ?thesis using queued_step [OF assms(1)] True t by simp
    next
      case False
      then have "s' = s\<lparr>di_queued := insert digest (di_queued s), di_pending := di_pending s @ [(digest, body, tag)]\<rparr>"
        using assms(2) found Some answer by (auto simp: discover_tag_def seq_Inr at_stage_Inr pure_def fail_def split: if_splits)
      then show ?thesis using queue_step [OF assms(1), of digest body] t by simp
    qed
  qed
qed

text \<open>What a manifest adds: blobs, and children that are read.\<close>

fun artifact_blobs :: "('t, unit) deletion_env \<Rightarrow> unit oci_requests \<Rightarrow> oci_client \<Rightarrow> oci_artifact_manifest \<Rightarrow> string set" where
  "artifact_blobs env rq client (ArtifactIndex ix) = {}"
| "artifact_blobs env rq client (ArtifactManifest m) = manifest_refs env rq client m"

fun artifact_children :: "oci_artifact_manifest \<Rightarrow> oci_descriptor set" where
  "artifact_children (ArtifactIndex ix) = set (ix_manifests ix)"
| "artifact_children (ArtifactManifest m) = {}"

lemma discover_artifact_ok:
  assumes "decoded_ok env rq client s" "discover_artifact env rq client digest source artifact s () = (Inr s', ())"
  shows "step_ok env rq client (artifact_blobs env rq client artifact)
    (\<Union>d\<in>artifact_children artifact. child_bodies env rq client d) (od_digest ` artifact_children artifact) s s'"
proof (cases artifact)
  case (ArtifactIndex ix)
  then have fold: "step_fold (discover_child env rq client digest source) (ix_manifests ix) s () = (Inr s', ())"
    using assms(2) by (simp add: discover_artifact_def)
  have "step_ok env rq client (\<Union>d\<in>set (ix_manifests ix). {}) (\<Union>d\<in>set (ix_manifests ix). child_bodies env rq client d)
      (\<Union>d\<in>set (ix_manifests ix). {od_digest d}) s s'"
    by (rule step_fold_ok [OF _ assms(1) fold]) (rule discover_child_ok)
  then show ?thesis using ArtifactIndex by (simp add: UNION_singleton_eq_range)
next
  case (ArtifactManifest m)
  obtain blobs where add: "plan_add_blob client (od_digest (im_config m)) (od_size (im_config m)) digest ''config'' (di_blobs s) = Inr blobs"
    and fold: "step_fold (discover_layer env rq client digest m) (im_layers m) (s\<lparr>di_blobs := blobs\<rparr>) () = (Inr s', ())"
    using assms(2) ArtifactManifest by (auto simp: discover_artifact_def seq_Inr lift_def)
  have t: "step_ok env rq client {od_digest (im_config m)} {} {} s (s\<lparr>di_blobs := blobs\<rparr>)"
    using blobs_step [OF assms(1), of blobs "{od_digest (im_config m)}"] keys_add_blob [OF add] by simp
  have "step_ok env rq client (\<Union>l\<in>set (im_layers m). layer_refs env rq client l) (\<Union>l\<in>set (im_layers m). {}) (\<Union>l\<in>set (im_layers m). {})
      (s\<lparr>di_blobs := blobs\<rparr>) s'"
    by (rule step_fold_ok [OF _ step_okD(1) [OF t] fold]) (rule discover_layer_ok)
  from step_ok_trans [OF t this] show ?thesis using ArtifactManifest by (simp add: manifest_refs_def)
qed

section \<open>The search finds what is reached\<close>

text \<open>A visited manifest was reached, its children are queued and its blobs recorded.\<close>

definition visited_ok ::
  "('t, unit) deletion_env \<Rightarrow> unit oci_requests \<Rightarrow> oci_client \<Rightarrow> string set \<Rightarrow> discovery_state \<Rightarrow> string \<times> string \<Rightarrow> bool" where
  "visited_ok env rq client tags s m \<longleftrightarrow> reaches env rq client tags (fst m) (snd m)
     \<and> (\<exists>artifact. parse_discovered_manifest env (snd m) (fst m) = Inr artifact
          \<and> od_digest ` artifact_children artifact \<subseteq> di_queued s \<and> artifact_blobs env rq client artifact \<subseteq> keys (di_blobs s))"

definition search_ok ::
  "('t, unit) deletion_env \<Rightarrow> unit oci_requests \<Rightarrow> oci_client \<Rightarrow> string set \<Rightarrow> (string \<times> string) list \<Rightarrow> discovery_state \<Rightarrow> bool" where
  "search_ok env rq client tags manifests s \<longleftrightarrow>
     decoded_ok env rq client s
     \<and> di_queued s \<subseteq> keys manifests \<union> keys (di_pending s)
     \<and> (\<Union>t\<in>tags. fst ` tag_bodies env rq client t) \<subseteq> di_queued s
     \<and> (\<forall>d b src. (d, b, src) \<in> set (di_pending s) \<longrightarrow> reaches env rq client tags d b)
     \<and> (\<forall>m\<in>set manifests. visited_ok env rq client tags s m)
     \<and> (\<forall>b\<in>keys (di_blobs s). blob_reached env rq client tags b)"

lemma search_okI:
  assumes "decoded_ok env rq client s" "di_queued s \<subseteq> keys manifests \<union> keys (di_pending s)"
    and "(\<Union>t\<in>tags. fst ` tag_bodies env rq client t) \<subseteq> di_queued s"
    and "\<And>d b src. (d, b, src) \<in> set (di_pending s) \<Longrightarrow> reaches env rq client tags d b"
    and "\<And>m. m \<in> set manifests \<Longrightarrow> visited_ok env rq client tags s m"
    and "\<And>b. b \<in> keys (di_blobs s) \<Longrightarrow> blob_reached env rq client tags b"
  shows "search_ok env rq client tags manifests s"
  using assms by (simp add: search_ok_def)

lemma search_okD:
  assumes "search_ok env rq client tags manifests s"
  shows "decoded_ok env rq client s" "di_queued s \<subseteq> keys manifests \<union> keys (di_pending s)"
    and "(\<Union>t\<in>tags. fst ` tag_bodies env rq client t) \<subseteq> di_queued s"
    and "(d, b, src) \<in> set (di_pending s) \<Longrightarrow> reaches env rq client tags d b"
    and "m \<in> set manifests \<Longrightarrow> visited_ok env rq client tags s m"
    and "x \<in> keys (di_blobs s) \<Longrightarrow> blob_reached env rq client tags x"
  using assms unfolding search_ok_def by blast+

lemma visited_ok_grow:
  assumes "visited_ok env rq client tags s m" "di_queued s \<subseteq> di_queued t" "keys (di_blobs s) \<subseteq> keys (di_blobs t)"
  shows "visited_ok env rq client tags t m"
proof -
  obtain artifact where "parse_discovered_manifest env (snd m) (fst m) = Inr artifact"
    "od_digest ` artifact_children artifact \<subseteq> di_queued s" "artifact_blobs env rq client artifact \<subseteq> keys (di_blobs s)"
    using assms(1) unfolding visited_ok_def by (elim conjE exE)
  with assms show ?thesis by (simp add: visited_ok_def subset_trans)
qed

lemma search_skip:
  assumes ok: "search_ok env rq client tags manifests s" and pending: "di_pending s = (digest, body, source) # rest"
    and seen: "digest \<in> keys manifests"
  shows "search_ok env rq client tags manifests (s\<lparr>di_pending := rest\<rparr>)"
proof (rule search_okI)
  show "decoded_ok env rq client (s\<lparr>di_pending := rest\<rparr>)" by (rule decoded_ok_grow [OF search_okD(1) [OF ok]]) simp_all
  have "keys (di_pending s) = insert digest (keys rest)" using pending by (simp add: keys_def)
  then show "di_queued (s\<lparr>di_pending := rest\<rparr>) \<subseteq> keys manifests \<union> keys (di_pending (s\<lparr>di_pending := rest\<rparr>))"
    using search_okD(2) [OF ok] seen by auto
  show "reaches env rq client tags d b" if "(d, b, src) \<in> set (di_pending (s\<lparr>di_pending := rest\<rparr>))" for d b src
    by (rule search_okD(4) [OF ok, of d b src]) (use that pending in simp)
  show "visited_ok env rq client tags (s\<lparr>di_pending := rest\<rparr>) m" if "m \<in> set manifests" for m
    by (rule visited_ok_grow [OF search_okD(5) [OF ok that]]) simp_all
qed (use search_okD(3) [OF ok] search_okD(6) [OF ok] in simp_all)

lemma reached_children:
  assumes "reaches env rq client tags digest body" "parse_discovered_manifest env body digest = Inr artifact"
    "(d, b) \<in> (\<Union>c\<in>artifact_children artifact. child_bodies env rq client c)"
  shows "reaches env rq client tags d b"
proof (cases artifact)
  case (ArtifactIndex ix)
  then obtain c where "c \<in> set (ix_manifests ix)" "(d, b) \<in> child_bodies env rq client c" using assms(3) by auto
  with assms(1,2) ArtifactIndex show ?thesis by (auto intro: reaches.child)
qed (use assms(3) in simp)

lemma reached_artifact_blobs:
  assumes "reaches env rq client tags digest body" "parse_discovered_manifest env body digest = Inr artifact"
    "b \<in> artifact_blobs env rq client artifact"
  shows "blob_reached env rq client tags b"
  using assms by (cases artifact) (auto simp: blob_reached_def)

lemma search_visit:
  assumes ok: "search_ok env rq client tags manifests s" and pending: "di_pending s = (digest, body, source) # rest"
    and parse: "parse_discovered_manifest env body digest = Inr artifact"
    and art: "discover_artifact env rq client digest source artifact (s\<lparr>di_pending := rest\<rparr>) () = (Inr s', ())"
  shows "search_ok env rq client tags (manifests @ [(digest, body)]) s'"
proof -
  have reached: "reaches env rq client tags digest body" using search_okD(4) [OF ok, of digest body source] pending by simp
  have "decoded_ok env rq client (s\<lparr>di_pending := rest\<rparr>)" by (rule decoded_ok_grow [OF search_okD(1) [OF ok]]) simp_all
  note step = step_okD [OF discover_artifact_ok [OF this art]]
  have p: "keys rest \<subseteq> keys (di_pending s')" using keys_mono [OF step(4)] by simp
  have k: "keys (manifests @ [(digest, body)]) = insert digest (keys manifests)" by (auto simp: keys_def)
  have pk: "keys (di_pending s) = insert digest (keys rest)" using pending by (simp add: keys_def)
  show ?thesis
  proof (rule search_okI)
    show "decoded_ok env rq client s'" by (rule step(1))
    show "di_queued s' \<subseteq> keys (manifests @ [(digest, body)]) \<union> keys (di_pending s')"
    proof
      fix x assume "x \<in> di_queued s'"
      then consider "x \<in> di_queued s" | "x \<in> di_queued s' - di_queued (s\<lparr>di_pending := rest\<rparr>)" by auto
      then show "x \<in> keys (manifests @ [(digest, body)]) \<union> keys (di_pending s')"
      proof cases
        case 1
        then have "x \<in> keys manifests \<union> keys (di_pending s)" using search_okD(2) [OF ok] by (rule rev_subsetD)
        then show ?thesis unfolding k pk using p by blast
      next
        case 2
        then show ?thesis using step(5) by blast
      qed
    qed
    show "(\<Union>t\<in>tags. fst ` tag_bodies env rq client t) \<subseteq> di_queued s'"
      by (rule subset_trans [OF search_okD(3) [OF ok]]) (simp add: step(3))
    show "reaches env rq client tags d b" if "(d, b, src) \<in> set (di_pending s')" for d b src
      using step(6) [OF that] search_okD(4) [OF ok, of d b src] pending reached_children [OF reached parse, of d b] by auto
    show "visited_ok env rq client tags s' m" if "m \<in> set (manifests @ [(digest, body)])" for m
    proof (cases "m = (digest, body)")
      case True
      then show ?thesis using reached parse by (simp add: visited_ok_def step(2,3))
    next
      case False
      then have "m \<in> set manifests" using that by simp
      then show ?thesis by (rule visited_ok_grow [OF search_okD(5) [OF ok]]) (simp_all add: step(2,3))
    qed
    show "blob_reached env rq client tags b" if "b \<in> keys (di_blobs s')" for b
      using that search_okD(6) [OF ok] reached_artifact_blobs [OF reached parse] by (auto simp: step(2))
  qed
qed

lemma discover_loop_ok:
  assumes "discover_loop env rq client manifests s () = (Inr (found, blobs), ())" "search_ok env rq client tags manifests s"
  shows "\<exists>t. search_ok env rq client tags found t \<and> di_pending t = [] \<and> di_blobs t = blobs"
  using assms
proof (induction env rq client manifests s "()" rule: discover_loop.induct)
  case (1 env rq client manifests s)
  show ?case
  proof (cases "di_pending s")
    case Nil
    then show ?thesis using "1.prems" by (auto simp: discover_loop.simps [of env rq client manifests s])
  next
    case (Cons p rest)
    obtain digest body source where p: "p = (digest, body, source)" by (cases p)
    note pending = Cons [unfolded p]
    note unfold = discover_loop.simps [of env rq client manifests s]
    show ?thesis
    proof (cases "map_of manifests digest")
      case (Some x)
      then have "digest \<in> keys manifests" by (auto simp: keys_def dest: map_of_SomeD intro: rev_image_eqI)
      from search_skip [OF "1.prems"(2) pending this] "1.prems"(1) Some pending
      show ?thesis by (intro "1.hyps"(1) [OF pending refl refl]) (auto simp: unfold)
    next
      case None
      obtain artifact s' where step: "parse_discovered_manifest env body digest = Inr artifact"
        "discover_artifact env rq client digest source artifact (s\<lparr>di_pending := rest\<rparr>) () = (Inr s', ())"
        "discover_loop env rq client (manifests @ [(digest, body)]) s' () = (Inr (found, blobs), ())"
        "\<not> length manifests \<ge> MAX_DELETION_MANIFESTS"
        using "1.prems"(1) None pending by (auto simp: unfold split: if_splits sum.splits prod.splits)
      from search_visit [OF "1.prems"(2) pending step(1,2)] step None pending
      show ?thesis by (intro "1.hyps"(2) [OF pending refl refl _ step(4) step(1)]) auto
    qed
  qed
qed

text \<open>The work list after the tags.\<close>

lemma discover_tags_ok:
  assumes "step_fold (discover_tag env rq client) tags \<lparr>di_blobs = [], di_queued = {}, di_decoded = {}, di_pending = []\<rparr> () = (Inr s, ())"
  shows "search_ok env rq client (set tags) [] s"
proof -
  let ?s0 = "\<lparr>di_blobs = [], di_queued = {}, di_decoded = {}, di_pending = []\<rparr>"
  have "decoded_ok env rq client ?s0" by (simp add: decoded_ok_def)
  have "step_ok env rq client (\<Union>t\<in>set tags. {}) (\<Union>t\<in>set tags. tag_bodies env rq client t)
      (\<Union>t\<in>set tags. fst ` tag_bodies env rq client t) ?s0 s"
    by (rule step_fold_ok [OF _ \<open>decoded_ok env rq client ?s0\<close> assms]) (rule discover_tag_ok)
  note step = step_okD [OF this]
  have none: "keys [] = {}" by (simp add: keys_def)
  show ?thesis
  proof (rule search_okI)
    show "reaches env rq client (set tags) d b" if "(d, b, src) \<in> set (di_pending s)" for d b src
      using step(6) [OF that] by (auto intro: reaches.tagged)
  qed (use step(1,2,3,5) in \<open>simp_all add: none\<close>)
qed

lemma search_complete:
  assumes ok: "search_ok env rq client tags manifests s" and "di_pending s = []"
    and unique: "\<And>d b b'. reaches env rq client tags d b \<Longrightarrow> reaches env rq client tags d b' \<Longrightarrow> b = b'"
    and "reaches env rq client tags d b"
  shows "(d, b) \<in> set manifests"
proof -
  have queued: "\<exists>b. (d, b) \<in> set manifests" if "d \<in> di_queued s" for d
    using that search_okD(2) [OF ok] assms(2) by (fastforce simp: keys_def)
  have known: "(d, b) \<in> set manifests" if "d \<in> di_queued s" "reaches env rq client tags d b" for d b
  proof -
    from queued [OF that(1)] obtain b' where b': "(d, b') \<in> set manifests" by (elim exE)
    then have "reaches env rq client tags d b'" using search_okD(5) [OF ok b'] by (simp add: visited_ok_def)
    then show ?thesis using unique [OF that(2)] b' by simp
  qed
  from assms(4) show ?thesis
  proof induction
    case (tagged tag digest body)
    have "digest \<in> fst ` tag_bodies env rq client tag" using tagged(2) by (rule rev_image_eqI) simp
    then have "digest \<in> di_queued s" using search_okD(3) [OF ok] tagged(1) by blast
    then show ?case by (rule known) (rule reaches.tagged [OF tagged])
  next
    case (child digest body ix d child_digest child_body)
    have "visited_ok env rq client tags s (digest, body)" by (rule search_okD(5) [OF ok child.IH])
    then have "od_digest d \<in> di_queued s" using child(2,3) by (auto simp: visited_ok_def)
    moreover have "child_digest = od_digest d" using child(4) by (simp add: child_bodies_def)
    ultimately show ?case by (intro known reaches.child [OF child(1-4)]) simp
  qed
qed

lemma search_blobs:
  assumes ok: "search_ok env rq client tags manifests s" and "di_pending s = []"
    and unique: "\<And>d b b'. reaches env rq client tags d b \<Longrightarrow> reaches env rq client tags d b' \<Longrightarrow> b = b'"
  shows "keys (di_blobs s) = {b. blob_reached env rq client tags b}"
proof (intro set_eqI iffI CollectI)
  show "blob_reached env rq client tags b" if "b \<in> keys (di_blobs s)" for b by (rule search_okD(6) [OF ok that])
next
  fix b assume "b \<in> {b. blob_reached env rq client tags b}"
  then obtain digest body m where m: "reaches env rq client tags digest body"
    "parse_discovered_manifest env body digest = Inr (ArtifactManifest m)" "b \<in> manifest_refs env rq client m"
    by (auto simp: blob_reached_def)
  have "visited_ok env rq client tags s (digest, body)"
    by (rule search_okD(5) [OF ok search_complete [OF ok assms(2) unique m(1)]])
  then show "b \<in> keys (di_blobs s)" using m(2,3) by (auto simp: visited_ok_def)
qed

lemma set_sort_dedup: "set (sort_dedup ts) = set ts"
  by (simp add: sort_dedup_def)

text \<open>
  C5. Discovery is exact: over a registry that does not change, when discovery succeeds, the manifests of
  the plan are those that the tags reach through image indices, with their bytes, and the blobs of the
  plan are the configurations, layers, shards and NARs that these manifests refer to. The hypothesis
  on digests says that no two different manifests among those reached share a digest.
\<close>

theorem discovery_exact:
  assumes "list_tags_for_deletion env rq client () = Some (Inr tags, ())"
    and "discover_tag_reachable_graph env rq client () = Some (Inr plan, ())"
    and unique: "\<And>d b b'. reaches env rq client (set tags) d b \<Longrightarrow> reaches env rq client (set tags) d b' \<Longrightarrow> b = b'"
  shows "set (dp_tags plan) = set tags
    \<and> set (dp_manifests plan) = {(d, b). reaches env rq client (set tags) d b}
    \<and> keys (dp_blobs plan) = {b. blob_reached env rq client (set tags) b}"
proof -
  have "discover_from_tags env rq client tags () = (Inr plan, ())" using assms(1,2) by (simp add: discover_tag_reachable_graph_def)
  then obtain s manifests blobs where
    s: "step_fold (discover_tag env rq client) (sort_dedup tags) \<lparr>di_blobs = [], di_queued = {}, di_decoded = {}, di_pending = []\<rparr> () = (Inr s, ())"
    and loop: "discover_loop env rq client [] s () = (Inr (manifests, blobs), ())"
    and plan: "plan = \<lparr>dp_tags = sort_dedup tags, dp_manifests = manifests, dp_blobs = blobs\<rparr>"
    by (auto simp: discover_from_tags_def Let_def seq_Inr pure_def)
  obtain t where ok: "search_ok env rq client (set tags) manifests t" and t: "di_pending t = []" "di_blobs t = blobs"
    using discover_loop_ok [OF loop discover_tags_ok [OF s]] by (auto simp: set_sort_dedup)
  have "(d, b) \<in> set manifests \<longleftrightarrow> reaches env rq client (set tags) d b" for d b
  proof
    show "reaches env rq client (set tags) d b" if "(d, b) \<in> set manifests"
      using search_okD(5) [OF ok that] by (simp add: visited_ok_def)
  qed (rule search_complete [OF ok t(1) unique])
  then have "set manifests = {(d, b). reaches env rq client (set tags) d b}" by auto
  then show ?thesis using search_blobs [OF ok t(1) unique] plan t(2) by (simp add: set_sort_dedup)
qed

text \<open>A registry with one tag, whose manifest has a configuration and no layers.\<close>

definition sample_deletion_env :: "(nat, unit) deletion_env" where
  "sample_deletion_env =
     \<lparr>de_index = \<lparr>ie_rfc3339 = sample_rfc3339, ie_hash = sample_H,
        ie_zstd = \<lparr>zs_compress = \<lambda>bs _. Inr bs, zs_decoder = \<lambda>bs. Inr (bs, None)\<rparr>,
        ie_index_json = ie_index_json sample_index_env, ie_json = ie_json sample_index_env, ie_resolve = Inr, ie_utc_now = \<lambda>_. ''now''\<rparr>,
      de_show = \<lambda>_. ''e'', de_json_tags = sample_json_tags [''a''],
      de_json_value = \<lambda>_. Inr (Some 2, Some OCI_IMAGE_MANIFEST_MEDIA_TYPE, Inr (ArtifactManifest
        ((build_sharded_arch_index_manifest ''now'' sample_root_params)\<lparr>im_layers := []\<rparr>))),
      de_github = sample_github, de_token = []\<rparr>"

definition sample_plan :: deletion_plan where
  "sample_plan = \<lparr>dp_tags = [''a''], dp_manifests = [(format_digest (sample_H []), [])],
     dp_blobs = [(EMPTY_CONFIG_DIGEST, EMPTY_CONFIG_SIZE)]\<rparr>"

lemma sample_tag_list: "list_tags_for_deletion sample_deletion_env (sample_tags_requests [''a'']) sample_client () = Some (Inr [''a''], ())"
proof -
  have "fst (list_tags (\<lambda>_. ''e'') (sample_json_tags [''a'']) (sample_tags_requests [''a'']) sample_client ()) = Inr \<lparr>tl_tags = [''a''], tl_pages_fetched = 1\<rparr>"
    using list_tags_loop_exact [OF sample_serves [of "[''a'']"], of "()" 0 "\<lambda>_. ''e''"]
    by (simp add: list_tags_def tags_after_def PAGE_SIZE_def MAX_TAG_PAGES_def)
  then show ?thesis
    by (cases "list_tags (\<lambda>_. ''e'') (sample_json_tags [''a'']) (sample_tags_requests [''a'']) sample_client ()")
      (simp add: list_tags_for_deletion_def sample_deletion_env_def sort_dedup_def)
qed

lemma sample_manifest_query: "length (sample_query (manifest_url sample_endpoint ''me'' ''a'')) = 2"
  by code_simp

lemma sample_manifest_body: "sample_tags_get [''a''] (manifest_url sample_endpoint ''me'' ''a'') n () = (Inr (200, \<lambda>_. None, []), ())"
  using sample_manifest_query by (simp add: sample_tags_get_def)

lemma sample_tag_get:
  "get_with_digest sample_H (ie_json sample_index_env) (sample_tags_requests [''a'']) sample_client ''a'' ()
     = (Inr (Some ([], format_digest (sample_H []))), ())"
proof -
  have "verify_buffered_body sample_H t None None None None [] = Inr (ContentDigest (format_digest (sample_H [])))" for t
    by (simp add: verify_buffered_body_Inr [of sample_H, OF sample_H_length])
  then show ?thesis
    by (simp add: get_with_digest_def get_with_expected_size_def is_some_and_def Let_def seq_eq lift_def pure_def
        sample_tags_requests_def sample_manifest_body parse_content_length_def map_err_def from_utf8_def ok_or_def starts_with_def
        sample_client_def)
qed

lemma sample_parse: "parse_discovered_manifest sample_deletion_env body target =
    Inr (ArtifactManifest ((build_sharded_arch_index_manifest ''now'' sample_root_params)\<lparr>im_layers := []\<rparr>))"
  by (simp add: parse_discovered_manifest_def sample_deletion_env_def map_err_def ok_or_def)

lemma sample_env_fields:
  "ie_hash (de_index sample_deletion_env) = sample_H" "ie_json (de_index sample_deletion_env) = ie_json sample_index_env"
  "de_github sample_deletion_env = sample_github" "de_show sample_deletion_env = (\<lambda>_. ''e'')"
  "de_json_tags sample_deletion_env = sample_json_tags [''a'']"
  by (simp_all add: sample_deletion_env_def)

lemma sample_reaches:
  "reaches sample_deletion_env (sample_tags_requests [''a'']) sample_client {''a''} d b \<Longrightarrow> b = []"
  by (induction rule: reaches.induct) (auto simp: tag_bodies_def sample_tag_get sample_env_fields sample_parse)

lemma sample_manifests_limit: "0 < MAX_DELETION_MANIFESTS" "0 < MAX_DELETION_BLOBS"
  by (simp_all add: MAX_DELETION_MANIFESTS_def MAX_DELETION_BLOBS_def)

lemma sample_config_blob:
  "plan_add_blob sample_client EMPTY_CONFIG_DIGEST EMPTY_CONFIG_SIZE target ''config'' [] = Inr [(EMPTY_CONFIG_DIGEST, EMPTY_CONFIG_SIZE)]"
proof -
  have "valid_digest EMPTY_CONFIG_DIGEST"
    using empty_config_sha content_digest_parse_Inr [of EMPTY_CONFIG_DIGEST "ContentDigest EMPTY_CONFIG_DIGEST"] by (simp add: valid_digest_def is_ok_def)
  then show ?thesis
    using sample_manifests_limit by (simp add: plan_add_blob_def insert_blob_def)
qed

lemma sample_discovered:
  "discover_tag_reachable_graph sample_deletion_env (sample_tags_requests [''a'']) sample_client () = Some (Inr sample_plan, ())"
proof -
  let ?start = "\<lparr>di_blobs = [], di_queued = {}, di_decoded = {}, di_pending = []\<rparr>"
  let ?d = "format_digest (sample_H [])"
  let ?s = "\<lparr>di_blobs = [], di_queued = {?d}, di_decoded = {}, di_pending = [(?d, [], ''a'')]\<rparr>"
  have tag: "discover_tag sample_deletion_env (sample_tags_requests [''a'']) sample_client ''a'' ?start () = (Inr ?s, ())"
    using sample_manifests_limit
    by (simp add: discover_tag_def seq_eq at_stage_def sample_tag_get sample_env_fields pure_def map_err_def)
  have loop: "discover_loop sample_deletion_env (sample_tags_requests [''a'']) sample_client [] ?s ()
      = (Inr ([(?d, [])], [(EMPTY_CONFIG_DIGEST, EMPTY_CONFIG_SIZE)]), ())"
    using sample_manifests_limit
    by (simp add: discover_loop.simps sample_parse discover_artifact_def sample_config_blob seq_eq lift_def pure_def
        build_sharded_arch_index_manifest_def sample_root_params_def Let_def)
  have "discover_from_tags sample_deletion_env (sample_tags_requests [''a'']) sample_client [''a''] () = (Inr sample_plan, ())"
    using tag loop by (simp add: discover_from_tags_def Let_def sort_dedup_def seq_Inr pure_def sample_plan_def)
  then show ?thesis by (simp add: discover_tag_reachable_graph_def sample_tag_list)
qed

lemma sample_unique:
  assumes "reaches sample_deletion_env (sample_tags_requests [''a'']) sample_client (set [''a'']) d b"
    "reaches sample_deletion_env (sample_tags_requests [''a'']) sample_client (set [''a'']) d b'"
  shows "b = b'"
  using assms sample_reaches [of d b] sample_reaches [of d b'] by simp

theorem discovery_exact_witness:
  "set (dp_manifests sample_plan) = {(d, b). reaches sample_deletion_env (sample_tags_requests [''a'']) sample_client {''a''} d b}
    \<and> keys (dp_blobs sample_plan) = {b. blob_reached sample_deletion_env (sample_tags_requests [''a'']) sample_client {''a''} b}
    \<and> dp_manifests sample_plan \<noteq> []"
  using discovery_exact [OF sample_tag_list sample_discovered sample_unique] by (simp add: sample_plan_def)

end
