(* ===== verification/Package_Deletion.thy ===== *)
theory Package_Deletion
  imports Discovery_Exact
begin

text \<open>
  Deleting a whole package, \<open>delete_entire_package_strict\<close> of \<^verbatim>\<open>client/deletion/operations.rs\<close>: what was
  discovered is deleted, then the registry is asked whether any of it is left. Deletion runs to the
  end once discovery has succeeded, and a summary that says complete is right.
\<close>

section \<open>The operation\<close>

definition verify_manifest_absent :: "'w oci_requests \<Rightarrow> oci_client \<Rightarrow> string \<Rightarrow> ('w, unit) step" where
  "verify_manifest_absent rq client digest =
     seq (rq_head rq (manifest_url (cl_endpoint client) (cl_repo client) digest)) (\<lambda>(status, _).
     if status = 404 then pure ()
     else if status = 200 then fail (DeletionVerificationFailed digest [Lit ''manifest is still present after DELETE''])
     else fail (DeletionVerificationFailed digest [Lit ''manifest verification returned HTTP '', Num status]))"

definition push_failure :: "deletion_failure \<Rightarrow> package_deletion_summary \<Rightarrow> package_deletion_summary" where
  "push_failure f s = s\<lparr>ps_failures := ps_failures s @ [f]\<rparr>"

definition add_manifest_result ::
  "(oci_error \<Rightarrow> string) \<Rightarrow> string \<Rightarrow> oci_error + manifest_deletion_outcome \<Rightarrow> package_deletion_summary \<Rightarrow> package_deletion_summary" where
  "add_manifest_result show_error digest result s = (case result of
     Inr ManifestDeleted \<Rightarrow> s\<lparr>ps_manifests_deleted := ps_manifests_deleted s + 1\<rparr>
   | Inr ManifestAlreadyAbsent \<Rightarrow> s\<lparr>ps_manifests_already_absent := ps_manifests_already_absent s + 1\<rparr>
   | Inl e \<Rightarrow> push_failure (deletion_failure_of show_error digest ManifestObject e) s)"

definition add_blob_result ::
  "(oci_error \<Rightarrow> string) \<Rightarrow> string \<Rightarrow> oci_error + blob_deletion_outcome \<Rightarrow> package_deletion_summary \<Rightarrow> package_deletion_summary" where
  "add_blob_result show_error digest result s = (case result of
     Inr (BlobDeleted n) \<Rightarrow>
       s\<lparr>ps_blobs_deleted := ps_blobs_deleted s + 1, ps_deleted_blob_bytes := saturating_add64 (ps_deleted_blob_bytes s) n\<rparr>
   | Inr BlobAlreadyAbsent \<Rightarrow> s\<lparr>ps_blobs_already_absent := ps_blobs_already_absent s + 1\<rparr>
   | Inl e \<Rightarrow> push_failure (deletion_failure_of show_error digest BlobObject e) s)"

fun delete_plan_manifests ::
  "(oci_error \<Rightarrow> string) \<Rightarrow> 'w oci_requests \<Rightarrow> oci_client \<Rightarrow> string list \<Rightarrow> package_deletion_summary \<Rightarrow> 'w
     \<Rightarrow> package_deletion_summary \<times> 'w" where
  "delete_plan_manifests show_error rq client [] s w = (s, w)"
| "delete_plan_manifests show_error rq client (digest # rest) s w =
     (case delete_manifest_strict rq client digest w of (result, w') \<Rightarrow>
        delete_plan_manifests show_error rq client rest (add_manifest_result show_error digest result s) w')"

fun delete_plan_blobs ::
  "(oci_error \<Rightarrow> string) \<Rightarrow> 'w oci_requests \<Rightarrow> oci_client \<Rightarrow> deletion_plan \<Rightarrow> string list \<Rightarrow> package_deletion_summary
     \<Rightarrow> ('w, package_deletion_summary) step" where
  "delete_plan_blobs show_error rq client plan [] s w = (Inr s, w)"
| "delete_plan_blobs show_error rq client plan (digest # rest) s w =
     (case nar_digest_parse digest of
        Inl e \<Rightarrow> (Inl (from_type_error e), w)
      | Inr d \<Rightarrow>
          (case delete_blob_strict rq client \<lparr>bdt_digest = d, bdt_size = the (map_of (dp_blobs plan) digest)\<rparr> w of
             (result, w') \<Rightarrow> delete_plan_blobs show_error rq client plan rest (add_blob_result show_error digest result s) w'))"

definition verify_tags ::
  "('t, 'w) deletion_env \<Rightarrow> 'w oci_requests \<Rightarrow> oci_client \<Rightarrow> package_deletion_summary \<Rightarrow> 'w \<Rightarrow> (package_deletion_summary \<times> 'w) option" where
  "verify_tags env rq client s w = map_option (\<lambda>(r, w'). (case r of
       Inr remaining_tags \<Rightarrow>
         if remaining_tags \<noteq> []
         then push_failure \<lparr>df_digest = cl_repo client, df_object_type = TagObject, df_kind = VerificationFailure,
           df_details = [Num (length remaining_tags), Lit '' tag(s) remain after deleting the discovered graph'']\<rparr> s
         else s
     | Inl e \<Rightarrow> push_failure (deletion_failure_of (de_show env) (cl_repo client) TagObject e) s, w'))
     (list_tags_for_deletion env rq client w)"

fun verify_manifests ::
  "(oci_error \<Rightarrow> string) \<Rightarrow> 'w oci_requests \<Rightarrow> oci_client \<Rightarrow> string list \<Rightarrow> package_deletion_summary \<Rightarrow> 'w
     \<Rightarrow> package_deletion_summary \<times> 'w" where
  "verify_manifests show_error rq client [] s w = (s, w)"
| "verify_manifests show_error rq client (digest # rest) s w =
     (case verify_manifest_absent rq client digest w of
        (Inr _, w') \<Rightarrow> verify_manifests show_error rq client rest s w'
      | (Inl e, w') \<Rightarrow> verify_manifests show_error rq client rest (push_failure (deletion_failure_of show_error digest ManifestObject e) s) w')"

fun verify_blobs ::
  "(oci_error \<Rightarrow> string) \<Rightarrow> 'w oci_requests \<Rightarrow> oci_client \<Rightarrow> string list \<Rightarrow> package_deletion_summary \<Rightarrow> 'w
     \<Rightarrow> package_deletion_summary \<times> 'w" where
  "verify_blobs show_error rq client [] s w = (s, w)"
| "verify_blobs show_error rq client (digest # rest) s w =
     (case blob_head rq client digest w of (r, w') \<Rightarrow>
        verify_blobs show_error rq client rest
          (case r of
             Inr True \<Rightarrow> push_failure \<lparr>df_digest = digest, df_object_type = BlobObject, df_kind = VerificationFailure,
               df_details = [Lit ''blob is still present after DELETE'']\<rparr> s
           | Inr False \<Rightarrow> s
           | Inl e \<Rightarrow> push_failure (deletion_failure_of show_error digest BlobObject e) s) w')"

definition delete_tagged_graph ::
  "('t, 'w) deletion_env \<Rightarrow> 'w oci_requests \<Rightarrow> oci_client \<Rightarrow> deletion_plan \<Rightarrow> 'w
     \<Rightarrow> ((oci_error + package_deletion_summary) \<times> 'w) option" where
  "delete_tagged_graph env rq client plan w =
     (case delete_plan_manifests (de_show env) rq client (sort (map fst (dp_manifests plan))) (plan_summary plan) w of (s1, w1) \<Rightarrow>
      case delete_plan_blobs (de_show env) rq client plan (sort (map fst (dp_blobs plan))) s1 w1 of
        (Inl e, w2) \<Rightarrow> Some (Inl e, w2)
      | (Inr s2, w2) \<Rightarrow>
          (case verify_tags env rq client s2 w2 of
             None \<Rightarrow> None
           | Some (s3, w3) \<Rightarrow>
               (case verify_manifests (de_show env) rq client (map fst (dp_manifests plan)) s3 w3 of (s4, w4) \<Rightarrow>
                case verify_blobs (de_show env) rq client (map fst (dp_blobs plan)) s4 w4 of (s5, w5) \<Rightarrow>
                Some (Inr (s5\<lparr>ps_complete := (ps_failures s5 = [])\<rparr>), w5))))"

definition delete_entire_package_strict ::
  "('t, 'w) deletion_env \<Rightarrow> 'w oci_requests \<Rightarrow> oci_client \<Rightarrow> 'w \<Rightarrow> ((oci_error + package_deletion_summary) \<times> 'w) option" where
  "delete_entire_package_strict env rq client w = (case cap_package_deletion_support (cl_capabilities client) of
     NativeComplete \<Rightarrow>
       (case ghcr_delete_entire_package (de_github env) (ghcr_client env client) (0, w) of (r, _, w') \<Rightarrow>
        Some (map_ok (\<lambda>_. default_package_summary\<lparr>ps_scope := NativePackageApi, ps_counts_known := False\<rparr>) r, w'))
   | TaggedGraphOnly \<Rightarrow>
       (case discover_tag_reachable_graph env rq client w of
          None \<Rightarrow> None
        | Some (Inl e, w') \<Rightarrow> Some (Inl e, w')
        | Some (Inr plan, w') \<Rightarrow> delete_tagged_graph env rq client plan w')
   | PackageDeletionUnsupported \<Rightarrow>
       Some (Inl (OperationNotSupported ''delete_package'' (cl_kind client)
         [Lit ''Registry backend '', quoted_text (kind_display (cl_kind client)), Lit '' cannot prove complete package deletion'']), w))"

section \<open>Digests of a plan\<close>

definition blobs_valid :: "(string \<times> u64) list \<Rightarrow> bool" where
  "blobs_valid blobs \<longleftrightarrow> (\<forall>d\<in>keys blobs. valid_digest d)"

lemma blobs_valid_insert: "blobs_valid blobs \<Longrightarrow> valid_digest d \<Longrightarrow> blobs_valid (insert_blob d n blobs)"
  by (simp add: blobs_valid_def keys_insert_blob)

lemma blobs_valid_add: "plan_add_blob client d n target kind blobs = Inr blobs' \<Longrightarrow> blobs_valid blobs \<Longrightarrow> blobs_valid blobs'"
  by (auto simp: plan_add_blob_def blobs_valid_insert split: if_splits)

lemma blobs_valid_nar: "add_nar_blob client target blobs e = Inr blobs' \<Longrightarrow> blobs_valid blobs \<Longrightarrow> blobs_valid blobs'"
  by (auto simp: add_nar_blob_def Let_def blobs_valid_insert split: if_splits)

lemma try_fold_keeps:
  assumes "try_fold f s xs = Inr t" "I s" and step: "\<And>s x t. f s x = Inr t \<Longrightarrow> I s \<Longrightarrow> I t"
  shows "I t"
  using assms(1,2)
proof (induction xs arbitrary: s)
  case (Cons x xs)
  then show ?case using step by (auto simp: result_simps)
qed simp

lemma step_fold_keeps:
  assumes "step_fold f xs s w = (Inr t, w')" "I s" and step: "\<And>x s w t w'. f x s w = (Inr t, w') \<Longrightarrow> I s \<Longrightarrow> I t"
  shows "I t"
  using assms(1,2)
proof (induction xs arbitrary: s w)
  case (Cons x xs)
  obtain u w1 where "f x s w = (Inr u, w1)" "step_fold f xs u w1 = (Inr t, w')" using Cons.prems(1) by (auto simp: seq_Inr)
  then show ?case using Cons.IH step [of x s w u w1] Cons.prems(2) by simp
qed (simp add: pure_def)

lemma blobs_valid_nars: "add_nar_blobs client p target blobs = Inr blobs' \<Longrightarrow> blobs_valid blobs \<Longrightarrow> blobs_valid blobs'"
  unfolding add_nar_blobs_def by (erule (1) try_fold_keeps [where I = blobs_valid]) (rule blobs_valid_nar)

lemma discover_child_valid:
  "discover_child env rq client digest source d s w = (Inr s', w') \<Longrightarrow> blobs_valid (di_blobs s) \<Longrightarrow> blobs_valid (di_blobs s')"
  by (auto simp: discover_child_def seq_Inr pure_def fail_def split: if_splits option.splits)

lemma discover_tag_valid:
  "discover_tag env rq client tag s w = (Inr s', w') \<Longrightarrow> blobs_valid (di_blobs s) \<Longrightarrow> blobs_valid (di_blobs s')"
  by (clarsimp simp: discover_tag_def seq_Inr) (auto simp: pure_def fail_def split: if_splits option.splits)

lemma discover_shard_valid:
  "discover_shard env rq client digest system shard s w = (Inr s', w') \<Longrightarrow> blobs_valid (di_blobs s) \<Longrightarrow> blobs_valid (di_blobs s')"
  by (auto simp: discover_shard_def Let_def seq_Inr pure_def lift_def split: if_splits dest: blobs_valid_add blobs_valid_nars)

lemma discover_root_valid:
  assumes "discover_root env rq client layer bs s w = (Inr s', w')" "blobs_valid (di_blobs s)"
  shows "blobs_valid (di_blobs s')"
proof -
  obtain root :: index_data and w1 where
    "step_fold (discover_shard env rq client (od_digest layer) (idx_system root)) (idx_shards root) s w1 = (Inr s', w')"
    using assms(1) by (auto simp: discover_root_def Let_def seq_Inr)
  then show ?thesis using assms(2) by (rule step_fold_keeps [where I = "\<lambda>s. blobs_valid (di_blobs s)"]) (rule discover_shard_valid)
qed

lemma discover_direct_shard_valid:
  "discover_direct_shard env client m layer bs s w = (Inr s', w') \<Longrightarrow> blobs_valid (di_blobs s) \<Longrightarrow> blobs_valid (di_blobs s')"
  by (auto simp: discover_direct_shard_def Let_def seq_Inr pure_def lift_def dest: blobs_valid_nars)

lemma discover_layer_valid:
  assumes "discover_layer env rq client digest m layer s w = (Inr s', w')" "blobs_valid (di_blobs s)"
  shows "blobs_valid (di_blobs s')"
proof -
  obtain blobs where add: "plan_add_blob client (od_digest layer) (od_size layer) digest ''layer'' (di_blobs s) = Inr blobs"
    using assms(1) by (auto simp: discover_layer_def seq_Inr lift_def)
  have v: "blobs_valid (di_blobs (s\<lparr>di_blobs := blobs\<rparr>))" using blobs_valid_add [OF add assms(2)] by simp
  show ?thesis
  proof (cases "media_type_parse (od_media_type layer)")
    case None
    then show ?thesis using assms(1) add v by (auto simp: discover_layer_def seq_Inr lift_def pure_def)
  next
    case (Some layer_type)
    then show ?thesis
      using assms(1) add discover_root_valid [OF _ v] discover_direct_shard_valid [OF _ v]
      by (clarsimp simp: discover_layer_def seq_Inr lift_def) (auto split: if_splits)
  qed
qed

lemma discover_artifact_valid:
  assumes "discover_artifact env rq client digest source artifact s w = (Inr s', w')" "blobs_valid (di_blobs s)"
  shows "blobs_valid (di_blobs s')"
proof (cases artifact)
  case (ArtifactIndex ix)
  then have "step_fold (discover_child env rq client digest source) (ix_manifests ix) s w = (Inr s', w')"
    using assms(1) by (simp add: discover_artifact_def)
  then show ?thesis using assms(2) by (rule step_fold_keeps [where I = "\<lambda>s. blobs_valid (di_blobs s)"]) (rule discover_child_valid)
next
  case (ArtifactManifest m)
  obtain blobs w1 where add: "plan_add_blob client (od_digest (im_config m)) (od_size (im_config m)) digest ''config'' (di_blobs s) = Inr blobs"
    and fold: "step_fold (discover_layer env rq client digest m) (im_layers m) (s\<lparr>di_blobs := blobs\<rparr>) w1 = (Inr s', w')"
    using assms(1) ArtifactManifest by (auto simp: discover_artifact_def seq_Inr lift_def)
  have "blobs_valid (di_blobs (s\<lparr>di_blobs := blobs\<rparr>))" using blobs_valid_add [OF add assms(2)] by simp
  with fold show ?thesis by (rule step_fold_keeps [where I = "\<lambda>s. blobs_valid (di_blobs s)"]) (rule discover_layer_valid)
qed

lemma discover_loop_valid:
  "discover_loop env rq client manifests s w = (Inr (found, blobs), w') \<Longrightarrow> blobs_valid (di_blobs s) \<Longrightarrow> blobs_valid blobs"
proof (induction env rq client manifests s w rule: discover_loop.induct)
  case (1 env rq client manifests s w)
  note unfold = discover_loop.simps [of env rq client manifests s w]
  show ?case
  proof (cases "di_pending s")
    case Nil
    then show ?thesis using "1.prems" by (simp add: unfold)
  next
    case (Cons p rest)
    obtain digest body source where p: "p = (digest, body, source)" by (cases p)
    note pending = Cons [unfolded p]
    show ?thesis
    proof (cases "map_of manifests digest")
      case (Some x)
      then show ?thesis using "1.prems" pending by (intro "1.IH"(1) [OF pending refl refl]) (auto simp: unfold)
    next
      case None
      obtain artifact s' w1 where step: "parse_discovered_manifest env body digest = Inr artifact"
        "discover_artifact env rq client digest source artifact (s\<lparr>di_pending := rest\<rparr>) w = (Inr s', w1)"
        "discover_loop env rq client (manifests @ [(digest, body)]) s' w1 = (Inr (found, blobs), w')"
        "\<not> length manifests \<ge> MAX_DELETION_MANIFESTS"
        using "1.prems"(1) None pending by (auto simp: unfold split: if_splits sum.splits prod.splits)
      have "blobs_valid (di_blobs s')" using discover_artifact_valid [OF step(2)] "1.prems"(2) by simp
      with step None pending show ?thesis by (intro "1.IH"(2) [OF pending refl refl _ step(4) step(1)]) auto
    qed
  qed
qed

lemma plan_digests_valid:
  assumes "discover_tag_reachable_graph env rq client w = Some (Inr plan, w')"
  shows "blobs_valid (dp_blobs plan)"
proof -
  let ?start = "\<lparr>di_blobs = [], di_queued = {}, di_decoded = {}, di_pending = []\<rparr>"
  obtain tags w1 s w2 manifests blobs where
    fold: "step_fold (discover_tag env rq client) (sort_dedup tags) ?start w1 = (Inr s, w2)"
    and loop: "discover_loop env rq client [] s w2 = (Inr (manifests, blobs), w')" and plan: "dp_blobs plan = blobs"
    using assms by (auto simp: discover_tag_reachable_graph_def discover_from_tags_def Let_def seq_Inr pure_def
        split: option.splits prod.splits sum.splits)
  have "blobs_valid (di_blobs ?start)" by (simp add: blobs_valid_def keys_def)
  with fold have "blobs_valid (di_blobs s)"
    by (rule step_fold_keeps [where I = "\<lambda>s. blobs_valid (di_blobs s)"]) (rule discover_tag_valid)
  with loop show ?thesis unfolding plan by (rule discover_loop_valid)
qed

lemma delete_plan_blobs_ends:
  "\<forall>d\<in>set ds. valid_digest d \<Longrightarrow> \<exists>s' w'. delete_plan_blobs show_error rq client plan ds s w = (Inr s', w')"
proof (induction ds arbitrary: s w)
  case (Cons d ds)
  then have "is_sha256 d" by (auto simp: valid_digest_def is_ok_def content_digest_parse_Inr split: sum.splits)
  then show ?case using Cons by (simp add: nar_digest_parse_canonical split: prod.split)
qed simp

section \<open>Counts and failures\<close>

lemma delete_plan_manifests_counts:
  assumes "delete_plan_manifests show_error rq client ds s w = (s', w')" "ps_failures s' = []"
  shows "ps_failures s = []
    \<and> ps_manifests_deleted s' + ps_manifests_already_absent s' = ps_manifests_deleted s + ps_manifests_already_absent s + length ds
    \<and> ps_blobs_deleted s' + ps_blobs_already_absent s' = ps_blobs_deleted s + ps_blobs_already_absent s"
  using assms
proof (induction ds arbitrary: s w)
  case (Cons d ds)
  obtain r w1 where "delete_manifest_strict rq client d w = (r, w1)" by fastforce
  with Cons.prems have "delete_plan_manifests show_error rq client ds (add_manifest_result show_error d r s) w1 = (s', w')" by simp
  from Cons.IH [OF this Cons.prems(2)] show ?case
    by (auto simp: add_manifest_result_def push_failure_def split: sum.splits manifest_deletion_outcome.splits)
qed simp

lemma delete_plan_blobs_counts:
  assumes "delete_plan_blobs show_error rq client plan ds s w = (Inr s', w')" "ps_failures s' = []"
  shows "ps_failures s = []
    \<and> ps_manifests_deleted s' + ps_manifests_already_absent s' = ps_manifests_deleted s + ps_manifests_already_absent s
    \<and> ps_blobs_deleted s' + ps_blobs_already_absent s' = ps_blobs_deleted s + ps_blobs_already_absent s + length ds"
  using assms
proof (induction ds arbitrary: s w)
  case (Cons d ds)
  obtain r w1 where "delete_plan_blobs show_error rq client plan ds (add_blob_result show_error d r s) w1 = (Inr s', w')"
    using Cons.prems(1) by (auto split: sum.splits prod.splits)
  from Cons.IH [OF this Cons.prems(2)] show ?case
    by (auto simp: add_blob_result_def push_failure_def split: sum.splits blob_deletion_outcome.splits)
qed simp

section \<open>Verification\<close>

text \<open>
  What the verification relies on: HEAD changes nothing and answers 404 only for an object that is
  absent, and an empty first page of the tag list means that there is no tag.
\<close>

definition answers_truly ::
  "(bytes \<Rightarrow> string + string list option) \<Rightarrow> 'w oci_requests \<Rightarrow> oci_client \<Rightarrow> ('w \<Rightarrow> string set) \<Rightarrow> ('w \<Rightarrow> string set) \<Rightarrow> bool" where
  "answers_truly json_tags rq client present tagged \<longleftrightarrow>
     (\<forall>url w r w'. rq_head rq url w = (r, w') \<longrightarrow> present w' = present w \<and> tagged w' = tagged w
        \<and> (\<forall>headers. r = Inr (404, headers) \<longrightarrow> url \<notin> present w))
     \<and> (\<forall>w status headers body w' answer.
        rq_get rq (page_url client None) (lim_max_manifest_bytes (cl_limits client)) w = (Inr (status, headers, body), w')
        \<longrightarrow> is_success status \<longrightarrow> json_tags body = Inr answer \<longrightarrow> deserialize_nullable_tags answer = [] \<longrightarrow> tagged w' = {})"

lemma answers_head:
  assumes "answers_truly json_tags rq client present tagged" "rq_head rq url w = (r, w')"
  shows "present w' = present w" "tagged w' = tagged w" "r = Inr (404, headers) \<Longrightarrow> url \<notin> present w"
  using assms unfolding answers_truly_def by blast+

lemma verify_manifests_absent:
  assumes law: "answers_truly json_tags rq client present tagged"
    and "verify_manifests show_error rq client ds s w = (s', w')" "ps_failures s' = []"
  shows "s' = s \<and> present w' = present w \<and> tagged w' = tagged w
    \<and> (\<forall>d\<in>set ds. manifest_url (cl_endpoint client) (cl_repo client) d \<notin> present w)"
  using assms(2,3)
proof (induction ds arbitrary: s w)
  case (Cons d ds)
  let ?url = "manifest_url (cl_endpoint client) (cl_repo client) d"
  obtain r w1 where v: "verify_manifest_absent rq client d w = (r, w1)" by fastforce
  then obtain t where rest: "verify_manifests show_error rq client ds t w1 = (s', w')"
    and t: "t = (case r of Inr _ \<Rightarrow> s | Inl e \<Rightarrow> push_failure (deletion_failure_of show_error d ManifestObject e) s)"
    using Cons.prems(1) by (auto split: sum.splits)
  note IH = Cons.IH [OF rest Cons.prems(2)]
  then have "r = Inr ()" using t Cons.prems(2) by (auto simp: push_failure_def split: sum.splits)
  then obtain headers where h: "rq_head rq ?url w = (Inr (404, headers), w1)"
    using v by (auto simp: verify_manifest_absent_def seq_Inr pure_def fail_def split: if_splits)
  from IH t \<open>r = Inr ()\<close> answers_head [OF law h] show ?case by simp
qed simp

lemma verify_blobs_absent:
  assumes law: "answers_truly json_tags rq client present tagged"
    and "verify_blobs show_error rq client ds s w = (s', w')" "ps_failures s' = []"
  shows "s' = s \<and> present w' = present w \<and> tagged w' = tagged w
    \<and> (\<forall>d\<in>set ds. blob_url (cl_endpoint client) (cl_repo client) d \<notin> present w)"
  using assms(2,3)
proof (induction ds arbitrary: s w)
  case (Cons d ds)
  let ?url = "blob_url (cl_endpoint client) (cl_repo client) d"
  obtain r w1 where v: "blob_head rq client d w = (r, w1)" by fastforce
  then obtain t where rest: "verify_blobs show_error rq client ds t w1 = (s', w')"
    and t: "r \<noteq> Inr False \<Longrightarrow> ps_failures t \<noteq> []" "r = Inr False \<Longrightarrow> t = s"
    using Cons.prems(1) by (auto simp: push_failure_def split: sum.splits bool.splits)
  note IH = Cons.IH [OF rest Cons.prems(2)]
  then have "r = Inr False" using t Cons.prems(2) by auto
  then obtain headers where h: "rq_head rq ?url w = (Inr (404, headers), w1)"
    using v by (auto simp: blob_head_def seq_Inr pure_def fail_def split: if_splits)
  from IH t \<open>r = Inr False\<close> answers_head [OF law h] show ?case by simp
qed simp

lemma add_page_nonempty:
  assumes "add_page client tags s = Inr (finished, s')" "tags \<noteq> [] \<or> ts_all_tags s \<noteq> []"
  shows "ts_all_tags s' \<noteq> []"
proof (cases "tags = []")
  case True
  then show ?thesis using assms by (auto simp: add_page_def Let_def split: if_splits)
next
  case False
  then have "set (remdups_adj (sort (ts_all_tags s @ tags))) \<noteq> {}" by simp
  then have "remdups_adj (sort (ts_all_tags s @ tags)) \<noteq> []" by force
  moreover have "ts_all_tags s' = remdups_adj (sort (ts_all_tags s @ tags))"
    using assms(1) False by (auto simp: add_page_def Let_def split: if_splits)
  ultimately show ?thesis by simp
qed

lemma list_tags_loop_nonempty:
  assumes "ts_all_tags s \<noteq> []" "list_tags_loop show_error json_tags rq client s w = (Inr l, w')"
  shows "tl_tags l \<noteq> []"
  using assms
proof (induction show_error json_tags rq client s w rule: list_tags_loop.induct)
  case (1 show_error json_tags rq client s w)
  note unfold = list_tags_loop.simps [of show_error json_tags rq client s w]
  obtain tags w1 finished s' where step: "\<not> ts_pages_fetched s \<ge> MAX_TAG_PAGES"
    "fetch_page show_error json_tags rq client s w = (Inr tags, w1)" "add_page client tags s = Inr (finished, s')"
    using "1.prems"(2) by (auto simp: unfold split: if_splits prod.splits sum.splits)
  have ne: "ts_all_tags s' \<noteq> []" using add_page_nonempty [OF step(3)] "1.prems"(1) by simp
  show ?case
  proof (cases finished)
    case True
    then show ?thesis using "1.prems"(2) step ne by (auto simp: unfold)
  next
    case False
    then have "list_tags_loop show_error json_tags rq client s' w1 = (Inr l, w')" using "1.prems"(2) step by (simp add: unfold)
    from "1.IH" [OF step(1) step(2) [symmetric] refl step(3) refl False ne this] show ?thesis .
  qed
qed

lemma empty_listing:
  assumes law: "answers_truly json_tags rq client present tagged"
    and "list_tags show_error json_tags rq client w = (Inr l, w')" "tl_tags l = []"
  shows "tagged w' = {}"
proof -
  let ?s = "\<lparr>ts_all_tags = [], ts_last_tag = None, ts_pages_fetched = 0\<rparr>"
  have loop: "list_tags_loop show_error json_tags rq client ?s w = (Inr l, w')" using assms(2) by (simp add: list_tags_def)
  obtain tags w1 finished s' where step: "fetch_page show_error json_tags rq client ?s w = (Inr tags, w1)"
    "add_page client tags ?s = Inr (finished, s')"
    using loop by (auto simp: list_tags_loop.simps [of _ _ _ _ ?s] split: if_splits prod.splits sum.splits)
  have "tags = []"
  proof (rule ccontr)
    assume "tags \<noteq> []"
    then have "ts_all_tags s' \<noteq> []" using add_page_nonempty [OF step(2)] by simp
    then have "tl_tags l \<noteq> []"
      using loop step list_tags_loop_nonempty [of s' show_error json_tags rq client w1 l w']
      by (auto simp: list_tags_loop.simps [of _ _ _ _ ?s] split: if_splits)
    then show False using assms(3) by simp
  qed
  moreover have "w' = w1" using loop step \<open>tags = []\<close> by (auto simp: list_tags_loop.simps [of _ _ _ _ ?s] add_page_def Let_def split: if_splits)
  ultimately have page: "fetch_page show_error json_tags rq client ?s w = (Inr [], w')" using step(1) by simp
  obtain r w2 where get: "rq_get rq (page_url client None) (lim_max_manifest_bytes (cl_limits client)) w = (r, w2)" by fastforce
  then obtain status headers body where r: "r = Inr (status, headers, body)" "is_success status" "w2 = w'"
    using page by (cases r) (auto simp: fetch_page_def Let_def seq_Inr lift_def fail_def map_err_def split: if_splits)
  then obtain answer where "json_tags body = Inr answer" "deserialize_nullable_tags answer = []"
    using page get by (cases "json_tags body") (auto simp: fetch_page_def Let_def seq_Inr lift_def map_err_def map_ok_def)
  with get r law [unfolded answers_truly_def, THEN conjunct2, rule_format, of w status headers body w' answer] show ?thesis by simp
qed

lemma tagged_graph_strategy:
  "cap_package_deletion_support (cl_capabilities client) = TaggedGraphOnly \<Longrightarrow> cap_deletion_strategy (cl_capabilities client) = StandardOciDelete"
  by (cases "cl_driver client") (simp_all add: cl_capabilities_def GHCR_CAPABILITIES_def DOCKER_HUB_CAPABILITIES_def AWS_ECR_CAPABILITIES_def
        GCP_GAR_CAPABILITIES_def AZURE_ACR_CAPABILITIES_def GENERIC_OCI_CAPABILITIES_def)

lemma verify_tags_runs:
  assumes "cap_package_deletion_support (cl_capabilities client) = TaggedGraphOnly"
  shows "\<exists>s' w'. verify_tags env rq client s w = Some (s', w')"
  using tagged_graph_strategy [OF assms] by (auto simp: verify_tags_def list_tags_for_deletion_def split: prod.split sum.split)

lemma verify_tags_none_left:
  assumes law: "answers_truly (de_json_tags env) rq client present tagged"
    and "cap_package_deletion_support (cl_capabilities client) = TaggedGraphOnly"
    and "verify_tags env rq client s w = Some (s', w')" "ps_failures s' = []"
  shows "s' = s \<and> tagged w' = {}"
proof -
  obtain r where r: "list_tags (de_show env) (de_json_tags env) rq client w = (r, w')"
    and s': "s' = (case map_ok (\<lambda>l. sort_dedup (tl_tags l)) r of
       Inr ts \<Rightarrow> if ts \<noteq> [] then push_failure \<lparr>df_digest = cl_repo client, df_object_type = TagObject, df_kind = VerificationFailure,
           df_details = [Num (length ts), Lit '' tag(s) remain after deleting the discovered graph'']\<rparr> s else s
     | Inl e \<Rightarrow> push_failure (deletion_failure_of (de_show env) (cl_repo client) TagObject e) s)"
    using assms(3) tagged_graph_strategy [OF assms(2)]
    by (auto simp: verify_tags_def list_tags_for_deletion_def map_ok_def split: prod.splits sum.splits)
  then obtain l where l: "r = Inr l" "sort_dedup (tl_tags l) = []" "s' = s"
    using assms(4) by (auto simp: push_failure_def map_ok_def split: sum.splits if_splits)
  then have "tl_tags l = []" using set_sort_dedup [of "tl_tags l"] by simp
  then show ?thesis using empty_listing [OF law r [unfolded l(1)]] l(3) by simp
qed

section \<open>Whole packages\<close>

lemma plan_counts:
  "ps_failures (plan_summary plan) = []" "ps_manifests_deleted (plan_summary plan) = 0" "ps_manifests_already_absent (plan_summary plan) = 0"
  "ps_blobs_deleted (plan_summary plan) = 0" "ps_blobs_already_absent (plan_summary plan) = 0"
  by (simp_all add: plan_summary_def default_package_summary_def)

lemma delete_tagged_graph_sound:
  assumes law: "answers_truly (de_json_tags env) rq client present tagged"
    and caps: "cap_package_deletion_support (cl_capabilities client) = TaggedGraphOnly"
    and valid: "blobs_valid (dp_blobs plan)"
  shows "\<exists>summary w'. delete_tagged_graph env rq client plan w = Some (Inr summary, w')
    \<and> (ps_complete summary \<longrightarrow> tagged w' = {}
      \<and> (\<forall>d\<in>keys (dp_manifests plan). manifest_url (cl_endpoint client) (cl_repo client) d \<notin> present w')
      \<and> (\<forall>d\<in>keys (dp_blobs plan). blob_url (cl_endpoint client) (cl_repo client) d \<notin> present w')
      \<and> ps_manifests_deleted summary + ps_manifests_already_absent summary = length (dp_manifests plan)
      \<and> ps_blobs_deleted summary + ps_blobs_already_absent summary = length (dp_blobs plan))"
proof -
  obtain s1 w1 where r1: "delete_plan_manifests (de_show env) rq client (sort (map fst (dp_manifests plan))) (plan_summary plan) w = (s1, w1)"
    by fastforce
  have "\<forall>d\<in>set (sort (map fst (dp_blobs plan))). valid_digest d" using valid by (simp add: blobs_valid_def keys_def)
  from delete_plan_blobs_ends [OF this, of "de_show env" rq client plan s1 w1] obtain s2 w2 where
    r2: "delete_plan_blobs (de_show env) rq client plan (sort (map fst (dp_blobs plan))) s1 w1 = (Inr s2, w2)" by (elim exE)
  from verify_tags_runs [OF caps, of env rq s2 w2] obtain s3 w3 where r3: "verify_tags env rq client s2 w2 = Some (s3, w3)" by (elim exE)
  obtain s4 w4 where r4: "verify_manifests (de_show env) rq client (map fst (dp_manifests plan)) s3 w3 = (s4, w4)" by fastforce
  obtain s5 w5 where r5: "verify_blobs (de_show env) rq client (map fst (dp_blobs plan)) s4 w4 = (s5, w5)" by fastforce
  let ?summary = "s5\<lparr>ps_complete := (ps_failures s5 = [])\<rparr>"
  have run: "delete_tagged_graph env rq client plan w = Some (Inr ?summary, w5)"
    using r1 r2 r3 r4 r5 by (simp add: delete_tagged_graph_def)
  moreover have "tagged w5 = {}
      \<and> (\<forall>d\<in>keys (dp_manifests plan). manifest_url (cl_endpoint client) (cl_repo client) d \<notin> present w5)
      \<and> (\<forall>d\<in>keys (dp_blobs plan). blob_url (cl_endpoint client) (cl_repo client) d \<notin> present w5)
      \<and> ps_manifests_deleted s5 + ps_manifests_already_absent s5 = length (dp_manifests plan)
      \<and> ps_blobs_deleted s5 + ps_blobs_already_absent s5 = length (dp_blobs plan)"
    if complete: "ps_failures s5 = []"
  proof -
    note v5 = verify_blobs_absent [OF law r5 complete]
    then have "ps_failures s4 = []" using complete by simp
    note v4 = verify_manifests_absent [OF law r4 this]
    then have "ps_failures s3 = []" using \<open>ps_failures s4 = []\<close> by simp
    note v3 = verify_tags_none_left [OF law caps r3 this]
    then have "ps_failures s2 = []" using \<open>ps_failures s3 = []\<close> by simp
    note v2 = delete_plan_blobs_counts [OF r2 this]
    note v1 = delete_plan_manifests_counts [OF r1 conjunct1 [OF v2]]
    show ?thesis using v5 v4 v3 v2 v1 by (simp add: plan_counts keys_def)
  qed
  ultimately show ?thesis by (intro exI [of _ ?summary] exI [of _ w5]) simp
qed

text \<open>
  C4. Deleting a package is honest about its outcome: once discovery has found the plan, the deletion
  runs to its end and returns a summary, whatever the registry answers; and when the summary says
  complete, the registry has no tag left, none of the manifests and blobs of the plan is present, and
  the objects deleted and already absent add up to those discovered.
\<close>

theorem package_deletion_complete_sound:
  assumes "cap_package_deletion_support (cl_capabilities client) = TaggedGraphOnly"
    and "answers_truly (de_json_tags env) rq client present tagged"
    and "discover_tag_reachable_graph env rq client w = Some (Inr plan, w1)"
  shows "\<exists>summary w'. delete_entire_package_strict env rq client w = Some (Inr summary, w')
    \<and> (ps_complete summary \<longrightarrow> tagged w' = {}
      \<and> (\<forall>d\<in>keys (dp_manifests plan). manifest_url (cl_endpoint client) (cl_repo client) d \<notin> present w')
      \<and> (\<forall>d\<in>keys (dp_blobs plan). blob_url (cl_endpoint client) (cl_repo client) d \<notin> present w')
      \<and> ps_manifests_deleted summary + ps_manifests_already_absent summary = length (dp_manifests plan)
      \<and> ps_blobs_deleted summary + ps_blobs_already_absent summary = length (dp_blobs plan))"
  using delete_tagged_graph_sound [OF assms(2,1) plan_digests_valid [OF assms(3)], of w1] assms(1,3)
  by (simp add: delete_entire_package_strict_def)

text \<open>A registry with one tagged manifest, whose state says whether the package is still there.\<close>

definition sample_package_env :: "(nat, bool) deletion_env" where
  "sample_package_env =
     \<lparr>de_index = \<lparr>ie_rfc3339 = sample_rfc3339, ie_hash = sample_H,
        ie_zstd = \<lparr>zs_compress = \<lambda>bs _. Inr bs, zs_decoder = \<lambda>bs. Inr (bs, None)\<rparr>,
        ie_index_json = ie_index_json sample_index_env, ie_json = ie_json sample_index_env, ie_resolve = Inr, ie_utc_now = \<lambda>_. ''now''\<rparr>,
      de_show = \<lambda>_. ''e'', de_json_tags = \<lambda>body. Inr (Some (if body = [] then [] else [''a''])),
      de_json_value = \<lambda>_. Inr (Some 2, Some OCI_IMAGE_MANIFEST_MEDIA_TYPE, Inr (ArtifactManifest
        ((build_sharded_arch_index_manifest ''now'' sample_root_params)\<lparr>im_layers := []\<rparr>))),
      de_github = \<lparr>gh_get = \<lambda>_ _ _ w. (Inr (404, [], []), w), gh_delete = \<lambda>_ _ w. (Inr 404, w), gh_json = \<lambda>_. Inr []\<rparr>,
      de_token = []\<rparr>"

definition sample_package_requests :: "bool oci_requests" where
  "sample_package_requests =
     \<lparr>rq_get = \<lambda>url _ b. if url = page_url sample_client None then (Inr (200, \<lambda>_. None, if b then [1] else []), b)
        else (Inr (if b then 200 else 404, \<lambda>_. None, []), b),
      rq_head = \<lambda>_ b. (Inr (if b then 200 else 404, \<lambda>_. None), b), rq_stream = \<lambda>_ _. fail UploadLocationMissing,
      rq_post = \<lambda>_. fail UploadLocationMissing, rq_post_bytes = \<lambda>_ _ _. fail UploadLocationMissing,
      rq_put_bytes = \<lambda>_ _ _. fail UploadLocationMissing, rq_patch_chunk = \<lambda>_ _ _. fail UploadLocationMissing,
      rq_put_chunk_finish = \<lambda>_. fail UploadLocationMissing, rq_delete = \<lambda>_ b. (Inr (if b then 202 else 404), False),
      rq_sleep = \<lambda>_ w. w\<rparr>"

lemma sample_answers:
  "answers_truly (de_json_tags sample_package_env) sample_package_requests sample_client
     (\<lambda>b. if b then UNIV else {}) (\<lambda>b. if b then {''a''} else {})"
  by (simp add: answers_truly_def sample_package_requests_def sample_package_env_def deserialize_nullable_tags_def)

lemma sample_package_tags:
  "list_tags_for_deletion sample_package_env sample_package_requests sample_client True = Some (Inr [''a''], True)"
proof -
  let ?s = "\<lparr>ts_all_tags = [], ts_last_tag = None, ts_pages_fetched = 0\<rparr>"
  have "fetch_page (\<lambda>_. ''e'') (de_json_tags sample_package_env) sample_package_requests sample_client ?s True = (Inr [''a''], True)"
    by (simp add: fetch_page_def Let_def seq_Inr lift_def map_err_def map_ok_def sample_package_requests_def sample_package_env_def
        is_success_def deserialize_nullable_tags_def ex_bool_eq)
  moreover have "add_page sample_client [''a''] ?s = Inr (True, \<lparr>ts_all_tags = [''a''], ts_last_tag = None, ts_pages_fetched = 1\<rparr>)"
    by (simp add: add_page_def Let_def MAX_TAGS_def PAGE_SIZE_def)
  ultimately have "list_tags (\<lambda>_. ''e'') (de_json_tags sample_package_env) sample_package_requests sample_client True
      = (Inr \<lparr>tl_tags = [''a''], tl_pages_fetched = 1\<rparr>, True)"
    by (simp add: list_tags_def list_tags_loop.simps [of _ _ _ _ ?s] MAX_TAG_PAGES_def)
  then show ?thesis by (simp add: list_tags_for_deletion_def sample_package_env_def sort_dedup_def)
qed

lemma sample_package_get:
  "get_with_digest sample_H (ie_json sample_index_env) sample_package_requests sample_client ''a'' True
     = (Inr (Some ([], format_digest (sample_H []))), True)"
proof -
  have "verify_buffered_body sample_H t None None None None [] = Inr (ContentDigest (format_digest (sample_H [])))" for t
    by (simp add: verify_buffered_body_Inr [of sample_H, OF sample_H_length])
  moreover have "manifest_url (cl_endpoint sample_client) (cl_repo sample_client) ''a'' \<noteq> page_url sample_client None" by code_simp
  ultimately show ?thesis
    by (simp add: get_with_digest_def get_with_expected_size_def is_some_and_def Let_def seq_eq lift_def pure_def
        sample_package_requests_def parse_content_length_def map_err_def from_utf8_def ok_or_def starts_with_def)
qed

lemma sample_package_discovered:
  "discover_tag_reachable_graph sample_package_env sample_package_requests sample_client True = Some (Inr sample_plan, True)"
proof -
  let ?start = "\<lparr>di_blobs = [], di_queued = {}, di_decoded = {}, di_pending = []\<rparr>"
  let ?d = "format_digest (sample_H [])"
  let ?s = "\<lparr>di_blobs = [], di_queued = {?d}, di_decoded = {}, di_pending = [(?d, [], ''a'')]\<rparr>"
  have parse: "parse_discovered_manifest sample_package_env [] ?d =
      Inr (ArtifactManifest ((build_sharded_arch_index_manifest ''now'' sample_root_params)\<lparr>im_layers := []\<rparr>))"
    by (simp add: parse_discovered_manifest_def sample_package_env_def map_err_def ok_or_def)
  have tag: "discover_tag sample_package_env sample_package_requests sample_client ''a'' ?start True = (Inr ?s, True)"
    using sample_manifests_limit sample_package_get
    by (simp add: discover_tag_def seq_eq at_stage_def sample_package_env_def pure_def map_err_def)
  have loop: "discover_loop sample_package_env sample_package_requests sample_client [] ?s True
      = (Inr ([(?d, [])], [(EMPTY_CONFIG_DIGEST, EMPTY_CONFIG_SIZE)]), True)"
    using sample_manifests_limit
    by (simp add: discover_loop.simps parse discover_artifact_def sample_config_blob seq_eq lift_def pure_def
        build_sharded_arch_index_manifest_def sample_root_params_def Let_def)
  have "discover_from_tags sample_package_env sample_package_requests sample_client [''a''] True = (Inr sample_plan, True)"
    using tag loop by (simp add: discover_from_tags_def Let_def sort_dedup_def seq_Inr pure_def sample_plan_def ex_bool_eq)
  then show ?thesis by (simp add: discover_tag_reachable_graph_def sample_package_tags)
qed

theorem package_deletion_complete_sound_witness:
  "\<exists>summary b. delete_entire_package_strict sample_package_env sample_package_requests sample_client True = Some (Inr summary, b)
    \<and> (ps_complete summary \<longrightarrow> \<not> b \<and> ps_manifests_deleted summary + ps_manifests_already_absent summary = 1)"
proof -
  have "cap_package_deletion_support (cl_capabilities sample_client) = TaggedGraphOnly"
    by (simp add: cl_capabilities_def sample_client_def GENERIC_OCI_CAPABILITIES_def)
  from package_deletion_complete_sound [OF this sample_answers sample_package_discovered]
  obtain summary b where run: "delete_entire_package_strict sample_package_env sample_package_requests sample_client True = Some (Inr summary, b)"
    and ok: "ps_complete summary \<Longrightarrow> (if b then {''a''} else {}) = {}
      \<and> ps_manifests_deleted summary + ps_manifests_already_absent summary = length (dp_manifests sample_plan)"
    by (elim exE conjE) simp
  show ?thesis using run ok by (intro exI [of _ summary] exI [of _ b]) (auto simp: sample_plan_def split: if_splits)
qed

end
