(* ===== verification/Spec2Isabelle.thy ===== *)
theory Spec2Isabelle
  imports Cache_Purge Core_Index Bloom Narinfo Oci_Index_Roundtrip Oci_Tags Oci_Cas Token_Flight_Inv Package_Deletion
begin

text \<open>
  \<^bold>\<open>nixcache-oci.\<close> The program stores a Nix binary cache in an OCI registry. The crate
  \<^verbatim>\<open>nixcache-core\<close> holds the data (index entries, sharded index, receipts, Bloom filter) and the pure
  engines on it (selection, purge, garbage collection). The crate \<^verbatim>\<open>nixcache-oci\<close> is the registry
  client: it authenticates, reads and writes blobs and manifests, uploads in chunks, lists tags,
  updates the index with compare-and-swap and deletes packages. Builder, proxy, worker and command line drive these two.

  \<^bold>\<open>Conventions.\<close> Strings are UTF-8 byte sequences (\<open>string\<close>), \<open>u64\<close> and the other integers are
  words of their width, hash maps are association lists with distinct keys or maps, \<open>Result\<close> is a
  sum whose left side is the error, \<open>?\<close> is \<open>result_bind\<close>, and a \<open>for\<close> loop with \<open>?\<close> is \<open>try_each\<close>,
  \<open>try_map\<close> or \<open>try_fold\<close>. A text built with \<open>format!\<close> inside an error is the list of its pieces.
  An operation that sends requests takes the state of the world and returns it changed
  (\<open>('w, 'a) step\<close>). SHA-256, the RFC 3339 reader, the JSON reader and writer, zstd, the URI parser of
  the \<open>http\<close> crate, base64, Unicode lower-casing, the clock, the floating-point roundings of the Bloom
  filter, and the network are arguments; what a theorem needs of them is a hypothesis, and its
  witness instantiates them with functions.

  \<^bold>\<open>Prelude.\<close> \<^verbatim>\<open>Rust_Prelude\<close>: results, options, association lists, checked arithmetic.
  \<^verbatim>\<open>Rust_Str\<close>, \<^verbatim>\<open>Rust_Text\<close>: the operations of \<open>str\<close>: trimming with Unicode white space, splitting,
  lines, numbers. \<^verbatim>\<open>Rust_Net\<close>: IP addresses of \<open>std::net\<close>. \<^verbatim>\<open>Samples\<close>: concrete inputs.

  \<^bold>\<open>Core crate\<close> (\<^verbatim>\<open>crates/nixcache-core/src\<close>).
  \<^item> \<^verbatim>\<open>Core_Error\<close> (error.rs), \<^verbatim>\<open>Core_Types\<close> (types.rs: store hashes, digests, systems, store paths),
    \<^verbatim>\<open>Core_Entry\<close> (types.rs: narinfo metadata, origins, index entries).
  \<^item> \<^verbatim>\<open>Wildcard\<close> (filter.rs: the glob matcher against a recursive reference), \<^verbatim>\<open>Graph_Search\<close> (the work-list
    loops of filter.rs and purge.rs, which compute reachable sets), \<^verbatim>\<open>Cache_Filter\<close> (filter.rs: predicates,
    selector, query with protection and cascade), \<^verbatim>\<open>Cache_Purge\<close> (purge.rs, gc.rs: the purge, the
    pruning of broken roots, the collector). The lemmas characterise every set by reachability in
    the reference graph: what a query selects, what a purge keeps, which roots survive, what the
    collector removes. The engine interface is the locale \<open>selection_engine\<close>.
  \<^item> \<^verbatim>\<open>Shard_Id\<close>, \<^verbatim>\<open>Canonical_Encoder\<close>, \<^verbatim>\<open>Merkle_Tree\<close>, \<^verbatim>\<open>Sharding\<close>, \<^verbatim>\<open>Shard_Hash\<close>, \<^verbatim>\<open>Shard_Root\<close> (sharding.rs):
    base-32 shard numbers, partitioning, the canonical encoding (locale \<open>prefix_code\<close>), the layered
    hash tree (locale \<open>leaf_encoding\<close>), and the binding of shard hash and Merkle root: equal hashes mean
    equal contents, or the hash function collides on messages that were hashed.
  \<^item> \<^verbatim>\<open>Core_Index\<close> (types.rs: the sharded index, shard payloads, receipts and their validation).
  \<^item> \<^verbatim>\<open>Murmur3\<close>, \<^verbatim>\<open>Bloom\<close> (bloom.rs; locale \<open>approx_set\<close>).
  \<^item> \<^verbatim>\<open>Lookup\<close> (lookup.rs), \<^verbatim>\<open>Narinfo\<close> (narinfo.rs: parser, writer, round trip).

  \<^bold>\<open>Registry client\<close> (\<^verbatim>\<open>crates/nixcache-oci/src\<close>).
  \<^item> \<^verbatim>\<open>Oci_Error\<close> (error.rs), \<^verbatim>\<open>Oci_Limits\<close> (limits.rs), \<^verbatim>\<open>Oci_Endpoint\<close> (URL construction of
    backend/endpoint.rs and client/endpoint.rs), \<^verbatim>\<open>Oci_Endpoint_Parse\<close> (backend/endpoint.rs: parsing of
    registries and resolution of locations, which stay on the origin of the registry unless the
    location is an absolute URL), \<^verbatim>\<open>Oci_Driver\<close> (backend/driver.rs, backend/kind.rs), \<^verbatim>\<open>Oci_Manifest\<close>
    (manifest.rs).
  \<^item> \<^verbatim>\<open>Oci_Integrity\<close> (integrity.rs, transport.rs): digests, buffered and streamed verification. A stream is
    the list of what its polls return; the hashing wrapper is also a step relation, since it may be
    dropped at any moment.
  \<^item> \<^verbatim>\<open>Oci_Upload\<close> (client/upload/state.rs and the chunk upload of client/upload.rs): the loop is a terminating
    function, because every turn that goes on has used one of the attempts.
    \<^verbatim>\<open>Oci_Upload_Recovery\<close>: what is stored, and that the upload succeeds when the faults fit into the
    retries. \<^verbatim>\<open>Oci_Push\<close> (the rest of client/upload.rs) and \<^verbatim>\<open>Oci_Push_Stores\<close>: a push that succeeds has
    stored the content under its digest.
  \<^item> \<^verbatim>\<open>Oci_Client\<close> (client.rs, client/blob.rs), \<^verbatim>\<open>Oci_Tags\<close> (tag listing of client/manifest.rs),
    \<^verbatim>\<open>Oci_Registry\<close> (manifest reads, conditional writes, client/index/update.rs), \<^verbatim>\<open>Oci_Cas\<close>: clients that
    interleave at their requests, as a step relation that refines atomic updates.
  \<^item> \<^verbatim>\<open>Oci_Codec\<close> (codec.rs, nixcache-utils compression.rs), \<^verbatim>\<open>Oci_Index\<close> (client/index.rs,
    client/index/update.rs: the sharded index). \<^verbatim>\<open>Oci_Index_Auth\<close>: what a lookup returns was published
    under the root that was read, or the hash collides. \<^verbatim>\<open>Oci_Index_Roundtrip\<close>: a shard that was pushed is
    read back.
  \<^item> \<^verbatim>\<open>Auth_Challenge\<close> (auth.rs: credentials and the parser of challenges), \<^verbatim>\<open>Token_Flight\<close> (token/sync.rs and
    the control flow of token.rs as a step relation of tasks that interleave at their locks and
    requests), \<^verbatim>\<open>Token_Flight_Inv\<close> (its invariants: one leader per key, fresh tokens after a refresh, no
    waiter is left), \<^verbatim>\<open>Token_Manager\<close> and \<^verbatim>\<open>Token_Refresh\<close> (token.rs, client.rs: the requests for tokens and
    where credentials go), \<^verbatim>\<open>Auth_Request\<close> (client/request.rs: a request and its retry).
  \<^item> \<^verbatim>\<open>Ghcr_Packages\<close> (backend/ghcr.rs), \<^verbatim>\<open>Oci_Deletion\<close> (client/deletion.rs and the single deletions and batches
    of client/deletion/operations.rs), \<^verbatim>\<open>Oci_Discovery\<close> (client/deletion/discovery.rs), \<^verbatim>\<open>Discovery_Exact\<close>: the
    search finds exactly what the tags reach, \<^verbatim>\<open>Package_Deletion\<close>: the deletion of a package, and that a
    summary that says complete is right.

  \<^bold>\<open>Interaction.\<close> The operations of the client take a record of requests (\<open>oci_requests\<close>), which in the
  program are those of \<^verbatim>\<open>Auth_Request\<close> over the transport; deletion uses the tag listing, the manifest
  and blob reads and the index codec; the purge and the collector work on the entries that the index
  holds.

  \<^bold>\<open>Bounds and termination.\<close> Loops are terminating functions, with two exceptions. The listing of
  package versions may not end when the server answers with full pages for ever; it is a partial
  function into an option, and a theorem shows that it ends for every package with finitely many
  versions. A token task that runs alone is run for ten steps, and a lemma shows that this is enough for it to
  return. Theorems about 64-bit counters assume that the lengths fit, which is stated in each.

  \<^bold>\<open>Not modelled.\<close> The reqwest and worker transports and the mock registry, which are input and output
  or a test double; proxy, worker and builder, which serve requests and drive Nix processes around
  the modelled operations; the command line (declarations for the clap library) and the helpers that
  read the environment.
\<close>

end
